(* ===== verification/Prelude.thy ===== *)
theory Prelude
  imports Main "HOL-Library.Word" "HOL-Library.Signed_Division" "HOL-Library.State_Monad"
begin

text \<open>
  Shared vocabulary of the development: names for the C integer types of the kernel, the error
  codes of \<open>src/status.h\<close> and \<open>src/config.h\<close> constants, the projections of a state-monad program
  (a C function over global state is such a program), and generic lemmas on words, lists and
  integer-indexed buffers that several components use.

  C's \<open>int\<close> is modelled by \<open>int\<close> where the values of the code stay inside 32 bits (each theory
  says why), by a word where wrap-around is part of the behaviour.  C's truncating \<open>/\<close> and \<open>%\<close> on
  \<open>int\<close> are \<open>sdiv\<close> and \<open>smod\<close>.
\<close>

unbundle bit_operations_syntax

type_synonym u8 = "8 word"
type_synonym u16 = "16 word"
type_synonym u32 = "32 word"

text \<open>Collections of rewrite rules that the component proofs use by name.\<close>

named_theorems run_simps \<open>running a state-monad program on a state\<close>
named_theorems machine_simps \<open>effect of one machine primitive on the abstract machine\<close>
named_theorems frame_simps \<open>what an operation leaves alone\<close>

subsection \<open>Error codes\<close>

(* src/src/status.h 4-4 PEACHOS_ALL_OK *)
definition PEACHOS_ALL_OK :: int where "PEACHOS_ALL_OK = 0"

(* src/src/status.h 5-5 EIO *)
definition EIO :: int where "EIO = 1"

(* src/src/status.h 6-6 EINVARG *)
definition EINVARG :: int where "EINVARG = 2"

(* src/src/status.h 7-7 ENOMEM *)
definition ENOMEM :: int where "ENOMEM = 3"

(* src/src/status.h 8-8 EBADPATH *)
definition EBADPATH :: int where "EBADPATH = 4"

(* src/src/status.h 9-9 EFSNOTUS *)
definition EFSNOTUS :: int where "EFSNOTUS = 5"

(* src/src/status.h 10-10 ERDONLY *)
definition ERDONLY :: int where "ERDONLY = 6"

(* src/src/status.h 11-11 EUNIMP *)
definition EUNIMP :: int where "EUNIMP = 7"

(* src/src/status.h 12-12 EISTKN *)
definition EISTKN :: int where "EISTKN = 8"

lemmas status_defs = PEACHOS_ALL_OK_def EIO_def EINVARG_def ENOMEM_def EBADPATH_def
  EFSNOTUS_def ERDONLY_def EUNIMP_def EISTKN_def

subsection \<open>Programs over a global state\<close>

text \<open>
  A C function that reads and writes globals is a value of type \<open>('s, 'a) state\<close>; \<open>result_of\<close> and
  \<open>state_of\<close> project what it returns and the globals it leaves.
\<close>

definition result_of :: "('s, 'a) state \<Rightarrow> 's \<Rightarrow> 'a" where
  "result_of m s = fst (run_state m s)"

definition state_of :: "('s, 'a) state \<Rightarrow> 's \<Rightarrow> 's" where
  "state_of m s = snd (run_state m s)"

abbreviation skip :: "('s, unit) state" where
  "skip \<equiv> State_Monad.return ()"

text \<open>A program that only reads, and one that only updates.\<close>

definition reads :: "('s \<Rightarrow> 'a) \<Rightarrow> ('s, 'a) state" where
  "reads f = State (\<lambda>s. (f s, s))"

definition modifies :: "('s \<Rightarrow> 's) \<Rightarrow> ('s, unit) state" where
  "modifies f = State (\<lambda>s. ((), f s))"

text \<open>\<open>if (c) { p }\<close>.\<close>

definition do_when :: "bool \<Rightarrow> ('s, unit) state \<Rightarrow> ('s, unit) state" where
  "do_when c p = (if c then p else skip)"

lemma result_of_bind [run_simps]:
  "result_of (State_Monad.bind m f) s = result_of (f (result_of m s)) (state_of m s)"
  by (simp add: result_of_def state_of_def split_beta)

lemma state_of_bind [run_simps]:
  "state_of (State_Monad.bind m f) s = state_of (f (result_of m s)) (state_of m s)"
  by (simp add: result_of_def state_of_def split_beta)

lemma result_of_return [run_simps]: "result_of (State_Monad.return x) s = x"
  by (simp add: result_of_def)

lemma state_of_return [run_simps]: "state_of (State_Monad.return x) s = s"
  by (simp add: state_of_def)

lemma result_of_reads [run_simps]: "result_of (reads f) s = f s"
  by (simp add: result_of_def reads_def)

lemma state_of_reads [run_simps]: "state_of (reads f) s = s"
  by (simp add: state_of_def reads_def)

lemma state_of_modifies [run_simps]: "state_of (modifies f) s = f s"
  by (simp add: state_of_def modifies_def)

lemma result_of_if [run_simps]:
  "result_of (if c then p else q) s = (if c then result_of p s else result_of q s)"
  by simp

lemma state_of_if [run_simps]:
  "state_of (if c then p else q) s = (if c then state_of p s else state_of q s)"
  by simp

lemma state_of_do_when [run_simps]: "state_of (do_when c p) s = (if c then state_of p s else s)"
  by (simp add: do_when_def state_of_return)

lemma run_state_eq: "run_state m s = (result_of m s, state_of m s)"
  by (simp add: result_of_def state_of_def)

subsection \<open>Words\<close>

lemma uint_of_int_id:
  assumes "0 \<le> v" and "v < 2 ^ LENGTH('a)"
  shows "uint (word_of_int v :: 'a::len word) = v"
  using assms by (simp add: uint_word_of_int)

lemma uint_pos: "w \<noteq> 0 \<Longrightarrow> 0 < uint w"
  by (metis order_less_le uint_0_iff uint_nonnegative)

lemma uint_add_no_wrap:
  fixes a b :: "'a::len word"
  shows "uint a + uint b < 2 ^ LENGTH('a) \<Longrightarrow> uint (a + b) = uint a + uint b"
  by (simp add: uint_add_lem)

lemma uint_sub_no_wrap:
  fixes a b :: "'a::len word"
  shows "uint b \<le> uint a \<Longrightarrow> uint (a - b) = uint a - uint b"
  by (simp add: uint_sub_lem)

lemma sint_eq_uint_small:
  fixes w :: "'a::len word"
  assumes "uint w < 2 ^ (LENGTH('a) - 1)"
  shows "sint w = uint w"
proof -
  have "- (2 ^ (LENGTH('a) - 1)) \<le> uint w" using uint_nonnegative [of w] by (rule order_trans [rotated]) simp
  then show ?thesis using assms by (simp add: sint_uint signed_take_bit_int_eq_self)
qed

lemma and_low_nibble: "(w :: 'a::len word) AND 0x0F = take_bit 4 w"
  by (simp add: take_bit_eq_mask mask_eq_exp_minus_1)

lemma and_low_byte: "(w :: 'a::len word) AND 0xFF = take_bit 8 w"
  by (simp add: take_bit_eq_mask mask_eq_exp_minus_1)

lemma sdiv_nonneg: "0 \<le> a \<Longrightarrow> 0 < b \<Longrightarrow> (a::int) sdiv b = a div b"
  by (simp add: signed_divide_int_def sgn_if)

lemma smod_nonneg: "0 \<le> a \<Longrightarrow> 0 < b \<Longrightarrow> (a::int) smod b = a mod b"
  by (auto simp: smod_int_alt_def sgn_if)

lemma sint_of_small: "- (2 ^ 31) \<le> n \<Longrightarrow> n < 2 ^ 31 \<Longrightarrow> sint (word_of_int n :: u32) = n"
  by (simp add: sint_sbintrunc' signed_take_bit_int_eq_self)

lemma uint_of_sint: "0 \<le> sint w \<Longrightarrow> uint (w :: u32) = sint w"
  using sint_lt [of w] by (subst uint_sint) (simp add: take_bit_int_eq_self)

lemma zdiv_less_iff: "0 < b \<Longrightarrow> a div b < k \<longleftrightarrow> a < k * (b :: int)"
  by (metis add.commute less_add_same_cancel2 linorder_not_less mult.commute mult_div_mod_eq
      mult_less_cancel_right not_less_iff_gr_or_eq pos_mod_bound pos_mod_sign zdiv_mono1 nonzero_mult_div_cancel_right)

end
