(* ===== verification/Memory.thy ===== *)
theory Memory
  imports Prelude
begin

text \<open>
  \<open>src/memory/memory.c\<close>: \<open>memset\<close>, \<open>memcmp\<close> and \<open>memcpy\<close> on byte memory.  A memory is a
  function from integer addresses to bytes; pointers are integers, so two pointers may alias and
  an access outside a buffer is an access to the bytes around it.  Each loop is the C loop; the
  lemmas give its closed form.
\<close>

type_synonym memory = "int \<Rightarrow> u8"

subsection \<open>memset\<close>

(* src/src/memory/memory.c 6-8 memset: loop *)
function memset_loop :: "memory \<Rightarrow> int \<Rightarrow> u8 \<Rightarrow> nat \<Rightarrow> nat \<Rightarrow> memory" where
  "memset_loop m ptr c sz i =
     (if i < sz then memset_loop (m(ptr + int i := c)) ptr c sz (Suc i) else m)"
  by pat_completeness auto
termination
  by (relation "measure (\<lambda>(m, ptr, c, sz, i). sz - i)") auto

declare memset_loop.simps [simp del]

(* src/src/memory/memory.c 3-11 memset *)
definition memset :: "memory \<Rightarrow> int \<Rightarrow> int \<Rightarrow> nat \<Rightarrow> memory" where
  "memset m ptr c sz = memset_loop m ptr (word_of_int c) sz 0"

lemma memset_loop_apply:
  "memset_loop m ptr c sz i a =
     (if ptr + int i \<le> a \<and> a < ptr + int sz then c else m a)"
proof (induction m ptr c sz i rule: memset_loop.induct)
  case (1 m ptr c sz i)
  show ?case
  proof (cases "i < sz")
    case True
    with 1 show ?thesis by (auto simp: memset_loop.simps [of m ptr c sz i] fun_upd_def)
  next
    case False
    then show ?thesis by (auto simp: memset_loop.simps [of m ptr c sz i])
  qed
qed

lemma memset_apply:
  "memset m ptr c sz a =
     (if ptr \<le> a \<and> a < ptr + int sz then word_of_int c else m a)"
  by (simp add: memset_def memset_loop_apply)

subsection \<open>memcmp\<close>

text \<open>The bytes are compared as \<open>char\<close>, which is signed on the target (i686-elf).\<close>

(* src/src/memory/memory.c 13-23 memcmp *)
function memcmp :: "memory \<Rightarrow> int \<Rightarrow> int \<Rightarrow> int \<Rightarrow> int" where
  "memcmp m s1 s2 count =
     (if count > 0 then
        (if m s1 \<noteq> m s2 then (if m s1 <s m s2 then -1 else 1)
         else memcmp m (s1 + 1) (s2 + 1) (count - 1))
      else 0)"
  by pat_completeness auto
termination
  by (relation "measure (\<lambda>(m, s1, s2, count). nat count)") auto

declare memcmp.simps [simp del]

lemma memcmp_zero_iff:
  "memcmp m s1 s2 count = 0 \<longleftrightarrow> (\<forall>k. 0 \<le> k \<and> k < count \<longrightarrow> m (s1 + k) = m (s2 + k))"
proof (induction m s1 s2 count rule: memcmp.induct)
  case (1 m s1 s2 count)
  show ?case
  proof (cases "count > 0 \<and> m s1 = m s2")
    case False
    then show ?thesis
      by (cases "count > 0")
        (auto simp: memcmp.simps [of m s1 s2 count] intro!: exI [of _ 0])
  next
    case True
    have shift: "(\<forall>k. 0 \<le> k \<and> k < count - 1 \<longrightarrow> m (s1 + 1 + k) = m (s2 + 1 + k)) \<longleftrightarrow>
      (\<forall>k. 0 \<le> k \<and> k < count \<longrightarrow> m (s1 + k) = m (s2 + k))" (is "?L \<longleftrightarrow> ?R")
    proof
      assume L: ?L
      show ?R
      proof (intro allI impI)
        fix k assume "0 \<le> k \<and> k < count"
        then show "m (s1 + k) = m (s2 + k)"
          using True L [rule_format, of "k - 1"] by (cases "k = 0") (auto simp: algebra_simps)
      qed
    next
      assume R: ?R
      show ?L
      proof (intro allI impI)
        fix k assume "0 \<le> k \<and> k < count - 1"
        then show "m (s1 + 1 + k) = m (s2 + 1 + k)"
          using R [rule_format, of "k + 1"] by (simp add: algebra_simps)
      qed
    qed
    from True show ?thesis
      using 1 by (simp add: memcmp.simps [of m s1 s2 count] shift)
  qed
qed

subsection \<open>memcpy\<close>

text \<open>
  \<open>while(len--)\<close> does not stop before \<open>len\<close> wraps around when \<open>len\<close> is negative; such a call is
  \<open>None\<close>.  The copy runs forwards, one byte at a time, so overlapping buffers behave as in C.
\<close>

(* src/src/memory/memory.c 28-30 memcpy: loop *)
fun memcpy_loop :: "memory \<Rightarrow> int \<Rightarrow> int \<Rightarrow> nat \<Rightarrow> memory" where
  "memcpy_loop m d s 0 = m"
| "memcpy_loop m d s (Suc len) = memcpy_loop (m(d := m s)) (d + 1) (s + 1) len"

(* src/src/memory/memory.c 25-32 memcpy *)
definition memcpy :: "memory \<Rightarrow> int \<Rightarrow> int \<Rightarrow> int \<Rightarrow> memory option" where
  "memcpy m dest src len = (if len < 0 then None else Some (memcpy_loop m dest src (nat len)))"

lemma memcpy_loop_apply:
  assumes "d + int n \<le> s \<or> s + int n \<le> d"
  shows "memcpy_loop m d s n a = (if d \<le> a \<and> a < d + int n then m (s + (a - d)) else m a)"
  using assms
proof (induction m d s n rule: memcpy_loop.induct)
  case (1 m d s)
  then show ?case by auto
next
  case (2 m d s n)
  have apart: "d + 1 + int n \<le> s + 1 \<or> s + 1 + int n \<le> d + 1"
    using "2.prems" by auto
  have "memcpy_loop m d s (Suc n) a = memcpy_loop (m(d := m s)) (d + 1) (s + 1) n a"
    by simp
  then show ?case
    unfolding "2.IH" [OF apart] using "2.prems" by auto
qed

end
