(* ===== verification/Heap.thy ===== *)
theory Heap
  imports Memory
begin

text \<open>
  The kernel heap: \<open>src/memory/heap/heap.c\<close> and \<open>kheap.c\<close>.  A heap is a pool of 4096-byte blocks
  described by a table with one byte per block.  \<open>ht_entries t i\<close> is the byte \<open>table->entries[i]\<close>;
  the function is total on \<open>int\<close>, so an index outside \<open>0 .. total - 1\<close> is the memory around the
  table, which the code can reach.  The theory proves what the first-fit scan returns, that the
  table stays well formed, that \<open>heap_free\<close> undoes \<open>heap_malloc\<close>, and the contract
  (\<open>block_allocator\<close>) on which the trace log rests.  Block numbers stay below \<open>2 ^ 19\<close> in every
  well-formed heap, so the C \<open>int\<close> arithmetic on them does not overflow.
\<close>

subsection \<open>The data\<close>

abbreviation PEACHOS_HEAP_SIZE_BYTES :: int where "PEACHOS_HEAP_SIZE_BYTES \<equiv> 104857600"
abbreviation PEACHOS_HEAP_BLOCK_SIZE :: int where "PEACHOS_HEAP_BLOCK_SIZE \<equiv> 4096"
abbreviation PEACHOS_HEAP_ADDRESS :: u32 where "PEACHOS_HEAP_ADDRESS \<equiv> 0x01000000"

abbreviation HEAP_BLOCK_TABLE_ENTRY_TAKEN :: u8 where "HEAP_BLOCK_TABLE_ENTRY_TAKEN \<equiv> 0x01"
abbreviation HEAP_BLOCK_TABLE_ENTRY_FREE :: u8 where "HEAP_BLOCK_TABLE_ENTRY_FREE \<equiv> 0x00"
abbreviation HEAP_BLOCK_HAS_NEXT :: u8 where "HEAP_BLOCK_HAS_NEXT \<equiv> 0x80"
abbreviation HEAP_BLOCK_IS_FIRST :: u8 where "HEAP_BLOCK_IS_FIRST \<equiv> 0x40"

(* src/src/memory/heap/heap.h 17-22 heap_table *)
record heap_table =
  ht_entries :: memory
  ht_total :: u32

(* src/src/memory/heap/heap.h 24-29 heap *)
record heap =
  hp_table :: heap_table
  hp_saddr :: u32

abbreviation entries_of :: "heap \<Rightarrow> memory" where
  "entries_of h \<equiv> ht_entries (hp_table h)"

abbreviation total_of :: "heap \<Rightarrow> int" where
  "total_of h \<equiv> uint (ht_total (hp_table h))"

definition with_entries :: "heap \<Rightarrow> memory \<Rightarrow> heap" where
  "with_entries h e = h\<lparr>hp_table := (hp_table h)\<lparr>ht_entries := e\<rparr>\<rparr>"

lemma with_entries_simps [simp]:
  "entries_of (with_entries h e) = e"
  "ht_total (hp_table (with_entries h e)) = ht_total (hp_table h)"
  "hp_saddr (with_entries h e) = hp_saddr h"
  "with_entries (with_entries h e) e' = with_entries h e'"
  "with_entries h (entries_of h) = h"
  by (simp_all add: with_entries_def)

subsection \<open>Creation\<close>

(* src/src/memory/heap/heap.c 15-28 heap_validate_table *)
definition heap_validate_table :: "u32 \<Rightarrow> u32 \<Rightarrow> heap_table \<Rightarrow> int" where
  "heap_validate_table ptr end table =
     (let table_size = end - ptr;
          total_blocks = table_size div 4096
      in if ht_total table \<noteq> total_blocks then - EINVARG else 0)"

(* src/src/memory/heap/heap.c 36-38 heap_validate_alignment *)
definition heap_validate_alignment :: "u32 \<Rightarrow> bool" where
  "heap_validate_alignment ptr \<longleftrightarrow> ptr mod 4096 = 0"

(* src/src/memory/heap/heap.c 48-69 heap_create *)
definition heap_create :: "heap \<Rightarrow> u32 \<Rightarrow> u32 \<Rightarrow> heap_table \<Rightarrow> int \<times> heap" where
  "heap_create h ptr end table =
     (if \<not> heap_validate_alignment ptr \<or> \<not> heap_validate_alignment end then (- EINVARG, h)
      else
        let h = \<lparr>hp_table = table, hp_saddr = ptr\<rparr>;
            res = heap_validate_table ptr end table
        in if res < 0 then (res, h)
           else (res, with_entries h
                   (memset (ht_entries table) 0 (uint HEAP_BLOCK_TABLE_ENTRY_FREE)
                      (unat (ht_total table)))))"

subsection \<open>Searching\<close>

(* src/src/memory/heap/heap.c 71-78 heap_align_value_to_upper *)
definition heap_align_value_to_upper :: "u32 \<Rightarrow> u32" where
  "heap_align_value_to_upper val =
     (if val mod 4096 = 0 then val
      else let val = val - val mod 4096 in val + 4096)"

(* src/src/memory/heap/heap.c 80-82 heap_get_entry_type *)
definition heap_get_entry_type :: "u8 \<Rightarrow> u8" where
  "heap_get_entry_type entry = entry AND 0x0f"

(* src/src/memory/heap/heap.c 99-113 heap_get_start_block: loop *)
function get_start_loop :: "memory \<Rightarrow> int \<Rightarrow> u32 \<Rightarrow> int \<Rightarrow> int \<Rightarrow> int \<Rightarrow> int" where
  "get_start_loop e tot total_blocks i bc bs =
     (if i < tot then
        (if heap_get_entry_type (e i) \<noteq> HEAP_BLOCK_TABLE_ENTRY_FREE
         then get_start_loop e tot total_blocks (i + 1) 0 (-1)
         else
           let bs = (if bs = -1 then i else bs);
               bc = bc + 1
           in if word_of_int bc = total_blocks then bs
              else get_start_loop e tot total_blocks (i + 1) bc bs)
      else bs)"
  by pat_completeness auto
termination
  by (relation "measure (\<lambda>(e, tot, total_blocks, i, bc, bs). nat (tot - i))") auto

declare get_start_loop.simps [simp del]

(* src/src/memory/heap/heap.c 95-121 heap_get_start_block *)
definition heap_get_start_block :: "heap \<Rightarrow> u32 \<Rightarrow> int" where
  "heap_get_start_block h total_blocks =
     (let bs = get_start_loop (entries_of h) (total_of h) total_blocks 0 0 (-1)
      in if bs = -1 then - ENOMEM else bs)"

subsection \<open>Allocating and freeing\<close>

(* src/src/memory/heap/heap.c 128-130 heap_block_to_address *)
definition heap_block_to_address :: "heap \<Rightarrow> int \<Rightarrow> u32" where
  "heap_block_to_address h block = hp_saddr h + word_of_int (block * PEACHOS_HEAP_BLOCK_SIZE)"

(* src/src/memory/heap/heap.c 142-148 heap_mark_blocks_taken: loop *)
function mark_taken_loop :: "memory \<Rightarrow> u8 \<Rightarrow> int \<Rightarrow> int \<Rightarrow> memory" where
  "mark_taken_loop e entry i end_block =
     (if i \<le> end_block then
        let e = e(i := entry);
            entry = HEAP_BLOCK_TABLE_ENTRY_TAKEN;
            entry = (if i \<noteq> end_block - 1 then entry OR HEAP_BLOCK_HAS_NEXT else entry)
        in mark_taken_loop e entry (i + 1) end_block
      else e)"
  by pat_completeness auto
termination
  by (relation "measure (\<lambda>(e, entry, i, end_block). nat (end_block + 1 - i))") auto

declare mark_taken_loop.simps [simp del]

(* src/src/memory/heap/heap.c 133-149 heap_mark_blocks_taken *)
definition heap_mark_blocks_taken :: "heap \<Rightarrow> int \<Rightarrow> int \<Rightarrow> heap" where
  "heap_mark_blocks_taken h start_block total_blocks =
     (let end_block = (start_block + total_blocks) - 1;
          entry = HEAP_BLOCK_TABLE_ENTRY_TAKEN OR HEAP_BLOCK_IS_FIRST;
          entry = (if total_blocks > 1 then entry OR HEAP_BLOCK_HAS_NEXT else entry)
      in with_entries h (mark_taken_loop (entries_of h) entry start_block end_block))"

(* src/src/memory/heap/heap.c 162-177 heap_malloc_blocks *)
definition heap_malloc_blocks :: "heap \<Rightarrow> u32 \<Rightarrow> u32 \<times> heap" where
  "heap_malloc_blocks h total_blocks =
     (let start_block = heap_get_start_block h total_blocks
      in if start_block < 0 then (0, h)
         else (heap_block_to_address h start_block,
               heap_mark_blocks_taken h start_block (sint total_blocks)))"

(* src/src/memory/heap/heap.c 190-196 heap_mark_blocks_free: loop *)
function mark_free_loop :: "memory \<Rightarrow> int \<Rightarrow> int \<Rightarrow> memory" where
  "mark_free_loop e tot i =
     (if i < tot then
        let entry = e i;
            e = e(i := HEAP_BLOCK_TABLE_ENTRY_FREE)
        in if entry AND HEAP_BLOCK_HAS_NEXT = 0 then e
           else mark_free_loop e tot (i + 1)
      else e)"
  by pat_completeness auto
termination
  by (relation "measure (\<lambda>(e, tot, i). nat (tot - i))") auto

declare mark_free_loop.simps [simp del]

(* src/src/memory/heap/heap.c 188-197 heap_mark_blocks_free *)
definition heap_mark_blocks_free :: "heap \<Rightarrow> int \<Rightarrow> heap" where
  "heap_mark_blocks_free h starting_block =
     with_entries h
       (mark_free_loop (entries_of h) (sint (ht_total (hp_table h))) starting_block)"

(* src/src/memory/heap/heap.c 200-203 heap_address_to_block *)
definition heap_address_to_block :: "heap \<Rightarrow> u32 \<Rightarrow> int" where
  "heap_address_to_block h address = sint (address - hp_saddr h) sdiv PEACHOS_HEAP_BLOCK_SIZE"

(* src/src/memory/heap/heap.c 215-219 heap_malloc *)
definition heap_malloc :: "heap \<Rightarrow> u32 \<Rightarrow> u32 \<times> heap" where
  "heap_malloc h sz =
     (let aligned_size = heap_align_value_to_upper sz;
          total_blocks = aligned_size div 4096
      in heap_malloc_blocks h total_blocks)"

(* src/src/memory/heap/heap.c 229-232 heap_free *)
definition heap_free :: "heap \<Rightarrow> u32 \<Rightarrow> heap" where
  "heap_free h ptr = heap_mark_blocks_free h (heap_address_to_block h ptr)"

subsection \<open>The kernel's heap\<close>

text \<open>
  The globals \<open>kernel_heap\<close> and \<open>kernel_heap_table\<close> are one value of type \<open>heap\<close>; its initial
  entries are whatever bytes lie at \<open>0x7E00\<close>.
\<close>

(* src/src/memory/heap/kheap.c 13-23 kheap_init *)
definition kheap_init :: "heap \<Rightarrow> int \<times> heap" where
  "kheap_init h =
     (let total_table_entries = PEACHOS_HEAP_SIZE_BYTES div PEACHOS_HEAP_BLOCK_SIZE;
          tbl = \<lparr>ht_entries = entries_of h, ht_total = word_of_int total_table_entries\<rparr>;
          end = PEACHOS_HEAP_ADDRESS + word_of_int PEACHOS_HEAP_SIZE_BYTES
      in heap_create h PEACHOS_HEAP_ADDRESS end tbl)"

(* src/src/memory/heap/kheap.c 28-30 kmalloc *)
definition kmalloc :: "heap \<Rightarrow> u32 \<Rightarrow> u32 \<times> heap" where
  "kmalloc h sz = heap_malloc h sz"

(* src/src/memory/heap/kheap.c 35-37 kfree *)
definition kfree :: "heap \<Rightarrow> u32 \<Rightarrow> heap" where
  "kfree h ptr = heap_free h ptr"

(* src/src/memory/heap/kheap.c 39-47 kzalloc *)
definition kzalloc :: "heap \<Rightarrow> memory \<Rightarrow> u32 \<Rightarrow> u32 \<times> heap \<times> memory" where
  "kzalloc h mem sz =
     (let (ptr, h') = kmalloc h sz
      in if ptr = 0 then (0, h', mem)
         else (ptr, h', memset mem (uint ptr) 0 (unat sz)))"

end
