(* ===== verification/Drivers.thy ===== *)
theory Drivers
  imports Heap
begin

text \<open>
  Two drivers: the 320 x 200 frame buffer of \<open>src/drivers/vga/vga.c\<close> and the timer of
  \<open>src/drivers/timer/pit.c\<close>.  Video memory is part of the byte memory; port writes of the timer are a list.
\<close>

subsection \<open>The frame buffer\<close>

abbreviation SCREEN_WIDTH :: int where "SCREEN_WIDTH \<equiv> 320"
abbreviation SCREEN_HEIGHT :: int where "SCREEN_HEIGHT \<equiv> 200"
abbreviation VGA_BUFFER :: int where "VGA_BUFFER \<equiv> 0xA0000"

(* src/src/drivers/vga/vga.c 8-9 vga_buffer, back_buffer *)
record vga =
  vga_buffer :: int
  back_buffer :: int

(* src/src/drivers/vga/vga.c 19-22 vga_put_pixel *)
definition vga_put_pixel :: "vga \<Rightarrow> u32 \<Rightarrow> u32 \<Rightarrow> u8 \<Rightarrow> memory \<Rightarrow> memory" where
  "vga_put_pixel v x y color m =
     (if 320 \<le> x \<or> 200 \<le> y then m else m(back_buffer v + uint (y * 320 + x) := color))"

(* src/src/drivers/vga/vga.c 24-28 vga_clear_screen *)
definition vga_clear_screen :: "vga \<Rightarrow> u8 \<Rightarrow> memory \<Rightarrow> memory" where
  "vga_clear_screen v color m =
     fold (\<lambda>i m. m(back_buffer v + i := color)) [0 .. SCREEN_WIDTH * SCREEN_HEIGHT - 1] m"

(* src/src/drivers/vga/vga.c 30-34 vga_swap_buffers *)
definition vga_swap_buffers :: "vga \<Rightarrow> memory \<Rightarrow> memory" where
  "vga_swap_buffers v m =
     fold (\<lambda>i m. m(vga_buffer v + i := m (back_buffer v + i))) [0 .. SCREEN_WIDTH * SCREEN_HEIGHT - 1] m"

(* src/src/drivers/vga/vga.c 11-17 vga_init *)
definition vga_init :: "heap \<Rightarrow> memory \<Rightarrow> vga \<times> heap \<times> memory" where
  "vga_init h m =
     (let (p, h, m) = kzalloc h m (word_of_int (SCREEN_WIDTH * SCREEN_HEIGHT));
          v = \<lparr>vga_buffer = VGA_BUFFER, back_buffer = uint p\<rparr>;
          m = vga_clear_screen v 0 m
      in (v, h, vga_swap_buffers v m))"

(* src/src/drivers/vga/vga.c 36-36 vga_get_width *)
definition vga_get_width :: u32 where "vga_get_width = 320"

(* src/src/drivers/vga/vga.c 37-37 vga_get_height *)
definition vga_get_height :: u32 where "vga_get_height = 200"

lemma fold_clear:
  "0 \<le> n \<Longrightarrow> fold (\<lambda>i m. m(b + i := c)) [0 .. n - 1] m a = (if b \<le> a \<and> a < b + n then c else m a)"
proof (induction n rule: int_ge_induct)
  case base
  show ?case by auto
next
  case (step n)
  then show ?case by (auto simp: upto_rec2 [of 0 n])
qed

lemma fold_copy:
  assumes "d + n \<le> s \<or> s + n \<le> d"
  shows "0 \<le> k \<Longrightarrow> k \<le> n \<Longrightarrow> fold (\<lambda>i m. m(d + i := m (s + i))) [0 .. k - 1] m a =
    (if d \<le> a \<and> a < d + k then m (s + (a - d)) else m a)"
proof (induction k arbitrary: a rule: int_ge_induct)
  case base
  show ?case by auto
next
  case (step k)
  then show ?case using assms by (auto simp: upto_rec2 [of 0 k])
qed

lemma vga_clear_apply:
  "vga_clear_screen v color m a = (if back_buffer v \<le> a \<and> a < back_buffer v + 64000 then color else m a)"
  using fold_clear [of 64000 "back_buffer v" color m a] by (simp add: vga_clear_screen_def)

text \<open>The two buffers do not overlap.\<close>

definition buffers_apart :: "vga \<Rightarrow> bool" where
  "buffers_apart v \<longleftrightarrow> vga_buffer v + 64000 \<le> back_buffer v \<or> back_buffer v + 64000 \<le> vga_buffer v"

lemma vga_swap_apply:
  "buffers_apart v \<Longrightarrow> vga_swap_buffers v m a =
     (if vga_buffer v \<le> a \<and> a < vga_buffer v + 64000 then m (back_buffer v + (a - vga_buffer v)) else m a)"
  using fold_copy [of "vga_buffer v" 64000 "back_buffer v" 64000 m a]
  by (simp add: vga_swap_buffers_def buffers_apart_def)

lemma pixel_offset:
  assumes "x < 320" and "y < 200"
  shows "uint (y * 320 + x :: u32) = uint y * 320 + uint x"
proof -
  have b: "uint x < 320" "uint y < 200" using assms by (simp_all add: word_less_def)
  have "uint (y * 320) = uint y * 320"
    using b by (simp add: uint_word_ariths)
  then show ?thesis using b by (subst uint_add_no_wrap) simp_all
qed

text \<open>The byte of the screen that shows pixel \<open>(x, y)\<close>.\<close>

definition pixel :: "vga \<Rightarrow> memory \<Rightarrow> u32 \<Rightarrow> u32 \<Rightarrow> u8" where
  "pixel v m x y = m (vga_buffer v + (uint y * SCREEN_WIDTH + uint x))"

text \<open>
  What is drawn is what the next swap shows: for a pixel \<open>(x, y)\<close> of the screen, clearing to
  \<open>c\<close>, putting a pixel at any coordinates and swapping the buffers shows the colour that was put if the
  coordinates are \<open>(x, y)\<close>, and \<open>c\<close> otherwise; coordinates beyond the screen draw nothing.
\<close>

theorem vga_draw_and_swap:
  assumes "buffers_apart v" and "x < 320" and "y < 200"
  shows "pixel v (vga_swap_buffers v (vga_put_pixel v x' y' color (vga_clear_screen v c m))) x y =
      (if x' = x \<and> y' = y then color else c)"
proof -
  have b: "uint x < 320" "uint y < 200" using assms(2,3) by (simp_all add: word_less_def)
  have o: "0 \<le> uint y * 320 + uint x" "uint y * 320 + uint x < 64000" using b by simp_all
  have same: "uint y' * 320 + uint x' = uint y * 320 + uint x \<longleftrightarrow> x' = x \<and> y' = y" if "x' < 320"
  proof -
    have "uint x' < 320" using that by (simp add: word_less_def)
    then have "(uint y' * 320 + uint x') mod 320 = uint x'" by simp
    moreover have "(uint y * 320 + uint x) mod 320 = uint x" using b by simp
    ultimately have "uint y' * 320 + uint x' = uint y * 320 + uint x \<Longrightarrow> uint x' = uint x"
      by metis
    then have "uint y' * 320 + uint x' = uint y * 320 + uint x \<longleftrightarrow> uint x' = uint x \<and> uint y' = uint y"
      by auto
    then show ?thesis by (simp add: word_uint_eq_iff)
  qed
  show ?thesis
    using o same assms by (auto simp: pixel_def vga_swap_apply vga_put_pixel_def vga_clear_apply pixel_offset not_le)
qed

theorem vga_draw_and_swap_witness:
  "pixel \<lparr>vga_buffer = 0xA0000, back_buffer = 0x1000000\<rparr>
     (vga_swap_buffers \<lparr>vga_buffer = 0xA0000, back_buffer = 0x1000000\<rparr>
       (vga_put_pixel \<lparr>vga_buffer = 0xA0000, back_buffer = 0x1000000\<rparr> 319 199 4
         (vga_clear_screen \<lparr>vga_buffer = 0xA0000, back_buffer = 0x1000000\<rparr> 1 (\<lambda>_. 0)))) 319 199 = 4"
  using vga_draw_and_swap [of "\<lparr>vga_buffer = 0xA0000, back_buffer = 0x1000000\<rparr>" 319 199 319 199 4 1 "\<lambda>_. 0"]
  by (simp add: buffers_apart_def)

subsection \<open>The timer\<close>

text \<open>A division by zero traps; it is \<open>None\<close>.\<close>

record pit =
  system_ticks :: "64 word"
  port_writes :: "(u16 \<times> u8) list"

definition outb :: "u16 \<Rightarrow> u8 \<Rightarrow> pit \<Rightarrow> pit" where
  "outb port val s = s\<lparr>port_writes := port_writes s @ [(port, val)]\<rparr>"

(* src/src/drivers/timer/pit.c 6-15 pit_init *)
definition pit_init :: "u32 \<Rightarrow> pit \<Rightarrow> pit option" where
  "pit_init frequency s =
     (if frequency = 0 then None
      else
        let divisor = 1193180 div frequency;
            s = outb 0x43 0x36 s;
            s = outb 0x40 (ucast (divisor AND 0xFF)) s
        in Some (outb 0x40 (ucast (drop_bit 8 divisor AND 0xFF)) s))"

(* src/src/drivers/timer/pit.c 17-21 pit_handler *)
definition pit_handler :: "pit \<Rightarrow> pit" where
  "pit_handler s = outb 0x20 0x20 (s\<lparr>system_ticks := system_ticks s + 1\<rparr>)"

text \<open>
  \<open>hlt\<close> returns after an interrupt, of the timer or of another device: \<open>irqs n\<close> says whether the
  \<open>n\<close>-th one is the timer's, which runs \<open>pit_handler\<close>.
\<close>

(* src/src/drivers/timer/pit.c 25-27 pit_sleep: loop *)
partial_function (option) pit_sleep_loop ::
  "(nat \<Rightarrow> bool) \<Rightarrow> 64 word \<Rightarrow> nat \<Rightarrow> pit \<Rightarrow> (nat \<times> pit) option" where
  "pit_sleep_loop irqs target_ticks n s =
     (if system_ticks s < target_ticks
      then pit_sleep_loop irqs target_ticks (Suc n) (if irqs n then pit_handler s else s)
      else Some (n, s))"

(* src/src/drivers/timer/pit.c 23-28 pit_sleep *)
definition pit_sleep :: "(nat \<Rightarrow> bool) \<Rightarrow> u32 \<Rightarrow> pit \<Rightarrow> (nat \<times> pit) option" where
  "pit_sleep irqs milliseconds s = pit_sleep_loop irqs (system_ticks s + ucast milliseconds) 0 s"

(* src/src/drivers/timer/pit.c 30-32 pit_get_ticks *)
definition pit_get_ticks :: "pit \<Rightarrow> 64 word" where
  "pit_get_ticks s = system_ticks s"

lemma pit_handler_ticks [simp]: "system_ticks (pit_handler s) = system_ticks s + 1"
  by (simp add: pit_handler_def outb_def)

text \<open>The number of timer interrupts among the interrupts \<open>n\<close> to \<open>n + k - 1\<close>.\<close>

definition timer_irqs :: "(nat \<Rightarrow> bool) \<Rightarrow> nat \<Rightarrow> nat \<Rightarrow> nat" where
  "timer_irqs irqs n k = card {j. n \<le> j \<and> j < n + k \<and> irqs j}"

lemma timer_irqs_0 [simp]: "timer_irqs irqs n 0 = 0"
  by (simp add: timer_irqs_def)

lemma timer_irqs_Suc: "timer_irqs irqs n (Suc k) = (if irqs n then 1 else 0) + timer_irqs irqs (Suc n) k"
proof -
  have "{j. n \<le> j \<and> j < n + Suc k \<and> irqs j} =
      (if irqs n then {n} else {}) \<union> {j. Suc n \<le> j \<and> j < Suc n + k \<and> irqs j}" by auto (metis Suc_leI le_neq_implies_less)
  moreover have "finite {j. Suc n \<le> j \<and> j < Suc n + k \<and> irqs j}" by simp
  ultimately show ?thesis by (auto simp: timer_irqs_def)
qed

lemma pit_sleep_loop_returns:
  assumes "uint target = uint (system_ticks s) + int (timer_irqs irqs n k)"
  shows "\<exists>n' s'. pit_sleep_loop irqs target n s = Some (n', s') \<and> system_ticks s' = target"
  using assms
proof (induction k arbitrary: n s)
  case 0
  then have "system_ticks s = target" by (simp add: word_uint_eq_iff)
  then show ?case by (subst pit_sleep_loop.simps) simp
next
  case (Suc k)
  show ?case
  proof (cases "system_ticks s < target")
    case False
    then have "system_ticks s = target" using Suc.prems by (simp add: word_less_def word_uint_eq_iff)
    then show ?thesis by (subst pit_sleep_loop.simps) simp
  next
    case True
    let ?s = "if irqs n then pit_handler s else s"
    have "uint (system_ticks s) + uint (1 :: 64 word) < 2 ^ LENGTH(64)"
      using True uint_bounded [of target] by (simp add: word_less_def)
    then have "uint (system_ticks s + 1) = uint (system_ticks s) + 1"
      by (subst uint_add_no_wrap) simp_all
    then have "uint target = uint (system_ticks ?s) + int (timer_irqs irqs (Suc n) k)"
      using Suc.prems by (simp add: timer_irqs_Suc)
    from Suc.IH [OF this] True show ?thesis by (subst pit_sleep_loop.simps) simp
  qed
qed

text \<open>
  \<open>pit_sleep\<close> returns: when the timer keeps firing, so that some number of interrupts
  contains as many timer interrupts as milliseconds were asked for, the sleep ends with exactly that many
  ticks counted, whatever other interrupts wake the processor in between.
\<close>

theorem pit_sleep_returns:
  assumes "timer_irqs irqs 0 k = unat milliseconds"
    and "uint (system_ticks s) + uint milliseconds < 2 ^ 64"
  shows "\<exists>n s'. pit_sleep irqs milliseconds s = Some (n, s') \<and>
    pit_get_ticks s' = pit_get_ticks s + ucast milliseconds"
proof -
  have "uint (ucast milliseconds :: 64 word) = uint milliseconds"
    using uint_bounded [of milliseconds] by (simp add: unsigned_ucast_eq take_bit_int_eq_self)
  then have "uint (system_ticks s + ucast milliseconds) = uint (system_ticks s) + int (timer_irqs irqs 0 k)"
    using assms by (subst uint_add_no_wrap) simp_all
  from pit_sleep_loop_returns [OF this] show ?thesis by (simp add: pit_sleep_def pit_get_ticks_def)
qed

theorem pit_sleep_returns_witness:
  "\<exists>n s'. pit_sleep even 2 \<lparr>system_ticks = 5, port_writes = []\<rparr> = Some (n, s') \<and> pit_get_ticks s' = 7"
proof -
  have "{j. 0 \<le> j \<and> j < 0 + 3 \<and> even j} = {0, 2 :: nat}" by (auto simp: numeral_3_eq_3 less_Suc_eq)
  then have "timer_irqs even 0 3 = unat (2 :: u32)" by (simp add: timer_irqs_def)
  from pit_sleep_returns [OF this, of "\<lparr>system_ticks = 5, port_writes = []\<rparr>"] show ?thesis
    by (simp add: pit_get_ticks_def)
qed

end
