(* ===== verification/HeapProps.thy ===== *)
theory HeapProps
  imports Heap
begin

text \<open>
  Correctness of the kernel heap: the first-fit scan, the shape of an allocation in the block
  table, the well-formedness invariant of the table and its preservation, and the allocator
  contract \<open>block_allocator\<close> with its interpretation on \<open>kmalloc\<close> and \<open>kfree\<close>.
\<close>

subsection \<open>What the scan returns\<close>

definition block_free :: "memory \<Rightarrow> int \<Rightarrow> bool" where
  "block_free e i \<longleftrightarrow> heap_get_entry_type (e i) = HEAP_BLOCK_TABLE_ENTRY_FREE"

definition run_free :: "memory \<Rightarrow> int \<Rightarrow> int \<Rightarrow> bool" where
  "run_free e s n \<longleftrightarrow> (\<forall>k. s \<le> k \<and> k < s + n \<longrightarrow> block_free e k)"

text \<open>A run of \<open>n\<close> free blocks that lies inside the table of \<open>tot\<close> blocks.\<close>

definition fits :: "memory \<Rightarrow> int \<Rightarrow> int \<Rightarrow> int \<Rightarrow> bool" where
  "fits e tot n s \<longleftrightarrow> 0 \<le> s \<and> s + n \<le> tot \<and> run_free e s n"

definition first_fit :: "memory \<Rightarrow> int \<Rightarrow> int \<Rightarrow> int \<Rightarrow> bool" where
  "first_fit e tot n s \<longleftrightarrow> fits e tot n s \<and> (\<forall>t. fits e tot n t \<longrightarrow> s \<le> t)"

text \<open>The free run at the end of the table, shorter than requested, that the scan stops in.\<close>

definition short_tail :: "memory \<Rightarrow> int \<Rightarrow> int \<Rightarrow> int \<Rightarrow> bool" where
  "short_tail e tot n s \<longleftrightarrow>
     0 \<le> s \<and> s < tot \<and> tot < s + n \<and> run_free e s (tot - s) \<and> (s = 0 \<or> \<not> block_free e (s - 1))"

definition scan_inv :: "memory \<Rightarrow> int \<Rightarrow> int \<Rightarrow> int \<Rightarrow> int \<Rightarrow> bool" where
  "scan_inv e n i bc bs \<longleftrightarrow>
     0 \<le> i \<and> 0 \<le> bc \<and> bc < n \<and>
     (bs = -1 \<longrightarrow> bc = 0 \<and> (i = 0 \<or> \<not> block_free e (i - 1))) \<and>
     (bs \<noteq> -1 \<longrightarrow> 0 \<le> bs \<and> bc = i - bs \<and> 0 < bc \<and> run_free e bs bc \<and>
        (bs = 0 \<or> \<not> block_free e (bs - 1))) \<and>
     (\<forall>s. 0 \<le> s \<and> s + n \<le> i \<longrightarrow> \<not> run_free e s n)"

definition scan_result :: "memory \<Rightarrow> int \<Rightarrow> int \<Rightarrow> int \<Rightarrow> bool" where
  "scan_result e tot n r \<longleftrightarrow>
     first_fit e tot n r \<or>
     (\<forall>s. \<not> fits e tot n s) \<and>
       (r = -1 \<and> (tot = 0 \<or> \<not> block_free e (tot - 1)) \<or> short_tail e tot n r)"

lemma run_free_snoc: "run_free e s n \<Longrightarrow> block_free e (s + n) \<Longrightarrow> run_free e s (n + 1)"
  unfolding run_free_def by (metis add.assoc zless_add1_eq)

lemma run_freeD: "run_free e s n \<Longrightarrow> s \<le> k \<Longrightarrow> k < s + n \<Longrightarrow> block_free e k"
  by (simp add: run_free_def)

lemma scan_inv_init: "0 < n \<Longrightarrow> scan_inv e n 0 0 (-1)"
  by (auto simp: scan_inv_def)

lemma scan_inv_taken:
  assumes "scan_inv e n i bc bs" and "\<not> block_free e i"
  shows "scan_inv e n (i + 1) 0 (-1)"
proof -
  have "\<not> run_free e s n" if "0 \<le> s" "s + n \<le> i + 1" for s
  proof (cases "s + n \<le> i")
    case True
    with assms that show ?thesis by (auto simp: scan_inv_def)
  next
    case False
    with assms that show ?thesis
      using run_freeD [of e s n i] by (auto simp: scan_inv_def)
  qed
  with assms show ?thesis by (auto simp: scan_inv_def)
qed

lemma scan_inv_free:
  assumes inv: "scan_inv e n i bc bs" and free: "block_free e i"
    and bs': "bs' = (if bs = -1 then i else bs)"
  shows "0 \<le> bs'" and "bc + 1 = i + 1 - bs'" and "run_free e bs' (bc + 1)"
    and "bs' = 0 \<or> \<not> block_free e (bs' - 1)"
    and "\<And>s. 0 \<le> s \<Longrightarrow> s < bs' \<Longrightarrow> s + n \<le> i + 1 \<Longrightarrow> \<not> run_free e s n"
proof -
  show "0 \<le> bs'" and "bc + 1 = i + 1 - bs'" and *: "bs' = 0 \<or> \<not> block_free e (bs' - 1)"
    using inv bs' by (auto simp: scan_inv_def)
  show "run_free e bs' (bc + 1)"
  proof (cases "bs = -1")
    case True
    with inv bs' free show ?thesis
      by (auto simp: scan_inv_def run_free_def)
  next
    case False
    with inv bs' free show ?thesis
      using run_free_snoc [of e bs bc] by (auto simp: scan_inv_def)
  qed
  fix s assume "0 \<le> s" "s < bs'" "s + n \<le> i + 1"
  show "\<not> run_free e s n"
  proof (cases "s + n \<le> i")
    case True
    with inv \<open>0 \<le> s\<close> show ?thesis by (auto simp: scan_inv_def)
  next
    case False
    then have "s \<le> bs' - 1" "bs' - 1 < s + n"
      using \<open>s < bs'\<close> \<open>s + n \<le> i + 1\<close> inv bs' by (auto simp: scan_inv_def split: if_splits)
    with * \<open>0 \<le> s\<close> show ?thesis using run_freeD [of e s n "bs' - 1"] by auto
  qed
qed

lemma scan_inv_free_step:
  assumes inv: "scan_inv e n i bc bs" and free: "block_free e i"
    and bs': "bs' = (if bs = -1 then i else bs)" and more: "bc + 1 \<noteq> n"
  shows "scan_inv e n (i + 1) (bc + 1) bs'"
proof -
  note facts = scan_inv_free [OF inv free bs']
  have "\<not> run_free e s n" if "0 \<le> s" "s + n \<le> i + 1" for s
    using facts(2,5) that more inv by (cases "s < bs'") (auto simp: scan_inv_def)
  moreover have "bs' \<noteq> -1" using facts(1) by simp
  ultimately show ?thesis
    using facts inv more by (auto simp: scan_inv_def)
qed

lemma scan_found:
  assumes inv: "scan_inv e n i bc bs" and free: "block_free e i" and "i < tot"
    and bs': "bs' = (if bs = -1 then i else bs)" and full: "bc + 1 = n"
  shows "first_fit e tot n bs'"
proof -
  note facts = scan_inv_free [OF inv free bs']
  have fit: "fits e tot n bs'"
    using facts full \<open>i < tot\<close> by (auto simp: fits_def)
  have "bs' \<le> t" if "fits e tot n t" for t
  proof (rule ccontr)
    assume "\<not> bs' \<le> t"
    moreover have "t + n \<le> i + 1" using calculation facts(2) full by simp
    ultimately show False using facts(5) [of t] that by (auto simp: fits_def)
  qed
  with fit show ?thesis by (simp add: first_fit_def)
qed

lemma scan_exhausted:
  assumes inv: "scan_inv e n tot bc bs"
  shows "scan_result e tot n bs"
proof -
  have none: "\<not> fits e tot n s" for s
    using inv by (auto simp: scan_inv_def fits_def)
  show ?thesis
  proof (cases "bs = -1")
    case True
    with inv none show ?thesis by (auto simp: scan_result_def scan_inv_def)
  next
    case False
    with inv have "short_tail e tot n bs" by (auto simp: scan_inv_def short_tail_def)
    with none show ?thesis by (simp add: scan_result_def)
  qed
qed

lemma get_start_loop_result:
  assumes "scan_inv e n i bc bs" and "i \<le> tot" and "n = uint total_blocks"
  shows "scan_result e tot n (get_start_loop e tot total_blocks i bc bs)"
  using assms
proof (induction e tot total_blocks i bc bs rule: get_start_loop.induct)
  case (1 e tot tb i bc bs)
  define bs' where bs': "bs' = (if bs = -1 then i else bs)"
  have tb_iff: "word_of_int (bc + 1) = tb \<longleftrightarrow> bc + 1 = n"
  proof -
    have "0 \<le> bc + 1" "bc + 1 \<le> uint tb"
      using "1.prems" by (auto simp: scan_inv_def)
    moreover have "uint tb < 2 ^ 32" using uint_lt2p [of tb] by simp
    ultimately have "uint (word_of_int (bc + 1) :: u32) = bc + 1"
      by (intro uint_of_int_id) auto
    with "1.prems" show ?thesis by (metis word_uint_eqI word_of_int_uint)
  qed
  consider (stop) "\<not> i < tot" | (taken) "i < tot" "\<not> block_free e i"
    | (found) "i < tot" "block_free e i" "bc + 1 = n"
    | (more) "i < tot" "block_free e i" "bc + 1 \<noteq> n"
    by blast
  then show ?case
  proof cases
    case stop
    with "1.prems" have "i = tot" by simp
    moreover have "get_start_loop e tot tb i bc bs = bs"
      using stop by (simp add: get_start_loop.simps)
    ultimately show ?thesis
      using "1.prems" by (simp add: scan_exhausted)
  next
    case taken
    then have "scan_result e tot n (get_start_loop e tot tb (i + 1) 0 (-1))"
      using "1.prems" by (intro "1.IH"(1)) (auto simp: block_free_def intro: scan_inv_taken)
    with taken show ?thesis
      by (simp add: get_start_loop.simps [of e tot tb i] block_free_def)
  next
    case found
    then have "first_fit e tot n bs'"
      using "1.prems" bs' scan_found by blast
    moreover have "get_start_loop e tot tb i bc bs = bs'"
      using found tb_iff
      by (subst get_start_loop.simps) (simp add: block_free_def Let_def bs')
    ultimately show ?thesis by (simp add: scan_result_def)
  next
    case more
    have "scan_result e tot n (get_start_loop e tot tb (i + 1) (bc + 1) bs')"
      using more "1.prems" bs' tb_iff
      by (intro "1.IH"(2)) (auto simp: block_free_def intro: scan_inv_free_step)
    moreover have "get_start_loop e tot tb i bc bs = get_start_loop e tot tb (i + 1) (bc + 1) bs'"
      using more tb_iff
      by (subst get_start_loop.simps) (simp add: block_free_def Let_def bs')
    ultimately show ?thesis by simp
  qed
qed

lemma heap_get_start_block_scan:
  assumes "total_blocks \<noteq> 0" and "r = heap_get_start_block h total_blocks"
  shows "first_fit (entries_of h) (total_of h) (uint total_blocks) r \<or>
     (\<forall>s. \<not> fits (entries_of h) (total_of h) (uint total_blocks) s) \<and>
     (r = - ENOMEM \<or> short_tail (entries_of h) (total_of h) (uint total_blocks) r)"
proof -
  have "0 < uint total_blocks" using assms(1) by (rule uint_pos)
  then have "scan_result (entries_of h) (total_of h) (uint total_blocks)
      (get_start_loop (entries_of h) (total_of h) total_blocks 0 0 (-1))"
    by (intro get_start_loop_result scan_inv_init) auto
  then show ?thesis
    using assms(2)
    by (auto simp: heap_get_start_block_def Let_def scan_result_def first_fit_def fits_def
        short_tail_def split: if_splits)
qed

subsection \<open>The shape of an allocation\<close>

text \<open>The table byte of block \<open>i\<close> in an allocation of \<open>n\<close> blocks that starts at \<open>s\<close>.\<close>

definition alloc_entry :: "int \<Rightarrow> int \<Rightarrow> int \<Rightarrow> u8" where
  "alloc_entry s n i =
     (if i = s then (if n > 1 then 0xC1 else 0x41)
      else if i = s + n - 1 then 0x01 else 0x81)"

definition has_next :: "u8 \<Rightarrow> bool" where
  "has_next b \<longleftrightarrow> b AND HEAP_BLOCK_HAS_NEXT \<noteq> 0"

definition is_head :: "u8 \<Rightarrow> bool" where
  "is_head b \<longleftrightarrow> b = 0x41 \<or> b = 0xC1"

definition is_cont :: "u8 \<Rightarrow> bool" where
  "is_cont b \<longleftrightarrow> b = 0x01 \<or> b = 0x81"

lemma entry_bits [simp]:
  "has_next 0x41 = False" "has_next 0xC1" "has_next 0x01 = False" "has_next 0x81" "has_next 0 = False"
  "is_head 0x41" "is_head 0xC1" "is_head 0x01 = False" "is_head 0x81 = False" "is_head 0 = False"
  "is_cont 0x41 = False" "is_cont 0xC1 = False" "is_cont 0x01" "is_cont 0x81" "is_cont 0 = False"
  by (simp_all add: has_next_def is_head_def is_cont_def)

lemma entry_type_simps [simp]:
  "heap_get_entry_type 0x41 = 1" "heap_get_entry_type 0xC1 = 1"
  "heap_get_entry_type 0x01 = 1" "heap_get_entry_type 0x81 = 1" "heap_get_entry_type 0 = 0"
  by (simp_all add: heap_get_entry_type_def)

lemma entry_or: "HEAP_BLOCK_TABLE_ENTRY_TAKEN OR HEAP_BLOCK_HAS_NEXT = (0x81 :: u8)"
  by simp

lemma mark_taken_loop_apply:
  "mark_taken_loop e entry i end_block j =
     (if i \<le> j \<and> j \<le> end_block
      then (if j = i then entry else if j = end_block then 0x01 else 0x81)
      else e j)"
proof (induction e entry i end_block rule: mark_taken_loop.induct)
  case (1 e entry i end_block)
  show ?case
  proof (cases "i \<le> end_block")
    case False
    then show ?thesis by (auto simp: mark_taken_loop.simps [of e entry i end_block])
  next
    case True
    have step: "mark_taken_loop e entry i end_block =
      mark_taken_loop (e(i := entry)) (if i \<noteq> end_block - 1 then 0x81 else 0x01) (i + 1) end_block"
      using True by (subst mark_taken_loop.simps) (simp add: Let_def)
    have ih: "mark_taken_loop (e(i := entry)) (if i \<noteq> end_block - 1 then 0x81 else 0x01) (i + 1) end_block j =
      (if i + 1 \<le> j \<and> j \<le> end_block
       then (if j = i + 1 then (if i \<noteq> end_block - 1 then 0x81 else 0x01)
             else if j = end_block then 0x01 else 0x81)
       else (e(i := entry)) j)"
      using "1.IH" [OF True refl refl refl] unfolding entry_or .
    show ?thesis
      unfolding step ih using True by auto
  qed
qed

lemma mark_blocks_taken_entries:
  assumes "0 < n"
  shows "entries_of (heap_mark_blocks_taken h s n) j =
     (if s \<le> j \<and> j < s + n then alloc_entry s n j else entries_of h j)"
  using assms
  by (auto simp: heap_mark_blocks_taken_def Let_def mark_taken_loop_apply alloc_entry_def)

lemma mark_blocks_taken_frame [simp]:
  "ht_total (hp_table (heap_mark_blocks_taken h s n)) = ht_total (hp_table h)"
  "hp_saddr (heap_mark_blocks_taken h s n) = hp_saddr h"
  by (simp_all add: heap_mark_blocks_taken_def Let_def)

text \<open>\<open>chain e s n\<close>: from \<open>s\<close>, the has-next bits lead through exactly \<open>n\<close> blocks.\<close>

definition chain :: "memory \<Rightarrow> int \<Rightarrow> int \<Rightarrow> bool" where
  "chain e s n \<longleftrightarrow> 0 < n \<and> (\<forall>k. s \<le> k \<and> k < s + n - 1 \<longrightarrow> has_next (e k)) \<and> \<not> has_next (e (s + n - 1))"

lemma mark_free_loop_chain:
  assumes "chain e s n" and "s + n \<le> tot"
  shows "mark_free_loop e tot s j = (if s \<le> j \<and> j < s + n then 0 else e j)"
  using assms
proof (induction e tot s arbitrary: n rule: mark_free_loop.induct)
  case (1 e tot s)
  then have "s < tot" by (auto simp: chain_def)
  show ?case
  proof (cases "has_next (e s)")
    case False
    then have "n = 1" using "1.prems" by (force simp: chain_def)
    moreover have "mark_free_loop e tot s = e(s := 0)"
      using False \<open>s < tot\<close> by (subst mark_free_loop.simps) (simp add: has_next_def)
    ultimately show ?thesis by auto
  next
    case True
    have step: "mark_free_loop e tot s = mark_free_loop (e(s := 0)) tot (s + 1)"
      using True \<open>s < tot\<close> by (subst mark_free_loop.simps) (simp add: has_next_def)
    have "1 < n" using True "1.prems" by (cases "n = 1") (auto simp: chain_def)
    then have "chain (e(s := 0)) (s + 1) (n - 1)"
      using "1.prems" by (auto simp: chain_def)
    moreover have "e s AND HEAP_BLOCK_HAS_NEXT \<noteq> 0"
      using True by (simp add: has_next_def)
    moreover have "s + 1 + (n - 1) \<le> tot" using "1.prems" by simp
    ultimately have "mark_free_loop (e(s := 0)) tot (s + 1) j =
        (if s + 1 \<le> j \<and> j < s + 1 + (n - 1) then 0 else (e(s := 0)) j)"
      using \<open>s < tot\<close> by (intro "1.IH" [OF _ refl refl])
    then show ?thesis unfolding step using \<open>1 < n\<close> by auto
  qed
qed

lemma chain_alloc: "0 < n \<Longrightarrow> (\<And>j. s \<le> j \<Longrightarrow> j < s + n \<Longrightarrow> e j = alloc_entry s n j) \<Longrightarrow> chain e s n"
  by (auto simp: chain_def alloc_entry_def)

subsection \<open>Well-formed heaps\<close>

text \<open>
  Every block is free (byte 0), the first block of an allocation, or a continuation; a has-next bit
  is followed by a continuation inside the table, and a continuation is preceded by a has-next bit.
\<close>

definition entry_ok :: "memory \<Rightarrow> int \<Rightarrow> int \<Rightarrow> bool" where
  "entry_ok e tot i \<longleftrightarrow>
     (e i = 0 \<or> is_head (e i) \<or> is_cont (e i)) \<and>
     (has_next (e i) \<longrightarrow> i + 1 < tot \<and> is_cont (e (i + 1))) \<and>
     (is_cont (e i) \<longrightarrow> 0 < i \<and> has_next (e (i - 1)))"

definition table_ok :: "memory \<Rightarrow> int \<Rightarrow> bool" where
  "table_ok e tot \<longleftrightarrow> (\<forall>i. 0 \<le> i \<and> i < tot \<longrightarrow> entry_ok e tot i)"

text \<open>
  The pool does not contain address 0, does not wrap around the address space, and block numbers
  times the block size stay in the range of \<open>int\<close>.
\<close>

definition heap_ok :: "heap \<Rightarrow> bool" where
  "heap_ok h \<longleftrightarrow>
     table_ok (entries_of h) (total_of h) \<and> total_of h < 2 ^ 19 \<and>
     0 < uint (hp_saddr h) \<and> uint (hp_saddr h) + total_of h * 4096 < 2 ^ 32"

lemma table_okD: "table_ok e tot \<Longrightarrow> 0 \<le> i \<Longrightarrow> i < tot \<Longrightarrow> entry_ok e tot i"
  by (simp add: table_ok_def)

lemma is_head_not_cont: "is_head b \<Longrightarrow> \<not> is_cont b"
  by (auto simp: is_head_def is_cont_def)

lemma head_not_free: "is_head b \<Longrightarrow> heap_get_entry_type b = 1"
  by (auto simp: is_head_def heap_get_entry_type_def)

lemma free_entry_zero:
  "table_ok e tot \<Longrightarrow> 0 \<le> i \<Longrightarrow> i < tot \<Longrightarrow> block_free e i \<Longrightarrow> e i = 0"
  using table_okD [of e tot i]
  by (auto simp: entry_ok_def block_free_def is_head_def is_cont_def heap_get_entry_type_def)

lemma table_ok_alloc:
  assumes ok: "table_ok e tot" and fit: "fits e tot n s" and n: "0 < n"
    and e': "\<And>j. e' j = (if s \<le> j \<and> j < s + n then alloc_entry s n j else e j)"
  shows "table_ok e' tot"
  unfolding table_ok_def
proof (intro allI impI)
  fix i assume i: "0 \<le> i \<and> i < tot"
  have zero: "e j = 0" if "s \<le> j" "j < s + n" for j
    using that fit ok by (auto simp: fits_def run_free_def intro!: free_entry_zero [OF ok])
  have before: "\<not> has_next (e (s - 1))" if "0 < s"
    using table_okD [OF ok, of "s - 1"] zero [of s] that n fit
    by (auto simp: entry_ok_def fits_def)
  have after: "\<not> is_cont (e (s + n))" if "s + n < tot"
    using table_okD [OF ok, of "s + n"] zero [of "s + n - 1"] that n fit
    by (auto simp: entry_ok_def fits_def)
  show "entry_ok e' tot i"
  proof (cases "s \<le> i \<and> i < s + n")
    case True
    with n fit show ?thesis
      by (auto simp: entry_ok_def e' alloc_entry_def fits_def)
  next
    case False
    then have "entry_ok e tot i" using table_okD [OF ok] i by simp
    moreover have "\<not> has_next (e i)" if "\<not> s \<le> i" "s \<le> i + 1"
    proof -
      from that have "i = s - 1" by simp
      with before i show ?thesis by auto
    qed
    moreover have "\<not> is_cont (e i)" if "\<not> i < s + n" "i - 1 < s + n"
    proof -
      from that have "i = s + n" by simp
      with after i show ?thesis by auto
    qed
    ultimately show ?thesis
      using False n by (auto simp: entry_ok_def e')
  qed
qed

lemma chain_exists:
  assumes ok: "table_ok e tot" and "0 \<le> s" and "s < tot"
  shows "\<exists>n. chain e s n \<and> s + n \<le> tot \<and> (\<forall>k. s < k \<and> k < s + n \<longrightarrow> is_cont (e k))"
  using assms(2,3)
proof (induction "nat (tot - s)" arbitrary: s rule: less_induct)
  case less
  show ?case
  proof (cases "has_next (e s)")
    case False
    then show ?thesis using less.prems by (intro exI [of _ 1]) (auto simp: chain_def)
  next
    case True
    then have "s + 1 < tot" "is_cont (e (s + 1))"
      using table_okD [OF ok] less.prems by (auto simp: entry_ok_def)
    then obtain n where n: "chain e (s + 1) n" "s + 1 + n \<le> tot"
      "\<forall>k. s + 1 < k \<and> k < s + 1 + n \<longrightarrow> is_cont (e k)"
      using less.hyps [of "s + 1"] less.prems by auto
    have "chain e s (n + 1)"
      unfolding chain_def
    proof (intro conjI allI impI)
      fix k assume "s \<le> k \<and> k < s + (n + 1) - 1"
      then show "has_next (e k)"
        using n(1) True by (cases "k = s") (auto simp: chain_def)
    qed (use n(1) in \<open>auto simp: chain_def algebra_simps\<close>)
    moreover have "\<forall>k. s < k \<and> k < s + (n + 1) \<longrightarrow> is_cont (e k)"
      using n(3) \<open>is_cont (e (s + 1))\<close> by (metis add.assoc add.commute order_le_less zless_imp_add1_zle)
    ultimately show ?thesis
      using n(2) by (intro exI [of _ "n + 1"]) auto
  qed
qed

lemma table_ok_free:
  assumes ok: "table_ok e tot" and s: "0 \<le> s" "s < tot" and head: "is_head (e s)"
    and ch: "chain e s n" "s + n \<le> tot" "\<forall>k. s < k \<and> k < s + n \<longrightarrow> is_cont (e k)"
    and e': "\<And>j. e' j = (if s \<le> j \<and> j < s + n then 0 else e j)"
  shows "table_ok e' tot"
  unfolding table_ok_def
proof (intro allI impI)
  fix i assume i: "0 \<le> i \<and> i < tot"
  have n: "0 < n" using ch(1) by (simp add: chain_def)
  have before: "\<not> has_next (e (s - 1))" if "0 < s"
    using table_okD [OF ok, of "s - 1"] that s head is_head_not_cont by (auto simp: entry_ok_def)
  have after: "\<not> is_cont (e (s + n))" if "s + n < tot"
    using table_okD [OF ok, of "s + n"] that ch(1) s by (auto simp: entry_ok_def chain_def)
  show "entry_ok e' tot i"
  proof (cases "s \<le> i \<and> i < s + n")
    case True
    then show ?thesis by (auto simp: entry_ok_def e')
  next
    case False
    then have "entry_ok e tot i" using table_okD [OF ok] i by simp
    moreover have "\<not> has_next (e i)" if "\<not> s \<le> i" "s \<le> i + 1"
    proof -
      from that have "i = s - 1" by simp
      with before i show ?thesis by auto
    qed
    moreover have "\<not> is_cont (e i)" if "\<not> i < s + n" "i - 1 < s + n"
    proof -
      from that have "i = s + n" by simp
      with after i show ?thesis by auto
    qed
    ultimately show ?thesis
      using False n by (auto simp: entry_ok_def e')
  qed
qed

subsection \<open>Allocation and release on the heap\<close>

lemma first_fit_unique: "first_fit e tot n s \<Longrightarrow> first_fit e tot n t \<Longrightarrow> s = t"
  by (meson first_fit_def order_antisym)

lemma start_block_first_fit:
  assumes "total_blocks \<noteq> 0" and "first_fit (entries_of h) (total_of h) (uint total_blocks) s"
  shows "heap_get_start_block h total_blocks = s"
  using heap_get_start_block_scan [OF assms(1) refl, of h] assms(2) first_fit_unique
  by (auto simp: first_fit_def)

lemma sint_small: "uint (w :: u32) < 2 ^ 31 \<Longrightarrow> sint w = uint w"
  by (rule sint_eq_uint_small) simp

lemma heap_malloc_blocks_fit:
  assumes ok: "heap_ok h" and tb: "total_blocks \<noteq> 0"
    and fit: "first_fit (entries_of h) (total_of h) (uint total_blocks) s"
  shows "heap_malloc_blocks h total_blocks =
     (heap_block_to_address h s, heap_mark_blocks_taken h s (uint total_blocks))"
proof -
  have "0 \<le> s" "s + uint total_blocks \<le> total_of h"
    using fit by (auto simp: first_fit_def fits_def)
  moreover have "total_of h < 2 ^ 19" using ok by (simp add: heap_ok_def)
  ultimately have "sint total_blocks = uint total_blocks" by (intro sint_small) simp
  with \<open>0 \<le> s\<close> show ?thesis
    by (simp add: heap_malloc_blocks_def start_block_first_fit [OF tb fit])
qed

lemma heap_ok_mark_taken:
  assumes "heap_ok h" and "fits (entries_of h) (total_of h) n s" and "0 < n"
  shows "heap_ok (heap_mark_blocks_taken h s n)"
  using assms table_ok_alloc [OF _ assms(2,3), of "entries_of (heap_mark_blocks_taken h s n)"]
  by (auto simp: heap_ok_def mark_blocks_taken_entries)

lemma uint_block_offset:
  assumes "heap_ok h" and "0 \<le> b" and "b < total_of h"
  shows "uint (word_of_int (b * 4096) :: u32) = b * 4096" and "b * 4096 < 2 ^ 31"
proof -
  show "b * 4096 < 2 ^ 31" using assms by (simp add: heap_ok_def)
  then show "uint (word_of_int (b * 4096) :: u32) = b * 4096"
    using assms by (intro uint_of_int_id) auto
qed

lemma uint_block_address:
  assumes "heap_ok h" and "0 \<le> b" and "b < total_of h"
  shows "uint (heap_block_to_address h b) = uint (hp_saddr h) + b * 4096"
proof -
  have "uint (hp_saddr h) + b * 4096 < 2 ^ 32" using assms by (simp add: heap_ok_def)
  then show ?thesis
    unfolding heap_block_to_address_def
    by (subst uint_add_no_wrap; simp only: uint_block_offset [OF assms]) simp
qed

lemma block_address_nonzero:
  assumes "heap_ok h" and "0 \<le> b" and "b < total_of h"
  shows "heap_block_to_address h b \<noteq> 0"
  using uint_block_address [OF assms] assms by (auto simp: heap_ok_def)

lemma block_address_inj:
  assumes "heap_ok h" and "0 \<le> b" "b < total_of h" and "0 \<le> c" "c < total_of h"
    and "heap_block_to_address h b = heap_block_to_address h c"
  shows "b = c"
proof -
  have "uint (hp_saddr h) + b * 4096 = uint (hp_saddr h) + c * 4096"
    using uint_block_address [OF assms(1-3)] uint_block_address [OF assms(1,4,5)]
    unfolding assms(6) by (rule trans [OF sym])
  then show ?thesis by simp
qed

lemma address_to_block:
  assumes "heap_ok h" and "0 \<le> b" and "b < total_of h"
  shows "heap_address_to_block h (heap_block_to_address h b) = b"
proof -
  note off = uint_block_offset [OF assms]
  have lt: "uint (word_of_int (b * 4096) :: u32) < 2 ^ 31" unfolding off(1) by (rule off(2))
  have "sint (word_of_int (b * 4096) :: u32) = b * 4096"
    unfolding sint_small [OF lt] by (rule off(1))
  then have "heap_address_to_block h (heap_block_to_address h b) = (b * 4096) sdiv 4096"
    unfolding heap_address_to_block_def heap_block_to_address_def by (simp only: add_diff_cancel_left')
  also have "\<dots> = b" using assms by (simp add: sdiv_nonneg)
  finally show ?thesis .
qed

lemma heap_free_frame [simp]:
  "ht_total (hp_table (heap_free h p)) = ht_total (hp_table h)"
  "hp_saddr (heap_free h p) = hp_saddr h"
  by (simp_all add: heap_free_def heap_mark_blocks_free_def)

lemma heap_free_chain:
  assumes ok: "heap_ok h" and b: "0 \<le> b" "b < total_of h"
    and ch: "chain (entries_of h) b n" "b + n \<le> total_of h"
  shows "entries_of (heap_free h (heap_block_to_address h b)) j =
     (if b \<le> j \<and> j < b + n then 0 else entries_of h j)"
proof -
  have "sint (ht_total (hp_table h)) = total_of h"
    using ok by (intro sint_small) (simp add: heap_ok_def)
  then show ?thesis
    using mark_free_loop_chain [OF ch]
    by (simp add: heap_free_def heap_mark_blocks_free_def address_to_block [OF ok b])
qed

text \<open>The blocks that start an allocation, and the addresses handed out for them.\<close>

definition live_blocks :: "heap \<Rightarrow> int set" where
  "live_blocks h = {b. 0 \<le> b \<and> b < total_of h \<and> is_head (entries_of h b)}"

definition live :: "heap \<Rightarrow> u32 set" where
  "live h = heap_block_to_address h ` live_blocks h"

lemma live_blocks_taken:
  assumes "0 < n" and "fits (entries_of h) (total_of h) n s"
  shows "live_blocks (heap_mark_blocks_taken h s n) = insert s (live_blocks h)"
proof -
  have "\<not> is_head (entries_of h j)" if "s \<le> j" "j < s + n" for j
    using assms that head_not_free [of "entries_of h j"]
    by (auto simp: fits_def run_free_def block_free_def)
  moreover have "is_head (alloc_entry s n j) \<longleftrightarrow> j = s" for j
    by (simp add: alloc_entry_def)
  ultimately show ?thesis
    using assms by (auto simp: live_blocks_def mark_blocks_taken_entries fits_def)
qed

lemma block_to_address_frame [simp]:
  "heap_block_to_address (heap_mark_blocks_taken h s n) = heap_block_to_address h"
  "heap_block_to_address (heap_free h p) = heap_block_to_address h"
  by (rule ext; simp add: heap_block_to_address_def)+

lemma heap_free_live:
  assumes ok: "heap_ok h" and p: "p \<in> live h"
  shows "heap_ok (heap_free h p)" and "live (heap_free h p) = live h - {p}"
proof -
  from p obtain b where b: "0 \<le> b" "b < total_of h" "is_head (entries_of h b)"
    and p_eq: "p = heap_block_to_address h b"
    by (auto simp: live_def live_blocks_def)
  have tok: "table_ok (entries_of h) (total_of h)" using ok by (simp add: heap_ok_def)
  from chain_exists [OF tok b(1,2)] obtain n
    where n: "chain (entries_of h) b n" "b + n \<le> total_of h"
      "\<forall>k. b < k \<and> k < b + n \<longrightarrow> is_cont (entries_of h k)" by blast
  note e' = heap_free_chain [OF ok b(1,2) n(1,2)]
  show "heap_ok (heap_free h p)"
    using ok table_ok_free [OF tok b n e'] by (simp add: heap_ok_def p_eq)
  have "live_blocks (heap_free h p) = live_blocks h - {b}"
    using n b is_head_not_cont
    by (auto simp: live_blocks_def p_eq e' chain_def) (metis order_le_less)
  moreover have "inj_on (heap_block_to_address h) (live_blocks h)"
    by (auto intro!: inj_onI block_address_inj [OF ok] simp: live_blocks_def)
  ultimately show "live (heap_free h p) = live h - {p}"
    using b by (auto simp: live_def p_eq inj_on_def live_blocks_def)
qed

text \<open>Number of blocks \<open>heap_malloc\<close> asks for: the size rounded up, unless rounding wraps around.\<close>

lemma block_div_cases:
  fixes a :: int
  obtains q r where "a = 4096 * q + r" "0 \<le> r" "r < 4096" "a mod 4096 = r" "a div 4096 = q"
  by (rule that [of "a div 4096" "a mod 4096"]) auto

lemma round_up_aligned: "(a::int) mod 4096 = 0 \<Longrightarrow> (a + 4095) div 4096 = a div 4096"
  by (rule block_div_cases [of a]) auto

lemma round_up_unaligned:
  "(a::int) mod 4096 \<noteq> 0 \<Longrightarrow> (a + 4095) div 4096 = (a - a mod 4096 + 4096) div 4096"
proof (rule block_div_cases [of a])
  fix q r assume *: "a mod 4096 \<noteq> 0" "a = 4096 * q + r" "0 \<le> r" "r < 4096" "a mod 4096 = r" "a div 4096 = q"
  have "(a + 4095) div 4096 = (4096 * (q + 1) + (r - 1)) div 4096"
    using * by (simp add: algebra_simps)
  also have "\<dots> = q + 1 + (r - 1) div 4096" by (simp only: div_mult_self4)
  also have "\<dots> = q + 1" using * by simp
  also have "\<dots> = (a - a mod 4096 + 4096) div 4096" using * by simp
  finally show ?thesis .
qed

lemma round_up_bound:
  "(a::int) \<le> 4294963200 \<Longrightarrow> a mod 4096 \<noteq> 0 \<Longrightarrow> a - a mod 4096 + 4096 < 4294967296"
  by (rule block_div_cases [of a]) auto

lemma align_blocks:
  assumes "uint sz \<le> 2 ^ 32 - 4096"
  shows "uint (heap_align_value_to_upper sz div 4096) = (uint sz + 4095) div 4096"
proof (cases "uint sz mod 4096 = 0")
  case True
  then have "sz mod 4096 = 0" by (simp add: word_uint_eq_iff uint_mod)
  with True show ?thesis
    by (simp add: heap_align_value_to_upper_def uint_div round_up_aligned)
next
  case False
  then have ne: "sz mod 4096 \<noteq> 0" by (simp add: word_uint_eq_iff uint_mod)
  have m: "uint (sz mod 4096) = uint sz mod 4096" by (simp add: uint_mod)
  have sub: "uint (sz - sz mod 4096) = uint sz - uint sz mod 4096"
    by (subst uint_sub_no_wrap) (simp_all only: m zmod_le_nonneg_dividend uint_nonnegative)
  have "uint sz - uint sz mod 4096 + 4096 < 4294967296"
    using assms False by (intro round_up_bound) simp_all
  then have "uint (sz - sz mod 4096 + 4096) = uint sz - uint sz mod 4096 + 4096"
    by (subst uint_add_no_wrap) (simp_all add: sub)
  with ne False show ?thesis
    by (simp add: heap_align_value_to_upper_def uint_div round_up_unaligned)
qed

subsection \<open>The allocator contract\<close>

text \<open>
  What a client of the kernel heap relies on: an allocation is null or fresh, it changes nothing but
  the set of live addresses, and a release gives back exactly the address it is given.
\<close>

locale block_allocator =
  fixes alloc :: "'h \<Rightarrow> 'sz \<Rightarrow> 'p \<times> 'h"
    and release :: "'h \<Rightarrow> 'p \<Rightarrow> 'h"
    and owned :: "'h \<Rightarrow> 'p set"
    and ok :: "'h \<Rightarrow> bool"
    and small :: "'sz \<Rightarrow> bool"
    and null :: 'p
  assumes alloc_ok: "ok h \<Longrightarrow> small n \<Longrightarrow> ok (snd (alloc h n))"
    and alloc_fresh: "ok h \<Longrightarrow> small n \<Longrightarrow> fst (alloc h n) \<noteq> null \<Longrightarrow> fst (alloc h n) \<notin> owned h"
    and alloc_owned: "ok h \<Longrightarrow> small n \<Longrightarrow> fst (alloc h n) \<noteq> null \<Longrightarrow>
      owned (snd (alloc h n)) = insert (fst (alloc h n)) (owned h)"
    and alloc_null: "ok h \<Longrightarrow> small n \<Longrightarrow> fst (alloc h n) = null \<Longrightarrow> snd (alloc h n) = h"
    and null_not_owned: "ok h \<Longrightarrow> null \<notin> owned h"
    and release_ok: "ok h \<Longrightarrow> p \<in> owned h \<Longrightarrow> ok (release h p)"
    and release_owned: "ok h \<Longrightarrow> p \<in> owned h \<Longrightarrow> owned (release h p) = owned h - {p}"
begin

lemma alloc_mono:
  "ok h \<Longrightarrow> small n \<Longrightarrow> owned h \<subseteq> owned (snd (alloc h n))"
  using alloc_owned [of h n] alloc_null [of h n] by (cases "fst (alloc h n) = null") auto

lemma alloc_release:
  assumes "ok h" and "small n" and "fst (alloc h n) \<noteq> null"
  shows "owned (release (snd (alloc h n)) (fst (alloc h n))) = owned h"
  using alloc_owned [OF assms] alloc_fresh [OF assms] alloc_ok [OF assms(1,2)]
  by (simp add: release_owned)

lemma two_allocs_distinct:
  assumes "ok h" and "small n" and "small m"
    and "fst (alloc h n) \<noteq> null" and "fst (alloc (snd (alloc h n)) m) \<noteq> null"
  shows "fst (alloc h n) \<noteq> fst (alloc (snd (alloc h n)) m)"
proof -
  have "fst (alloc (snd (alloc h n)) m) \<notin> owned (snd (alloc h n))"
    using assms alloc_ok by (intro alloc_fresh) auto
  with assms show ?thesis by (auto simp: alloc_owned)
qed

end

text \<open>A request of at most one block either finds a first fit or there is no free block at all.\<close>

definition one_block :: "u32 \<Rightarrow> bool" where
  "one_block sz \<longleftrightarrow> 0 < uint sz \<and> uint sz \<le> 4096"

lemma one_block_count: "one_block sz \<Longrightarrow> heap_align_value_to_upper sz div 4096 = 1"
proof -
  assume *: "one_block sz"
  then have "uint (heap_align_value_to_upper sz div 4096) = (uint sz + 4095) div 4096"
    by (intro align_blocks) (simp add: one_block_def)
  also have "\<dots> = 1"
    using * by (intro int_div_pos_eq [of _ _ _ "uint sz - 1"]) (simp_all add: one_block_def)
  finally show ?thesis by (simp add: word_uint_eq_iff)
qed

lemma kmalloc_one_block:
  assumes ok: "heap_ok h" and sz: "one_block sz"
  obtains (fit) s where "first_fit (entries_of h) (total_of h) 1 s"
      "kmalloc h sz = (heap_block_to_address h s, heap_mark_blocks_taken h s 1)"
  | (full) "\<forall>s. \<not> fits (entries_of h) (total_of h) 1 s" "kmalloc h sz = (0, h)"
proof -
  have km: "kmalloc h sz = heap_malloc_blocks h 1"
    by (simp add: kmalloc_def heap_malloc_def one_block_count [OF sz])
  from heap_get_start_block_scan [of "1 :: u32" "heap_get_start_block h 1" h]
  consider "first_fit (entries_of h) (total_of h) 1 (heap_get_start_block h 1)"
    | "\<forall>s. \<not> fits (entries_of h) (total_of h) 1 s" "heap_get_start_block h 1 = - ENOMEM"
    by (auto simp: short_tail_def)
  then show thesis
  proof cases
    case 1
    with heap_malloc_blocks_fit [OF ok, of 1] km show ?thesis by (intro fit) auto
  next
    case 2
    with km show ?thesis by (intro full) (auto simp: heap_malloc_blocks_def ENOMEM_def)
  qed
qed

lemma live_mark_taken:
  assumes "0 < n" and "fits (entries_of h) (total_of h) n s"
  shows "live (heap_mark_blocks_taken h s n) = insert (heap_block_to_address h s) (live h)"
  using live_blocks_taken [OF assms] by (simp add: live_def)

lemma fits_not_live:
  assumes ok: "heap_ok h" and n: "0 < n" and fit: "fits (entries_of h) (total_of h) n s"
  shows "heap_block_to_address h s \<notin> live h"
proof
  assume "heap_block_to_address h s \<in> live h"
  then obtain b where b: "b \<in> live_blocks h" "heap_block_to_address h s = heap_block_to_address h b"
    by (auto simp: live_def)
  have "s = b"
    using b fit n by (intro block_address_inj [OF ok]) (auto simp: fits_def live_blocks_def)
  with b fit n show False
    using head_not_free [of "entries_of h b"]
    by (auto simp: fits_def run_free_def block_free_def live_blocks_def)
qed

lemma zero_not_live: "heap_ok h \<Longrightarrow> 0 \<notin> live h"
proof
  assume "heap_ok h" "0 \<in> live h"
  then obtain b where "0 \<le> b" "b < total_of h" "heap_block_to_address h b = 0"
    by (auto simp: live_def live_blocks_def)
  with \<open>heap_ok h\<close> show False using block_address_nonzero by blast
qed

interpretation kernel_allocator: block_allocator kmalloc kfree live heap_ok one_block 0
proof (unfold_locales, goal_cases)
  case (1 h n)
  from 1(1,2) show ?case
    by (cases rule: kmalloc_one_block)
      (use 1 in \<open>auto simp: first_fit_def fits_not_live [where n = 1] live_mark_taken intro: heap_ok_mark_taken\<close>)
next
  case (2 h n)
  from 2(1,2) show ?case
    by (cases rule: kmalloc_one_block)
      (use 2 in \<open>auto simp: first_fit_def fits_not_live [where n = 1] live_mark_taken intro: heap_ok_mark_taken\<close>)
next
  case (3 h n)
  from 3(1,2) show ?case
    by (cases rule: kmalloc_one_block)
      (use 3 in \<open>auto simp: first_fit_def fits_not_live [where n = 1] live_mark_taken intro: heap_ok_mark_taken\<close>)
next
  case (4 h n)
  from 4(1,2) show ?case
  proof (cases rule: kmalloc_one_block)
    case (fit s)
    then have "heap_block_to_address h s \<noteq> 0"
      using 4(1) by (intro block_address_nonzero) (auto simp: first_fit_def fits_def)
    with fit 4(3) show ?thesis by simp
  next
    case full
    then show ?thesis by simp
  qed
next
  case (5 h)
  then show ?case by (rule zero_not_live)
next
  case (6 h p)
  then show ?case by (simp add: kfree_def heap_free_live)
next
  case (7 h p)
  then show ?case by (simp add: kfree_def heap_free_live)
qed

subsection \<open>Initialisation\<close>

lemma kheap_init_eq:
  "kheap_init h =
     (0, \<lparr>hp_table = \<lparr>ht_entries = memset (entries_of h) 0 0 25600, ht_total = 25600\<rparr>,
          hp_saddr = PEACHOS_HEAP_ADDRESS\<rparr>)"
  by (simp add: kheap_init_def heap_create_def heap_validate_alignment_def
      heap_validate_table_def Let_def with_entries_def EINVARG_def)

lemma kheap_init_ok: "heap_ok (snd (kheap_init h))" and kheap_init_live: "live (snd (kheap_init h)) = {}"
  by (simp_all add: kheap_init_eq heap_ok_def table_ok_def entry_ok_def memset_apply live_def
      live_blocks_def)

subsection \<open>Properties\<close>

text \<open>The number of blocks for a request of \<open>sz\<close> bytes, \<open>\<lceil>sz / 4096\<rceil>\<close>.\<close>

definition blocks_for :: "u32 \<Rightarrow> int" where
  "blocks_for sz = (uint sz + 4095) div 4096"

lemma blocks_for_pos: "sz \<noteq> 0 \<Longrightarrow> 0 < blocks_for sz"
  using uint_pos [of sz] by (simp add: blocks_for_def pos_imp_zdiv_pos_iff)

lemma kmalloc_fit:
  assumes ok: "heap_ok h" and sz: "sz \<noteq> 0" "uint sz \<le> 2 ^ 32 - 4096"
    and fit: "first_fit (entries_of h) (total_of h) (blocks_for sz) s"
  shows "kmalloc h sz =
     (heap_block_to_address h s, heap_mark_blocks_taken h s (blocks_for sz))"
proof -
  define tb where "tb = heap_align_value_to_upper sz div 4096"
  have u: "uint tb = blocks_for sz"
    using sz(2) unfolding tb_def blocks_for_def by (rule align_blocks)
  with blocks_for_pos [OF sz(1)] have "tb \<noteq> 0" by auto
  with heap_malloc_blocks_fit [OF ok this, of s] fit u show ?thesis
    by (simp add: kmalloc_def heap_malloc_def tb_def)
qed

text \<open>
  Claim C4.  A request that fits somewhere in the table gets the lowest such place: \<open>kmalloc\<close>
  returns a non-null address that was not live, the heap stays well formed, exactly that address
  becomes live, and freeing it gives back the very heap the allocation started from.
\<close>

theorem kmalloc_kfree_roundtrip:
  assumes "heap_ok h" and "sz \<noteq> 0" and "uint sz \<le> 2 ^ 32 - 4096"
    and "first_fit (entries_of h) (total_of h) (blocks_for sz) s"
    and "kmalloc h sz = (p, h')"
  shows "p = heap_block_to_address h s \<and> p \<noteq> 0 \<and> p \<notin> live h \<and> heap_ok h' \<and>
    live h' = insert p (live h) \<and> kfree h' p = h"
proof -
  let ?n = "blocks_for sz"
  have n: "0 < ?n" using assms(2) by (rule blocks_for_pos)
  have fit: "fits (entries_of h) (total_of h) ?n s" using assms(4) by (simp add: first_fit_def)
  have s: "0 \<le> s" "s < total_of h" "s + ?n \<le> total_of h" using fit n by (auto simp: fits_def)
  have p: "p = heap_block_to_address h s" and h': "h' = heap_mark_blocks_taken h s ?n"
    using kmalloc_fit [OF assms(1-4)] assms(5) by auto
  have ok': "heap_ok h'" unfolding h' using assms(1) fit n by (rule heap_ok_mark_taken)
  have "chain (entries_of h') s ?n"
    using n by (intro chain_alloc) (simp_all add: h' mark_blocks_taken_entries)
  moreover have "entries_of h j = 0" if "s \<le> j" "j < s + ?n" for j
    using assms(1) fit that
    by (intro free_entry_zero [of _ "total_of h"]) (auto simp: heap_ok_def fits_def run_free_def)
  ultimately have "entries_of (heap_free h' p) j = entries_of h j" for j
    using heap_free_chain [OF ok', of s ?n j] s
    by (auto simp: p h' mark_blocks_taken_entries [OF n])
  then have "entries_of (heap_free h' p) = entries_of h" by (rule ext)
  then have "kfree h' p = h"
    by (simp add: kfree_def heap_free_def heap_mark_blocks_free_def h' heap_mark_blocks_taken_def
        Let_def)
  with ok' p s assms(1) fit n show ?thesis
    by (simp add: block_address_nonzero fits_not_live live_mark_taken h')
qed

text \<open>A pool of four blocks whose first block is allocated: the concrete heap of the witnesses.\<close>

definition demo_heap :: heap where
  "demo_heap = \<lparr>hp_table = \<lparr>ht_entries = (\<lambda>_. 0)(0 := 0x41), ht_total = 4\<rparr>,
                hp_saddr = 0x01000000\<rparr>"

lemma demo_heap_ok: "heap_ok demo_heap"
  by (auto simp: demo_heap_def heap_ok_def table_ok_def entry_ok_def)

lemma demo_heap_address: "heap_block_to_address demo_heap b = 0x01000000 + word_of_int (b * 4096)"
  by (simp add: heap_block_to_address_def demo_heap_def)

lemma demo_heap_fits: "fits (entries_of demo_heap) (total_of demo_heap) n s \<longleftrightarrow>
    0 \<le> s \<and> s + n \<le> 4 \<and> (s = 0 \<longrightarrow> n \<le> 0)"
  by (auto simp: demo_heap_def fits_def run_free_def block_free_def)

lemma demo_heap_first_fit: "1 \<le> n \<Longrightarrow> n \<le> 3 \<Longrightarrow>
    first_fit (entries_of demo_heap) (total_of demo_heap) n 1"
  by (auto simp: first_fit_def demo_heap_fits)

theorem kmalloc_kfree_roundtrip_witness:
  "\<exists>p h'. kmalloc demo_heap 5000 = (p, h') \<and> p = 0x01001000 \<and> p \<notin> live demo_heap \<and>
     kfree h' p = demo_heap"
proof -
  obtain p h' where r: "kmalloc demo_heap 5000 = (p, h')" by (cases "kmalloc demo_heap 5000")
  have "first_fit (entries_of demo_heap) (total_of demo_heap) (blocks_for 5000) 1"
    by (intro demo_heap_first_fit) (simp_all add: blocks_for_def)
  from kmalloc_kfree_roundtrip [OF demo_heap_ok _ _ this r] r show ?thesis
    by (auto simp: demo_heap_address)
qed

text \<open>
  What the scan of \<open>heap_get_start_block\<close> returns for a request of at least one block:
  the lowest run of free blocks that is long enough, if there is one; and if there is none,
  \<open>-ENOMEM\<close> or, when the table ends in a free run that is too short, the start of that run.
\<close>

theorem heap_get_start_block_spec:
  assumes "total_blocks \<noteq> 0"
  shows "if \<exists>s. fits (entries_of h) (total_of h) (uint total_blocks) s
     then first_fit (entries_of h) (total_of h) (uint total_blocks) (heap_get_start_block h total_blocks)
     else heap_get_start_block h total_blocks = - ENOMEM \<or>
          short_tail (entries_of h) (total_of h) (uint total_blocks) (heap_get_start_block h total_blocks)"
  using heap_get_start_block_scan [OF assms refl, of h] by (auto simp: first_fit_def)

theorem heap_get_start_block_spec_witness:
  "first_fit (entries_of demo_heap) (total_of demo_heap) 2 (heap_get_start_block demo_heap 2)"
proof -
  have "fits (entries_of demo_heap) (total_of demo_heap) 2 1" by (simp add: demo_heap_fits)
  then have "\<exists>s. fits (entries_of demo_heap) (total_of demo_heap) (uint (2 :: u32)) s"
    by (intro exI [of _ 1]) simp
  with heap_get_start_block_spec [of 2 demo_heap] show ?thesis by simp
qed

text \<open>
  Claim C23.  The short tail is not rejected.  When no run is long enough but the table ends in a free
  run that is too short, \<open>heap_malloc_blocks\<close> returns the non-null address of that run and writes
  table bytes beyond the last entry: the byte at index \<open>total\<close> becomes a continuation entry, and the
  pool handed out reaches beyond the end of the heap.
\<close>

theorem malloc_short_tail_overruns:
  assumes ok: "heap_ok h" and tb: "uint total_blocks < 2 ^ 31"
    and none: "\<not> (\<exists>s. fits (entries_of h) (total_of h) (uint total_blocks) s)"
    and tail: "short_tail (entries_of h) (total_of h) (uint total_blocks) s"
  shows "heap_get_start_block h total_blocks = s \<and>
     fst (heap_malloc_blocks h total_blocks) = heap_block_to_address h s \<and>
     heap_block_to_address h s \<noteq> 0 \<and>
     total_of h < s + uint total_blocks \<and>
     is_cont (entries_of (snd (heap_malloc_blocks h total_blocks)) (total_of h))"
proof -
  let ?n = "uint total_blocks" and ?r = "heap_get_start_block h total_blocks"
  have n: "0 < ?n" using tail by (auto simp: short_tail_def)
  then have tb0: "total_blocks \<noteq> 0" by auto
  have s: "0 \<le> s" "s < total_of h" "total_of h < s + ?n" using tail by (auto simp: short_tail_def)
  have free: "block_free (entries_of h) (total_of h - 1)"
    using tail by (auto simp: short_tail_def run_free_def)
  have tail_unique: "s = t" if "short_tail (entries_of h) (total_of h) ?n t" for t
  proof (rule ccontr)
    assume "s \<noteq> t"
    then have "s < t \<or> t < s" by linarith
    then show False
    proof
      assume "s < t"
      then have "block_free (entries_of h) (t - 1)"
        using that tail by (auto simp: short_tail_def intro!: run_freeD [of _ s "total_of h - s"])
      with that \<open>s < t\<close> s show False by (auto simp: short_tail_def)
    next
      assume "t < s"
      then have "block_free (entries_of h) (s - 1)"
        using that tail by (auto simp: short_tail_def intro!: run_freeD [of _ t "total_of h - t"])
      with that tail \<open>t < s\<close> show False by (auto simp: short_tail_def)
    qed
  qed
  have "?r = s"
  proof -
    consider "?r = - ENOMEM" | "short_tail (entries_of h) (total_of h) ?n ?r"
      using heap_get_start_block_scan [OF tb0 refl, of h] none by (auto simp: first_fit_def)
    then show ?thesis
    proof cases
      case 1
      have "scan_result (entries_of h) (total_of h) ?n
        (get_start_loop (entries_of h) (total_of h) total_blocks 0 0 (-1))"
        using n by (intro get_start_loop_result scan_inv_init) auto
      with 1 none free s show ?thesis
        by (auto simp: scan_result_def first_fit_def heap_get_start_block_def Let_def ENOMEM_def
            short_tail_def split: if_splits)
    next
      case 2
      then show ?thesis using tail_unique by simp
    qed
  qed
  moreover have "sint total_blocks = ?n" using tb by (rule sint_small)
  moreover have "heap_block_to_address h s \<noteq> 0" using ok s by (intro block_address_nonzero) auto
  ultimately show ?thesis
    using s n by (auto simp: heap_malloc_blocks_def mark_blocks_taken_entries alloc_entry_def)
qed

theorem malloc_short_tail_overruns_witness:
  "is_cont (entries_of (snd (heap_malloc_blocks demo_heap 4)) (total_of demo_heap))"
proof -
  have "short_tail (entries_of demo_heap) (total_of demo_heap) (uint (4 :: u32)) 1"
    by (auto simp: demo_heap_def short_tail_def run_free_def block_free_def)
  with malloc_short_tail_overruns [OF demo_heap_ok, of 4 1] show ?thesis
    by (simp add: demo_heap_fits)
qed

text \<open>With 0 blocks requested the counter never matches and the scan runs to the end.\<close>

lemma get_start_loop_zero:
  assumes "0 \<le> bc" and "bc + (tot - i) < 2 ^ 32" and "i \<le> tot" and "0 \<le> i"
    and "bs = -1 \<or> 0 \<le> bs \<and> bs < i" and "i = tot \<longrightarrow> bs \<noteq> -1"
    and "0 < tot" and "block_free e (tot - 1)"
  shows "0 \<le> get_start_loop e tot 0 i bc bs \<and> get_start_loop e tot 0 i bc bs < tot"
  using assms
proof (induction e tot "0 :: u32" i bc bs rule: get_start_loop.induct)
  case (1 e tot i bc bs)
  consider (stop) "i = tot" | (taken) "i < tot" "\<not> block_free e i" | (free) "i < tot" "block_free e i"
    using "1.prems" by linarith
  then show ?case
  proof cases
    case stop
    then have "get_start_loop e tot 0 i bc bs = bs" by (simp add: get_start_loop.simps)
    with stop "1.prems" show ?thesis by auto
  next
    case taken
    then have "i \<noteq> tot - 1" using "1.prems" by auto
    with taken have "get_start_loop e tot 0 i bc bs = get_start_loop e tot 0 (i + 1) 0 (-1)"
      by (subst get_start_loop.simps) (simp add: block_free_def)
    moreover have "0 \<le> get_start_loop e tot 0 (i + 1) 0 (-1) \<and> get_start_loop e tot 0 (i + 1) 0 (-1) < tot"
      using taken "1.prems" \<open>i \<noteq> tot - 1\<close> by (intro "1.hyps"(1)) (auto simp: block_free_def)
    ultimately show ?thesis by simp
  next
    case free
    define bs' where "bs' = (if bs = -1 then i else bs)"
    have "uint (word_of_int (bc + 1) :: u32) = bc + 1"
      using "1.prems" free by (intro uint_of_int_id) auto
    then have ne: "(word_of_int (bc + 1) :: u32) \<noteq> 0" using "1.prems" by auto
    with free have "get_start_loop e tot 0 i bc bs = get_start_loop e tot 0 (i + 1) (bc + 1) bs'"
      by (subst get_start_loop.simps) (simp add: block_free_def Let_def bs'_def)
    moreover have "0 \<le> get_start_loop e tot 0 (i + 1) (bc + 1) bs' \<and>
        get_start_loop e tot 0 (i + 1) (bc + 1) bs' < tot"
      using free "1.prems" ne
      by (intro "1.hyps"(2)) (auto simp: block_free_def bs'_def)
    ultimately show ?thesis by simp
  qed
qed

lemma start_block_zero:
  assumes "0 < total_of h" and "total_of h < 2 ^ 19" and "block_free (entries_of h) (total_of h - 1)"
  shows "0 \<le> heap_get_start_block h 0 \<and> heap_get_start_block h 0 < total_of h"
  using get_start_loop_zero [of 0 "total_of h" 0 "-1" "entries_of h"] assms
  by (auto simp: heap_get_start_block_def Let_def)

lemma align_degenerate:
  assumes "sz = 0 \<or> 2 ^ 32 - 4096 < uint sz"
  shows "heap_align_value_to_upper sz = 0"
proof (cases "sz = 0")
  case True
  then show ?thesis by (simp add: heap_align_value_to_upper_def)
next
  case False
  with assms have big: "2 ^ 32 - 4096 < uint sz" by simp
  have q: "uint sz div 4096 = 2 ^ 20 - 1" "uint sz mod 4096 = uint sz - (2 ^ 32 - 4096)"
    using big uint_lt2p [of sz] by (auto intro!: int_div_pos_eq int_mod_pos_eq)
  have ne: "sz mod 4096 \<noteq> 0" using q big by (simp add: word_uint_eq_iff uint_mod)
  have "uint (sz - sz mod 4096) = 2 ^ 32 - 4096"
    using q big by (subst uint_sub_no_wrap) (simp_all add: uint_mod)
  then have "sz - sz mod 4096 = 2 ^ 32 - 4096"
    by (simp add: word_uint_eq_iff)
  with ne show ?thesis by (simp add: heap_align_value_to_upper_def)
qed

text \<open>
  Sizes for which nothing is reserved: a request of 0 bytes, and (because rounding up
  wraps around) every request of more than \<open>2 ^ 32 - 4096\<close> bytes, leave the block table unchanged,
  yet return a non-null address whenever the last block of the pool is free.
\<close>

theorem kmalloc_degenerate_sizes:
  assumes "sz = 0 \<or> 2 ^ 32 - 4096 < uint sz"
  shows "snd (kmalloc h sz) = h \<and>
    (heap_ok h \<and> 0 < total_of h \<and> block_free (entries_of h) (total_of h - 1) \<longrightarrow>
       fst (kmalloc h sz) \<noteq> 0)"
proof -
  have km: "kmalloc h sz = heap_malloc_blocks h 0"
    using align_degenerate [OF assms] by (simp add: kmalloc_def heap_malloc_def)
  have "heap_mark_blocks_taken h s 0 = h" for s
    by (simp add: heap_mark_blocks_taken_def Let_def mark_taken_loop.simps)
  then have same: "snd (kmalloc h sz) = h" by (simp add: km heap_malloc_blocks_def Let_def)
  have "fst (kmalloc h sz) \<noteq> 0"
    if ok: "heap_ok h" and pos: "0 < total_of h" and free: "block_free (entries_of h) (total_of h - 1)"
  proof -
    let ?b = "heap_get_start_block h 0"
    have "0 \<le> ?b \<and> ?b < total_of h"
      using ok pos free by (intro start_block_zero) (auto simp: heap_ok_def)
    with ok show ?thesis
      using block_address_nonzero [OF ok, of ?b] by (auto simp: km heap_malloc_blocks_def Let_def)
  qed
  with same show ?thesis by blast
qed

theorem kmalloc_degenerate_sizes_witness:
  "snd (kmalloc demo_heap 0xFFFFFFFF) = demo_heap \<and> fst (kmalloc demo_heap 0xFFFFFFFF) \<noteq> 0"
proof -
  have "block_free (entries_of demo_heap) (total_of demo_heap - 1)" "0 < total_of demo_heap"
    by (simp_all add: demo_heap_def block_free_def)
  with kmalloc_degenerate_sizes [of "0xFFFFFFFF" demo_heap] demo_heap_ok show ?thesis by simp
qed

text \<open>
  Releasing a live address: the heap stays well formed, exactly that address stops being
  live, and no other allocation's blocks are touched.
\<close>

theorem kfree_live:
  assumes "heap_ok h" and "p \<in> live h"
  shows "heap_ok (kfree h p) \<and> live (kfree h p) = live h - {p}"
  using kernel_allocator.release_ok [OF assms] kernel_allocator.release_owned [OF assms] by simp

theorem kfree_live_witness:
  "live (kfree demo_heap 0x01000000) = live demo_heap - {0x01000000}"
proof -
  have "heap_block_to_address demo_heap 0 \<in> live demo_heap"
    unfolding live_def by (rule imageI) (simp add: live_blocks_def demo_heap_def)
  then have "0x01000000 \<in> live demo_heap" by (simp add: demo_heap_address)
  with kfree_live [OF demo_heap_ok] show ?thesis by blast
qed

text \<open>
  \<open>kheap_init\<close> succeeds whatever bytes lie in the table area: the alignment and size checks
  of \<open>heap_create\<close> pass, all 25600 blocks are free, and the heap is well formed with nothing live.
\<close>

theorem kheap_init_correct:
  "fst (kheap_init h) = PEACHOS_ALL_OK \<and> heap_ok (snd (kheap_init h)) \<and>
   live (snd (kheap_init h)) = {} \<and> total_of (snd (kheap_init h)) = 25600 \<and>
   run_free (entries_of (snd (kheap_init h))) 0 25600"
  by (simp add: kheap_init_ok kheap_init_live)
    (simp add: kheap_init_eq PEACHOS_ALL_OK_def run_free_def block_free_def memset_apply)

end
