(* ===== verification/Strings.thy ===== *)
theory Strings
  imports Memory
begin

text \<open>
  \<open>src/string/string.c\<close>: the kernel's C string functions, on byte memory.  \<open>cstr m p s\<close> says that
  \<open>p\<close> points to the NUL-terminated string whose bytes are \<open>s\<close>.  \<open>strlen\<close> runs until it finds a
  NUL, so it is a partial function; the other functions are bounded.
\<close>

subsection \<open>NUL-terminated strings\<close>

fun cstr :: "memory \<Rightarrow> int \<Rightarrow> u8 list \<Rightarrow> bool" where
  "cstr m p [] \<longleftrightarrow> m p = 0"
| "cstr m p (c # cs) \<longleftrightarrow> m p = c \<and> c \<noteq> 0 \<and> cstr m (p + 1) cs"

definition bytes :: "string \<Rightarrow> u8 list" where
  "bytes s = map of_char s"

lemma cstr_nth: "cstr m p s \<Longrightarrow> i < length s \<Longrightarrow> m (p + int i) = s ! i \<and> s ! i \<noteq> 0"
proof (induction s arbitrary: p i)
  case Nil
  then show ?case by simp
next
  case (Cons c cs)
  show ?case
  proof (cases i)
    case 0
    with Cons.prems show ?thesis by simp
  next
    case (Suc j)
    with Cons.prems have "m (p + 1 + int j) = cs ! j \<and> cs ! j \<noteq> 0"
      by (intro Cons.IH) auto
    with Suc show ?thesis by (simp add: algebra_simps)
  qed
qed

lemma cstr_end: "cstr m p s \<Longrightarrow> m (p + int (length s)) = 0"
proof (induction s arbitrary: p)
  case (Cons c cs)
  then have "m (p + 1 + int (length cs)) = 0" by simp
  then show ?case by (simp add: algebra_simps)
qed simp

lemma cstr_unique: "cstr m p s \<Longrightarrow> cstr m p t \<Longrightarrow> s = t"
proof (induction s arbitrary: p t)
  case Nil
  then show ?case by (cases t) auto
next
  case (Cons c cs)
  then show ?case by (cases t) auto
qed

subsection \<open>Lengths\<close>

(* src/src/string/string.c 5-9 strlen: loop *)
partial_function (option) strlen_loop :: "memory \<Rightarrow> int \<Rightarrow> int \<Rightarrow> int option" where
  "strlen_loop m ptr i = (if m ptr \<noteq> 0 then strlen_loop m (ptr + 1) (i + 1) else Some i)"

(* src/src/string/string.c 3-12 strlen *)
definition strlen :: "memory \<Rightarrow> int \<Rightarrow> int option" where
  "strlen m ptr = strlen_loop m ptr 0"

lemma strlen_loop_cstr: "cstr m p s \<Longrightarrow> strlen_loop m p i = Some (i + int (length s))"
proof (induction s arbitrary: p i)
  case Nil
  then show ?case by (simp add: strlen_loop.simps)
next
  case (Cons c cs)
  then have "strlen_loop m p i = strlen_loop m (p + 1) (i + 1)"
    by (subst strlen_loop.simps) simp
  with Cons show ?case by simp
qed

lemma strlen_cstr: "cstr m p s \<Longrightarrow> strlen m p = Some (int (length s))"
  by (simp add: strlen_def strlen_loop_cstr)

(* src/src/string/string.c 16-19 strnlen: loop *)
function strnlen_loop :: "memory \<Rightarrow> int \<Rightarrow> int \<Rightarrow> int \<Rightarrow> int" where
  "strnlen_loop m ptr limit i =
     (if i < limit then (if m (ptr + i) = 0 then i else strnlen_loop m ptr limit (i + 1)) else i)"
  by pat_completeness auto
termination
  by (relation "measure (\<lambda>(m, ptr, limit, i). nat (limit - i))") auto

declare strnlen_loop.simps [simp del]

(* src/src/string/string.c 14-22 strnlen *)
definition strnlen :: "memory \<Rightarrow> int \<Rightarrow> int \<Rightarrow> int" where
  "strnlen m ptr limit = strnlen_loop m ptr limit 0"

lemma strnlen_loop_cstr:
  assumes "cstr m p s" and "0 \<le> i" and "i \<le> int (length s)" and "i \<le> limit"
  shows "strnlen_loop m p limit i = min limit (int (length s))"
  using assms
proof (induction m p limit i rule: strnlen_loop.induct)
  case (1 m ptr limit i)
  consider "i = limit" | "i < limit" "i = int (length s)" | "i < limit" "i < int (length s)"
    using "1.prems" by linarith
  then show ?case
  proof cases
    case 1
    with \<open>i \<le> int (length s)\<close> show ?thesis by (simp add: strnlen_loop.simps)
  next
    case 2
    with \<open>cstr m ptr s\<close> show ?thesis
      by (subst strnlen_loop.simps) (simp add: cstr_end)
  next
    case 3
    with \<open>0 \<le> i\<close> have "m (ptr + i) \<noteq> 0"
      using cstr_nth [OF \<open>cstr m ptr s\<close>, of "nat i"] by auto
    with 3 "1.prems" "1.IH" show ?thesis
      by (simp add: strnlen_loop.simps [of m ptr limit i])
  qed
qed

lemma strnlen_cstr: "cstr m p s \<Longrightarrow> 0 \<le> limit \<Longrightarrow> strnlen m p limit = min limit (int (length s))"
  by (simp add: strnlen_def strnlen_loop_cstr)

subsection \<open>Copying\<close>

(* src/src/string/string.c 26-32 strcpy: loop *)
partial_function (option) strcpy :: "memory \<Rightarrow> int \<Rightarrow> int \<Rightarrow> memory option" where
  "strcpy m dest src =
     (if m src \<noteq> 0 then strcpy (m(dest := m src)) (dest + 1) (src + 1)
      else Some (m(dest := 0)))"

(* src/src/string/string.c 38-44 strncpy: loop *)
function strncpy_loop :: "memory \<Rightarrow> int \<Rightarrow> int \<Rightarrow> int \<Rightarrow> int \<Rightarrow> memory" where
  "strncpy_loop m dest src count i =
     (if i < count - 1 \<and> m (src + i) \<noteq> 0
      then strncpy_loop (m(dest + i := m (src + i))) dest src count (i + 1)
      else m(dest + i := 0))"
  by pat_completeness auto
termination
  by (relation "measure (\<lambda>(m, dest, src, count, i). nat (count - 1 - i))") auto

declare strncpy_loop.simps [simp del]

(* src/src/string/string.c 36-46 strncpy *)
definition strncpy :: "memory \<Rightarrow> int \<Rightarrow> int \<Rightarrow> int \<Rightarrow> memory" where
  "strncpy m dest src count = strncpy_loop m dest src count 0"

subsection \<open>Characters\<close>

text \<open>Parameters of type \<open>char\<close> are signed bytes.\<close>

(* src/src/string/string.c 48-54 tolower *)
definition tolower :: "u8 \<Rightarrow> u8" where
  "tolower s1 = (if 65 \<le> sint s1 \<and> sint s1 \<le> 90 then s1 + 32 else s1)"

(* src/src/string/string.c 94-96 isdigit *)
definition isdigit :: "u8 \<Rightarrow> bool" where
  "isdigit c \<longleftrightarrow> 48 \<le> sint c \<and> sint c \<le> 57"

(* src/src/string/string.c 98-100 tonumericdigit *)
definition tonumericdigit :: "u8 \<Rightarrow> int" where
  "tonumericdigit c = sint c - 48"

text \<open>\<open>digits\<close> is a 17-byte array (the terminating NUL included); an index beyond it is \<open>None\<close>.\<close>

(* src/src/string/string.c 102-105 gethexchar *)
definition gethexchar :: "u32 \<Rightarrow> u8 option" where
  "gethexchar value =
     (let digits = bytes ''0123456789ABCDEF'' @ [0]
      in if unat value < length digits then Some (digits ! unat value) else None)"

subsection \<open>Comparing\<close>

text \<open>The two strings may lie in different memories: a literal or a buffer on the stack has its own.\<close>

(* src/src/string/string.c 56-70 strncmp *)
function strncmp :: "memory \<Rightarrow> int \<Rightarrow> memory \<Rightarrow> int \<Rightarrow> int \<Rightarrow> int" where
  "strncmp m1 str1 m2 str2 n =
     (if n > 0 then
        let u1 = m1 str1; u2 = m2 str2
        in if u1 \<noteq> u2 then uint u1 - uint u2
           else if u1 = 0 then 0
           else strncmp m1 (str1 + 1) m2 (str2 + 1) (n - 1)
      else 0)"
  by pat_completeness auto
termination
  by (relation "measure (\<lambda>(m1, str1, m2, str2, n). nat n)") auto

declare strncmp.simps [simp del]

(* src/src/string/string.c 72-83 istrncmp *)
function istrncmp :: "memory \<Rightarrow> int \<Rightarrow> memory \<Rightarrow> int \<Rightarrow> int \<Rightarrow> int" where
  "istrncmp m1 s1 m2 s2 n =
     (if n > 0 then
        let u1 = m1 s1; u2 = m2 s2
        in if u1 \<noteq> u2 \<and> tolower u1 \<noteq> tolower u2 then uint u1 - uint u2
           else if u1 = 0 then 0
           else istrncmp m1 (s1 + 1) m2 (s2 + 1) (n - 1)
      else 0)"
  by pat_completeness auto
termination
  by (relation "measure (\<lambda>(m1, s1, m2, s2, n). nat n)") auto

declare istrncmp.simps [simp del]

end
