(* ===== verification/Terminal.thy ===== *)
theory Terminal
  imports Strings
begin

text \<open>
  The text console of \<open>src/kernel.c\<close>: \<open>terminal_writechar\<close> and the print functions above it.  The
  state is the video memory (16-bit cells, indexed from the start of the buffer; an index outside
  the 80 x 25 screen is memory after it) and the cursor.  C strings are the character lists of the
  literals; a \<open>print\<close> loop runs over the characters before the NUL.
\<close>

abbreviation VGA_WIDTH :: int where "VGA_WIDTH \<equiv> 80"
abbreviation VGA_HEIGHT :: int where "VGA_HEIGHT \<equiv> 20"

(* src/src/kernel.c 36-38 video_mem, terminal_row, terminal_col *)
record terminal =
  video_mem :: "int \<Rightarrow> u16"
  terminal_row :: u16
  terminal_col :: u16

(* src/src/kernel.c 43-45 terminal_make_char *)
definition terminal_make_char :: "u8 \<Rightarrow> u8 \<Rightarrow> u16" where
  "terminal_make_char c colour = push_bit 8 (scast colour) OR scast c"

(* src/src/kernel.c 47-49 terminal_putchar *)
definition terminal_putchar :: "int \<Rightarrow> int \<Rightarrow> u8 \<Rightarrow> u8 \<Rightarrow> terminal \<Rightarrow> terminal" where
  "terminal_putchar x y c colour t =
     t\<lparr>video_mem := (video_mem t)((y * VGA_WIDTH) + x := terminal_make_char c colour)\<rparr>"

(* src/src/kernel.c 53-57 terminal_writechar: clearing loop *)
function clear_line_loop :: "int \<Rightarrow> terminal \<Rightarrow> terminal" where
  "clear_line_loop temp_col t =
     (if temp_col \<le> VGA_WIDTH
      then clear_line_loop (temp_col + 1)
             (terminal_putchar temp_col (uint (terminal_row t)) (of_char CHR '' '') 0 t)
      else t)"
  by pat_completeness auto
termination
  by (relation "measure (\<lambda>(temp_col, t). nat (VGA_WIDTH + 1 - temp_col))") auto

declare clear_line_loop.simps [simp del]

(* src/src/kernel.c 51-67 terminal_writechar *)
definition terminal_writechar :: "u8 \<Rightarrow> u8 \<Rightarrow> terminal \<Rightarrow> terminal" where
  "terminal_writechar c colour t =
     (if c = of_char CHR 0x0A then
        let t = clear_line_loop (uint (terminal_col t)) t
        in t\<lparr>terminal_row := terminal_row t + 1, terminal_col := 0\<rparr>
      else
        let t = terminal_putchar (uint (terminal_col t)) (uint (terminal_row t)) c colour t;
            t = t\<lparr>terminal_col := terminal_col t + 1\<rparr>
        in if VGA_WIDTH \<le> uint (terminal_col t)
           then t\<lparr>terminal_col := 0, terminal_row := terminal_row t + 1\<rparr> else t)"

(* src/src/kernel.c 69-72 reset_terminal *)
definition reset_terminal :: "terminal \<Rightarrow> terminal" where
  "reset_terminal t = t\<lparr>terminal_row := 0, terminal_col := 0\<rparr>"

(* src/src/kernel.c 74-83 terminal_initialize *)
definition terminal_initialize :: "terminal \<Rightarrow> terminal" where
  "terminal_initialize t =
     fold (\<lambda>y t. fold (\<lambda>x t. terminal_putchar x y (of_char CHR '' '') 0 t) [0 .. VGA_WIDTH - 1] t)
       [0 .. VGA_HEIGHT - 1] (t\<lparr>terminal_row := 0, terminal_col := 0\<rparr>)"

(* src/src/kernel.c 85-90 print *)
definition print :: "string \<Rightarrow> terminal \<Rightarrow> terminal" where
  "print str t = fold (\<lambda>c t. terminal_writechar (of_char c) 15 t) str t"

(* src/src/kernel.c 92-96 print_spaces *)
definition print_spaces :: "int \<Rightarrow> terminal \<Rightarrow> terminal" where
  "print_spaces num_spaces t = (print '' '' ^^ nat num_spaces) t"

text \<open>\<open>gethexchar\<close> of a nibble is inside its array.\<close>

definition hexchar :: "u8 \<Rightarrow> u8" where
  "hexchar v = the (gethexchar (ucast v))"

(* src/src/kernel.c 115-118 print_hex8 *)
definition print_hex8 :: "u8 \<Rightarrow> terminal \<Rightarrow> terminal" where
  "print_hex8 v t = terminal_writechar (hexchar (v AND 0xF)) 15 (terminal_writechar (hexchar (drop_bit 4 v)) 15 t)"

(* src/src/kernel.c 120-123 print_hex16 *)
definition print_hex16 :: "u16 \<Rightarrow> terminal \<Rightarrow> terminal" where
  "print_hex16 v t = print_hex8 (ucast (v AND 0xFF)) (print_hex8 (ucast (drop_bit 8 v AND 0xFF)) t)"

(* src/src/kernel.c 98-104 print_hexdump *)
definition print_hexdump :: "memory \<Rightarrow> int \<Rightarrow> int \<Rightarrow> terminal \<Rightarrow> terminal" where
  "print_hexdump m data sz t =
     fold (\<lambda>i t. let byte = m (data + i)
              in terminal_writechar (hexchar (byte AND 0xF)) 15
                   (terminal_writechar (hexchar (drop_bit 4 byte)) 15 t))
       [0 .. sz] t"

text \<open>
  The digit loop of \<open>print_decimal\<close>, least significant digit first.  The digits go to an array of
  8 bytes on the stack; a value with more digits is \<open>None\<close>.
\<close>

(* src/src/kernel.c 134-137 print_decimal: digit loop *)
function decimal_digits :: "int \<Rightarrow> u8 list" where
  "decimal_digits value =
     (if value > 0 then (word_of_int (value smod 10) + of_char CHR ''0'') # decimal_digits (value sdiv 10)
      else [])"
  by pat_completeness auto
termination
  by (relation "measure nat") (auto simp: sdiv_nonneg)

declare decimal_digits.simps [simp del]

(* src/src/kernel.c 125-142 print_decimal *)
definition print_decimal :: "int \<Rightarrow> terminal \<Rightarrow> terminal option" where
  "print_decimal value t =
     (if value = 0 then Some (terminal_writechar (of_char CHR ''0'') 15 t)
      else
        let digits = decimal_digits value
        in if length digits > 8 then None
           else Some (fold (\<lambda>d t. terminal_writechar d 15 t) (rev digits) t))"

(* src/src/kernel.c 144-151 print_binary *)
definition print_binary :: "u8 \<Rightarrow> terminal \<Rightarrow> terminal" where
  "print_binary value t =
     fold (\<lambda>i t. terminal_writechar
              (if value AND drop_bit i 0x80 \<noteq> 0 then of_char CHR ''1'' else of_char CHR ''0'') 15 t)
       [0 ..< 8] t"

end
