(* ===== verification/OpcodeTable.thy ===== *)
theory OpcodeTable
  imports Prelude
begin

text \<open>
  \<open>src/emulator/CPU/opcode_table.h\<close> and \<open>opcode_table.c\<close>: the 256-entry table that gives, for every
  opcode byte, its mnemonic, addressing mode, length, base cycle count and the register and memory
  accesses the debug build checks.  The table is written as the two halves of the C array, row by
  row; the lemmas read single columns of it.
\<close>

(* src/src/emulator/CPU/opcode_table.h 9-25 ADDRESSING_MODE *)
datatype addressing_mode =
    ADDR_IMPLIED
  | ADDR_ACCUMULATOR
  | ADDR_IMMEDIATE
  | ADDR_ABSOLUTE
  | ADDR_ZERO_PAGE
  | ADDR_ABSOLUTE_X
  | ADDR_ABSOLUTE_Y
  | ADDR_ZERO_PAGE_X
  | ADDR_ZERO_PAGE_Y
  | ADDR_INDIRECT_X
  | ADDR_INDIRECT_Y
  | ADDR_ABS_INDIRECT
  | ADDR_RELATIVE
  | MODE_UNKNOWN

abbreviation REG_STATUS :: u8 where "REG_STATUS \<equiv> 0x01"
abbreviation REG_STACK :: u8 where "REG_STACK \<equiv> 0x02"
abbreviation REG_Y :: u8 where "REG_Y \<equiv> 0x04"
abbreviation REG_X :: u8 where "REG_X \<equiv> 0x08"
abbreviation REG_A :: u8 where "REG_A \<equiv> 0x10"

(* src/src/emulator/CPU/opcode_table.h 34-44 opcode_entry *)
record opcode_entry =
  oe_opcode :: u8
  oe_mnemonic :: string
  oe_addr_mode :: addressing_mode
  oe_num_bytes :: u8
  oe_cycles :: u8
  oe_reg_read_bitflag :: u8
  oe_reg_write_bitflag :: u8
  oe_reads_mem :: bool
  oe_writes_mem :: bool

abbreviation row ::
  "u8 \<Rightarrow> string \<Rightarrow> addressing_mode \<Rightarrow> u8 \<Rightarrow> u8 \<Rightarrow> u8 \<Rightarrow> u8 \<Rightarrow> bool \<Rightarrow> bool \<Rightarrow> opcode_entry" where
  "row opc mn md n cy r w rm wm \<equiv>
     \<lparr>oe_opcode = opc, oe_mnemonic = mn, oe_addr_mode = md, oe_num_bytes = n, oe_cycles = cy,
      oe_reg_read_bitflag = r, oe_reg_write_bitflag = w, oe_reads_mem = rm, oe_writes_mem = wm\<rparr>"

(* src/src/emulator/CPU/opcode_table.c 9-136 opcode_table: first half *)
definition opcode_table_lo :: "opcode_entry list" where
  "opcode_table_lo = [
    row 0x00 ''BRK'' MODE_UNKNOWN 1 7 0x03 0x02 True True,
    row 0x01 ''ORA'' ADDR_INDIRECT_X 2 6 0x10 0x01 True False,
    row 0x02 ''STP'' MODE_UNKNOWN 1 2 0x00 0x00 False False,
    row 0x03 ''SLO'' ADDR_INDIRECT_X 2 8 0x10 0x01 True True,
    row 0x04 ''NOP'' ADDR_ZERO_PAGE 2 3 0x00 0x00 True False,
    row 0x05 ''ORA'' ADDR_ZERO_PAGE 2 3 0x10 0x11 True False,
    row 0x06 ''ASL'' ADDR_ZERO_PAGE 2 5 0x00 0x01 True True,
    row 0x07 ''SLO'' ADDR_ZERO_PAGE 2 5 0x10 0x11 True True,
    row 0x08 ''PHP'' MODE_UNKNOWN 1 3 0x03 0x02 False True,
    row 0x09 ''ORA'' ADDR_IMMEDIATE 2 2 0x00 0x11 False False,
    row 0x0A ''ASL'' MODE_UNKNOWN 1 2 0x10 0x11 False False,
    row 0x0B ''ANC'' ADDR_IMMEDIATE 2 2 0x10 0x01 False False,
    row 0x0C ''NOP'' ADDR_ABSOLUTE 3 4 0x00 0x00 True False,
    row 0x0D ''ORA'' ADDR_ABSOLUTE 3 4 0x10 0x11 True False,
    row 0x0E ''ASL'' ADDR_ABSOLUTE 3 6 0x00 0x01 True True,
    row 0x0F ''SLO'' ADDR_ABSOLUTE 3 6 0x10 0x11 True True,
    row 0x10 ''BPL'' ADDR_RELATIVE 2 2 0x01 0x00 False False,
    row 0x11 ''ORA'' ADDR_INDIRECT_Y 2 5 0x10 0x01 True False,
    row 0x12 ''KIL'' MODE_UNKNOWN 1 0 0x00 0x00 False False,
    row 0x13 ''SLO'' ADDR_INDIRECT_Y 2 8 0x10 0x01 True True,
    row 0x14 ''NOP'' ADDR_ZERO_PAGE_X 2 4 0x00 0x00 True False,
    row 0x15 ''ORA'' ADDR_ZERO_PAGE_X 2 4 0x10 0x11 True False,
    row 0x16 ''ASL'' ADDR_ZERO_PAGE_X 2 6 0x00 0x01 True True,
    row 0x17 ''SLO'' ADDR_ZERO_PAGE_X 2 6 0x10 0x11 True True,
    row 0x18 ''CLC'' ADDR_IMPLIED 1 2 0x00 0x01 False False,
    row 0x19 ''ORA'' ADDR_ABSOLUTE_Y 3 4 0x10 0x11 True False,
    row 0x1A ''NOP'' ADDR_IMPLIED 1 2 0x00 0x00 False False,
    row 0x1B ''SLO'' ADDR_ABSOLUTE_Y 3 7 0x10 0x11 True True,
    row 0x1C ''NOP'' ADDR_ABSOLUTE_X 3 4 0x00 0x00 True False,
    row 0x1D ''ORA'' ADDR_ABSOLUTE_X 3 4 0x10 0x11 True False,
    row 0x1E ''ASL'' ADDR_ABSOLUTE_X 3 7 0x00 0x01 True True,
    row 0x1F ''SLO'' ADDR_ABSOLUTE_X 3 7 0x10 0x11 True True,
    row 0x20 ''JSR'' ADDR_ABSOLUTE 3 6 0x02 0x02 False True,
    row 0x21 ''AND'' ADDR_INDIRECT_X 2 6 0x00 0x11 True False,
    row 0x22 ''KIL'' MODE_UNKNOWN 1 0 0x00 0x00 False False,
    row 0x23 ''RLA'' ADDR_INDIRECT_X 2 8 0x01 0x11 True True,
    row 0x24 ''BIT'' ADDR_ZERO_PAGE 2 3 0x10 0x01 True False,
    row 0x25 ''AND'' ADDR_ZERO_PAGE 2 3 0x10 0x11 True False,
    row 0x26 ''ROL'' ADDR_ZERO_PAGE 2 5 0x01 0x01 True True,
    row 0x27 ''RLA'' ADDR_ZERO_PAGE 2 5 0x11 0x11 True True,
    row 0x28 ''PLP'' MODE_UNKNOWN 1 4 0x02 0x03 False False,
    row 0x29 ''AND'' ADDR_IMMEDIATE 2 2 0x10 0x11 False False,
    row 0x2A ''ROL'' ADDR_ACCUMULATOR 1 2 0x11 0x11 False False,
    row 0x2B ''ANC'' ADDR_IMMEDIATE 2 2 0x10 0x01 False False,
    row 0x2C ''BIT'' ADDR_ABSOLUTE 3 4 0x10 0x01 True False,
    row 0x2D ''AND'' ADDR_ABSOLUTE 3 4 0x10 0x11 True False,
    row 0x2E ''ROL'' ADDR_ABSOLUTE 3 6 0x01 0x01 True True,
    row 0x2F ''RLA'' ADDR_ABSOLUTE 3 6 0x11 0x11 True True,
    row 0x30 ''BMI'' ADDR_RELATIVE 2 2 0x01 0x00 False False,
    row 0x31 ''AND'' ADDR_INDIRECT_Y 2 5 0x00 0x11 True False,
    row 0x32 ''KIL'' MODE_UNKNOWN 1 0 0x00 0x00 False False,
    row 0x33 ''RLA'' ADDR_INDIRECT_Y 2 8 0x01 0x11 True True,
    row 0x34 ''NOP'' ADDR_ZERO_PAGE_X 2 4 0x00 0x00 True False,
    row 0x35 ''AND'' ADDR_ZERO_PAGE_X 2 4 0x10 0x11 True False,
    row 0x36 ''ROL'' ADDR_ZERO_PAGE_X 2 6 0x01 0x01 True True,
    row 0x37 ''RLA'' ADDR_ZERO_PAGE_X 2 6 0x11 0x11 True True,
    row 0x38 ''SEC'' ADDR_IMPLIED 1 2 0x00 0x01 False False,
    row 0x39 ''AND'' ADDR_ABSOLUTE_Y 3 4 0x10 0x11 True False,
    row 0x3A ''NOP'' ADDR_IMPLIED 1 2 0x00 0x00 False False,
    row 0x3B ''RLA'' ADDR_ABSOLUTE_Y 3 7 0x11 0x11 True True,
    row 0x3C ''NOP'' ADDR_ABSOLUTE_X 3 4 0x00 0x00 True False,
    row 0x3D ''AND'' ADDR_ABSOLUTE_X 3 4 0x10 0x11 True False,
    row 0x3E ''ROL'' ADDR_ABSOLUTE_X 3 7 0x01 0x01 True True,
    row 0x3F ''RLA'' ADDR_ABSOLUTE_X 3 7 0x11 0x11 True True,
    row 0x40 ''RTI'' ADDR_IMPLIED 1 6 0x02 0x03 False False,
    row 0x41 ''EOR'' ADDR_INDIRECT_X 2 6 0x10 0x01 True False,
    row 0x42 ''KIL'' MODE_UNKNOWN 1 0 0x00 0x00 False False,
    row 0x43 ''SRE'' ADDR_INDIRECT_X 2 8 0x10 0x01 True True,
    row 0x44 ''NOP'' ADDR_ZERO_PAGE 2 3 0x00 0x00 True False,
    row 0x45 ''EOR'' ADDR_ZERO_PAGE 2 3 0x10 0x11 True False,
    row 0x46 ''LSR'' ADDR_ZERO_PAGE 2 5 0x00 0x01 True True,
    row 0x47 ''SRE'' ADDR_ZERO_PAGE 2 5 0x10 0x11 True True,
    row 0x48 ''PHA'' ADDR_IMPLIED 1 3 0x12 0x02 False True,
    row 0x49 ''EOR'' ADDR_IMMEDIATE 2 2 0x10 0x11 False False,
    row 0x4A ''LSR'' ADDR_ACCUMULATOR 1 2 0x10 0x11 False False,
    row 0x4B ''ALR'' ADDR_IMMEDIATE 2 2 0x10 0x11 False False,
    row 0x4C ''JMP'' ADDR_ABSOLUTE 3 3 0x00 0x00 False False,
    row 0x4D ''EOR'' ADDR_ABSOLUTE 3 4 0x10 0x11 True False,
    row 0x4E ''LSR'' ADDR_ABSOLUTE 3 6 0x00 0x01 True True,
    row 0x4F ''SRE'' ADDR_ABSOLUTE 3 6 0x10 0x11 True True,
    row 0x50 ''BVC'' ADDR_RELATIVE 2 3 0x01 0x00 False False,
    row 0x51 ''EOR'' ADDR_INDIRECT_Y 2 5 0x10 0x01 True False,
    row 0x52 ''KIL'' MODE_UNKNOWN 1 0 0x00 0x00 False False,
    row 0x53 ''SRE'' ADDR_INDIRECT_Y 2 8 0x10 0x01 True True,
    row 0x54 ''NOP'' ADDR_ZERO_PAGE_X 2 4 0x00 0x00 True False,
    row 0x55 ''EOR'' ADDR_ZERO_PAGE_X 2 4 0x10 0x11 True False,
    row 0x56 ''LSR'' ADDR_ZERO_PAGE_X 2 6 0x00 0x01 True True,
    row 0x57 ''SRE'' ADDR_ZERO_PAGE_X 2 6 0x10 0x11 True True,
    row 0x58 ''CLI'' ADDR_IMPLIED 1 2 0x00 0x01 False False,
    row 0x59 ''EOR'' ADDR_ABSOLUTE_Y 3 4 0x10 0x11 True False,
    row 0x5A ''NOP'' ADDR_IMPLIED 1 2 0x00 0x00 False False,
    row 0x5B ''SRE'' ADDR_ABSOLUTE_Y 3 7 0x10 0x11 True True,
    row 0x5C ''NOP'' ADDR_ABSOLUTE_X 3 4 0x00 0x00 True False,
    row 0x5D ''EOR'' ADDR_ABSOLUTE_X 3 4 0x10 0x11 True False,
    row 0x5E ''LSR'' ADDR_ABSOLUTE_X 3 7 0x00 0x01 True True,
    row 0x5F ''SRE'' ADDR_ABSOLUTE_X 3 7 0x10 0x11 True True,
    row 0x60 ''RTS'' ADDR_IMPLIED 1 6 0x02 0x02 False False,
    row 0x61 ''ADC'' ADDR_INDIRECT_X 2 6 0x11 0x11 True False,
    row 0x62 ''KIL'' MODE_UNKNOWN 1 0 0x00 0x00 False False,
    row 0x63 ''RRA'' ADDR_INDIRECT_X 2 8 0x11 0x11 True True,
    row 0x64 ''NOP'' ADDR_ZERO_PAGE 2 3 0x00 0x00 True False,
    row 0x65 ''ADC'' ADDR_ZERO_PAGE 2 3 0x11 0x11 True False,
    row 0x66 ''ROR'' ADDR_ZERO_PAGE 2 5 0x01 0x01 True True,
    row 0x67 ''RRA'' ADDR_ZERO_PAGE 2 5 0x11 0x11 True True,
    row 0x68 ''PLA'' ADDR_IMPLIED 1 4 0x02 0x13 False False,
    row 0x69 ''ADC'' ADDR_IMMEDIATE 2 2 0x11 0x11 False False,
    row 0x6A ''ROR'' ADDR_ACCUMULATOR 1 2 0x11 0x11 False False,
    row 0x6B ''ARR'' ADDR_IMMEDIATE 2 2 0x11 0x11 False False,
    row 0x6C ''JMP'' ADDR_ABS_INDIRECT 3 5 0x00 0x00 False False,
    row 0x6D ''ADC'' ADDR_ABSOLUTE 3 4 0x11 0x11 True False,
    row 0x6E ''ROR'' ADDR_ABSOLUTE 3 6 0x01 0x01 True True,
    row 0x6F ''RRA'' ADDR_ABSOLUTE 3 6 0x11 0x11 True True,
    row 0x70 ''BVS'' ADDR_RELATIVE 2 2 0x01 0x00 False False,
    row 0x71 ''ADC'' ADDR_INDIRECT_Y 2 5 0x11 0x11 True False,
    row 0x72 ''KIL'' MODE_UNKNOWN 1 0 0x00 0x00 False False,
    row 0x73 ''RRA'' ADDR_INDIRECT_Y 2 8 0x11 0x11 True True,
    row 0x74 ''NOP'' ADDR_ZERO_PAGE_X 2 4 0x00 0x00 True False,
    row 0x75 ''ADC'' ADDR_ZERO_PAGE_X 2 4 0x19 0x11 True False,
    row 0x76 ''ROR'' ADDR_ZERO_PAGE_X 2 6 0x01 0x01 True True,
    row 0x77 ''RRA'' ADDR_ZERO_PAGE_X 2 6 0x11 0x11 True True,
    row 0x78 ''SEI'' ADDR_IMPLIED 1 2 0x00 0x01 False False,
    row 0x79 ''ADC'' ADDR_ABSOLUTE_Y 3 4 0x11 0x11 True False,
    row 0x7A ''NOP'' ADDR_IMPLIED 1 2 0x00 0x00 False False,
    row 0x7B ''RRA'' ADDR_ABSOLUTE_Y 3 7 0x11 0x11 True True,
    row 0x7C ''NOP'' ADDR_ABSOLUTE_X 3 4 0x00 0x00 True False,
    row 0x7D ''ADC'' ADDR_ABSOLUTE_X 3 4 0x11 0x11 True False,
    row 0x7E ''ROR'' ADDR_ABSOLUTE_X 3 7 0x01 0x01 True True,
    row 0x7F ''RRA'' ADDR_ABSOLUTE_X 3 7 0x11 0x11 True True]"

(* src/src/emulator/CPU/opcode_table.c 137-264 opcode_table: second half *)
definition opcode_table_hi :: "opcode_entry list" where
  "opcode_table_hi = [
    row 0x80 ''NOP'' ADDR_IMMEDIATE 2 2 0x00 0x00 False False,
    row 0x81 ''STA'' ADDR_INDIRECT_X 2 6 0x10 0x00 True True,
    row 0x82 ''NOP'' ADDR_IMMEDIATE 2 2 0x00 0x00 False False,
    row 0x83 ''SAX'' ADDR_INDIRECT_X 2 6 0x00 0x00 True True,
    row 0x84 ''STY'' ADDR_ZERO_PAGE 2 3 0x04 0x00 False True,
    row 0x85 ''STA'' ADDR_ZERO_PAGE 2 3 0x10 0x00 False True,
    row 0x86 ''STX'' ADDR_ZERO_PAGE 2 3 0x08 0x00 False True,
    row 0x87 ''SAX'' ADDR_ZERO_PAGE 2 3 0x00 0x00 False True,
    row 0x88 ''DEY'' ADDR_IMPLIED 1 2 0x04 0x05 False False,
    row 0x89 ''NOP'' ADDR_IMMEDIATE 2 2 0x00 0x00 False False,
    row 0x8A ''TXA'' ADDR_IMPLIED 1 2 0x08 0x11 False False,
    row 0x8B ''XAA'' ADDR_IMMEDIATE 2 2 0x00 0x11 False False,
    row 0x8C ''STY'' ADDR_ABSOLUTE 3 4 0x04 0x00 False True,
    row 0x8D ''STA'' ADDR_ABSOLUTE 3 4 0x10 0x00 False True,
    row 0x8E ''STX'' ADDR_ABSOLUTE 3 4 0x08 0x00 False True,
    row 0x8F ''SAX'' ADDR_ABSOLUTE 3 4 0x00 0x00 False True,
    row 0x90 ''BCC'' ADDR_RELATIVE 2 3 0x01 0x00 False False,
    row 0x91 ''STA'' ADDR_INDIRECT_Y 2 6 0x14 0x00 True True,
    row 0x92 ''KIL'' MODE_UNKNOWN 1 0 0x00 0x00 False False,
    row 0x93 ''AHX'' ADDR_INDIRECT_Y 2 6 0x00 0x00 True True,
    row 0x94 ''STY'' ADDR_ZERO_PAGE_X 2 4 0x04 0x00 True True,
    row 0x95 ''STA'' ADDR_ZERO_PAGE_X 2 4 0x18 0x00 False True,
    row 0x96 ''STX'' ADDR_ZERO_PAGE_Y 2 4 0x08 0x00 True True,
    row 0x97 ''SAX'' ADDR_ZERO_PAGE_Y 2 4 0x00 0x00 True True,
    row 0x98 ''TYA'' ADDR_IMPLIED 1 2 0x04 0x11 False False,
    row 0x99 ''STA'' ADDR_ABSOLUTE_Y 3 5 0x10 0x00 True True,
    row 0x9A ''TXS'' ADDR_IMPLIED 1 2 0x08 0x02 False False,
    row 0x9B ''TAS'' ADDR_ABSOLUTE_Y 1 5 0x04 0x02 False True,
    row 0x9C ''SHY'' ADDR_ABSOLUTE_X 3 5 0x04 0x00 True True,
    row 0x9D ''STA'' ADDR_ABSOLUTE_X 3 5 0x10 0x00 True True,
    row 0x9E ''SHX'' ADDR_ABSOLUTE_Y 3 5 0x08 0x00 True True,
    row 0x9F ''AHX'' ADDR_ABSOLUTE_Y 3 5 0x00 0x00 True True,
    row 0xA0 ''LDY'' ADDR_IMMEDIATE 2 2 0x00 0x05 False False,
    row 0xA1 ''LDA'' ADDR_INDIRECT_X 2 6 0x00 0x11 True False,
    row 0xA2 ''LDX'' ADDR_IMMEDIATE 2 2 0x00 0x09 False False,
    row 0xA3 ''LAX'' ADDR_INDIRECT_X 2 6 0x00 0x19 True False,
    row 0xA4 ''LDY'' ADDR_ZERO_PAGE 2 3 0x00 0x05 True False,
    row 0xA5 ''LDA'' ADDR_ZERO_PAGE 2 3 0x00 0x11 True False,
    row 0xA6 ''LDX'' ADDR_ZERO_PAGE 2 3 0x00 0x09 True False,
    row 0xA7 ''LAX'' ADDR_ZERO_PAGE 2 3 0x00 0x19 True False,
    row 0xA8 ''TAY'' ADDR_IMPLIED 1 2 0x10 0x05 False False,
    row 0xA9 ''LDA'' ADDR_IMMEDIATE 2 2 0x00 0x11 False False,
    row 0xAA ''TAX'' ADDR_IMPLIED 1 2 0x10 0x09 False False,
    row 0xAB ''LAX'' ADDR_IMMEDIATE 2 2 0x10 0x19 False False,
    row 0xAC ''LDY'' ADDR_ABSOLUTE 3 4 0x00 0x05 True False,
    row 0xAD ''LDA'' ADDR_ABSOLUTE 3 4 0x00 0x11 True False,
    row 0xAE ''LDX'' ADDR_ABSOLUTE 3 4 0x00 0x09 True False,
    row 0xAF ''LAX'' ADDR_ABSOLUTE 3 4 0x00 0x19 True False,
    row 0xB0 ''BCS'' ADDR_RELATIVE 2 2 0x01 0x00 False False,
    row 0xB1 ''LDA'' ADDR_INDIRECT_Y 2 5 0x00 0x11 True False,
    row 0xB2 ''KIL'' MODE_UNKNOWN 1 0 0x00 0x00 False False,
    row 0xB3 ''LAX'' ADDR_INDIRECT_Y 2 5 0x00 0x19 True False,
    row 0xB4 ''LDY'' ADDR_ZERO_PAGE_X 2 4 0x00 0x05 True False,
    row 0xB5 ''LDA'' ADDR_ZERO_PAGE_X 2 4 0x08 0x11 True False,
    row 0xB6 ''LDX'' ADDR_ZERO_PAGE_Y 2 4 0x00 0x09 True False,
    row 0xB7 ''LAX'' ADDR_ZERO_PAGE_Y 2 4 0x00 0x19 True False,
    row 0xB8 ''CLV'' ADDR_IMPLIED 1 2 0x00 0x01 False False,
    row 0xB9 ''LDA'' ADDR_ABSOLUTE_Y 3 4 0x00 0x11 True False,
    row 0xBA ''TSX'' ADDR_IMPLIED 1 2 0x02 0x09 False False,
    row 0xBB ''LAS'' ADDR_ABSOLUTE_Y 3 4 0x02 0x1b True False,
    row 0xBC ''LDY'' ADDR_ABSOLUTE_X 3 4 0x00 0x05 True False,
    row 0xBD ''LDA'' ADDR_ABSOLUTE_X 3 4 0x08 0x11 True False,
    row 0xBE ''LDX'' ADDR_ABSOLUTE_Y 3 4 0x00 0x09 True False,
    row 0xBF ''LAX'' ADDR_ABSOLUTE_Y 3 4 0x00 0x19 True False,
    row 0xC0 ''CPY'' ADDR_IMMEDIATE 2 2 0x04 0x01 False False,
    row 0xC1 ''CMP'' ADDR_INDIRECT_X 2 6 0x10 0x01 True False,
    row 0xC2 ''NOP'' ADDR_IMMEDIATE 2 2 0x00 0x00 False False,
    row 0xC3 ''DCP'' ADDR_INDIRECT_X 2 8 0x10 0x01 True True,
    row 0xC4 ''CPY'' ADDR_ZERO_PAGE 2 3 0x04 0x01 True False,
    row 0xC5 ''CMP'' ADDR_ZERO_PAGE 2 3 0x10 0x01 True False,
    row 0xC6 ''DEC'' ADDR_ZERO_PAGE 2 5 0x00 0x01 True True,
    row 0xC7 ''DCP'' ADDR_ZERO_PAGE 2 5 0x10 0x01 True True,
    row 0xC8 ''INY'' ADDR_IMPLIED 1 2 0x04 0x05 False False,
    row 0xC9 ''CMP'' ADDR_IMMEDIATE 2 2 0x10 0x01 False False,
    row 0xCA ''DEX'' ADDR_IMPLIED 1 2 0x08 0x09 False False,
    row 0xCB ''AXS'' ADDR_IMMEDIATE 2 2 0x00 0x09 False False,
    row 0xCC ''CPY'' ADDR_ABSOLUTE 3 4 0x04 0x01 True False,
    row 0xCD ''CMP'' ADDR_ABSOLUTE 3 4 0x10 0x01 True False,
    row 0xCE ''DEC'' ADDR_ABSOLUTE 3 6 0x00 0x01 True True,
    row 0xCF ''DCP'' ADDR_ABSOLUTE 3 6 0x10 0x01 True True,
    row 0xD0 ''BNE'' ADDR_RELATIVE 2 2 0x01 0x00 False False,
    row 0xD1 ''CMP'' ADDR_INDIRECT_Y 2 5 0x10 0x01 True False,
    row 0xD2 ''KIL'' MODE_UNKNOWN 1 0 0x00 0x00 False False,
    row 0xD3 ''DCP'' ADDR_INDIRECT_Y 2 8 0x10 0x01 True True,
    row 0xD4 ''NOP'' ADDR_ZERO_PAGE_X 2 4 0x00 0x00 True False,
    row 0xD5 ''CMP'' ADDR_ZERO_PAGE_X 2 4 0x10 0x01 True False,
    row 0xD6 ''DEC'' ADDR_ZERO_PAGE_X 2 6 0x00 0x01 True True,
    row 0xD7 ''DCP'' ADDR_ZERO_PAGE_X 2 6 0x10 0x01 True True,
    row 0xD8 ''CLD'' ADDR_IMPLIED 1 2 0x00 0x01 False False,
    row 0xD9 ''CMP'' ADDR_ABSOLUTE_Y 3 4 0x10 0x01 True False,
    row 0xDA ''NOP'' ADDR_IMPLIED 1 2 0x00 0x00 False False,
    row 0xDB ''DCP'' ADDR_ABSOLUTE_Y 3 7 0x10 0x01 True True,
    row 0xDC ''NOP'' ADDR_ABSOLUTE_X 3 4 0x00 0x00 True False,
    row 0xDD ''CMP'' ADDR_ABSOLUTE_X 3 4 0x10 0x01 True False,
    row 0xDE ''DEC'' ADDR_ABSOLUTE_X 3 7 0x00 0x01 True True,
    row 0xDF ''DCP'' ADDR_ABSOLUTE_X 3 7 0x10 0x01 True True,
    row 0xE0 ''CPX'' ADDR_IMMEDIATE 2 2 0x08 0x01 False False,
    row 0xE1 ''SBC'' ADDR_INDIRECT_X 2 6 0x11 0x11 True False,
    row 0xE2 ''NOP'' ADDR_IMMEDIATE 2 2 0x00 0x00 False False,
    row 0xE3 ''ISC'' ADDR_INDIRECT_X 2 8 0x11 0x11 True True,
    row 0xE4 ''CPX'' ADDR_ZERO_PAGE 2 3 0x08 0x01 True False,
    row 0xE5 ''SBC'' ADDR_ZERO_PAGE 2 3 0x11 0x11 True False,
    row 0xE6 ''INC'' ADDR_ZERO_PAGE 2 5 0x00 0x01 True True,
    row 0xE7 ''ISC'' ADDR_ZERO_PAGE 2 5 0x11 0x11 True True,
    row 0xE8 ''INX'' ADDR_IMPLIED 1 2 0x08 0x09 False False,
    row 0xE9 ''SBC'' ADDR_IMMEDIATE 2 2 0x11 0x11 False False,
    row 0xEA ''NOP'' ADDR_IMPLIED 1 2 0x00 0x00 False False,
    row 0xEB ''SBC'' ADDR_IMMEDIATE 2 2 0x11 0x11 False False,
    row 0xEC ''CPX'' ADDR_ABSOLUTE 3 4 0x08 0x01 True False,
    row 0xED ''SBC'' ADDR_ABSOLUTE 3 4 0x11 0x11 True False,
    row 0xEE ''INC'' ADDR_ABSOLUTE 3 6 0x00 0x01 True True,
    row 0xEF ''ISC'' ADDR_ABSOLUTE 3 6 0x11 0x11 True True,
    row 0xF0 ''BEQ'' ADDR_RELATIVE 2 2 0x01 0x00 False False,
    row 0xF1 ''SBC'' ADDR_INDIRECT_Y 2 5 0x11 0x11 True False,
    row 0xF2 ''KIL'' MODE_UNKNOWN 1 0 0x00 0x00 False False,
    row 0xF3 ''ISC'' ADDR_INDIRECT_Y 2 8 0x11 0x11 True True,
    row 0xF4 ''NOP'' ADDR_ZERO_PAGE_X 2 4 0x00 0x00 True False,
    row 0xF5 ''SBC'' ADDR_ZERO_PAGE_X 2 4 0x11 0x11 True False,
    row 0xF6 ''INC'' ADDR_ZERO_PAGE_X 2 6 0x00 0x01 True True,
    row 0xF7 ''ISC'' ADDR_ZERO_PAGE_X 2 6 0x11 0x11 True True,
    row 0xF8 ''SED'' ADDR_IMPLIED 1 2 0x00 0x01 False False,
    row 0xF9 ''SBC'' ADDR_ABSOLUTE_Y 3 4 0x11 0x11 True False,
    row 0xFA ''NOP'' ADDR_IMPLIED 1 2 0x00 0x00 False False,
    row 0xFB ''ISC'' ADDR_ABSOLUTE_Y 3 7 0x11 0x11 True True,
    row 0xFC ''NOP'' ADDR_ABSOLUTE_X 3 4 0x00 0x00 True False,
    row 0xFD ''SBC'' ADDR_ABSOLUTE_X 3 4 0x11 0x11 True False,
    row 0xFE ''INC'' ADDR_ABSOLUTE_X 3 7 0x08 0x01 True True,
    row 0xFF ''ISC'' ADDR_ABSOLUTE_X 3 7 0x11 0x11 True True]"

(* src/src/emulator/CPU/opcode_table.c 8-8 opcode_table *)
definition opcode_table :: "opcode_entry list" where
  "opcode_table = opcode_table_lo @ opcode_table_hi"

text \<open>\<open>opcode_table[opcode]\<close>\<close>

definition opcode_row :: "u8 \<Rightarrow> opcode_entry" where
  "opcode_row opcode = opcode_table ! unat opcode"

subsection \<open>Columns of the table\<close>

lemma length_opcode_table [simp]: "length opcode_table = 256"
  by code_simp

lemma opcode_row_in_table: "opcode_row opcode \<in> set opcode_table"
proof -
  have "unat opcode < 256" using unsigned_less [of opcode, where ?'a = nat] by simp
  then show ?thesis by (simp add: opcode_row_def)
qed

lemma opcode_row_all: "list_all P opcode_table \<Longrightarrow> P (opcode_row opcode)"
  using opcode_row_in_table [of opcode] by (auto simp: list_all_iff)

lemma table_opcodes: "map oe_opcode opcode_table = map word_of_nat [0 ..< 256]"
  by code_simp

lemma opcode_row_opcode: "oe_opcode (opcode_row opcode) = opcode"
proof -
  have "unat opcode < 256" using unsigned_less [of opcode, where ?'a = nat] by simp
  then have "oe_opcode (opcode_row opcode) = map oe_opcode opcode_table ! unat opcode"
    by (simp add: opcode_row_def)
  also have "\<dots> = word_of_nat (unat opcode)"
    using \<open>unat opcode < 256\<close> by (simp add: table_opcodes del: upt_conv_Cons)
  finally show ?thesis by simp
qed

lemma table_mnemonics: "list_all (\<lambda>e. length (oe_mnemonic e) = 3) opcode_table"
  by code_simp

lemma length_mnemonic [simp]: "length (oe_mnemonic (opcode_row opcode)) = 3"
  by (rule opcode_row_all [OF table_mnemonics])

text \<open>The length that an addressing mode gives an instruction.\<close>

definition mode_length :: "addressing_mode \<Rightarrow> u8" where
  "mode_length md = (case md of
     ADDR_IMPLIED \<Rightarrow> 1 | ADDR_ACCUMULATOR \<Rightarrow> 1 | MODE_UNKNOWN \<Rightarrow> 1
   | ADDR_ABSOLUTE \<Rightarrow> 3 | ADDR_ABSOLUTE_X \<Rightarrow> 3 | ADDR_ABSOLUTE_Y \<Rightarrow> 3 | ADDR_ABS_INDIRECT \<Rightarrow> 3
   | _ \<Rightarrow> 2)"

lemma table_lengths:
  "list_all (\<lambda>e. (if oe_opcode e = 0x9B then oe_num_bytes e = 1 else oe_num_bytes e = mode_length (oe_addr_mode e)))
     opcode_table"
  by code_simp

text \<open>
  The opcode table is indexed by opcode: row \<open>i\<close> describes opcode \<open>i\<close>, for all 256 opcodes, and
  its length is the one of its addressing mode, with one exception: TAS (0x9B) is absolute,Y indexed
  and has the length 1.
\<close>

theorem opcode_table_consistent:
  "length opcode_table = 256 \<and> oe_opcode (opcode_row opcode) = opcode \<and>
   oe_num_bytes (opcode_row opcode) =
     (if opcode = 0x9B then 1 else mode_length (oe_addr_mode (opcode_row opcode))) \<and>
   oe_addr_mode (opcode_row 0x9B) = ADDR_ABSOLUTE_Y"
proof -
  have "oe_addr_mode (opcode_row 0x9B) = ADDR_ABSOLUTE_Y" by code_simp
  then show ?thesis
    using opcode_row_all [OF table_lengths, of opcode] by (simp add: opcode_row_opcode split: if_splits)
qed

end
