(* ===== verification/EmuState.thy ===== *)
theory EmuState
  imports HeapProps Terminal OpcodeTable
begin

text \<open>
  The state of the emulator: the structs of \<open>src/emulator/CPU/emulator.h\<close> and \<open>tracelogger.h\<close>, and
  the globals that \<open>emulator.c\<close> and \<open>tracelogger.c\<close> read and write, gathered in one record
  \<open>machine\<close>.  RAM and ROM are the buffers of 0x800 and 0x8000 bytes that \<open>emu_init\<close> allocates;
  \<open>machine_ok\<close> says that they have these lengths.  The build has \<open>DEBUG\<close> false and
  \<open>TRACELOGGER\<close> true (\<open>emulator.h\<close>, lines 6 and 7).
\<close>

abbreviation FLAG_CARRY :: u8 where "FLAG_CARRY \<equiv> 0x01"
abbreviation FLAG_ZERO :: u8 where "FLAG_ZERO \<equiv> 0x02"
abbreviation FLAG_INTERRUPT_DISABLE :: u8 where "FLAG_INTERRUPT_DISABLE \<equiv> 0x04"
abbreviation FLAG_DECIMAL :: u8 where "FLAG_DECIMAL \<equiv> 0x08"
abbreviation FLAG_OVERFLOW :: u8 where "FLAG_OVERFLOW \<equiv> 0x40"
abbreviation FLAG_NEGATIVE :: u8 where "FLAG_NEGATIVE \<equiv> 0x80"

(* src/src/emulator/CPU/emulator.h 21-29 registers *)
record registers =
  r_A :: u8
  r_X :: u8
  r_Y :: u8
  r_flags :: u8
  r_stack_pointer :: u8
  r_program_counter :: u16

(* src/src/emulator/CPU/emulator.h 31-42 emulator *)
record emulator =
  e_filepath :: string
  e_registers :: registers
  e_RAM :: "u8 list"
  e_ROM :: "u8 list"
  e_header :: "u8 list"
  e_cur_opcode :: u8
  e_total_CPU_cycles :: int

text \<open>
  A log entry.  \<open>operands\<close> is an array of two bytes; an index outside it is a byte after the array.
\<close>

(* src/src/emulator/CPU/tracelogger.h 10-29 tracelog_entry *)
record tracelog_entry =
  te_next :: u32
  te_prev :: u32
  te_opcode :: u8
  te_operands :: memory
  te_address :: u16
  te_indexed_address :: u16
  te_read_value :: u8
  te_written_value :: u8
  te_read_value_set :: bool
  te_write_value_set :: bool
  te_total_CPU_cycles :: int
  te_registers :: registers

text \<open>What an instruction touches, recorded by the debug build.\<close>

(* src/src/emulator/CPU/emulator_debug.h 8-13 mem_reg_access *)
record mem_reg_access =
  reg_read_bitflag :: u8
  reg_write_bitflag :: u8
  reads_mem :: bool
  writes_mem :: bool

text \<open>
  The globals of \<open>tracelogger.c\<close>.  \<open>log_mem p\<close> is the entry stored at address \<open>p\<close>.  Address 0 is a
  location like any other: the kernel maps the whole address space to itself and writable, so a
  store through a NULL \<open>log_tail\<close> does not trap; it changes the bytes at address 0.
\<close>

(* src/src/emulator/CPU/tracelogger.c 12-18 log_head, log_tail, current_length, current_operand, cur_selected_entry, cur_selected_index *)
record logger =
  log_head :: u32
  log_tail :: u32
  current_length :: int
  current_operand :: int
  cur_selected_entry :: u32
  cur_selected_index :: int
  log_mem :: "u32 \<Rightarrow> tracelog_entry"

(* src/src/emulator/CPU/emulator.c 13-15 emu, CPU_halted, logger_enabled *)
record machine =
  m_emu :: emulator
  CPU_halted :: bool
  logger_enabled :: bool
  debug_tracker :: mem_reg_access
  m_log :: logger
  m_heap :: heap
  m_term :: terminal

definition machine_ok :: "machine \<Rightarrow> bool" where
  "machine_ok s \<longleftrightarrow> length (e_RAM (m_emu s)) = 0x800 \<and> length (e_ROM (m_emu s)) = 0x8000"

subsection \<open>Sample states\<close>

text \<open>Entries of zero bytes, what \<open>kzalloc\<close> leaves in a new entry.\<close>

definition zero_registers :: registers where
  "zero_registers = \<lparr>r_A = 0, r_X = 0, r_Y = 0, r_flags = 0, r_stack_pointer = 0, r_program_counter = 0\<rparr>"

definition zero_entry :: tracelog_entry where
  "zero_entry = \<lparr>te_next = 0, te_prev = 0, te_opcode = 0, te_operands = (\<lambda>_. 0), te_address = 0,
     te_indexed_address = 0, te_read_value = 0, te_written_value = 0, te_read_value_set = False,
     te_write_value_set = False, te_total_CPU_cycles = 0, te_registers = zero_registers\<rparr>"

end
