(* ===== verification/Tracelog.thy ===== *)
theory Tracelog
  imports EmuState
begin

text \<open>
  The trace log of \<open>src/emulator/CPU/tracelogger.c\<close>: a doubly linked list of heap-allocated entries,
  one per executed instruction, whose tail collects what the instruction reads and writes.  This
  theory has the operations on the list, the list abstraction, and the proof that the list is a
  bounded queue on any allocator that keeps the \<open>block_allocator\<close> contract.
\<close>

abbreviation TRACELOG_MAX_LENGTH :: int where "TRACELOG_MAX_LENGTH \<equiv> 256"

text \<open>\<open>sizeof(struct tracelog_entry)\<close> on the 32-bit target.\<close>

abbreviation TRACELOG_ENTRY_SIZE :: u32 where "TRACELOG_ENTRY_SIZE \<equiv> 32"

definition upd_entry :: "u32 \<Rightarrow> (tracelog_entry \<Rightarrow> tracelog_entry) \<Rightarrow> logger \<Rightarrow> logger" where
  "upd_entry p f lg = lg\<lparr>log_mem := (log_mem lg)(p := f (log_mem lg p))\<rparr>"

subsection \<open>Operations\<close>

(* src/src/emulator/CPU/tracelogger.c 86-90 init_log_entry *)
definition init_log_entry :: "u32 \<Rightarrow> emulator \<Rightarrow> logger \<Rightarrow> logger" where
  "init_log_entry entry emu lg =
     (upd_entry entry (\<lambda>e. e\<lparr>te_registers := e_registers emu,
                             te_total_CPU_cycles := e_total_CPU_cycles emu\<rparr>) lg)
     \<lparr>current_operand := 0\<rparr>"

(* src/src/emulator/CPU/tracelogger.c 92-109 remove_first_entry *)
definition remove_first_entry :: "logger \<Rightarrow> heap \<Rightarrow> logger \<times> heap" where
  "remove_first_entry lg h =
     (if log_head lg = 0 then (lg, h)
      else
        let old_head = log_head lg;
            lg = (if log_head lg = log_tail lg
                  then lg\<lparr>log_head := 0, log_tail := 0\<rparr>
                  else
                    let lg = lg\<lparr>log_head := te_next (log_mem lg old_head)\<rparr>
                    in upd_entry (log_head lg) (\<lambda>e. e\<lparr>te_prev := 0\<rparr>) lg);
            h = kfree h old_head
        in (lg\<lparr>current_length := current_length lg - 1\<rparr>, h))"

text \<open>
  The result is the new entry, or \<open>ERROR(-ENOMEM)\<close> as a pointer when the allocation fails; in that
  case the code also frees the NULL pointer.
\<close>

(* src/src/emulator/CPU/tracelogger.c 20-57 add_tracelog_entry *)
definition add_tracelog_entry :: "emulator \<Rightarrow> logger \<Rightarrow> heap \<Rightarrow> u32 \<times> logger \<times> heap" where
  "add_tracelog_entry emu lg h =
     (let (lg, h) = (if current_length lg + 1 > TRACELOG_MAX_LENGTH
                     then remove_first_entry lg h else (lg, h));
          (entry, h) = kmalloc h TRACELOG_ENTRY_SIZE
      in if entry = 0 then (word_of_int (- ENOMEM), lg, kfree h entry)
         else
           let lg = upd_entry entry (\<lambda>_. zero_entry) lg
           in if log_head lg = 0
              then
                let lg = lg\<lparr>log_head := entry, cur_selected_entry := entry, log_tail := entry\<rparr>
                in (entry, init_log_entry entry emu lg, h)
              else
                let lg = upd_entry (log_tail lg) (\<lambda>e. e\<lparr>te_next := entry\<rparr>) lg;
                    lg = upd_entry entry (\<lambda>e. e\<lparr>te_prev := log_tail lg\<rparr>) lg;
                    lg = lg\<lparr>log_tail := entry\<rparr>;
                    lg = init_log_entry entry emu lg
                in (entry, lg\<lparr>current_length := current_length lg + 1\<rparr>, h))"

(* src/src/emulator/CPU/tracelogger.c 59-66 tail_log_set_operand *)
definition tail_log_set_operand :: "u8 \<Rightarrow> logger \<Rightarrow> logger" where
  "tail_log_set_operand byte lg =
     (if te_opcode (log_mem lg (log_tail lg)) = 0
      then upd_entry (log_tail lg) (\<lambda>e. e\<lparr>te_opcode := byte\<rparr>) lg
      else
        let lg = upd_entry (log_tail lg)
              (\<lambda>e. e\<lparr>te_operands := (te_operands e)(current_operand lg := byte)\<rparr>) lg
        in lg\<lparr>current_operand := current_operand lg + 1\<rparr>)"

(* src/src/emulator/CPU/tracelogger.c 68-70 tail_log_set_address *)
definition tail_log_set_address :: "u16 \<Rightarrow> logger \<Rightarrow> logger" where
  "tail_log_set_address address lg = upd_entry (log_tail lg) (\<lambda>e. e\<lparr>te_address := address\<rparr>) lg"

(* src/src/emulator/CPU/tracelogger.c 72-74 tail_log_set_indexed_address *)
definition tail_log_set_indexed_address :: "u16 \<Rightarrow> logger \<Rightarrow> logger" where
  "tail_log_set_indexed_address indexed_address lg =
     upd_entry (log_tail lg) (\<lambda>e. e\<lparr>te_indexed_address := indexed_address\<rparr>) lg"

(* src/src/emulator/CPU/tracelogger.c 76-79 tail_log_set_written_value *)
definition tail_log_set_written_value :: "u8 \<Rightarrow> logger \<Rightarrow> logger" where
  "tail_log_set_written_value byte lg =
     upd_entry (log_tail lg) (\<lambda>e. e\<lparr>te_written_value := byte, te_write_value_set := True\<rparr>) lg"

(* src/src/emulator/CPU/tracelogger.c 81-84 tail_log_set_read_value *)
definition tail_log_set_read_value :: "u8 \<Rightarrow> logger \<Rightarrow> logger" where
  "tail_log_set_read_value byte lg =
     upd_entry (log_tail lg) (\<lambda>e. e\<lparr>te_read_value := byte, te_read_value_set := True\<rparr>) lg"

lemma upd_entry_simps [simp]:
  "log_head (upd_entry p f lg) = log_head lg"
  "log_tail (upd_entry p f lg) = log_tail lg"
  "current_length (upd_entry p f lg) = current_length lg"
  "current_operand (upd_entry p f lg) = current_operand lg"
  "cur_selected_entry (upd_entry p f lg) = cur_selected_entry lg"
  "cur_selected_index (upd_entry p f lg) = cur_selected_index lg"
  "log_mem (upd_entry p f lg) = (log_mem lg)(p := f (log_mem lg p))"
  by (simp_all add: upd_entry_def)

lemma init_log_entry_simps [simp]:
  "log_head (init_log_entry p emu lg) = log_head lg"
  "log_tail (init_log_entry p emu lg) = log_tail lg"
  "current_length (init_log_entry p emu lg) = current_length lg"
  "current_operand (init_log_entry p emu lg) = 0"
  "cur_selected_entry (init_log_entry p emu lg) = cur_selected_entry lg"
  "log_mem (init_log_entry p emu lg) = (log_mem lg)(p := (log_mem lg p)\<lparr>
     te_registers := e_registers emu, te_total_CPU_cycles := e_total_CPU_cycles emu\<rparr>)"
  by (simp_all add: init_log_entry_def)

subsection \<open>The list abstraction\<close>

text \<open>\<open>dll m q ps\<close>: the entries \<open>ps\<close> are linked in order, and \<open>q\<close> precedes the first one.\<close>

fun dll :: "(u32 \<Rightarrow> tracelog_entry) \<Rightarrow> u32 \<Rightarrow> u32 list \<Rightarrow> bool" where
  "dll m q [] \<longleftrightarrow> True"
| "dll m q (p # ps) \<longleftrightarrow>
     te_prev (m p) = q \<and> te_next (m p) = (case ps of [] \<Rightarrow> 0 | r # _ \<Rightarrow> r) \<and> dll m p ps"

definition first_or_null :: "u32 list \<Rightarrow> u32" where
  "first_or_null ps = (case ps of [] \<Rightarrow> 0 | p # _ \<Rightarrow> p)"

definition last_or_null :: "u32 list \<Rightarrow> u32" where
  "last_or_null ps = (if ps = [] then 0 else last ps)"

text \<open>
  \<open>log_list lg h ps\<close>: the log of \<open>lg\<close> is the list of entries \<open>ps\<close>, all live in the heap \<open>h\<close>.
  \<open>current_length\<close> counts one less than the list, because the first entry is not counted.
\<close>

definition log_list :: "logger \<Rightarrow> heap \<Rightarrow> u32 list \<Rightarrow> bool" where
  "log_list lg h ps \<longleftrightarrow>
     dll (log_mem lg) 0 ps \<and> distinct ps \<and> 0 \<notin> set ps \<and> set ps \<subseteq> live h \<and>
     log_head lg = first_or_null ps \<and> log_tail lg = last_or_null ps \<and>
     current_length lg = (if ps = [] then 0 else int (length ps) - 1) \<and> length ps \<le> 257"

lemma dll_cong: "(\<And>p. p \<in> set ps \<Longrightarrow> te_next (m p) = te_next (m' p) \<and> te_prev (m p) = te_prev (m' p)) \<Longrightarrow>
  dll m q ps = dll m' q ps"
  by (induction ps arbitrary: q) auto

lemma dll_upd_other: "a \<notin> set ps \<Longrightarrow> dll (m(a := e)) q ps = dll m q ps"
  by (rule dll_cong) auto

lemma dll_append:
  "dll m q (ps @ [p]) \<Longrightarrow> ps \<noteq> [] \<Longrightarrow> te_next (m (last ps)) = p"
  by (induction ps arbitrary: q) (auto split: list.splits)

lemma dll_snoc:
  assumes "dll m q ps" and "ps \<noteq> []" and "p \<notin> set ps" and "distinct ps"
    and "te_prev e = last ps" and "te_next e = 0"
  shows "dll (m(last ps := (m (last ps))\<lparr>te_next := p\<rparr>, p := e)) q (ps @ [p])"
  using assms
proof (induction ps arbitrary: q)
  case Nil
  then show ?case by simp
next
  case (Cons a as)
  show ?case
  proof (cases as)
    case Nil
    with Cons.prems show ?thesis by simp
  next
    case (Cons b bs)
    let ?m = "m(last as := (m (last as))\<lparr>te_next := p\<rparr>, p := e)"
    have "dll m a as" "as \<noteq> []" "p \<notin> set as" "distinct as" "te_prev e = last as"
      using Cons.prems Cons by simp_all
    then have "dll ?m a (as @ [p])"
      using Cons.prems(6) by (rule Cons.IH)
    moreover have "?m a = m a"
      using Cons.prems(3,4) last_in_set [OF \<open>as \<noteq> []\<close>] by auto
    moreover have "te_prev (m a) = q" "te_next (m a) = b"
      using Cons.prems(1) Cons by simp_all
    ultimately have "dll ?m q (a # (as @ [p]))"
      unfolding dll.simps using Cons by (simp only: append_Cons list.case)
    then show ?thesis
      unfolding last_ConsR [OF \<open>as \<noteq> []\<close>] append_Cons .
  qed
qed

subsection \<open>Clients of an allocator that own a list of blocks\<close>

context block_allocator
begin

lemma push_owned:
  assumes "ok h" and "small n" and "fst (alloc h n) \<noteq> null"
    and "set ps \<subseteq> owned h" and "distinct ps"
  shows "set (ps @ [fst (alloc h n)]) \<subseteq> owned (snd (alloc h n))"
    and "distinct (ps @ [fst (alloc h n)])"
  using alloc_fresh [OF assms(1-3)] alloc_owned [OF assms(1-3)] assms(4,5) by auto

lemma pop_owned:
  assumes "ok h" and "set (p # ps) \<subseteq> owned h" and "distinct (p # ps)"
  shows "ok (release h p)" and "set ps \<subseteq> owned (release h p)"
  using release_ok [OF assms(1), of p] release_owned [OF assms(1), of p] assms(2,3) by auto

end

lemma entry_size_one_block: "one_block TRACELOG_ENTRY_SIZE"
  by (simp add: one_block_def)

lemma remove_first_entry_list:
  assumes ok: "heap_ok h" and lst: "log_list lg h (p # q # ps)"
  obtains lg' h' where "remove_first_entry lg h = (lg', h')" "log_list lg' h' (q # ps)" "heap_ok h'"
    "\<And>r. (log_mem lg' r)\<lparr>te_next := 0, te_prev := 0\<rparr> = (log_mem lg r)\<lparr>te_next := 0, te_prev := 0\<rparr>"
    "cur_selected_entry lg' = cur_selected_entry lg"
proof -
  have facts: "dll (log_mem lg) 0 (p # q # ps)" "distinct (p # q # ps)" "0 \<notin> set (p # q # ps)"
    "set (p # q # ps) \<subseteq> live h" "log_head lg = p" "log_tail lg = last (q # ps)"
    "current_length lg = int (length (q # ps))" "length (q # ps) < 257"
    using lst by (auto simp: log_list_def first_or_null_def last_or_null_def)
  define lg' where "lg' = (upd_entry q (\<lambda>e. e\<lparr>te_prev := 0\<rparr>) (lg\<lparr>log_head := q\<rparr>))
    \<lparr>current_length := current_length lg - 1\<rparr>"
  have ne: "p \<noteq> last (q # ps)" using facts(2) last_in_set [of "q # ps"] by auto
  have next_p: "te_next (log_mem lg p) = q" using facts(1) by simp
  have "remove_first_entry lg h = (lg', kfree h p)"
    using facts(3,5,6) ne next_p
    by (auto simp: remove_first_entry_def lg'_def Let_def upd_entry_def)
  moreover have "log_list lg' (kfree h p) (q # ps)"
  proof -
    have "dll (log_mem lg') 0 (q # ps)"
      using facts(1,2) by (simp add: lg'_def upd_entry_def dll_upd_other)
    moreover have "set (q # ps) \<subseteq> live (kfree h p)"
      using kernel_allocator.pop_owned(2) [OF ok facts(4,2)] .
    ultimately show ?thesis
      using facts
      by (simp add: log_list_def lg'_def first_or_null_def last_or_null_def upd_entry_def)
  qed
  moreover have "heap_ok (kfree h p)"
    using kernel_allocator.pop_owned(1) [OF ok facts(4,2)] .
  ultimately show thesis
    by (rule that) (auto simp: lg'_def upd_entry_def)
qed

subsection \<open>Adding an entry\<close>

text \<open>
  What an entry records, links apart, and the contents of a log: one record per entry, oldest first.
\<close>

definition payload :: "tracelog_entry \<Rightarrow> tracelog_entry" where
  "payload e = e\<lparr>te_next := 0, te_prev := 0\<rparr>"

definition log_contents :: "logger \<Rightarrow> u32 list \<Rightarrow> tracelog_entry list" where
  "log_contents lg ps = map (\<lambda>p. payload (log_mem lg p)) ps"

definition snapshot :: "emulator \<Rightarrow> tracelog_entry" where
  "snapshot emu = zero_entry\<lparr>te_registers := e_registers emu,
                             te_total_CPU_cycles := e_total_CPU_cycles emu\<rparr>"

lemma payload_links [simp]:
  "payload (e\<lparr>te_next := a\<rparr>) = payload e" "payload (e\<lparr>te_prev := a\<rparr>) = payload e"
  by (simp_all add: payload_def)

lemma payload_snapshot: "payload (zero_entry\<lparr>te_prev := q, te_registers := e_registers emu,
    te_total_CPU_cycles := e_total_CPU_cycles emu\<rparr>) = snapshot emu"
  "payload (zero_entry\<lparr>te_registers := e_registers emu,
    te_total_CPU_cycles := e_total_CPU_cycles emu\<rparr>) = snapshot emu"
  by (simp_all add: payload_def snapshot_def zero_entry_def)

lemma append_entry_list:
  assumes ok: "heap_ok h" and lst: "log_list lg h ps" and len: "length ps \<le> 256"
    and add: "add_tracelog_entry emu lg h = (r, lg', h')" and r: "r \<noteq> word_of_int (- ENOMEM)"
  shows "heap_ok h'" and "log_list lg' h' (ps @ [r])"
    and "log_contents lg' (ps @ [r]) = log_contents lg ps @ [snapshot emu]"
proof -
  obtain e h1 where km: "kmalloc h TRACELOG_ENTRY_SIZE = (e, h1)" by fastforce
  have keep: "\<not> current_length lg + 1 > TRACELOG_MAX_LENGTH"
    using lst len by (auto simp: log_list_def)
  have e0: "e \<noteq> 0"
    using add r keep km by (auto simp: add_tracelog_entry_def Let_def split: if_splits)
  have own: "set (ps @ [e]) \<subseteq> live h1" "distinct (ps @ [e])"
    using kernel_allocator.push_owned [OF ok entry_size_one_block, of ps] e0 km lst
    by (simp_all add: log_list_def)
  have ok1: "heap_ok h1"
    using kernel_allocator.alloc_ok [OF ok entry_size_one_block] km by simp
  have fresh: "e \<notin> set ps" and lst0: "0 \<notin> set ps" "distinct ps" "dll (log_mem lg) 0 ps"
    using own lst by (auto simp: log_list_def)
  have "h' = h1 \<and> r = e \<and> log_list lg' h1 (ps @ [e])
    \<and> log_contents lg' (ps @ [e]) = log_contents lg ps @ [snapshot emu]"
  proof (cases "ps = []")
    case True
    then have hd: "log_head lg = 0" using lst by (simp add: log_list_def first_or_null_def)
    have new: "e = r" "lg' = init_log_entry r emu ((upd_entry r (\<lambda>_. zero_entry) lg)
        \<lparr>log_head := r, cur_selected_entry := r, log_tail := r\<rparr>)" "h' = h1"
      using add keep km e0 hd by (auto simp: add_tracelog_entry_def Let_def)
    show ?thesis
      using True new(2,3) own e0 lst unfolding \<open>e = r\<close>
      by (simp add: log_list_def first_or_null_def last_or_null_def log_contents_def
          payload_snapshot) (simp add: zero_entry_def)
  next
    case False
    then have hd: "log_head lg \<noteq> 0" and tl: "log_tail lg = last ps"
      using lst lst0(1) by (auto simp: log_list_def first_or_null_def last_or_null_def split: list.splits)
    let ?e = "zero_entry\<lparr>te_prev := last ps, te_registers := e_registers emu,
                         te_total_CPU_cycles := e_total_CPU_cycles emu\<rparr>"
    have ne: "last ps \<noteq> e" using fresh last_in_set [OF False] by auto
    have new: "e = r" "h' = h1"
      using add keep km e0 hd by (auto simp: add_tracelog_entry_def Let_def)
    have mem: "log_mem lg' = (log_mem lg)(last ps := (log_mem lg (last ps))\<lparr>te_next := e\<rparr>, e := ?e)"
      using add keep km e0 hd tl ne
      by (auto simp: add_tracelog_entry_def Let_def fun_eq_iff)
    have flds: "log_head lg' = log_head lg" "log_tail lg' = e"
      "current_length lg' = current_length lg + 1"
      using add keep km e0 hd by (auto simp: add_tracelog_entry_def Let_def)
    have "dll (log_mem lg') 0 (ps @ [e])"
      unfolding mem by (rule dll_snoc [OF lst0(3) False fresh lst0(2)]) (simp_all add: zero_entry_def)
    then have "log_list lg' h1 (ps @ [e])"
      using own e0 lst len False
      by (auto simp: log_list_def flds first_or_null_def last_or_null_def split: list.splits)
    moreover have "log_contents lg' (ps @ [e]) = log_contents lg ps @ [snapshot emu]"
      using fresh by (auto simp: log_contents_def mem payload_snapshot)
    ultimately show ?thesis using new by simp
  qed
  then show "heap_ok h'" "log_list lg' h' (ps @ [r])"
    "log_contents lg' (ps @ [r]) = log_contents lg ps @ [snapshot emu]"
    using ok1 by auto
qed

lemma log_contents_drop: "log_contents lg (drop n ps) = drop n (log_contents lg ps)"
  by (simp add: log_contents_def drop_map)

lemma length_log_contents [simp]: "length (log_contents lg ps) = length ps"
  by (simp add: log_contents_def)

lemma add_full_entry:
  assumes "current_length lg + 1 > TRACELOG_MAX_LENGTH" and "remove_first_entry lg h = (lg1, h1)"
    and "current_length lg1 + 1 \<le> TRACELOG_MAX_LENGTH"
  shows "add_tracelog_entry emu lg h = add_tracelog_entry emu lg1 h1"
  using assms by (simp add: add_tracelog_entry_def)

lemma add_entry_list:
  assumes ok: "heap_ok h" and lst: "log_list lg h ps"
    and add: "add_tracelog_entry emu lg h = (r, lg', h')" and r: "r \<noteq> word_of_int (- ENOMEM)"
  shows "heap_ok h'" and "log_list lg' h' (drop (length ps - 256) ps @ [r])"
    and "log_contents lg' (drop (length ps - 256) ps @ [r]) =
      log_contents lg (drop (length ps - 256) ps) @ [snapshot emu]"
proof -
  have len: "length ps \<le> 257" using lst by (simp add: log_list_def)
  have "heap_ok h' \<and> log_list lg' h' (drop (length ps - 256) ps @ [r]) \<and>
    log_contents lg' (drop (length ps - 256) ps @ [r]) =
      log_contents lg (drop (length ps - 256) ps) @ [snapshot emu]"
  proof (cases "length ps \<le> 256")
    case True
    with append_entry_list [OF ok lst True add r] show ?thesis by simp
  next
    case False
    with len have len: "length ps = 257" by simp
    then obtain p q qs where ps: "ps = p # q # qs"
      by (cases ps; cases "tl ps") auto
    obtain lg1 h1 where rem: "remove_first_entry lg h = (lg1, h1)" "log_list lg1 h1 (q # qs)"
      "heap_ok h1" "\<And>r. payload (log_mem lg1 r) = payload (log_mem lg r)"
      using remove_first_entry_list [OF ok lst [unfolded ps]] unfolding payload_def by blast
    have full: "current_length lg + 1 > TRACELOG_MAX_LENGTH"
      "current_length lg1 + 1 \<le> TRACELOG_MAX_LENGTH"
      using lst rem(2) len by (simp_all add: log_list_def ps)
    have "length (q # qs) \<le> 256" using len ps by simp
    moreover have "add_tracelog_entry emu lg1 h1 = (r, lg', h')"
      using add_full_entry [OF full(1) rem(1) full(2)] add by simp
    ultimately show ?thesis
      using append_entry_list [OF rem(3,2) _ _ r] len by (simp add: ps log_contents_def rem(4))
  qed
  then show "heap_ok h'" "log_list lg' h' (drop (length ps - 256) ps @ [r])"
    "log_contents lg' (drop (length ps - 256) ps @ [r]) =
      log_contents lg (drop (length ps - 256) ps) @ [snapshot emu]" by auto
qed

lemma mark_free_loop_below: "j < i \<Longrightarrow> mark_free_loop e tot i j = e j"
proof (induction e tot i rule: mark_free_loop.induct)
  case (1 e tot i)
  have "mark_free_loop (e(i := 0)) tot (i + 1) j = (e(i := 0)) j"
    if "i < tot" "e i AND HEAP_BLOCK_HAS_NEXT \<noteq> 0"
    by (rule "1.IH" [OF that(1) refl refl that(2)]) (use 1 in simp)
  then show ?case using \<open>j < i\<close> by (subst mark_free_loop.simps) (simp add: Let_def)
qed

lemma mark_free_loop_head: "i < tot \<Longrightarrow> mark_free_loop e tot i i = HEAP_BLOCK_TABLE_ENTRY_FREE"
  by (subst mark_free_loop.simps) (simp add: Let_def mark_free_loop_below)

text \<open>
  The log is a bounded queue of 257 entries, one more than \<open>TRACELOG_MAX_LENGTH\<close>: adding an
  entry to a well-formed log appends a snapshot of the registers and the cycle counter behind the
  newest 256 entries, whose recorded data stay as they were; the older one, if any, is unlinked and
  its block returned, and the list is again well formed over live blocks.
\<close>

theorem add_tracelog_entry_fifo:
  assumes "heap_ok h" and "log_list lg h ps"
    and "add_tracelog_entry emu lg h = (r, lg', h')" and "r \<noteq> word_of_int (- ENOMEM)"
  shows "heap_ok h' \<and> log_list lg' h' (drop (length ps - 256) ps @ [r]) \<and>
    log_contents lg' (drop (length ps - 256) ps @ [r]) =
      drop (length ps - 256) (log_contents lg ps) @ [snapshot emu]"
  using add_entry_list [OF assms] by (simp add: log_contents_drop)

text \<open>An empty log, and a CPU that has just been switched on.\<close>

definition empty_log :: logger where
  "empty_log = \<lparr>log_head = 0, log_tail = 0, current_length = 0, current_operand = 0,
                cur_selected_entry = 0, cur_selected_index = 0, log_mem = (\<lambda>_. zero_entry)\<rparr>"

definition demo_emulator :: emulator where
  "demo_emulator = \<lparr>e_filepath = [], e_registers = zero_registers\<lparr>r_program_counter := 0x8000\<rparr>,
     e_RAM = replicate 0x800 0, e_ROM = replicate 0x8000 0xEA, e_header = replicate 0x10 0,
     e_cur_opcode = 0, e_total_CPU_cycles = 7\<rparr>"

lemma empty_log_list: "log_list empty_log h []"
  by (simp add: log_list_def empty_log_def first_or_null_def last_or_null_def)

lemma demo_add: "fst (add_tracelog_entry emu empty_log demo_heap) = 0x01001000"
proof -
  have "fst (kmalloc demo_heap TRACELOG_ENTRY_SIZE) = 0x01001000"
    by code_simp
  then show ?thesis
    by (auto simp: add_tracelog_entry_def empty_log_def Let_def split: prod.splits)
qed

theorem add_tracelog_entry_fifo_witness:
  "\<exists>lg' h'. add_tracelog_entry demo_emulator empty_log demo_heap = (0x01001000, lg', h') \<and>
     log_list lg' h' [0x01001000] \<and> log_contents lg' [0x01001000] = [snapshot demo_emulator]"
proof -
  obtain lg' h' where add:
    "add_tracelog_entry demo_emulator empty_log demo_heap = (0x01001000, lg', h')"
    using demo_add [of demo_emulator] by (metis prod.collapse)
  have "(0x01001000 :: u32) \<noteq> word_of_int (- ENOMEM)" by (simp add: ENOMEM_def)
  from add_tracelog_entry_fifo [OF demo_heap_ok empty_log_list add this] add
  show ?thesis by (auto simp: log_contents_def)
qed

subsection \<open>A run of additions\<close>

text \<open>The states of the CPU are logged one after the other; \<open>None\<close> when an allocation fails.\<close>

fun add_entries :: "emulator list \<Rightarrow> logger \<Rightarrow> heap \<Rightarrow> (logger \<times> heap) option" where
  "add_entries [] lg h = Some (lg, h)"
| "add_entries (emu # emus) lg h =
     (let (r, lg, h) = add_tracelog_entry emu lg h
      in if r = word_of_int (- ENOMEM) then None else add_entries emus lg h)"

lemma add_entries_list:
  assumes "heap_ok h" and "log_list lg h ps" and "add_entries emus lg h = Some (lg', h')"
  shows "\<exists>ps'. heap_ok h' \<and> log_list lg' h' ps' \<and>
    log_contents lg' ps' = drop (length ps + length emus - 257) (log_contents lg ps @ map snapshot emus)"
  using assms
proof (induction emus arbitrary: lg h ps)
  case Nil
  then have "length ps \<le> 257" by (simp add: log_list_def)
  with Nil show ?case by auto
next
  case (Cons emu emus)
  obtain r lg1 h1 where add: "add_tracelog_entry emu lg h = (r, lg1, h1)"
    by (cases "add_tracelog_entry emu lg h") auto
  have r: "r \<noteq> word_of_int (- ENOMEM)" and rest: "add_entries emus lg1 h1 = Some (lg', h')"
    using Cons.prems(3) by (auto simp: add split: if_splits)
  let ?ps = "drop (length ps - 256) ps @ [r]"
  have len: "length ps \<le> 257" using Cons.prems(2) by (simp add: log_list_def)
  note one = add_entry_list [OF Cons.prems(1,2) add r]
  obtain ps' where ps': "heap_ok h'" "log_list lg' h' ps'" "log_contents lg' ps' =
      drop (length ?ps + length emus - 257) (log_contents lg1 ?ps @ map snapshot emus)"
    using Cons.IH [OF one(1,2) rest] by blast
  have "log_contents lg1 ?ps @ map snapshot emus =
      drop (length ps - 256) (log_contents lg ps @ map snapshot (emu # emus))"
    using len by (simp add: one(3) log_contents_drop)
  moreover have "length ?ps + length emus - 257 + (length ps - 256) = length ps + length (emu # emus) - 257"
    using len by auto
  ultimately have "log_contents lg' ps' =
      drop (length ps + length (emu # emus) - 257) (log_contents lg ps @ map snapshot (emu # emus))"
    unfolding ps'(3) by (simp only: drop_drop)
  with ps' show ?case by blast
qed

text \<open>
  Claim C17.  Whatever number of instructions is traced, starting from an empty log and as long as the
  allocator has room, the log holds exactly the last 257 snapshots in execution order.
\<close>

theorem tracelog_keeps_last_257:
  assumes "heap_ok h" and "add_entries emus empty_log h = Some (lg', h')"
  shows "\<exists>ps. heap_ok h' \<and> log_list lg' h' ps \<and>
    log_contents lg' ps = drop (length emus - 257) (map snapshot emus)"
  using add_entries_list [OF assms(1) empty_log_list assms(2)] by (simp add: log_contents_def)

theorem tracelog_keeps_last_257_witness:
  "\<exists>lg' h' ps. add_entries [demo_emulator] empty_log demo_heap = Some (lg', h') \<and>
     log_list lg' h' ps \<and> log_contents lg' ps = [snapshot demo_emulator]"
proof -
  obtain lg' h' where add:
    "add_tracelog_entry demo_emulator empty_log demo_heap = (0x01001000, lg', h')"
    using demo_add [of demo_emulator] by (metis prod.collapse)
  then have "add_entries [demo_emulator] empty_log demo_heap = Some (lg', h')"
    by (simp add: ENOMEM_def)
  with tracelog_keeps_last_257 [OF demo_heap_ok this] show ?thesis by auto
qed

text \<open>
  When no block is left, the call returns \<open>ERROR(-ENOMEM)\<close> and leaves the log alone, but it
  frees the NULL pointer: on the kernel's heap that is block -4096, so the byte 4096 places before
  the entry table is set to zero.
\<close>

theorem add_tracelog_entry_full:
  assumes "hp_saddr h = 0x01000000" and "fst (kmalloc h TRACELOG_ENTRY_SIZE) = 0" and "heap_ok h"
    and "current_length lg < TRACELOG_MAX_LENGTH"
  shows "fst (add_tracelog_entry emu lg h) = word_of_int (- ENOMEM) \<and>
    fst (snd (add_tracelog_entry emu lg h)) = lg \<and>
    entries_of (snd (snd (add_tracelog_entry emu lg h))) (-4096) = HEAP_BLOCK_TABLE_ENTRY_FREE"
proof -
  have same: "snd (kmalloc h TRACELOG_ENTRY_SIZE) = h"
    using kernel_allocator.alloc_null [OF assms(3) entry_size_one_block assms(2)] .
  have "add_tracelog_entry emu lg h = (word_of_int (- ENOMEM), lg, kfree h 0)"
    using assms(2,4) same by (simp add: add_tracelog_entry_def Let_def split_beta)
  moreover have "heap_address_to_block h 0 = -4096"
    using assms(1) by (simp add: heap_address_to_block_def)
  moreover have "sint (ht_total (hp_table h)) = total_of h"
    using assms(3) by (simp add: heap_ok_def sint_eq_uint_small)
  moreover have "0 \<le> total_of h" by simp
  ultimately show ?thesis
    by (simp add: kfree_def heap_free_def heap_mark_blocks_free_def mark_free_loop_head
        order_less_le_trans [of _ 0])
qed

theorem add_tracelog_entry_full_witness:
  "fst (add_tracelog_entry demo_emulator empty_log
     \<lparr>hp_table = \<lparr>ht_entries = (\<lambda>_. 0x41), ht_total = 1\<rparr>, hp_saddr = 0x01000000\<rparr>)
   = word_of_int (- ENOMEM)"
proof -
  let ?h = "\<lparr>hp_table = \<lparr>ht_entries = (\<lambda>_. 0x41), ht_total = 1\<rparr>, hp_saddr = 0x01000000\<rparr> :: heap"
  have "fst (kmalloc ?h TRACELOG_ENTRY_SIZE) = 0" by code_simp
  moreover have "heap_ok ?h" by (auto simp: heap_ok_def table_ok_def entry_ok_def)
  moreover have "current_length empty_log < TRACELOG_MAX_LENGTH" by (simp add: empty_log_def)
  ultimately show ?thesis using add_tracelog_entry_full [of ?h empty_log demo_emulator] by simp
qed

end
