(* ===== verification/TracePrint.thy ===== *)
theory TracePrint
  imports Tracelog
begin

text \<open>
  How the trace log is shown: \<open>print_tracelog_entry\<close> and its helpers, the window of entries and the two
  scroll handlers of \<open>src/emulator/CPU/tracelogger.c\<close>.  \<open>None\<close> is a cycle counter too long for the
  digit buffer of \<open>print_decimal\<close>.  The lemmas show that every function prints a fixed text, and the
  properties that the columns of the listing line up and that a line fits the screen.
\<close>

abbreviation NUM_PRINT_ENTRIES :: int where "NUM_PRINT_ENTRIES \<equiv> 24"

subsection \<open>Operations\<close>

text \<open>The value an entry shows: what it wrote, or what it read when it wrote nothing.\<close>

definition shown_value :: "tracelog_entry \<Rightarrow> u8" where
  "shown_value e = (if te_write_value_set e then te_written_value e else te_read_value e)"

definition has_value :: "tracelog_entry \<Rightarrow> bool" where
  "has_value e \<longleftrightarrow> te_read_value_set e \<or> te_write_value_set e"

(* src/src/emulator/CPU/tracelogger.c 186-204 print_tracelog_address *)
definition print_tracelog_address :: "tracelog_entry \<Rightarrow> u16 \<Rightarrow> terminal \<Rightarrow> terminal" where
  "print_tracelog_address cur_log_entry address t =
     (let extra_spaces = 12;
          t = print ''$'' t;
          (extra_spaces, t) = (if address \<le> 0xFF
                               then (extra_spaces + 2, print_hex8 (ucast address) t)
                               else (extra_spaces, print_hex16 address t));
          print_value = shown_value cur_log_entry;
          (extra_spaces, t) = (if has_value cur_log_entry
                               then (extra_spaces, print_hex8 print_value (print '' = $'' t))
                               else (extra_spaces + 6, t))
      in print_spaces extra_spaces t)"

(* src/src/emulator/CPU/tracelogger.c 206-224 print_tracelog_ZP_indexed *)
definition print_tracelog_ZP_indexed :: "tracelog_entry \<Rightarrow> string \<Rightarrow> terminal \<Rightarrow> terminal" where
  "print_tracelog_ZP_indexed cur_log_entry reg_name t =
     (let extra_spaces = 4;
          t = print ''$'' t;
          t = print_hex8 (te_operands cur_log_entry 0) t;
          t = print '','' t;
          t = print reg_name t;
          t = print '' [$'' t;
          t = print_hex16 (te_indexed_address cur_log_entry) t;
          t = print '']'' t;
          print_value = shown_value cur_log_entry;
          (extra_spaces, t) = (if has_value cur_log_entry
                               then (extra_spaces, print_hex8 print_value (print '' = $'' t))
                               else (extra_spaces + 6, t))
      in print_spaces extra_spaces t)"

(* src/src/emulator/CPU/tracelogger.c 226-243 print_tracelog_indirect_indexed *)
definition print_tracelog_indirect_indexed :: "tracelog_entry \<Rightarrow> char \<Rightarrow> terminal \<Rightarrow> terminal" where
  "print_tracelog_indirect_indexed cur_log_entry reg_name t =
     (let extra_spaces = 2;
          t = print ''($'' t;
          t = print_hex8 (te_operands cur_log_entry 0) t;
          index_string = (if reg_name = CHR ''Y'' then ''),Y [$'' else '',X) [$'');
          t = print index_string t;
          t = print_hex16 (te_indexed_address cur_log_entry) t;
          t = print '']'' t;
          print_value = shown_value cur_log_entry;
          (extra_spaces, t) = (if has_value cur_log_entry
                               then (extra_spaces, print_hex8 print_value (print '' = $'' t))
                               else (extra_spaces + 8, t))
      in print_spaces extra_spaces t)"

(* src/src/emulator/CPU/tracelogger.c 142-184 print_tracelog_operands *)
definition print_tracelog_operands :: "tracelog_entry \<Rightarrow> opcode_entry \<Rightarrow> terminal \<Rightarrow> terminal" where
  "print_tracelog_operands cur_log_entry opcode_entry t =
     (case oe_addr_mode opcode_entry of
        ADDR_ZERO_PAGE \<Rightarrow>
          let address = ucast (te_operands cur_log_entry 0)
          in print_tracelog_address cur_log_entry address t
      | ADDR_ABSOLUTE \<Rightarrow> print_tracelog_address cur_log_entry (te_address cur_log_entry) t
      | ADDR_ABSOLUTE_Y \<Rightarrow> print_tracelog_address cur_log_entry (te_address cur_log_entry) t
      | ADDR_ABSOLUTE_X \<Rightarrow> print_tracelog_address cur_log_entry (te_address cur_log_entry) t
      | ADDR_RELATIVE \<Rightarrow> print_tracelog_address cur_log_entry (te_address cur_log_entry) t
      | ADDR_ZERO_PAGE_X \<Rightarrow> print_tracelog_ZP_indexed cur_log_entry ''X'' t
      | ADDR_ZERO_PAGE_Y \<Rightarrow> print_tracelog_ZP_indexed cur_log_entry ''Y'' t
      | ADDR_INDIRECT_Y \<Rightarrow> print_tracelog_indirect_indexed cur_log_entry CHR ''Y'' t
      | ADDR_INDIRECT_X \<Rightarrow> print_tracelog_indirect_indexed cur_log_entry CHR ''X'' t
      | ADDR_IMMEDIATE \<Rightarrow>
          let t = print ''#$'' t;
              t = print_hex8 (te_operands cur_log_entry 0) t
          in print_spaces 19 t
      | _ \<Rightarrow> print_spaces 23 t)"

(* src/src/emulator/CPU/tracelogger.c 111-140 print_tracelog_entry *)
definition print_tracelog_entry :: "tracelog_entry \<Rightarrow> terminal \<Rightarrow> terminal option" where
  "print_tracelog_entry cur_log_entry t =
     (let regs = te_registers cur_log_entry;
          t = print_hex16 (r_program_counter regs) t;
          opcode_entry = opcode_row (te_opcode cur_log_entry);
          t = print '' '' t;
          t = print_hex8 (te_opcode cur_log_entry) t;
          t = print ''  '' t;
          t = print (oe_mnemonic opcode_entry) t;
          t = print '' '' t;
          t = print_tracelog_operands cur_log_entry opcode_entry t;
          t = print_hex8 (r_A regs) (print ''A:'' t);
          t = print_hex8 (r_X regs) (print '' X:'' t);
          t = print_hex8 (r_Y regs) (print '' Y:'' t);
          t = print_hex8 (r_stack_pointer regs) (print '' S:'' t);
          t = print '' P:'' t;
          flags = r_flags regs;
          t = print (if flags AND FLAG_NEGATIVE \<noteq> 0 then ''N'' else ''n'') t;
          t = print (if flags AND FLAG_OVERFLOW \<noteq> 0 then ''V'' else ''v'') t;
          t = print ''--'' t;
          t = print (if flags AND FLAG_DECIMAL \<noteq> 0 then ''D'' else ''d'') t;
          t = print (if flags AND FLAG_INTERRUPT_DISABLE \<noteq> 0 then ''I'' else ''i'') t;
          t = print (if flags AND FLAG_ZERO \<noteq> 0 then ''Z'' else ''z'') t;
          t = print (if flags AND FLAG_CARRY \<noteq> 0 then ''C'' else ''c'') t;
          t = print '' Cycle:'' t
      in case print_decimal (te_total_CPU_cycles cur_log_entry) t of
           None \<Rightarrow> None
         | Some t \<Rightarrow> Some (print [CHR 0x0A] t))"

(* src/src/emulator/CPU/tracelogger.c 247-253 tracelog_print_entries: loop *)
function print_entries_loop :: "logger \<Rightarrow> int \<Rightarrow> u32 \<Rightarrow> terminal \<Rightarrow> terminal option" where
  "print_entries_loop lg i print_entry t =
     (if i \<le> NUM_PRINT_ENTRIES \<and> i \<le> current_length lg then
        case print_tracelog_entry (log_mem lg print_entry) t of
          None \<Rightarrow> None
        | Some t \<Rightarrow>
            print_entries_loop lg (i + 1)
              (if print_entry \<noteq> log_tail lg then te_next (log_mem lg print_entry) else print_entry) t
      else Some t)"
  by pat_completeness auto
termination
  by (relation "measure (\<lambda>(lg, i, p, t). nat (NUM_PRINT_ENTRIES + 1 - i))") auto

declare print_entries_loop.simps [simp del]

(* src/src/emulator/CPU/tracelogger.c 245-254 tracelog_print_entries *)
definition tracelog_print_entries :: "logger \<Rightarrow> terminal \<Rightarrow> terminal option" where
  "tracelog_print_entries lg t = print_entries_loop lg 0 (cur_selected_entry lg) (reset_terminal t)"

(* src/src/emulator/CPU/tracelogger.c 256-262 scroll_down *)
definition scroll_down :: "logger \<Rightarrow> terminal \<Rightarrow> logger \<times> terminal option" where
  "scroll_down lg t =
     (let lg = (if cur_selected_index lg + NUM_PRINT_ENTRIES < current_length lg
                then lg\<lparr>cur_selected_entry := te_next (log_mem lg (cur_selected_entry lg)),
                        cur_selected_index := cur_selected_index lg + 1\<rparr>
                else lg)
      in (lg, tracelog_print_entries lg t))"

(* src/src/emulator/CPU/tracelogger.c 264-270 scroll_up *)
definition scroll_up :: "logger \<Rightarrow> terminal \<Rightarrow> logger \<times> terminal option" where
  "scroll_up lg t =
     (let lg = (if cur_selected_entry lg \<noteq> log_head lg
                then lg\<lparr>cur_selected_entry := te_prev (log_mem lg (cur_selected_entry lg)),
                        cur_selected_index := cur_selected_index lg - 1\<rparr>
                else lg)
      in (lg, tracelog_print_entries lg t))"

subsection \<open>The printed text\<close>

lemma print_Nil [simp]: "print [] t = t"
  by (simp add: print_def)

lemma print_append: "print s (print r t) = print (r @ s) t"
  by (simp add: print_def)

lemma print_spaces_text: "print_spaces n t = print (replicate (nat n) CHR '' '') t"
proof -
  have "(print '' '' ^^ k) t = print (replicate k CHR '' '') t" for k
    by (induction k) (simp_all add: print_append replicate_append_same)
  then show ?thesis by (simp add: print_spaces_def)
qed

definition hex_digit :: "u8 \<Rightarrow> char" where
  "hex_digit v = ''0123456789ABCDEF'' ! unat v"

definition hex2 :: "u8 \<Rightarrow> string" where
  "hex2 v = [hex_digit (drop_bit 4 v), hex_digit (v AND 0xF)]"

definition hex4 :: "u16 \<Rightarrow> string" where
  "hex4 v = hex2 (ucast (drop_bit 8 v AND 0xFF)) @ hex2 (ucast (v AND 0xFF))"

lemma length_hex [simp]: "length (hex2 v) = 2" "length (hex4 w) = 4"
  by (simp_all add: hex2_def hex4_def)

lemma hexchar_digit: "unat v < 16 \<Longrightarrow> hexchar v = of_char (hex_digit v)"
proof -
  assume v: "unat v < 16"
  then have "unat (ucast v :: u32) = unat v" by (simp add: unsigned_ucast_eq take_bit_nat_eq_self)
  moreover have "length (bytes ''0123456789ABCDEF'') = 16" by (simp add: bytes_def)
  moreover have "bytes ''0123456789ABCDEF'' ! unat v = of_char (''0123456789ABCDEF'' ! unat v)"
    unfolding bytes_def by (rule nth_map) (use v in simp)
  ultimately show ?thesis
    using v by (simp add: hexchar_def gethexchar_def Let_def hex_digit_def nth_append)
qed

lemma print_hex8_text: "print_hex8 v t = print (hex2 v) t"
proof -
  have "unat v < 256" using unsigned_less [of v, where ?'a = nat] by simp
  then have "unat (drop_bit 4 v) < 16"
    by (simp add: unat_drop_bit_eq drop_bit_nat_def less_mult_imp_div_less del: drop_bit_numeral_minus_bit1)
  moreover have "unat (v AND 0xF) < 16"
    using word_and_le1 [THEN word_le_nat_alt [THEN iffD1]] by (rule le_less_trans) simp
  ultimately show ?thesis by (simp add: print_hex8_def print_def hex2_def hexchar_digit)
qed

lemma print_hex16_text: "print_hex16 v t = print (hex4 v) t"
  by (simp add: print_hex16_def print_hex8_text print_append hex4_def)


definition value_text :: "tracelog_entry \<Rightarrow> string" where
  "value_text e = (if has_value e then '' = $'' @ hex2 (shown_value e) else [])"

text \<open>\<open>pad n s\<close> is \<open>s\<close> filled with spaces to a column of width \<open>n\<close>.\<close>

definition pad :: "nat \<Rightarrow> string \<Rightarrow> string" where
  "pad n s = s @ replicate (n - length s) CHR '' ''"

definition address_text :: "u16 \<Rightarrow> string" where
  "address_text a = CHR ''$'' # (if a \<le> 0xFF then hex2 (ucast a) else hex4 a)"

lemma length_value_text: "length (value_text e) = (if has_value e then 6 else 0)"
  by (simp add: value_text_def)

lemma length_address_text: "length (address_text a) = (if a \<le> 0xFF then 3 else 5)"
  by (simp add: address_text_def)

lemma print_tracelog_address_text:
  "print_tracelog_address e a t = print (pad 23 (address_text a @ value_text e)) t"
  by (simp add: print_tracelog_address_def Let_def print_hex8_text print_hex16_text print_append
      print_spaces_text pad_def value_text_def address_text_def)

lemma print_tracelog_ZP_indexed_text:
  "print_tracelog_ZP_indexed e [r] t =
     print (pad 23 (CHR ''$'' # hex2 (te_operands e 0) @ '','' @ [r] @ '' [$'' @
                    hex4 (te_indexed_address e) @ '']'' @ value_text e)) t"
  by (simp add: print_tracelog_ZP_indexed_def Let_def print_hex8_text print_hex16_text print_append
      print_spaces_text pad_def value_text_def)

lemma print_tracelog_indirect_indexed_text:
  "print_tracelog_indirect_indexed e r t =
     print (pad (if has_value e then 23 else 25)
       (''($'' @ hex2 (te_operands e 0) @ (if r = CHR ''Y'' then ''),Y [$'' else '',X) [$'') @
        hex4 (te_indexed_address e) @ '']'' @ value_text e)) t"
  by (simp add: print_tracelog_indirect_indexed_def Let_def print_hex8_text print_hex16_text
      print_append print_spaces_text pad_def value_text_def)

text \<open>The operand column of an entry, as text.\<close>

definition operand_text :: "tracelog_entry \<Rightarrow> addressing_mode \<Rightarrow> string" where
  "operand_text e md =
     (case md of
        ADDR_ZERO_PAGE \<Rightarrow> pad 23 (address_text (ucast (te_operands e 0)) @ value_text e)
      | ADDR_ABSOLUTE \<Rightarrow> pad 23 (address_text (te_address e) @ value_text e)
      | ADDR_ABSOLUTE_Y \<Rightarrow> pad 23 (address_text (te_address e) @ value_text e)
      | ADDR_ABSOLUTE_X \<Rightarrow> pad 23 (address_text (te_address e) @ value_text e)
      | ADDR_RELATIVE \<Rightarrow> pad 23 (address_text (te_address e) @ value_text e)
      | ADDR_ZERO_PAGE_X \<Rightarrow> pad 23 (CHR ''$'' # hex2 (te_operands e 0) @ '',X [$'' @
          hex4 (te_indexed_address e) @ '']'' @ value_text e)
      | ADDR_ZERO_PAGE_Y \<Rightarrow> pad 23 (CHR ''$'' # hex2 (te_operands e 0) @ '',Y [$'' @
          hex4 (te_indexed_address e) @ '']'' @ value_text e)
      | ADDR_INDIRECT_Y \<Rightarrow> pad (if has_value e then 23 else 25) (''($'' @ hex2 (te_operands e 0) @
          ''),Y [$'' @ hex4 (te_indexed_address e) @ '']'' @ value_text e)
      | ADDR_INDIRECT_X \<Rightarrow> pad (if has_value e then 23 else 25) (''($'' @ hex2 (te_operands e 0) @
          '',X) [$'' @ hex4 (te_indexed_address e) @ '']'' @ value_text e)
      | ADDR_IMMEDIATE \<Rightarrow> pad 23 (''#$'' @ hex2 (te_operands e 0))
      | _ \<Rightarrow> pad 23 [])"

definition indirect_mode :: "addressing_mode \<Rightarrow> bool" where
  "indirect_mode md \<longleftrightarrow> md = ADDR_INDIRECT_X \<or> md = ADDR_INDIRECT_Y"

lemma print_tracelog_operands_text:
  "print_tracelog_operands e oe t = print (operand_text e (oe_addr_mode oe)) t"
  by (cases "oe_addr_mode oe")
    (simp_all add: print_tracelog_operands_def operand_text_def print_tracelog_address_text
      print_tracelog_ZP_indexed_text print_tracelog_indirect_indexed_text print_hex8_text
      print_append print_spaces_text pad_def Let_def)

lemma length_operand_text:
  "length (operand_text e md) = (if indirect_mode md \<and> \<not> has_value e then 25 else 23)"
  by (cases md) (auto simp: operand_text_def indirect_mode_def pad_def length_value_text
      length_address_text)

text \<open>
  The operand column of the trace listing is a fixed text, 23 characters wide for every
  addressing mode, so the registers line up; except that an \<open>(zp,X)\<close> or \<open>(zp),Y\<close> entry that neither
  read nor wrote a value takes 25, because \<open>print_tracelog_indirect_indexed\<close> pads with 8 spaces
  where the 6 characters of the value are missing.
\<close>

theorem operand_column_width:
  "\<exists>txt. (\<forall>t. print_tracelog_operands e oe t = print txt t) \<and>
     length txt = (if indirect_mode (oe_addr_mode oe) \<and> \<not> has_value e then 25 else 23)"
  by (intro exI [of _ "operand_text e (oe_addr_mode oe)"])
    (simp add: print_tracelog_operands_text length_operand_text)

subsection \<open>Decimal numbers\<close>

text \<open>The value of a digit string, least significant digit first.\<close>

fun digits_value :: "u8 list \<Rightarrow> int" where
  "digits_value [] = 0"
| "digits_value (d # ds) = (uint d - 48) + 10 * digits_value ds"

lemma decimal_digits_step:
  "0 < v \<Longrightarrow> decimal_digits v = word_of_int (v mod 10 + 48) # decimal_digits (v div 10)"
  by (subst decimal_digits.simps) (simp add: sdiv_nonneg smod_int_alt_def)

lemma decimal_digits_value: "0 \<le> v \<Longrightarrow> digits_value (decimal_digits v) = v"
proof (induction v rule: decimal_digits.induct)
  case (1 v)
  show ?case
  proof (cases "v > 0")
    case True
    have "uint (word_of_int (v mod 10 + 48) :: u8) = v mod 10 + 48"
      by (rule uint_of_int_id) (auto simp: pos_mod_bound [of 10 v, THEN order.strict_trans2])
    with 1 True show ?thesis by (simp add: decimal_digits_step sdiv_nonneg)
  next
    case False
    with 1 show ?thesis by (simp add: decimal_digits.simps)
  qed
qed

lemma decimal_digits_length: "v < 10 ^ n \<Longrightarrow> length (decimal_digits v) \<le> n"
proof (induction n arbitrary: v)
  case 0
  then show ?case by (simp add: decimal_digits.simps)
next
  case (Suc n)
  show ?case
  proof (cases "0 < v")
    case True
    moreover have "v div 10 < 10 ^ n" using Suc.prems by (simp add: div_less_iff_less_mult)
    ultimately show ?thesis using Suc.IH by (simp add: decimal_digits_step)
  next
    case False
    then show ?thesis by (simp add: decimal_digits.simps)
  qed
qed

lemma decimal_digits_length_ge: "10 ^ n \<le> v \<Longrightarrow> n < length (decimal_digits v)"
proof (induction n arbitrary: v)
  case 0
  then show ?case by (simp add: decimal_digits_step)
next
  case (Suc n)
  then have "10 ^ n * 10 div 10 \<le> v div 10" by (intro zdiv_mono1) simp_all
  then have "10 ^ n \<le> v div 10" by simp
  moreover have "0 < v" using Suc.prems by (rule less_le_trans [rotated]) simp
  ultimately show ?case using Suc.IH by (simp add: decimal_digits_step)
qed

definition digit_char :: "u8 \<Rightarrow> char" where
  "digit_char d = ''0123456789'' ! nat (uint d - 48)"

definition decimal_text :: "int \<Rightarrow> string" where
  "decimal_text v = (if v = 0 then ''0'' else map digit_char (rev (decimal_digits v)))"

lemma digit_char_byte:
  assumes "0 \<le> k" and "k < 10"
  shows "of_char (digit_char (word_of_int (k + 48))) = (word_of_int (k + 48) :: u8)"
proof -
  have "k = 0 \<or> k = 1 \<or> k = 2 \<or> k = 3 \<or> k = 4 \<or> k = 5 \<or> k = 6 \<or> k = 7 \<or> k = 8 \<or> k = 9"
    using assms by presburger
  then show ?thesis by (auto simp: digit_char_def)
qed

lemma decimal_digits_chars: "map (\<lambda>d. of_char (digit_char d)) (decimal_digits v) = decimal_digits v"
proof (induction v rule: decimal_digits.induct)
  case (1 v)
  show ?case
  proof (cases "v > 0")
    case True
    have "of_char (digit_char (word_of_int (v mod 10 + 48))) = (word_of_int (v mod 10 + 48) :: u8)"
      by (rule digit_char_byte) simp_all
    with 1 True show ?thesis by (simp add: decimal_digits_step sdiv_nonneg)
  next
    case False
    then show ?thesis by (simp add: decimal_digits.simps)
  qed
qed

lemma print_decimal_text:
  "print_decimal v t = (if v < 10 ^ 8 then Some (print (decimal_text v) t) else None)"
proof -
  have "fold (\<lambda>d. terminal_writechar d 15) (rev (decimal_digits v)) t =
      print (map digit_char (rev (decimal_digits v))) t"
  proof -
    have "print (map digit_char (rev (decimal_digits v))) t =
        fold (\<lambda>d. terminal_writechar d 15) (rev (map (\<lambda>d. of_char (digit_char d)) (decimal_digits v))) t"
      by (simp add: print_def fold_map o_def rev_map)
    then show ?thesis by (simp only: decimal_digits_chars)
  qed
  moreover have "length (decimal_digits v) \<le> 8 \<longleftrightarrow> v < 10 ^ 8"
    using decimal_digits_length [of v 8] decimal_digits_length_ge [of 8 v] by linarith
  ultimately show ?thesis
    by (auto simp: print_decimal_def Let_def decimal_text_def print_def)
qed

text \<open>
  \<open>print_decimal\<close> prints the decimal digits of a non-negative value below \<open>10 ^ 8\<close>, most
  significant first: read back, they give the value.  A larger value does not fit its 8-byte buffer,
  and a negative one prints nothing.
\<close>

theorem print_decimal_correct:
  "(0 \<le> v \<and> v < 10 ^ 8 \<longrightarrow> print_decimal v t = Some (print (decimal_text v) t) \<and>
      digits_value (rev (map of_char (decimal_text v))) = v) \<and>
   (10 ^ 8 \<le> v \<longrightarrow> print_decimal v t = None) \<and> (v < 0 \<longrightarrow> print_decimal v t = Some t)"
proof -
  have "digits_value (rev (map of_char (decimal_text v))) = v" if "0 \<le> v"
  proof (cases "v = 0")
    case True
    then show ?thesis by (simp add: decimal_text_def)
  next
    case False
    then have "rev (map of_char (decimal_text v)) = decimal_digits v"
      using decimal_digits_chars [of v] by (simp add: decimal_text_def rev_map o_def)
    then show ?thesis using decimal_digits_value [OF that] by simp
  qed
  moreover have "decimal_text v = []" if "v < 0"
    using that by (simp add: decimal_text_def decimal_digits.simps)
  ultimately show ?thesis by (auto simp: print_decimal_text)
qed

definition blank_terminal :: terminal where
  "blank_terminal = \<lparr>video_mem = (\<lambda>_. 0), terminal_row = 0, terminal_col = 0\<rparr>"

theorem print_decimal_correct_witness:
  "print_decimal 1007 blank_terminal = Some (print ''1007'' blank_terminal) \<and> print_decimal 100000000 blank_terminal = None \<and>
   print_decimal (-5) blank_terminal = Some blank_terminal"
proof -
  have "decimal_text 1007 = ''1007''" by code_simp
  then show ?thesis
    using print_decimal_correct [of 1007 blank_terminal] print_decimal_correct [of 100000000 blank_terminal]
      print_decimal_correct [of "-5" blank_terminal] by simp
qed

subsection \<open>A line of the listing\<close>

definition flags_text :: "u8 \<Rightarrow> string" where
  "flags_text f =
     (if f AND FLAG_NEGATIVE \<noteq> 0 then ''N'' else ''n'') @ (if f AND FLAG_OVERFLOW \<noteq> 0 then ''V'' else ''v'') @
     ''--'' @ (if f AND FLAG_DECIMAL \<noteq> 0 then ''D'' else ''d'') @
     (if f AND FLAG_INTERRUPT_DISABLE \<noteq> 0 then ''I'' else ''i'') @
     (if f AND FLAG_ZERO \<noteq> 0 then ''Z'' else ''z'') @ (if f AND FLAG_CARRY \<noteq> 0 then ''C'' else ''c'')"

definition entry_text :: "tracelog_entry \<Rightarrow> string" where
  "entry_text e =
     (let regs = te_registers e; oe = opcode_row (te_opcode e)
      in hex4 (r_program_counter regs) @ '' '' @ hex2 (te_opcode e) @ ''  '' @ oe_mnemonic oe @ '' '' @
         operand_text e (oe_addr_mode oe) @ ''A:'' @ hex2 (r_A regs) @ '' X:'' @ hex2 (r_X regs) @
         '' Y:'' @ hex2 (r_Y regs) @ '' S:'' @ hex2 (r_stack_pointer regs) @ '' P:'' @
         flags_text (r_flags regs) @ '' Cycle:'' @ decimal_text (te_total_CPU_cycles e))"

lemma print_tracelog_entry_text:
  "te_total_CPU_cycles e < 10 ^ 8 \<Longrightarrow>
     print_tracelog_entry e t = Some (print (entry_text e @ [CHR 0x0A]) t)"
  unfolding print_tracelog_entry_def Let_def print_decimal_text
    print_hex8_text print_hex16_text print_tracelog_operands_text print_append
  by (simp add: entry_text_def Let_def flags_text_def print_append if_distrib [of print])

lemma length_flags_text: "length (flags_text f) = 8"
  by (simp add: flags_text_def)

lemma length_decimal_text: "0 \<le> v \<Longrightarrow> v < 10 ^ n \<Longrightarrow> 0 < n \<Longrightarrow> length (decimal_text v) \<le> n"
  by (auto simp: decimal_text_def decimal_digits_length)

text \<open>
  A trace line fits one row of the screen: for a cycle count below 10000 (an emulator run
  stops at 1000) the entry is printed as one fixed text of fewer than 80 characters and a newline.
\<close>

theorem trace_line_fits:
  assumes "0 \<le> te_total_CPU_cycles e" and "te_total_CPU_cycles e < 10000"
  shows "print_tracelog_entry e t = Some (print (entry_text e @ [CHR 0x0A]) t) \<and>
    length (entry_text e) < nat VGA_WIDTH"
proof -
  have "length (decimal_text (te_total_CPU_cycles e)) \<le> 4"
    using length_decimal_text [of _ 4] assms by simp
  then show ?thesis
    using assms print_tracelog_entry_text [of e t]
    by (auto simp: entry_text_def Let_def length_operand_text length_flags_text)
qed

theorem trace_line_fits_witness:
  "print_tracelog_entry (snapshot demo_emulator) blank_terminal =
     Some (print (entry_text (snapshot demo_emulator) @ [CHR 0x0A]) blank_terminal)"
  using trace_line_fits [of "snapshot demo_emulator" blank_terminal]
  by (simp add: snapshot_def demo_emulator_def)

end
