(* ===== verification/Cpu.thy ===== *)
theory Cpu
  imports TracePrint
begin

text \<open>
  The primitives of the emulated 6502 in \<open>src/emulator/CPU/emulator.c\<close>: the register accessors of
  \<open>emulator_debug.h\<close>, the memory bus with its trace hooks, the stack, the addressing modes and the
  read-modify-write and arithmetic helpers.  A C function over the globals is a state-monad program
  of type \<open>prog\<close>; a function with a result is a program with a result.
\<close>

type_synonym 'a prog = "(machine, 'a) state"

text \<open>Read access to, and update of, the parts of the machine.\<close>

definition regs :: "machine \<Rightarrow> registers" where
  "regs s = e_registers (m_emu s)"

definition upd_regs :: "(registers \<Rightarrow> registers) \<Rightarrow> machine \<Rightarrow> machine" where
  "upd_regs f s = s\<lparr>m_emu := (m_emu s)\<lparr>e_registers := f (regs s)\<rparr>\<rparr>"

definition upd_log :: "(logger \<Rightarrow> logger) \<Rightarrow> machine \<Rightarrow> machine" where
  "upd_log f s = s\<lparr>m_log := f (m_log s)\<rparr>"

definition cycles_of :: "machine \<Rightarrow> int" where
  "cycles_of s = e_total_CPU_cycles (m_emu s)"

definition add_cycles :: "int \<Rightarrow> machine \<Rightarrow> machine" where
  "add_cycles n s = s\<lparr>m_emu := (m_emu s)\<lparr>e_total_CPU_cycles := cycles_of s + n\<rparr>\<rparr>"

subsection \<open>Register accessors\<close>

(* src/src/emulator/CPU/emulator_debug.h 92-92 set_A_register *)
definition set_A_register :: "u8 \<Rightarrow> u8 prog" where
  "set_A_register v = do { modifies (upd_regs (\<lambda>r. r\<lparr>r_A := v\<rparr>)); State_Monad.return v }"

(* src/src/emulator/CPU/emulator_debug.h 96-96 reg_A *)
definition reg_A :: "u8 prog" where
  "reg_A = reads (\<lambda>s. r_A (regs s))"

(* src/src/emulator/CPU/emulator_debug.h 93-93 bit_OR_A *)
definition bit_OR_A :: "u8 \<Rightarrow> u8 prog" where
  "bit_OR_A v = do { modifies (upd_regs (\<lambda>r. r\<lparr>r_A := r_A r OR v\<rparr>)); reg_A }"

(* src/src/emulator/CPU/emulator_debug.h 94-94 bit_XOR_A *)
definition bit_XOR_A :: "u8 \<Rightarrow> u8 prog" where
  "bit_XOR_A v = do { modifies (upd_regs (\<lambda>r. r\<lparr>r_A := r_A r XOR v\<rparr>)); reg_A }"

(* src/src/emulator/CPU/emulator_debug.h 95-95 bit_AND_A *)
definition bit_AND_A :: "u8 \<Rightarrow> u8 prog" where
  "bit_AND_A v = do { modifies (upd_regs (\<lambda>r. r\<lparr>r_A := r_A r AND v\<rparr>)); reg_A }"

(* src/src/emulator/CPU/emulator_debug.h 98-98 set_X_register *)
definition set_X_register :: "u8 \<Rightarrow> u8 prog" where
  "set_X_register v = do { modifies (upd_regs (\<lambda>r. r\<lparr>r_X := v\<rparr>)); State_Monad.return v }"

(* src/src/emulator/CPU/emulator_debug.h 99-99 reg_X *)
definition reg_X :: "u8 prog" where
  "reg_X = reads (\<lambda>s. r_X (regs s))"

(* src/src/emulator/CPU/emulator_debug.h 101-101 set_Y_register *)
definition set_Y_register :: "u8 \<Rightarrow> u8 prog" where
  "set_Y_register v = do { modifies (upd_regs (\<lambda>r. r\<lparr>r_Y := v\<rparr>)); State_Monad.return v }"

(* src/src/emulator/CPU/emulator_debug.h 102-102 reg_Y *)
definition reg_Y :: "u8 prog" where
  "reg_Y = reads (\<lambda>s. r_Y (regs s))"

(* src/src/emulator/CPU/emulator_debug.h 104-104 set_SP *)
definition set_SP :: "u8 \<Rightarrow> u8 prog" where
  "set_SP v = do { modifies (upd_regs (\<lambda>r. r\<lparr>r_stack_pointer := v\<rparr>)); State_Monad.return v }"

(* src/src/emulator/CPU/emulator_debug.h 105-105 stack_pointer *)
definition stack_pointer :: "u8 prog" where
  "stack_pointer = reads (\<lambda>s. r_stack_pointer (regs s))"

(* src/src/emulator/CPU/emulator_debug.h 107-110 set_status_register *)
definition set_status_register :: "u8 \<Rightarrow> u8 prog" where
  "set_status_register v = do { modifies (upd_regs (\<lambda>r. r\<lparr>r_flags := v\<rparr>)); State_Monad.return v }"

(* src/src/emulator/CPU/emulator_debug.h 111-111 reg_status *)
definition reg_status :: "u8 prog" where
  "reg_status = reads (\<lambda>s. r_flags (regs s))"

(* src/src/emulator/CPU/emulator_debug.h 114-114 program_counter *)
definition program_counter :: "u16 prog" where
  "program_counter = reads (\<lambda>s. r_program_counter (regs s))"

subsection \<open>The bus, the stack and the program counter\<close>

text \<open>The byte on the bus at an address: RAM, ROM, and 0 in between.\<close>

definition bus_byte :: "machine \<Rightarrow> u16 \<Rightarrow> u8" where
  "bus_byte s address =
     (if address \<ge> 0x8000 then e_ROM (m_emu s) ! unat (address - 0x8000)
      else if address < 0x800 then e_RAM (m_emu s) ! unat address
      else 0)"

(* src/src/emulator/CPU/emulator.c 658-680 emu_read *)
definition emu_read :: "u16 \<Rightarrow> u8 prog" where
  "emu_read address = do {
     return_value \<leftarrow> reads (\<lambda>s. bus_byte s address);
     pc \<leftarrow> program_counter;
     do_when (address \<noteq> pc) (modifies (upd_log (tail_log_set_read_value return_value)));
     State_Monad.return return_value }"

(* src/src/emulator/CPU/emulator.c 682-697 emu_write *)
definition emu_write :: "u16 \<Rightarrow> u8 \<Rightarrow> unit prog" where
  "emu_write address v =
     (if address < 0x800 then do {
        modifies (\<lambda>s. s\<lparr>m_emu := (m_emu s)\<lparr>e_RAM := (e_RAM (m_emu s))[unat address := v]\<rparr>\<rparr>);
        modifies (upd_log (tail_log_set_written_value v)) }
      else skip)"

(* src/src/emulator/CPU/emulator.c 699-707 push_stack *)
definition push_stack :: "u8 \<Rightarrow> unit prog" where
  "push_stack v = do {
     sp \<leftarrow> stack_pointer;
     emu_write (0x100 + ucast sp) v;
     modifies (upd_regs (\<lambda>r. r\<lparr>r_stack_pointer := r_stack_pointer r - 1\<rparr>)) }"

(* src/src/emulator/CPU/emulator.c 709-723 pull_stack *)
definition pull_stack :: "u8 prog" where
  "pull_stack = do {
     modifies (upd_regs (\<lambda>r. r\<lparr>r_stack_pointer := r_stack_pointer r + 1\<rparr>));
     sp \<leftarrow> stack_pointer;
     emu_read (0x100 + ucast sp) }"

(* src/src/emulator/CPU/emulator.c 745-752 read_increment_PC *)
definition read_increment_PC :: "u8 prog" where
  "read_increment_PC = do {
     pc \<leftarrow> program_counter;
     result \<leftarrow> emu_read pc;
     modifies (upd_regs (\<lambda>r. r\<lparr>r_program_counter := r_program_counter r + 1\<rparr>));
     modifies (upd_log (tail_log_set_operand result));
     State_Monad.return result }"

(* src/src/emulator/CPU/emulator.c 754-760 read_PC *)
definition read_PC :: "u8 prog" where
  "read_PC = do {
     pc \<leftarrow> program_counter;
     result \<leftarrow> emu_read pc;
     modifies (upd_log (tail_log_set_operand result));
     State_Monad.return result }"

(* src/src/emulator/CPU/emulator.c 762-764 increment_PC *)
definition increment_PC :: "unit prog" where
  "increment_PC = modifies (upd_regs (\<lambda>r. r\<lparr>r_program_counter := r_program_counter r + 1\<rparr>))"

text \<open>The result of \<open>set_PC\<close> is declared \<open>uint8_t\<close>, so it is the low byte of the address.\<close>

(* src/src/emulator/CPU/emulator.c 766-772 set_PC *)
definition set_PC :: "u16 \<Rightarrow> u8 prog" where
  "set_PC address = do {
     modifies (upd_log (tail_log_set_address address));
     modifies (upd_regs (\<lambda>r. r\<lparr>r_program_counter := address\<rparr>));
     State_Monad.return (ucast address) }"

definition flag_update :: "u8 \<Rightarrow> bool \<Rightarrow> u8 \<Rightarrow> u8" where
  "flag_update flag condition f = (if condition then f OR flag else f AND NOT flag)"

(* src/src/emulator/CPU/emulator.c 774-783 set_status_flag *)
definition set_status_flag :: "u8 \<Rightarrow> bool \<Rightarrow> unit prog" where
  "set_status_flag flag condition =
     modifies (upd_regs (\<lambda>r. r\<lparr>r_flags := flag_update flag condition (r_flags r)\<rparr>))"

text \<open>\<open>(high << 8) | low\<close>, the two bytes of an address, as an \<open>uint16_t\<close>.\<close>

definition word_of_bytes :: "u8 \<Rightarrow> u8 \<Rightarrow> u16" where
  "word_of_bytes high low = push_bit 8 (ucast high) OR ucast low"

subsection \<open>Addressing modes\<close>

(* src/src/emulator/CPU/emulator.c 791-799 get_ZP_indexed_address *)
definition get_ZP_indexed_address :: "u8 \<Rightarrow> u16 prog" where
  "get_ZP_indexed_address reg_value = do {
     byte \<leftarrow> read_increment_PC;
     let indexed_address = (ucast (byte + reg_value) :: u16);
     modifies (upd_log (tail_log_set_indexed_address indexed_address));
     State_Monad.return indexed_address }"

(* src/src/emulator/CPU/emulator.c 803-813 get_absolute_addr *)
definition get_absolute_addr :: "u16 prog" where
  "get_absolute_addr = do {
     PC_lowbyte \<leftarrow> read_increment_PC;
     PC_highbyte \<leftarrow> read_increment_PC;
     let address = word_of_bytes PC_highbyte PC_lowbyte;
     modifies (upd_log (tail_log_set_address address));
     State_Monad.return address }"

(* src/src/emulator/CPU/emulator.c 816-827 get_absolute_addr_X_indexed *)
definition get_absolute_addr_X_indexed :: "u16 prog" where
  "get_absolute_addr_X_indexed = do {
     PC_lowbyte \<leftarrow> read_increment_PC;
     PC_highbyte \<leftarrow> read_increment_PC;
     x \<leftarrow> reg_X;
     let address = word_of_bytes PC_highbyte PC_lowbyte + ucast x;
     modifies (upd_log (tail_log_set_address address));
     State_Monad.return address }"

(* src/src/emulator/CPU/emulator.c 830-841 get_absolute_addr_Y_indexed *)
definition get_absolute_addr_Y_indexed :: "u16 prog" where
  "get_absolute_addr_Y_indexed = do {
     PC_lowbyte \<leftarrow> read_increment_PC;
     PC_highbyte \<leftarrow> read_increment_PC;
     y \<leftarrow> reg_Y;
     let address = word_of_bytes PC_highbyte PC_lowbyte + ucast y;
     modifies (upd_log (tail_log_set_address address));
     State_Monad.return address }"

text \<open>The pointer is read at \<open>address\<close> and \<open>address + 1\<close>; the sum is an \<open>int\<close>, so it does not wrap at 0xFF.\<close>

(* src/src/emulator/CPU/emulator.c 844-856 get_indirect_address_Y_indexed *)
definition get_indirect_address_Y_indexed :: "u16 prog" where
  "get_indirect_address_Y_indexed = do {
     address \<leftarrow> read_increment_PC;
     PC_lowbyte \<leftarrow> emu_read (ucast address);
     PC_highbyte \<leftarrow> emu_read (ucast address + 1);
     y \<leftarrow> reg_Y;
     let indirect_addr = word_of_bytes PC_highbyte PC_lowbyte + ucast y;
     modifies (upd_log (tail_log_set_indexed_address indirect_addr));
     State_Monad.return indirect_addr }"

(* src/src/emulator/CPU/emulator.c 859-870 get_indirect_address_X_indexed *)
definition get_indirect_address_X_indexed :: "u16 prog" where
  "get_indirect_address_X_indexed = do {
     byte \<leftarrow> read_increment_PC;
     x \<leftarrow> reg_X;
     let address = byte + x;
     PC_lowbyte \<leftarrow> emu_read (ucast address);
     PC_highbyte \<leftarrow> emu_read (ucast address + 1);
     let indirect_addr = word_of_bytes PC_highbyte PC_lowbyte;
     modifies (upd_log (tail_log_set_indexed_address indirect_addr));
     State_Monad.return indirect_addr }"

subsection \<open>Shared operations of the instructions\<close>

(* src/src/emulator/CPU/emulator.c 872-878 ASL_op *)
definition ASL_op :: "u8 \<Rightarrow> u16 \<Rightarrow> unit prog" where
  "ASL_op input address = do {
     set_status_flag FLAG_CARRY (input AND 0x80 \<noteq> 0);
     let input = push_bit 1 input;
     emu_write address input;
     set_status_flag FLAG_ZERO (input = 0);
     set_status_flag FLAG_NEGATIVE (input \<ge> 0x80) }"

(* src/src/emulator/CPU/emulator.c 880-886 LSR_op *)
definition LSR_op :: "u8 \<Rightarrow> u16 \<Rightarrow> unit prog" where
  "LSR_op input address = do {
     set_status_flag FLAG_CARRY (input AND 0x01 \<noteq> 0);
     let input = drop_bit 1 input;
     emu_write address input;
     set_status_flag FLAG_ZERO (input = 0);
     set_status_flag FLAG_NEGATIVE (input \<ge> 0x80) }"

(* src/src/emulator/CPU/emulator.c 888-898 ROL_op *)
definition ROL_op :: "u8 \<Rightarrow> u16 \<Rightarrow> unit prog" where
  "ROL_op input address = do {
     let new_carry_bit = (input \<ge> 0x80);
     let input = push_bit 1 input;
     status \<leftarrow> reg_status;
     let input = (if status AND FLAG_CARRY \<noteq> 0 then input OR 0x1 else input);
     emu_write address input;
     set_status_flag FLAG_CARRY new_carry_bit;
     set_status_flag FLAG_ZERO (input = 0);
     set_status_flag FLAG_NEGATIVE (input \<ge> 0x80) }"

(* src/src/emulator/CPU/emulator.c 900-910 ROR_op *)
definition ROR_op :: "u8 \<Rightarrow> u16 \<Rightarrow> unit prog" where
  "ROR_op input address = do {
     let new_carry_bit = (input AND 0x01 \<noteq> 0);
     let input = drop_bit 1 input;
     status \<leftarrow> reg_status;
     let input = (if status AND FLAG_CARRY \<noteq> 0 then input OR 0x80 else input);
     emu_write address input;
     set_status_flag FLAG_CARRY new_carry_bit;
     set_status_flag FLAG_ZERO (input = 0);
     set_status_flag FLAG_NEGATIVE (input \<ge> 0x80) }"

text \<open>
  \<open>ADC_op\<close> and \<open>SBC_op\<close> call \<open>bit_XOR_A\<close>, which changes the accumulator, twice in one \<open>&\<close> expression.
  C does not fix which call comes first, so the order is a parameter of the model.
\<close>

datatype eval_order = Left_first | Right_first

definition both_XOR_A :: "eval_order \<Rightarrow> u8 \<Rightarrow> u8 \<Rightarrow> (u8 \<times> u8) prog" where
  "both_XOR_A ord u v =
     (case ord of
        Left_first \<Rightarrow> do { x \<leftarrow> bit_XOR_A u; y \<leftarrow> bit_XOR_A v; State_Monad.return (x, y) }
      | Right_first \<Rightarrow> do { y \<leftarrow> bit_XOR_A v; x \<leftarrow> bit_XOR_A u; State_Monad.return (x, y) })"

(* src/src/emulator/CPU/emulator.c 913-924 ADC_op *)
definition ADC_op :: "eval_order \<Rightarrow> u8 \<Rightarrow> unit prog" where
  "ADC_op ord input = do {
     a \<leftarrow> reg_A;
     let sum = uint a + uint input;
     status \<leftarrow> reg_status;
     let sum = (if status AND FLAG_CARRY \<noteq> 0 then sum + 1 else sum);
     (x, y) \<leftarrow> both_XOR_A ord input (word_of_int sum);
     set_status_flag FLAG_OVERFLOW (NOT x AND y AND 0x80 \<noteq> 0);
     set_status_flag FLAG_CARRY (sum > 0xFF);
     result \<leftarrow> set_A_register (word_of_int sum);
     set_status_flag FLAG_ZERO (result = 0);
     set_status_flag FLAG_NEGATIVE (result \<ge> 0x80) }"

(* src/src/emulator/CPU/emulator.c 927-938 SBC_op *)
definition SBC_op :: "eval_order \<Rightarrow> u8 \<Rightarrow> unit prog" where
  "SBC_op ord input = do {
     a \<leftarrow> reg_A;
     let sum = uint a - uint input;
     status \<leftarrow> reg_status;
     let sum = (if NOT status AND FLAG_CARRY \<noteq> 0 then sum - 1 else sum);
     (x, y) \<leftarrow> both_XOR_A ord input (word_of_int sum);
     set_status_flag FLAG_OVERFLOW (x AND y AND 0x80 \<noteq> 0);
     set_status_flag FLAG_CARRY (sum \<ge> 0);
     result \<leftarrow> set_A_register (word_of_int sum);
     set_status_flag FLAG_ZERO (result = 0);
     set_status_flag FLAG_NEGATIVE (result \<ge> 0x80) }"

(* src/src/emulator/CPU/emulator.c 940-945 INC_op *)
definition INC_op :: "u8 \<Rightarrow> u16 \<Rightarrow> unit prog" where
  "INC_op input address = do {
     let input = input + 1;
     emu_write address input;
     set_status_flag FLAG_ZERO (input = 0);
     set_status_flag FLAG_NEGATIVE (input \<ge> 0x80) }"

(* src/src/emulator/CPU/emulator.c 947-952 DEC_op *)
definition DEC_op :: "u8 \<Rightarrow> u16 \<Rightarrow> unit prog" where
  "DEC_op input address = do {
     let input = input - 1;
     emu_write address input;
     set_status_flag FLAG_ZERO (input = 0);
     set_status_flag FLAG_NEGATIVE (input \<ge> 0x80) }"

text \<open>\<open>reg_value - input\<close> is an \<open>int\<close> between -255 and 255.\<close>

(* src/src/emulator/CPU/emulator.c 954-958 CMP_op *)
definition CMP_op :: "u8 \<Rightarrow> u8 \<Rightarrow> unit prog" where
  "CMP_op input reg_value = do {
     set_status_flag FLAG_CARRY (reg_value \<ge> input);
     set_status_flag FLAG_ZERO (reg_value = input);
     set_status_flag FLAG_NEGATIVE (uint reg_value - uint input > 127) }"

(* src/src/emulator/CPU/emulator.c 960-964 BIT_op *)
definition BIT_op :: "u8 \<Rightarrow> unit prog" where
  "BIT_op input = do {
     a \<leftarrow> reg_A;
     set_status_flag FLAG_ZERO (a AND input = 0);
     set_status_flag FLAG_NEGATIVE (input AND 0x80 \<noteq> 0);
     set_status_flag FLAG_OVERFLOW (input AND 0x40 \<noteq> 0) }"

end
