(* ===== verification/Switch.thy ===== *)
theory Switch
  imports Cpu
begin

text \<open>
  \<open>emulate_CPU\<close> of \<open>src/emulator/CPU/emulator.c\<close>: one program per case of its \<open>switch\<close>, the jump table
  that collects them in source order, the step function around the switch and \<open>emu_run\<close>.  An opcode
  without a case does nothing.  \<open>None\<close> of \<open>emu_run\<close> is a cycle counter the trace cannot print.
\<close>

subsection \<open>Loads\<close>

(* src/src/emulator/CPU/emulator.c 46-48 emulate_CPU: case 0x02 *)
definition op_HLT :: "unit prog" where
  "op_HLT = modifies (\<lambda>s. s\<lparr>CPU_halted := True\<rparr>)"

(* src/src/emulator/CPU/emulator.c 50-54 emulate_CPU: case 0xA0 *)
definition op_LDY_imm :: "unit prog" where
  "op_LDY_imm = do {
     byte \<leftarrow> read_increment_PC;
     result \<leftarrow> set_Y_register byte;
     set_status_flag FLAG_ZERO (result = 0);
     set_status_flag FLAG_NEGATIVE (result \<ge> 0x80) }"

(* src/src/emulator/CPU/emulator.c 56-60 emulate_CPU: case 0xA2 *)
definition op_LDX_imm :: "unit prog" where
  "op_LDX_imm = do {
     byte \<leftarrow> read_increment_PC;
     result \<leftarrow> set_X_register byte;
     set_status_flag FLAG_ZERO (result = 0);
     set_status_flag FLAG_NEGATIVE (result \<ge> 0x80) }"

(* src/src/emulator/CPU/emulator.c 62-66 emulate_CPU: case 0xA9 *)
definition op_LDA_imm :: "unit prog" where
  "op_LDA_imm = do {
     byte \<leftarrow> read_increment_PC;
     result \<leftarrow> set_A_register byte;
     set_status_flag FLAG_ZERO (result = 0);
     set_status_flag FLAG_NEGATIVE (result \<ge> 0x80) }"

(* src/src/emulator/CPU/emulator.c 68-73 emulate_CPU: case 0xA5 *)
definition op_LDA_zp :: "unit prog" where
  "op_LDA_zp = do {
     byte \<leftarrow> read_increment_PC;
     let address = (ucast byte :: u16);
     byte' \<leftarrow> emu_read address;
     result \<leftarrow> set_A_register byte';
     set_status_flag FLAG_ZERO (result = 0);
     set_status_flag FLAG_NEGATIVE (result \<ge> 0x80) }"

(* src/src/emulator/CPU/emulator.c 75-80 emulate_CPU: case 0xB5 *)
definition op_LDA_zpx :: "unit prog" where
  "op_LDA_zpx = do {
     x \<leftarrow> reg_X;
     address \<leftarrow> get_ZP_indexed_address x;
     byte \<leftarrow> emu_read address;
     result \<leftarrow> set_A_register byte;
     set_status_flag FLAG_ZERO (result = 0);
     set_status_flag FLAG_NEGATIVE (result \<ge> 0x80) }"

(* src/src/emulator/CPU/emulator.c 82-88 emulate_CPU: case 0xAD *)
definition op_LDA_abs :: "unit prog" where
  "op_LDA_abs = do {
     address \<leftarrow> get_absolute_addr;
     byte \<leftarrow> emu_read address;
     result \<leftarrow> set_A_register byte;
     set_status_flag FLAG_ZERO (result = 0);
     set_status_flag FLAG_NEGATIVE (result \<ge> 0x80) }"

(* src/src/emulator/CPU/emulator.c 90-96 emulate_CPU: case 0xBD *)
definition op_LDA_absx :: "unit prog" where
  "op_LDA_absx = do {
     address \<leftarrow> get_absolute_addr_X_indexed;
     byte \<leftarrow> emu_read address;
     result \<leftarrow> set_A_register byte;
     set_status_flag FLAG_ZERO (result = 0);
     set_status_flag FLAG_NEGATIVE (result \<ge> 0x80) }"

subsection \<open>Stores\<close>

(* src/src/emulator/CPU/emulator.c 98-101 emulate_CPU: case 0x85 *)
definition op_STA_zp :: "unit prog" where
  "op_STA_zp = do {
     byte \<leftarrow> read_increment_PC;
     let address = (ucast byte :: u16);
     a \<leftarrow> reg_A;
     emu_write address a }"

(* src/src/emulator/CPU/emulator.c 103-106 emulate_CPU: case 0x95 *)
definition op_STA_zpx :: "unit prog" where
  "op_STA_zpx = do {
     x \<leftarrow> reg_X;
     address \<leftarrow> get_ZP_indexed_address x;
     a \<leftarrow> reg_A;
     emu_write address a }"

(* src/src/emulator/CPU/emulator.c 108-111 emulate_CPU: case 0x8D *)
definition op_STA_abs :: "unit prog" where
  "op_STA_abs = do {
     address \<leftarrow> get_absolute_addr;
     a \<leftarrow> reg_A;
     emu_write address a }"

(* src/src/emulator/CPU/emulator.c 113-116 emulate_CPU: case 0x9D *)
definition op_STA_absx :: "unit prog" where
  "op_STA_absx = do {
     address \<leftarrow> get_absolute_addr_X_indexed;
     a \<leftarrow> reg_A;
     emu_write address a }"

(* src/src/emulator/CPU/emulator.c 118-121 emulate_CPU: case 0x91 *)
definition op_STA_indy :: "unit prog" where
  "op_STA_indy = do {
     address \<leftarrow> get_indirect_address_Y_indexed;
     a \<leftarrow> reg_A;
     emu_write address a }"

(* src/src/emulator/CPU/emulator.c 123-126 emulate_CPU: case 0x81 *)
definition op_STA_indx :: "unit prog" where
  "op_STA_indx = do {
     address \<leftarrow> get_indirect_address_X_indexed;
     a \<leftarrow> reg_A;
     emu_write address a }"

(* src/src/emulator/CPU/emulator.c 128-131 emulate_CPU: case 0x86 *)
definition op_STX_zp :: "unit prog" where
  "op_STX_zp = do {
     byte \<leftarrow> read_increment_PC;
     let address = (ucast byte :: u16);
     x \<leftarrow> reg_X;
     emu_write address x }"

(* src/src/emulator/CPU/emulator.c 133-136 emulate_CPU: case 0x8E *)
definition op_STX_abs :: "unit prog" where
  "op_STX_abs = do {
     address \<leftarrow> get_absolute_addr;
     x \<leftarrow> reg_X;
     emu_write address x }"

(* src/src/emulator/CPU/emulator.c 138-141 emulate_CPU: case 0x84 *)
definition op_STY_zp :: "unit prog" where
  "op_STY_zp = do {
     byte \<leftarrow> read_increment_PC;
     let address = (ucast byte :: u16);
     y \<leftarrow> reg_Y;
     emu_write address y }"

(* src/src/emulator/CPU/emulator.c 143-146 emulate_CPU: case 0x8C *)
definition op_STY_abs :: "unit prog" where
  "op_STY_abs = do {
     address \<leftarrow> get_absolute_addr;
     y \<leftarrow> reg_Y;
     emu_write address y }"

subsection \<open>Branches\<close>

text \<open>The body of a taken branch, the same statements in the eight branch cases.\<close>

(* src/src/emulator/CPU/emulator.c 151-156 BNE: branch taken *)
definition take_branch :: "u8 \<Rightarrow> unit prog" where
  "take_branch result = do {
     let signed_value = uint result;
     let signed_value = (if signed_value \<ge> 0x80 then signed_value - 256 else signed_value);
     pc \<leftarrow> program_counter;
     _ \<leftarrow> set_PC (word_of_int (uint pc + signed_value));
     modifies (add_cycles 1) }"

(* src/src/emulator/CPU/emulator.c 148-158 emulate_CPU: case 0xD0 *)
definition op_BNE :: "unit prog" where
  "op_BNE = do {
     result \<leftarrow> read_increment_PC;
     status \<leftarrow> reg_status;
     do_when (status AND FLAG_ZERO = 0) (take_branch result) }"

(* src/src/emulator/CPU/emulator.c 160-170 emulate_CPU: case 0xF0 *)
definition op_BEQ :: "unit prog" where
  "op_BEQ = do {
     result \<leftarrow> read_increment_PC;
     status \<leftarrow> reg_status;
     do_when (status AND FLAG_ZERO \<noteq> 0) (take_branch result) }"

(* src/src/emulator/CPU/emulator.c 172-182 emulate_CPU: case 0x10 *)
definition op_BPL :: "unit prog" where
  "op_BPL = do {
     result \<leftarrow> read_increment_PC;
     status \<leftarrow> reg_status;
     do_when (status AND FLAG_NEGATIVE = 0) (take_branch result) }"

(* src/src/emulator/CPU/emulator.c 184-194 emulate_CPU: case 0x30 *)
definition op_BMI :: "unit prog" where
  "op_BMI = do {
     result \<leftarrow> read_increment_PC;
     status \<leftarrow> reg_status;
     do_when (status AND FLAG_NEGATIVE \<noteq> 0) (take_branch result) }"

(* src/src/emulator/CPU/emulator.c 196-206 emulate_CPU: case 0x50 *)
definition op_BVC :: "unit prog" where
  "op_BVC = do {
     result \<leftarrow> read_increment_PC;
     status \<leftarrow> reg_status;
     do_when (status AND FLAG_OVERFLOW = 0) (take_branch result) }"

(* src/src/emulator/CPU/emulator.c 208-218 emulate_CPU: case 0x70 *)
definition op_BVS :: "unit prog" where
  "op_BVS = do {
     result \<leftarrow> read_increment_PC;
     status \<leftarrow> reg_status;
     do_when (status AND FLAG_OVERFLOW \<noteq> 0) (take_branch result) }"

(* src/src/emulator/CPU/emulator.c 220-230 emulate_CPU: case 0x90 *)
definition op_BCC :: "unit prog" where
  "op_BCC = do {
     result \<leftarrow> read_increment_PC;
     status \<leftarrow> reg_status;
     do_when (status AND FLAG_CARRY = 0) (take_branch result) }"

(* src/src/emulator/CPU/emulator.c 232-242 emulate_CPU: case 0xB0 *)
definition op_BCS :: "unit prog" where
  "op_BCS = do {
     result \<leftarrow> read_increment_PC;
     status \<leftarrow> reg_status;
     do_when (status AND FLAG_CARRY \<noteq> 0) (take_branch result) }"

subsection \<open>Stack and jumps\<close>

(* src/src/emulator/CPU/emulator.c 244-246 emulate_CPU: case 0x48 *)
definition op_PHA :: "unit prog" where
  "op_PHA = do {
     a \<leftarrow> reg_A;
     push_stack a }"

(* src/src/emulator/CPU/emulator.c 248-252 emulate_CPU: case 0x68 *)
definition op_PLA :: "unit prog" where
  "op_PLA = do {
     v \<leftarrow> pull_stack;
     result \<leftarrow> set_A_register v;
     set_status_flag FLAG_ZERO (result = 0);
     set_status_flag FLAG_NEGATIVE (result \<ge> 0x80) }"

(* src/src/emulator/CPU/emulator.c 254-261 emulate_CPU: case 0x20 *)
definition op_JSR :: "unit prog" where
  "op_JSR = do {
     PC_lowbyte \<leftarrow> read_increment_PC;
     PC_highbyte \<leftarrow> read_PC;
     pc \<leftarrow> program_counter;
     push_stack (ucast (drop_bit 8 pc));
     pc' \<leftarrow> program_counter;
     push_stack (ucast pc');
     _ \<leftarrow> set_PC (word_of_bytes PC_highbyte PC_lowbyte);
     skip }"

(* src/src/emulator/CPU/emulator.c 263-268 emulate_CPU: case 0x60 *)
definition op_RTS :: "unit prog" where
  "op_RTS = do {
     PC_lowbyte \<leftarrow> pull_stack;
     PC_highbyte \<leftarrow> pull_stack;
     _ \<leftarrow> set_PC (word_of_bytes PC_highbyte PC_lowbyte);
     _ \<leftarrow> read_increment_PC;
     skip }"

(* src/src/emulator/CPU/emulator.c 270-272 emulate_CPU: case 0x4C *)
definition op_JMP_abs :: "unit prog" where
  "op_JMP_abs = do {
     address \<leftarrow> get_absolute_addr;
     _ \<leftarrow> set_PC address;
     skip }"

(* src/src/emulator/CPU/emulator.c 274-279 emulate_CPU: case 0x6C *)
definition op_JMP_ind :: "unit prog" where
  "op_JMP_ind = do {
     address \<leftarrow> get_absolute_addr;
     PC_lowbyte \<leftarrow> emu_read address;
     PC_highbyte \<leftarrow> emu_read (address + 1);
     _ \<leftarrow> set_PC (word_of_bytes PC_highbyte PC_lowbyte);
     skip }"

subsection \<open>Increments and transfers\<close>

(* src/src/emulator/CPU/emulator.c 281-285 emulate_CPU: case 0xE8 *)
definition op_INX :: "unit prog" where
  "op_INX = do {
     x \<leftarrow> reg_X;
     result \<leftarrow> set_X_register (x + 1);
     set_status_flag FLAG_ZERO (result = 0);
     set_status_flag FLAG_NEGATIVE (result \<ge> 0x80) }"

(* src/src/emulator/CPU/emulator.c 287-291 emulate_CPU: case 0xCA *)
definition op_DEX :: "unit prog" where
  "op_DEX = do {
     x \<leftarrow> reg_X;
     result \<leftarrow> set_X_register (x - 1);
     set_status_flag FLAG_ZERO (result = 0);
     set_status_flag FLAG_NEGATIVE (result \<ge> 0x80) }"

(* src/src/emulator/CPU/emulator.c 293-297 emulate_CPU: case 0xC8 *)
definition op_INY :: "unit prog" where
  "op_INY = do {
     y \<leftarrow> reg_Y;
     result \<leftarrow> set_Y_register (y + 1);
     set_status_flag FLAG_ZERO (result = 0);
     set_status_flag FLAG_NEGATIVE (result \<ge> 0x80) }"

(* src/src/emulator/CPU/emulator.c 299-303 emulate_CPU: case 0x88 *)
definition op_DEY :: "unit prog" where
  "op_DEY = do {
     x \<leftarrow> reg_X;
     result \<leftarrow> set_X_register (x - 1);
     set_status_flag FLAG_ZERO (result = 0);
     set_status_flag FLAG_NEGATIVE (result \<ge> 0x80) }"

(* src/src/emulator/CPU/emulator.c 305-309 emulate_CPU: case 0xAA *)
definition op_TAX :: "unit prog" where
  "op_TAX = do {
     v \<leftarrow> reg_A;
     result \<leftarrow> set_X_register v;
     set_status_flag FLAG_ZERO (result = 0);
     set_status_flag FLAG_NEGATIVE (result \<ge> 0x80) }"

(* src/src/emulator/CPU/emulator.c 311-315 emulate_CPU: case 0xA8 *)
definition op_TAY :: "unit prog" where
  "op_TAY = do {
     v \<leftarrow> reg_A;
     result \<leftarrow> set_Y_register v;
     set_status_flag FLAG_ZERO (result = 0);
     set_status_flag FLAG_NEGATIVE (result \<ge> 0x80) }"

(* src/src/emulator/CPU/emulator.c 317-321 emulate_CPU: case 0x8A *)
definition op_TXA :: "unit prog" where
  "op_TXA = do {
     v \<leftarrow> reg_X;
     result \<leftarrow> set_A_register v;
     set_status_flag FLAG_ZERO (result = 0);
     set_status_flag FLAG_NEGATIVE (result \<ge> 0x80) }"

(* src/src/emulator/CPU/emulator.c 323-327 emulate_CPU: case 0x98 *)
definition op_TYA :: "unit prog" where
  "op_TYA = do {
     v \<leftarrow> reg_Y;
     result \<leftarrow> set_A_register v;
     set_status_flag FLAG_ZERO (result = 0);
     set_status_flag FLAG_NEGATIVE (result \<ge> 0x80) }"

(* src/src/emulator/CPU/emulator.c 329-331 emulate_CPU: case 0x9A *)
definition op_TXS :: "unit prog" where
  "op_TXS = do {
     x \<leftarrow> reg_X;
     _ \<leftarrow> set_SP x;
     skip }"

(* src/src/emulator/CPU/emulator.c 333-337 emulate_CPU: case 0xBA *)
definition op_TSX :: "unit prog" where
  "op_TSX = do {
     v \<leftarrow> stack_pointer;
     result \<leftarrow> set_X_register v;
     set_status_flag FLAG_ZERO (result = 0);
     set_status_flag FLAG_NEGATIVE (result \<ge> 0x80) }"

subsection \<open>Flags and status\<close>

(* src/src/emulator/CPU/emulator.c 339-341 emulate_CPU: case 0x38 *)
definition op_SEC :: "unit prog" where
  "op_SEC = set_status_flag FLAG_CARRY True"

(* src/src/emulator/CPU/emulator.c 343-345 emulate_CPU: case 0x18 *)
definition op_CLC :: "unit prog" where
  "op_CLC = set_status_flag FLAG_CARRY False"

(* src/src/emulator/CPU/emulator.c 347-349 emulate_CPU: case 0xB8 *)
definition op_CLV :: "unit prog" where
  "op_CLV = set_status_flag FLAG_OVERFLOW False"

(* src/src/emulator/CPU/emulator.c 351-353 emulate_CPU: case 0x78 *)
definition op_SEI :: "unit prog" where
  "op_SEI = set_status_flag FLAG_INTERRUPT_DISABLE True"

(* src/src/emulator/CPU/emulator.c 355-357 emulate_CPU: case 0x58 *)
definition op_CLI :: "unit prog" where
  "op_CLI = set_status_flag FLAG_INTERRUPT_DISABLE False"

(* src/src/emulator/CPU/emulator.c 359-361 emulate_CPU: case 0xF8 *)
definition op_SED :: "unit prog" where
  "op_SED = set_status_flag FLAG_DECIMAL True"

(* src/src/emulator/CPU/emulator.c 363-367 emulate_CPU: case 0x08 *)
definition op_PHP :: "unit prog" where
  "op_PHP = do {
     temp \<leftarrow> reg_status;
     let temp = temp OR 0x30;
     push_stack temp }"

(* src/src/emulator/CPU/emulator.c 369-372 emulate_CPU: case 0x28 *)
definition op_PLP :: "unit prog" where
  "op_PLP = do {
     v \<leftarrow> pull_stack;
     _ \<leftarrow> set_status_register v;
     skip }"

subsection \<open>Shifts and rotates\<close>

(* src/src/emulator/CPU/emulator.c 374-379 emulate_CPU: case 0x0A *)
definition op_ASL_A :: "unit prog" where
  "op_ASL_A = do {
     a \<leftarrow> reg_A;
     set_status_flag FLAG_CARRY (a AND 0x80 \<noteq> 0);
     a' \<leftarrow> reg_A;
     result \<leftarrow> set_A_register (push_bit 1 a');
     set_status_flag FLAG_ZERO (result = 0);
     set_status_flag FLAG_NEGATIVE (result \<ge> 0x80) }"

(* src/src/emulator/CPU/emulator.c 381-384 emulate_CPU: case 0x06 *)
definition op_ASL_zp :: "unit prog" where
  "op_ASL_zp = do {
     byte \<leftarrow> read_increment_PC;
     let address = (ucast byte :: u16);
     input \<leftarrow> emu_read address;
     ASL_op input address }"

(* src/src/emulator/CPU/emulator.c 386-389 emulate_CPU: case 0x0E *)
definition op_ASL_abs :: "unit prog" where
  "op_ASL_abs = do {
     address \<leftarrow> get_absolute_addr;
     input \<leftarrow> emu_read address;
     ASL_op input address }"

(* src/src/emulator/CPU/emulator.c 391-398 emulate_CPU: case 0x4A *)
definition op_LSR_A :: "unit prog" where
  "op_LSR_A = do {
     a \<leftarrow> reg_A;
     do_when (a AND 0x01 \<noteq> 0) (set_status_flag FLAG_CARRY True);
     a' \<leftarrow> reg_A;
     result \<leftarrow> set_A_register (drop_bit 1 a');
     set_status_flag FLAG_ZERO (result = 0);
     set_status_flag FLAG_NEGATIVE (result \<ge> 0x80) }"

(* src/src/emulator/CPU/emulator.c 400-403 emulate_CPU: case 0x46 *)
definition op_LSR_zp :: "unit prog" where
  "op_LSR_zp = do {
     byte \<leftarrow> read_increment_PC;
     let address = (ucast byte :: u16);
     input \<leftarrow> emu_read address;
     LSR_op input address }"

(* src/src/emulator/CPU/emulator.c 405-408 emulate_CPU: case 0x4E *)
definition op_LSR_abs :: "unit prog" where
  "op_LSR_abs = do {
     address \<leftarrow> get_absolute_addr;
     input \<leftarrow> emu_read address;
     LSR_op input address }"

(* src/src/emulator/CPU/emulator.c 410-420 emulate_CPU: case 0x2A *)
definition op_ROL_A :: "unit prog" where
  "op_ROL_A = do {
     a \<leftarrow> reg_A;
     let new_carry_bit = (a AND 0x80 \<noteq> 0);
     a' \<leftarrow> reg_A;
     result \<leftarrow> set_A_register (push_bit 1 a');
     status \<leftarrow> reg_status;
     result \<leftarrow> (if status AND FLAG_CARRY \<noteq> 0 then bit_OR_A 0x01 else State_Monad.return result);
     set_status_flag FLAG_CARRY new_carry_bit;
     set_status_flag FLAG_ZERO (result = 0);
     set_status_flag FLAG_NEGATIVE (result \<ge> 0x80) }"

(* src/src/emulator/CPU/emulator.c 422-425 emulate_CPU: case 0x26 *)
definition op_ROL_zp :: "unit prog" where
  "op_ROL_zp = do {
     byte \<leftarrow> read_increment_PC;
     let address = (ucast byte :: u16);
     input \<leftarrow> emu_read address;
     ROL_op input address }"

(* src/src/emulator/CPU/emulator.c 427-430 emulate_CPU: case 0x2E *)
definition op_ROL_abs :: "unit prog" where
  "op_ROL_abs = do {
     address \<leftarrow> get_absolute_addr;
     input \<leftarrow> emu_read address;
     ROL_op input address }"

(* src/src/emulator/CPU/emulator.c 432-435 emulate_CPU: case 0x66 *)
definition op_ROR_zp :: "unit prog" where
  "op_ROR_zp = do {
     byte \<leftarrow> read_increment_PC;
     let address = (ucast byte :: u16);
     input \<leftarrow> emu_read address;
     ROR_op input address }"

(* src/src/emulator/CPU/emulator.c 437-440 emulate_CPU: case 0x6E *)
definition op_ROR_abs :: "unit prog" where
  "op_ROR_abs = do {
     address \<leftarrow> get_absolute_addr;
     input \<leftarrow> emu_read address;
     ROR_op input address }"

subsection \<open>Logic\<close>

(* src/src/emulator/CPU/emulator.c 442-446 emulate_CPU: case 0x09 *)
definition op_ORA_imm :: "unit prog" where
  "op_ORA_imm = do {
     byte \<leftarrow> read_increment_PC;
     result \<leftarrow> bit_OR_A byte;
     set_status_flag FLAG_ZERO (result = 0);
     set_status_flag FLAG_NEGATIVE (result \<ge> 0x80) }"

(* src/src/emulator/CPU/emulator.c 448-454 emulate_CPU: case 0x05 *)
definition op_ORA_zp :: "unit prog" where
  "op_ORA_zp = do {
     byte \<leftarrow> read_increment_PC;
     let address = (ucast byte :: u16);
     input \<leftarrow> emu_read address;
     temp \<leftarrow> bit_OR_A input;
     emu_write address temp;
     set_status_flag FLAG_ZERO (temp = 0);
     set_status_flag FLAG_NEGATIVE (temp \<ge> 0x80) }"

(* src/src/emulator/CPU/emulator.c 456-462 emulate_CPU: case 0x0D *)
definition op_ORA_abs :: "unit prog" where
  "op_ORA_abs = do {
     address \<leftarrow> get_absolute_addr;
     input \<leftarrow> emu_read address;
     temp \<leftarrow> bit_OR_A input;
     emu_write address temp;
     set_status_flag FLAG_ZERO (temp = 0);
     set_status_flag FLAG_NEGATIVE (temp \<ge> 0x80) }"

(* src/src/emulator/CPU/emulator.c 464-468 emulate_CPU: case 0x49 *)
definition op_EOR_imm :: "unit prog" where
  "op_EOR_imm = do {
     byte \<leftarrow> read_increment_PC;
     result \<leftarrow> bit_XOR_A byte;
     set_status_flag FLAG_ZERO (result = 0);
     set_status_flag FLAG_NEGATIVE (result \<ge> 0x80) }"

(* src/src/emulator/CPU/emulator.c 470-476 emulate_CPU: case 0x45 *)
definition op_EOR_zp :: "unit prog" where
  "op_EOR_zp = do {
     byte \<leftarrow> read_increment_PC;
     let address = (ucast byte :: u16);
     input \<leftarrow> emu_read address;
     temp \<leftarrow> bit_XOR_A input;
     emu_write address temp;
     set_status_flag FLAG_ZERO (temp = 0);
     set_status_flag FLAG_NEGATIVE (temp \<ge> 0x80) }"

(* src/src/emulator/CPU/emulator.c 478-484 emulate_CPU: case 0x4D *)
definition op_EOR_abs :: "unit prog" where
  "op_EOR_abs = do {
     address \<leftarrow> get_absolute_addr;
     input \<leftarrow> emu_read address;
     temp \<leftarrow> bit_XOR_A input;
     emu_write address temp;
     set_status_flag FLAG_ZERO (temp = 0);
     set_status_flag FLAG_NEGATIVE (temp \<ge> 0x80) }"

(* src/src/emulator/CPU/emulator.c 486-490 emulate_CPU: case 0x29 *)
definition op_AND_imm :: "unit prog" where
  "op_AND_imm = do {
     byte \<leftarrow> read_increment_PC;
     result \<leftarrow> bit_AND_A byte;
     set_status_flag FLAG_ZERO (result = 0);
     set_status_flag FLAG_NEGATIVE (result \<ge> 0x80) }"

(* src/src/emulator/CPU/emulator.c 492-498 emulate_CPU: case 0x25 *)
definition op_AND_zp :: "unit prog" where
  "op_AND_zp = do {
     byte \<leftarrow> read_increment_PC;
     let address = (ucast byte :: u16);
     input \<leftarrow> emu_read address;
     temp \<leftarrow> bit_AND_A input;
     emu_write address temp;
     set_status_flag FLAG_ZERO (temp = 0);
     set_status_flag FLAG_NEGATIVE (temp \<ge> 0x80) }"

(* src/src/emulator/CPU/emulator.c 500-506 emulate_CPU: case 0x2D *)
definition op_AND_abs :: "unit prog" where
  "op_AND_abs = do {
     address \<leftarrow> get_absolute_addr;
     input \<leftarrow> emu_read address;
     temp \<leftarrow> bit_AND_A input;
     emu_write address temp;
     set_status_flag FLAG_ZERO (temp = 0);
     set_status_flag FLAG_NEGATIVE (temp \<ge> 0x80) }"

subsection \<open>Memory increments\<close>

(* src/src/emulator/CPU/emulator.c 508-511 emulate_CPU: case 0xE6 *)
definition op_INC_zp :: "unit prog" where
  "op_INC_zp = do {
     byte \<leftarrow> read_increment_PC;
     let address = (ucast byte :: u16);
     input \<leftarrow> emu_read address;
     INC_op input address }"

(* src/src/emulator/CPU/emulator.c 513-516 emulate_CPU: case 0xEE *)
definition op_INC_abs :: "unit prog" where
  "op_INC_abs = do {
     address \<leftarrow> get_absolute_addr;
     input \<leftarrow> emu_read address;
     INC_op input address }"

(* src/src/emulator/CPU/emulator.c 518-521 emulate_CPU: case 0xFE *)
definition op_INC_absx :: "unit prog" where
  "op_INC_absx = do {
     address \<leftarrow> get_absolute_addr_X_indexed;
     input \<leftarrow> emu_read address;
     INC_op input address }"

(* src/src/emulator/CPU/emulator.c 523-526 emulate_CPU: case 0xC6 *)
definition op_DEC_zp :: "unit prog" where
  "op_DEC_zp = do {
     byte \<leftarrow> read_increment_PC;
     let address = (ucast byte :: u16);
     input \<leftarrow> emu_read address;
     DEC_op input address }"

(* src/src/emulator/CPU/emulator.c 528-531 emulate_CPU: case 0xCE *)
definition op_DEC_abs :: "unit prog" where
  "op_DEC_abs = do {
     address \<leftarrow> get_absolute_addr;
     input \<leftarrow> emu_read address;
     DEC_op input address }"

subsection \<open>Arithmetic\<close>

(* src/src/emulator/CPU/emulator.c 533-535 emulate_CPU: case 0x69 *)
definition op_ADC_imm :: "eval_order \<Rightarrow> unit prog" where
  "op_ADC_imm ord = do {
     input \<leftarrow> read_increment_PC;
     ADC_op ord input }"

(* src/src/emulator/CPU/emulator.c 537-540 emulate_CPU: case 0x75 *)
definition op_ADC_zpx :: "eval_order \<Rightarrow> unit prog" where
  "op_ADC_zpx ord = do {
     x \<leftarrow> reg_X;
     address \<leftarrow> get_ZP_indexed_address x;
     input \<leftarrow> emu_read address;
     ADC_op ord input }"

(* src/src/emulator/CPU/emulator.c 542-545 emulate_CPU: case 0x65 *)
definition op_ADC_zp :: "eval_order \<Rightarrow> unit prog" where
  "op_ADC_zp ord = do {
     byte \<leftarrow> read_increment_PC;
     let address = (ucast byte :: u16);
     input \<leftarrow> emu_read address;
     ADC_op ord input }"

(* src/src/emulator/CPU/emulator.c 547-550 emulate_CPU: case 0x6D *)
definition op_ADC_abs :: "eval_order \<Rightarrow> unit prog" where
  "op_ADC_abs ord = do {
     address \<leftarrow> get_absolute_addr;
     input \<leftarrow> emu_read address;
     ADC_op ord input }"

(* src/src/emulator/CPU/emulator.c 552-554 emulate_CPU: case 0xE9 *)
definition op_SBC_imm :: "eval_order \<Rightarrow> unit prog" where
  "op_SBC_imm ord = do {
     input \<leftarrow> read_increment_PC;
     SBC_op ord input }"

(* src/src/emulator/CPU/emulator.c 556-559 emulate_CPU: case 0xE5 *)
definition op_SBC_zp :: "eval_order \<Rightarrow> unit prog" where
  "op_SBC_zp ord = do {
     byte \<leftarrow> read_increment_PC;
     let address = (ucast byte :: u16);
     input \<leftarrow> emu_read address;
     SBC_op ord input }"

(* src/src/emulator/CPU/emulator.c 561-564 emulate_CPU: case 0xED *)
definition op_SBC_abs :: "eval_order \<Rightarrow> unit prog" where
  "op_SBC_abs ord = do {
     address \<leftarrow> get_absolute_addr;
     input \<leftarrow> emu_read address;
     SBC_op ord input }"

subsection \<open>Compares and bit tests\<close>

(* src/src/emulator/CPU/emulator.c 566-568 emulate_CPU: case 0xC9 *)
definition op_CMP_imm :: "unit prog" where
  "op_CMP_imm = do {
     input \<leftarrow> read_increment_PC;
     a \<leftarrow> reg_A;
     CMP_op input a }"

(* src/src/emulator/CPU/emulator.c 570-573 emulate_CPU: case 0xC5 *)
definition op_CMP_zp :: "unit prog" where
  "op_CMP_zp = do {
     byte \<leftarrow> read_increment_PC;
     let address = (ucast byte :: u16);
     input \<leftarrow> emu_read address;
     a \<leftarrow> reg_A;
     CMP_op input a }"

(* src/src/emulator/CPU/emulator.c 575-578 emulate_CPU: case 0xCD *)
definition op_CMP_abs :: "unit prog" where
  "op_CMP_abs = do {
     address \<leftarrow> get_absolute_addr;
     input \<leftarrow> emu_read address;
     a \<leftarrow> reg_A;
     CMP_op input a }"

(* src/src/emulator/CPU/emulator.c 580-582 emulate_CPU: case 0xE0 *)
definition op_CPX_imm :: "unit prog" where
  "op_CPX_imm = do {
     input \<leftarrow> read_increment_PC;
     x \<leftarrow> reg_X;
     CMP_op input x }"

(* src/src/emulator/CPU/emulator.c 584-587 emulate_CPU: case 0xE4 *)
definition op_CPX_zp :: "unit prog" where
  "op_CPX_zp = do {
     byte \<leftarrow> read_increment_PC;
     let address = (ucast byte :: u16);
     input \<leftarrow> emu_read address;
     x \<leftarrow> reg_X;
     CMP_op input x }"

(* src/src/emulator/CPU/emulator.c 589-592 emulate_CPU: case 0xEC *)
definition op_CPX_abs :: "unit prog" where
  "op_CPX_abs = do {
     address \<leftarrow> get_absolute_addr;
     input \<leftarrow> emu_read address;
     x \<leftarrow> reg_X;
     CMP_op input x }"

(* src/src/emulator/CPU/emulator.c 594-596 emulate_CPU: case 0xC0 *)
definition op_CPY_imm :: "unit prog" where
  "op_CPY_imm = do {
     input \<leftarrow> read_increment_PC;
     y \<leftarrow> reg_Y;
     CMP_op input y }"

(* src/src/emulator/CPU/emulator.c 598-601 emulate_CPU: case 0xC4 *)
definition op_CPY_zp :: "unit prog" where
  "op_CPY_zp = do {
     byte \<leftarrow> read_increment_PC;
     let address = (ucast byte :: u16);
     input \<leftarrow> emu_read address;
     y \<leftarrow> reg_Y;
     CMP_op input y }"

(* src/src/emulator/CPU/emulator.c 603-606 emulate_CPU: case 0xCC *)
definition op_CPY_abs :: "unit prog" where
  "op_CPY_abs = do {
     address \<leftarrow> get_absolute_addr;
     input \<leftarrow> emu_read address;
     y \<leftarrow> reg_Y;
     CMP_op input y }"

(* src/src/emulator/CPU/emulator.c 608-611 emulate_CPU: case 0x24 *)
definition op_BIT_zp :: "unit prog" where
  "op_BIT_zp = do {
     byte \<leftarrow> read_increment_PC;
     let address = (ucast byte :: u16);
     input \<leftarrow> emu_read address;
     BIT_op input }"

(* src/src/emulator/CPU/emulator.c 613-616 emulate_CPU: case 0x2C *)
definition op_BIT_abs :: "unit prog" where
  "op_BIT_abs = do {
     address \<leftarrow> get_absolute_addr;
     input \<leftarrow> emu_read address;
     BIT_op input }"

subsection \<open>Interrupt entry and return\<close>

(* src/src/emulator/CPU/emulator.c 618-626 emulate_CPU: case 0x00 *)
definition op_BRK :: "unit prog" where
  "op_BRK = do {
     increment_PC;
     pc \<leftarrow> program_counter;
     push_stack (ucast (drop_bit 8 pc));
     pc' \<leftarrow> program_counter;
     push_stack (ucast pc');
     status \<leftarrow> reg_status;
     push_stack status;
     PC_lowbyte \<leftarrow> emu_read 0xFFFE;
     PC_highbyte \<leftarrow> emu_read 0xFFFF;
     _ \<leftarrow> set_PC (word_of_bytes PC_highbyte PC_lowbyte);
     skip }"

(* src/src/emulator/CPU/emulator.c 628-633 emulate_CPU: case 0x40 *)
definition op_RTI :: "unit prog" where
  "op_RTI = do {
     status \<leftarrow> pull_stack;
     _ \<leftarrow> set_status_register status;
     PC_lowbyte \<leftarrow> pull_stack;
     PC_highbyte \<leftarrow> pull_stack;
     _ \<leftarrow> set_PC (word_of_bytes PC_highbyte PC_lowbyte);
     skip }"

(* src/src/emulator/CPU/emulator.c 635-636 emulate_CPU: case 0xEA *)
definition op_NOP :: "unit prog" where
  "op_NOP = skip"

subsection \<open>The switch\<close>

(* src/src/emulator/CPU/emulator.c 45-641 emulate_CPU: switch *)
definition cpu_switch :: "eval_order \<Rightarrow> (u8 \<times> unit prog) list" where
  "cpu_switch ord =
     [(0x02, op_HLT), (0xA0, op_LDY_imm), (0xA2, op_LDX_imm), (0xA9, op_LDA_imm),
      (0xA5, op_LDA_zp), (0xB5, op_LDA_zpx), (0xAD, op_LDA_abs), (0xBD, op_LDA_absx),
      (0x85, op_STA_zp), (0x95, op_STA_zpx), (0x8D, op_STA_abs), (0x9D, op_STA_absx),
      (0x91, op_STA_indy), (0x81, op_STA_indx), (0x86, op_STX_zp), (0x8E, op_STX_abs),
      (0x84, op_STY_zp), (0x8C, op_STY_abs), (0xD0, op_BNE), (0xF0, op_BEQ), (0x10, op_BPL),
      (0x30, op_BMI), (0x50, op_BVC), (0x70, op_BVS), (0x90, op_BCC), (0xB0, op_BCS),
      (0x48, op_PHA), (0x68, op_PLA), (0x20, op_JSR), (0x60, op_RTS), (0x4C, op_JMP_abs),
      (0x6C, op_JMP_ind), (0xE8, op_INX), (0xCA, op_DEX), (0xC8, op_INY), (0x88, op_DEY),
      (0xAA, op_TAX), (0xA8, op_TAY), (0x8A, op_TXA), (0x98, op_TYA), (0x9A, op_TXS),
      (0xBA, op_TSX), (0x38, op_SEC), (0x18, op_CLC), (0xB8, op_CLV), (0x78, op_SEI),
      (0x58, op_CLI), (0xF8, op_SED), (0x08, op_PHP), (0x28, op_PLP), (0x0A, op_ASL_A),
      (0x06, op_ASL_zp), (0x0E, op_ASL_abs), (0x4A, op_LSR_A), (0x46, op_LSR_zp),
      (0x4E, op_LSR_abs), (0x2A, op_ROL_A), (0x26, op_ROL_zp), (0x2E, op_ROL_abs),
      (0x66, op_ROR_zp), (0x6E, op_ROR_abs), (0x09, op_ORA_imm), (0x05, op_ORA_zp),
      (0x0D, op_ORA_abs), (0x49, op_EOR_imm), (0x45, op_EOR_zp), (0x4D, op_EOR_abs),
      (0x29, op_AND_imm), (0x25, op_AND_zp), (0x2D, op_AND_abs), (0xE6, op_INC_zp),
      (0xEE, op_INC_abs), (0xFE, op_INC_absx), (0xC6, op_DEC_zp), (0xCE, op_DEC_abs),
      (0x69, op_ADC_imm ord), (0x75, op_ADC_zpx ord), (0x65, op_ADC_zp ord),
      (0x6D, op_ADC_abs ord), (0xE9, op_SBC_imm ord), (0xE5, op_SBC_zp ord),
      (0xED, op_SBC_abs ord), (0xC9, op_CMP_imm), (0xC5, op_CMP_zp), (0xCD, op_CMP_abs),
      (0xE0, op_CPX_imm), (0xE4, op_CPX_zp), (0xEC, op_CPX_abs), (0xC0, op_CPY_imm),
      (0xC4, op_CPY_zp), (0xCC, op_CPY_abs), (0x24, op_BIT_zp), (0x2C, op_BIT_abs),
      (0x00, op_BRK), (0x40, op_RTI), (0xEA, op_NOP)]"

lemmas handler_defs =
  op_HLT_def op_LDY_imm_def op_LDX_imm_def op_LDA_imm_def op_LDA_zp_def op_LDA_zpx_def
  op_LDA_abs_def op_LDA_absx_def op_STA_zp_def op_STA_zpx_def op_STA_abs_def op_STA_absx_def
  op_STA_indy_def op_STA_indx_def op_STX_zp_def op_STX_abs_def op_STY_zp_def op_STY_abs_def
  op_BNE_def op_BEQ_def op_BPL_def op_BMI_def op_BVC_def op_BVS_def op_BCC_def op_BCS_def
  op_PHA_def op_PLA_def op_JSR_def op_RTS_def op_JMP_abs_def op_JMP_ind_def op_INX_def
  op_DEX_def op_INY_def op_DEY_def op_TAX_def op_TAY_def op_TXA_def op_TYA_def op_TXS_def
  op_TSX_def op_SEC_def op_CLC_def op_CLV_def op_SEI_def op_CLI_def op_SED_def op_PHP_def
  op_PLP_def op_ASL_A_def op_ASL_zp_def op_ASL_abs_def op_LSR_A_def op_LSR_zp_def op_LSR_abs_def
  op_ROL_A_def op_ROL_zp_def op_ROL_abs_def op_ROR_zp_def op_ROR_abs_def op_ORA_imm_def
  op_ORA_zp_def op_ORA_abs_def op_EOR_imm_def op_EOR_zp_def op_EOR_abs_def op_AND_imm_def
  op_AND_zp_def op_AND_abs_def op_INC_zp_def op_INC_abs_def op_INC_absx_def op_DEC_zp_def
  op_DEC_abs_def op_ADC_imm_def op_ADC_zpx_def op_ADC_zp_def op_ADC_abs_def op_SBC_imm_def
  op_SBC_zp_def op_SBC_abs_def op_CMP_imm_def op_CMP_zp_def op_CMP_abs_def op_CPX_imm_def
  op_CPX_zp_def op_CPX_abs_def op_CPY_imm_def op_CPY_zp_def op_CPY_abs_def op_BIT_zp_def
  op_BIT_abs_def op_BRK_def op_RTI_def op_NOP_def

(* src/src/emulator/CPU/emulator.c 637-641 emulate_CPU: default *)
definition dispatch :: "eval_order \<Rightarrow> u8 \<Rightarrow> unit prog" where
  "dispatch ord opcode =
     (case map_of (cpu_switch ord) opcode of Some handler \<Rightarrow> handler | None \<Rightarrow> skip)"

(* src/src/emulator/CPU/emulator_debug.c 85-90 reset_tracker *)
definition reset_tracker :: "unit prog" where
  "reset_tracker = modifies (\<lambda>s. s\<lparr>debug_tracker :=
     \<lparr>reg_read_bitflag = 0, reg_write_bitflag = 0, reads_mem = False, writes_mem = False\<rparr>\<rparr>)"

definition log_state :: "unit prog" where
  "log_state = modifies (\<lambda>s. let (_, lg, h) = add_tracelog_entry (m_emu s) (m_log s) (m_heap s)
                              in s\<lparr>m_log := lg, m_heap := h\<rparr>)"

definition set_cur_opcode :: "u8 \<Rightarrow> unit prog" where
  "set_cur_opcode opcode = modifies (\<lambda>s. s\<lparr>m_emu := (m_emu s)\<lparr>e_cur_opcode := opcode\<rparr>\<rparr>)"

(* src/src/emulator/CPU/emulator.c 27-647 emulate_CPU *)
definition emulate_CPU :: "eval_order \<Rightarrow> unit prog" where
  "emulate_CPU ord = do {
     reset_tracker;
     log_state;
     opcode \<leftarrow> read_increment_PC;
     set_cur_opcode opcode;
     dispatch ord opcode;
     modifies (add_cycles (uint (oe_cycles (opcode_row opcode)))) }"

end
