(* ===== verification/Arch.thy ===== *)
theory Arch
  imports Switch
begin

text \<open>
  The architectural state of the emulated CPU: registers, program counter, the bytes on the bus, the
  cycle counter and the halt flag, without the trace log, the heap, the console and the other globals
  of the machine.  The lemmas say what every primitive of \<open>Cpu\<close> does to the architectural state; they
  are the rewrite rules \<open>machine_simps\<close> with which each instruction is reduced to a state update.
\<close>

record arch =
  ar_A :: u8
  ar_X :: u8
  ar_Y :: u8
  ar_P :: u8
  ar_S :: u8
  ar_PC :: u16
  ar_mem :: "u16 \<Rightarrow> u8"
  ar_halted :: bool
  ar_cycles :: int

definition arch_of :: "machine \<Rightarrow> arch" where
  "arch_of s =
     \<lparr>ar_A = r_A (regs s), ar_X = r_X (regs s), ar_Y = r_Y (regs s), ar_P = r_flags (regs s),
      ar_S = r_stack_pointer (regs s), ar_PC = r_program_counter (regs s), ar_mem = bus_byte s,
      ar_halted = CPU_halted s, ar_cycles = cycles_of s\<rparr>"

text \<open>A write reaches the bus only in RAM.\<close>

definition store :: "u16 \<Rightarrow> u8 \<Rightarrow> arch \<Rightarrow> arch" where
  "store a v c = (if a < 0x800 then c\<lparr>ar_mem := (ar_mem c)(a := v)\<rparr> else c)"

definition set_flag :: "u8 \<Rightarrow> bool \<Rightarrow> arch \<Rightarrow> arch" where
  "set_flag flag b c = c\<lparr>ar_P := flag_update flag b (ar_P c)\<rparr>"

definition push :: "u8 \<Rightarrow> arch \<Rightarrow> arch" where
  "push v c = (store (0x100 + ucast (ar_S c)) v c)\<lparr>ar_S := ar_S c - 1\<rparr>"

subsection \<open>Frames\<close>

lemma regs_upd_regs [simp]: "regs (upd_regs f s) = f (regs s)"
  by (simp add: regs_def upd_regs_def)

lemma upd_regs_frame [simp]:
  "CPU_halted (upd_regs f s) = CPU_halted s" "cycles_of (upd_regs f s) = cycles_of s"
  "bus_byte (upd_regs f s) = bus_byte s" "machine_ok (upd_regs f s) = machine_ok s"
  "m_log (upd_regs f s) = m_log s" "m_heap (upd_regs f s) = m_heap s"
  "m_term (upd_regs f s) = m_term s"
  by (simp_all add: upd_regs_def cycles_of_def bus_byte_def machine_ok_def fun_eq_iff)

lemma upd_log_frame [simp]:
  "regs (upd_log f s) = regs s" "CPU_halted (upd_log f s) = CPU_halted s"
  "cycles_of (upd_log f s) = cycles_of s" "bus_byte (upd_log f s) = bus_byte s"
  "machine_ok (upd_log f s) = machine_ok s" "arch_of (upd_log f s) = arch_of s"
  "m_log (upd_log f s) = f (m_log s)" "m_heap (upd_log f s) = m_heap s"
  "m_term (upd_log f s) = m_term s"
  by (simp_all add: upd_log_def regs_def cycles_of_def bus_byte_def machine_ok_def arch_of_def fun_eq_iff)

lemma add_cycles_frame [simp]:
  "regs (add_cycles n s) = regs s" "CPU_halted (add_cycles n s) = CPU_halted s"
  "cycles_of (add_cycles n s) = cycles_of s + n" "bus_byte (add_cycles n s) = bus_byte s"
  "machine_ok (add_cycles n s) = machine_ok s"
  "arch_of (add_cycles n s) = (arch_of s)\<lparr>ar_cycles := ar_cycles (arch_of s) + n\<rparr>"
  by (simp_all add: add_cycles_def regs_def cycles_of_def bus_byte_def machine_ok_def arch_of_def fun_eq_iff)

lemma arch_of_upd_regs:
  "arch_of (upd_regs f s) = (arch_of s)\<lparr>ar_A := r_A (f (regs s)), ar_X := r_X (f (regs s)),
     ar_Y := r_Y (f (regs s)), ar_P := r_flags (f (regs s)), ar_S := r_stack_pointer (f (regs s)),
     ar_PC := r_program_counter (f (regs s))\<rparr>"
  by (simp add: arch_of_def)

lemma arch_of_sel:
  "r_A (regs s) = ar_A (arch_of s)" "r_X (regs s) = ar_X (arch_of s)" "r_Y (regs s) = ar_Y (arch_of s)"
  "r_flags (regs s) = ar_P (arch_of s)" "r_stack_pointer (regs s) = ar_S (arch_of s)"
  "r_program_counter (regs s) = ar_PC (arch_of s)" "bus_byte s = ar_mem (arch_of s)"
  "cycles_of s = ar_cycles (arch_of s)" "CPU_halted s = ar_halted (arch_of s)"
  by (simp_all add: arch_of_def)

subsection \<open>Registers and flags\<close>

lemma accessor_results [machine_simps]:
  "result_of reg_A s = ar_A (arch_of s)" "result_of reg_X s = ar_X (arch_of s)"
  "result_of reg_Y s = ar_Y (arch_of s)" "result_of reg_status s = ar_P (arch_of s)"
  "result_of stack_pointer s = ar_S (arch_of s)" "result_of program_counter s = ar_PC (arch_of s)"
  by (simp_all add: reg_A_def reg_X_def reg_Y_def reg_status_def stack_pointer_def
      program_counter_def run_simps arch_of_def)

lemma accessor_states [machine_simps]:
  "state_of reg_A s = s" "state_of reg_X s = s" "state_of reg_Y s = s" "state_of reg_status s = s"
  "state_of stack_pointer s = s" "state_of program_counter s = s"
  by (simp_all add: reg_A_def reg_X_def reg_Y_def reg_status_def stack_pointer_def
      program_counter_def run_simps)

lemma register_writes [machine_simps]:
  "arch_of (state_of (set_A_register v) s) = (arch_of s)\<lparr>ar_A := v\<rparr>"
  "arch_of (state_of (set_X_register v) s) = (arch_of s)\<lparr>ar_X := v\<rparr>"
  "arch_of (state_of (set_Y_register v) s) = (arch_of s)\<lparr>ar_Y := v\<rparr>"
  "arch_of (state_of (set_SP v) s) = (arch_of s)\<lparr>ar_S := v\<rparr>"
  "arch_of (state_of (set_status_register v) s) = (arch_of s)\<lparr>ar_P := v\<rparr>"
  "arch_of (state_of (bit_OR_A v) s) = (arch_of s)\<lparr>ar_A := ar_A (arch_of s) OR v\<rparr>"
  "arch_of (state_of (bit_XOR_A v) s) = (arch_of s)\<lparr>ar_A := ar_A (arch_of s) XOR v\<rparr>"
  "arch_of (state_of (bit_AND_A v) s) = (arch_of s)\<lparr>ar_A := ar_A (arch_of s) AND v\<rparr>"
  "arch_of (state_of increment_PC s) = (arch_of s)\<lparr>ar_PC := ar_PC (arch_of s) + 1\<rparr>"
  "arch_of (state_of (set_PC a) s) = (arch_of s)\<lparr>ar_PC := a\<rparr>"
  "arch_of (state_of (set_status_flag f b) s) = set_flag f b (arch_of s)"
  by (simp_all add: set_A_register_def set_X_register_def set_Y_register_def set_SP_def
      set_status_register_def bit_OR_A_def bit_XOR_A_def bit_AND_A_def increment_PC_def set_PC_def
      set_status_flag_def set_flag_def run_simps accessor_states arch_of_def)

lemma register_write_results [machine_simps]:
  "result_of (set_A_register v) s = v" "result_of (set_X_register v) s = v"
  "result_of (set_Y_register v) s = v" "result_of (set_SP v) s = v"
  "result_of (set_status_register v) s = v"
  "result_of (bit_OR_A v) s = ar_A (arch_of s) OR v"
  "result_of (bit_XOR_A v) s = ar_A (arch_of s) XOR v"
  "result_of (bit_AND_A v) s = ar_A (arch_of s) AND v"
  by (simp_all add: set_A_register_def set_X_register_def set_Y_register_def set_SP_def
      set_status_register_def bit_OR_A_def bit_XOR_A_def bit_AND_A_def reg_A_def run_simps arch_of_def)

lemma register_writes_ok [machine_simps]:
  "machine_ok (state_of (set_A_register v) s) = machine_ok s"
  "machine_ok (state_of (set_X_register v) s) = machine_ok s"
  "machine_ok (state_of (set_Y_register v) s) = machine_ok s"
  "machine_ok (state_of (set_SP v) s) = machine_ok s"
  "machine_ok (state_of (set_status_register v) s) = machine_ok s"
  "machine_ok (state_of (bit_OR_A v) s) = machine_ok s"
  "machine_ok (state_of (bit_XOR_A v) s) = machine_ok s"
  "machine_ok (state_of (bit_AND_A v) s) = machine_ok s"
  "machine_ok (state_of increment_PC s) = machine_ok s"
  "machine_ok (state_of (set_PC a) s) = machine_ok s"
  "machine_ok (state_of (set_status_flag f b) s) = machine_ok s"
  by (simp_all add: set_A_register_def set_X_register_def set_Y_register_def set_SP_def
      set_status_register_def bit_OR_A_def bit_XOR_A_def bit_AND_A_def increment_PC_def set_PC_def
      set_status_flag_def run_simps accessor_states)

subsection \<open>Memory\<close>

lemma emu_read_simps [machine_simps]:
  "result_of (emu_read a) s = ar_mem (arch_of s) a"
  "arch_of (state_of (emu_read a) s) = arch_of s"
  "machine_ok (state_of (emu_read a) s) = machine_ok s"
  by (simp_all add: emu_read_def run_simps accessor_states arch_of_sel)

lemma bus_byte_store:
  assumes "machine_ok s" and "a < 0x800"
  shows "bus_byte (s\<lparr>m_emu := (m_emu s)\<lparr>e_RAM := (e_RAM (m_emu s))[unat a := v]\<rparr>\<rparr>) =
    (bus_byte s)(a := v)"
proof
  fix b
  have "unat a < length (e_RAM (m_emu s))" using assms by (simp add: machine_ok_def word_less_nat_alt)
  moreover have "unat b = unat a \<longleftrightarrow> b = a" by (simp add: word_unat_eq_iff)
  moreover have "\<not> 0x8000 \<le> a" using assms(2) by (simp add: word_le_nat_alt word_less_nat_alt)
  ultimately show "bus_byte (s\<lparr>m_emu := (m_emu s)\<lparr>e_RAM := (e_RAM (m_emu s))[unat a := v]\<rparr>\<rparr>) b =
    ((bus_byte s)(a := v)) b"
    using assms(2) by (auto simp: bus_byte_def nth_list_update)
qed

lemma bus_byte_log: "bus_byte (s\<lparr>m_log := l\<rparr>) = bus_byte s"
  by (simp add: bus_byte_def fun_eq_iff)

lemma emu_write_ok [machine_simps]: "machine_ok (state_of (emu_write a v) s) = machine_ok s"
  by (simp add: emu_write_def run_simps machine_ok_def upd_log_def)

lemma emu_write_arch [machine_simps]:
  assumes "machine_ok s"
  shows "arch_of (state_of (emu_write a v) s) = store a v (arch_of s)"
  using bus_byte_store [OF assms, of a v]
  by (simp add: emu_write_def run_simps store_def arch_of_def regs_def cycles_of_def upd_log_def
      bus_byte_log)

lemma read_increment_PC_simps [machine_simps]:
  "result_of read_increment_PC s = ar_mem (arch_of s) (ar_PC (arch_of s))"
  "arch_of (state_of read_increment_PC s) = (arch_of s)\<lparr>ar_PC := ar_PC (arch_of s) + 1\<rparr>"
  "machine_ok (state_of read_increment_PC s) = machine_ok s"
  by (simp_all add: read_increment_PC_def run_simps machine_simps arch_of_upd_regs arch_of_sel)

lemma read_PC_simps [machine_simps]:
  "result_of read_PC s = ar_mem (arch_of s) (ar_PC (arch_of s))"
  "arch_of (state_of read_PC s) = arch_of s"
  "machine_ok (state_of read_PC s) = machine_ok s"
  by (simp_all add: read_PC_def run_simps machine_simps)

lemma push_stack_ok [machine_simps]: "machine_ok (state_of (push_stack v) s) = machine_ok s"
  by (simp add: push_stack_def run_simps machine_simps)

lemma store_sel [simp]:
  "ar_A (store a v c) = ar_A c" "ar_X (store a v c) = ar_X c" "ar_Y (store a v c) = ar_Y c"
  "ar_P (store a v c) = ar_P c" "ar_S (store a v c) = ar_S c" "ar_PC (store a v c) = ar_PC c"
  "ar_halted (store a v c) = ar_halted c" "ar_cycles (store a v c) = ar_cycles c"
  by (simp_all add: store_def)

lemma push_stack_arch [machine_simps]:
  "machine_ok s \<Longrightarrow> arch_of (state_of (push_stack v) s) = push v (arch_of s)"
  by (simp add: push_stack_def run_simps machine_simps arch_of_upd_regs arch_of_sel push_def)

lemma pull_stack_simps [machine_simps]:
  "result_of pull_stack s = ar_mem (arch_of s) (0x100 + ucast (ar_S (arch_of s) + 1))"
  "arch_of (state_of pull_stack s) = (arch_of s)\<lparr>ar_S := ar_S (arch_of s) + 1\<rparr>"
  "machine_ok (state_of pull_stack s) = machine_ok s"
  by (simp_all add: pull_stack_def run_simps machine_simps arch_of_upd_regs arch_of_sel)

lemma modifies_simps [machine_simps]:
  "arch_of (state_of (modifies (upd_log g)) s) = arch_of s"
  "machine_ok (state_of (modifies (upd_log g)) s) = machine_ok s"
  by (simp_all add: run_simps)

end
