(* ===== verification/Spec6502.thy ===== *)
theory Spec6502
  imports Arch
begin

text \<open>
  A reference semantics of the 6502 instructions on the architectural state, written from the
  processor's programming model and independent of \<open>emulate_CPU\<close>: an effective-address function per
  addressing mode, one definition per instruction, and a decoder that goes by the mnemonic and the
  addressing mode of the opcode table.  The semantics of an instruction is applied after the opcode byte has been
  fetched, so the program counter points at the operand bytes.  The status bits 4 and 5, which the
  processor does not store, are kept as they were pulled.
\<close>

subsection \<open>Operands\<close>

definition operand_length :: "addressing_mode \<Rightarrow> u16" where
  "operand_length md =
     (if md \<in> {ADDR_IMPLIED, ADDR_ACCUMULATOR, MODE_UNKNOWN} then 0
      else if md \<in> {ADDR_ABSOLUTE, ADDR_ABSOLUTE_X, ADDR_ABSOLUTE_Y, ADDR_ABS_INDIRECT} then 2 else 1)"

definition past :: "addressing_mode \<Rightarrow> arch \<Rightarrow> arch" where
  "past md c = c\<lparr>ar_PC := ar_PC c + operand_length md\<rparr>"

text \<open>A 16-bit pointer in page zero: its high byte follows the low byte inside the page.\<close>

definition zp_pointer :: "arch \<Rightarrow> u8 \<Rightarrow> u16" where
  "zp_pointer c p = word_of_bytes (ar_mem c (ucast (p + 1))) (ar_mem c (ucast p))"

definition ea :: "addressing_mode \<Rightarrow> arch \<Rightarrow> u16" where
  "ea md c =
     (let b1 = ar_mem c (ar_PC c); b2 = ar_mem c (ar_PC c + 1)
      in case md of
           ADDR_ZERO_PAGE \<Rightarrow> ucast b1
         | ADDR_ZERO_PAGE_X \<Rightarrow> ucast (b1 + ar_X c)
         | ADDR_ZERO_PAGE_Y \<Rightarrow> ucast (b1 + ar_Y c)
         | ADDR_ABSOLUTE \<Rightarrow> word_of_bytes b2 b1
         | ADDR_ABSOLUTE_X \<Rightarrow> word_of_bytes b2 b1 + ucast (ar_X c)
         | ADDR_ABSOLUTE_Y \<Rightarrow> word_of_bytes b2 b1 + ucast (ar_Y c)
         | ADDR_INDIRECT_X \<Rightarrow> zp_pointer c (b1 + ar_X c)
         | ADDR_INDIRECT_Y \<Rightarrow> zp_pointer c b1 + ucast (ar_Y c)
         | ADDR_ABS_INDIRECT \<Rightarrow>
             word_of_bytes (ar_mem c (word_of_bytes b2 (b1 + 1))) (ar_mem c (word_of_bytes b2 b1))
         | _ \<Rightarrow> ar_PC c)"

text \<open>The table leaves the mode of ASL A (0x0A) unknown.\<close>

definition on_accumulator :: "addressing_mode \<Rightarrow> bool" where
  "on_accumulator md \<longleftrightarrow> md = ADDR_ACCUMULATOR \<or> md = MODE_UNKNOWN"

definition operand :: "addressing_mode \<Rightarrow> arch \<Rightarrow> u8" where
  "operand md c = (if on_accumulator md then ar_A c else ar_mem c (ea md c))"

definition write_back :: "addressing_mode \<Rightarrow> arch \<Rightarrow> u8 \<Rightarrow> arch \<Rightarrow> arch" where
  "write_back md c0 v c = (if on_accumulator md then c\<lparr>ar_A := v\<rparr> else store (ea md c0) v c)"

subsection \<open>Flags and the stack\<close>

definition flag_set :: "arch \<Rightarrow> u8 \<Rightarrow> bool" where
  "flag_set c flag \<longleftrightarrow> ar_P c AND flag \<noteq> 0"

definition carry_of :: "arch \<Rightarrow> int" where
  "carry_of c = (if flag_set c FLAG_CARRY then 1 else 0)"

definition carry_in :: "arch \<Rightarrow> u8" where
  "carry_in c = word_of_int (carry_of c)"

definition set_nz :: "u8 \<Rightarrow> arch \<Rightarrow> arch" where
  "set_nz v c = set_flag FLAG_NEGATIVE (sint v < 0) (set_flag FLAG_ZERO (v = 0) c)"

definition pull :: "arch \<Rightarrow> u8 \<times> arch" where
  "pull c = (ar_mem c (0x100 + ucast (ar_S c + 1)), c\<lparr>ar_S := ar_S c + 1\<rparr>)"

definition low_byte :: "u16 \<Rightarrow> u8" where "low_byte w = ucast w"

definition high_byte :: "u16 \<Rightarrow> u8" where "high_byte w = ucast (drop_bit 8 w)"

definition push_word :: "u16 \<Rightarrow> arch \<Rightarrow> arch" where
  "push_word w c = push (low_byte w) (push (high_byte w) c)"

definition pull_word :: "arch \<Rightarrow> u16 \<times> arch" where
  "pull_word c = (let (l, c) = pull c; (h, c) = pull c in (word_of_bytes h l, c))"

definition branch :: "bool \<Rightarrow> arch \<Rightarrow> arch" where
  "branch cond c =
     (let c' = past ADDR_RELATIVE c
      in if cond then c'\<lparr>ar_PC := ar_PC c' + scast (ar_mem c (ar_PC c)), ar_cycles := ar_cycles c' + 1\<rparr>
         else c')"

subsection \<open>Arithmetic\<close>

text \<open>Addition with carry, with the overflow flag as the signed overflow of the sum.\<close>

definition add_with_carry :: "u8 \<Rightarrow> arch \<Rightarrow> arch" where
  "add_with_carry v c =
     (let sum = uint (ar_A c) + uint v + carry_of c;
          ssum = sint (ar_A c) + sint v + carry_of c;
          r = word_of_int sum
      in set_nz r ((set_flag FLAG_CARRY (sum > 255)
           (set_flag FLAG_OVERFLOW (ssum < -128 \<or> 127 < ssum) c))\<lparr>ar_A := r\<rparr>))"

definition compare :: "u8 \<Rightarrow> u8 \<Rightarrow> arch \<Rightarrow> arch" where
  "compare r v c = set_nz (r - v) (set_flag FLAG_CARRY (v \<le> r) c)"

definition shift :: "addressing_mode \<Rightarrow> u8 \<Rightarrow> bool \<Rightarrow> arch \<Rightarrow> arch" where
  "shift md r carry c = set_nz r (set_flag FLAG_CARRY carry (write_back md c r (past md c)))"

subsection \<open>Instructions\<close>

definition sem_LDA :: "addressing_mode \<Rightarrow> arch \<Rightarrow> arch" where
  "sem_LDA md c = set_nz (operand md c) ((past md c)\<lparr>ar_A := operand md c\<rparr>)"

definition sem_LDX :: "addressing_mode \<Rightarrow> arch \<Rightarrow> arch" where
  "sem_LDX md c = set_nz (operand md c) ((past md c)\<lparr>ar_X := operand md c\<rparr>)"

definition sem_LDY :: "addressing_mode \<Rightarrow> arch \<Rightarrow> arch" where
  "sem_LDY md c = set_nz (operand md c) ((past md c)\<lparr>ar_Y := operand md c\<rparr>)"

definition sem_STA :: "addressing_mode \<Rightarrow> arch \<Rightarrow> arch" where
  "sem_STA md c = store (ea md c) (ar_A c) (past md c)"

definition sem_STX :: "addressing_mode \<Rightarrow> arch \<Rightarrow> arch" where
  "sem_STX md c = store (ea md c) (ar_X c) (past md c)"

definition sem_STY :: "addressing_mode \<Rightarrow> arch \<Rightarrow> arch" where
  "sem_STY md c = store (ea md c) (ar_Y c) (past md c)"

definition sem_BNE :: "addressing_mode \<Rightarrow> arch \<Rightarrow> arch" where
  "sem_BNE md c = branch (\<not> flag_set c FLAG_ZERO) c"

definition sem_BEQ :: "addressing_mode \<Rightarrow> arch \<Rightarrow> arch" where
  "sem_BEQ md c = branch (flag_set c FLAG_ZERO) c"

definition sem_BPL :: "addressing_mode \<Rightarrow> arch \<Rightarrow> arch" where
  "sem_BPL md c = branch (\<not> flag_set c FLAG_NEGATIVE) c"

definition sem_BMI :: "addressing_mode \<Rightarrow> arch \<Rightarrow> arch" where
  "sem_BMI md c = branch (flag_set c FLAG_NEGATIVE) c"

definition sem_BVC :: "addressing_mode \<Rightarrow> arch \<Rightarrow> arch" where
  "sem_BVC md c = branch (\<not> flag_set c FLAG_OVERFLOW) c"

definition sem_BVS :: "addressing_mode \<Rightarrow> arch \<Rightarrow> arch" where
  "sem_BVS md c = branch (flag_set c FLAG_OVERFLOW) c"

definition sem_BCC :: "addressing_mode \<Rightarrow> arch \<Rightarrow> arch" where
  "sem_BCC md c = branch (\<not> flag_set c FLAG_CARRY) c"

definition sem_BCS :: "addressing_mode \<Rightarrow> arch \<Rightarrow> arch" where
  "sem_BCS md c = branch (flag_set c FLAG_CARRY) c"

definition sem_PHA :: "addressing_mode \<Rightarrow> arch \<Rightarrow> arch" where
  "sem_PHA md c = push (ar_A c) c"

definition sem_PLA :: "addressing_mode \<Rightarrow> arch \<Rightarrow> arch" where
  "sem_PLA md c = (let (v, c) = pull c in set_nz v (c\<lparr>ar_A := v\<rparr>))"

definition sem_PHP :: "addressing_mode \<Rightarrow> arch \<Rightarrow> arch" where
  "sem_PHP md c = push (ar_P c OR 0x30) c"

definition sem_PLP :: "addressing_mode \<Rightarrow> arch \<Rightarrow> arch" where
  "sem_PLP md c = (let (v, c) = pull c in c\<lparr>ar_P := v\<rparr>)"

definition sem_JSR :: "addressing_mode \<Rightarrow> arch \<Rightarrow> arch" where
  "sem_JSR md c = (push_word (ar_PC c + 1) c)\<lparr>ar_PC := ea ADDR_ABSOLUTE c\<rparr>"

definition sem_RTS :: "addressing_mode \<Rightarrow> arch \<Rightarrow> arch" where
  "sem_RTS md c = (let (w, c) = pull_word c in c\<lparr>ar_PC := w + 1\<rparr>)"

definition sem_RTI :: "addressing_mode \<Rightarrow> arch \<Rightarrow> arch" where
  "sem_RTI md c = (let (v, c) = pull c; (w, c) = pull_word c in c\<lparr>ar_P := v, ar_PC := w\<rparr>)"

definition sem_JMP :: "addressing_mode \<Rightarrow> arch \<Rightarrow> arch" where
  "sem_JMP md c = c\<lparr>ar_PC := ea md c\<rparr>"

definition sem_BRK :: "addressing_mode \<Rightarrow> arch \<Rightarrow> arch" where
  "sem_BRK md c = (let c' = push (ar_P c OR 0x30) (push_word (ar_PC c + 1) c)
     in set_flag FLAG_INTERRUPT_DISABLE True
          (c'\<lparr>ar_PC := word_of_bytes (ar_mem c' 0xFFFF) (ar_mem c' 0xFFFE)\<rparr>))"

definition sem_INX :: "addressing_mode \<Rightarrow> arch \<Rightarrow> arch" where
  "sem_INX md c = set_nz (ar_X c + 1) (c\<lparr>ar_X := ar_X c + 1\<rparr>)"

definition sem_DEX :: "addressing_mode \<Rightarrow> arch \<Rightarrow> arch" where
  "sem_DEX md c = set_nz (ar_X c - 1) (c\<lparr>ar_X := ar_X c - 1\<rparr>)"

definition sem_INY :: "addressing_mode \<Rightarrow> arch \<Rightarrow> arch" where
  "sem_INY md c = set_nz (ar_Y c + 1) (c\<lparr>ar_Y := ar_Y c + 1\<rparr>)"

definition sem_DEY :: "addressing_mode \<Rightarrow> arch \<Rightarrow> arch" where
  "sem_DEY md c = set_nz (ar_Y c - 1) (c\<lparr>ar_Y := ar_Y c - 1\<rparr>)"

definition sem_TAX :: "addressing_mode \<Rightarrow> arch \<Rightarrow> arch" where
  "sem_TAX md c = set_nz (ar_A c) (c\<lparr>ar_X := ar_A c\<rparr>)"

definition sem_TAY :: "addressing_mode \<Rightarrow> arch \<Rightarrow> arch" where
  "sem_TAY md c = set_nz (ar_A c) (c\<lparr>ar_Y := ar_A c\<rparr>)"

definition sem_TXA :: "addressing_mode \<Rightarrow> arch \<Rightarrow> arch" where
  "sem_TXA md c = set_nz (ar_X c) (c\<lparr>ar_A := ar_X c\<rparr>)"

definition sem_TYA :: "addressing_mode \<Rightarrow> arch \<Rightarrow> arch" where
  "sem_TYA md c = set_nz (ar_Y c) (c\<lparr>ar_A := ar_Y c\<rparr>)"

definition sem_TXS :: "addressing_mode \<Rightarrow> arch \<Rightarrow> arch" where
  "sem_TXS md c = c\<lparr>ar_S := ar_X c\<rparr>"

definition sem_TSX :: "addressing_mode \<Rightarrow> arch \<Rightarrow> arch" where
  "sem_TSX md c = set_nz (ar_S c) (c\<lparr>ar_X := ar_S c\<rparr>)"

definition sem_SEC :: "addressing_mode \<Rightarrow> arch \<Rightarrow> arch" where
  "sem_SEC md c = set_flag FLAG_CARRY True c"

definition sem_CLC :: "addressing_mode \<Rightarrow> arch \<Rightarrow> arch" where
  "sem_CLC md c = set_flag FLAG_CARRY False c"

definition sem_CLV :: "addressing_mode \<Rightarrow> arch \<Rightarrow> arch" where
  "sem_CLV md c = set_flag FLAG_OVERFLOW False c"

definition sem_SEI :: "addressing_mode \<Rightarrow> arch \<Rightarrow> arch" where
  "sem_SEI md c = set_flag FLAG_INTERRUPT_DISABLE True c"

definition sem_CLI :: "addressing_mode \<Rightarrow> arch \<Rightarrow> arch" where
  "sem_CLI md c = set_flag FLAG_INTERRUPT_DISABLE False c"

definition sem_SED :: "addressing_mode \<Rightarrow> arch \<Rightarrow> arch" where
  "sem_SED md c = set_flag FLAG_DECIMAL True c"

definition sem_ASL :: "addressing_mode \<Rightarrow> arch \<Rightarrow> arch" where
  "sem_ASL md c = shift md (operand md c * 2) (bit (operand md c) 7) c"

definition sem_LSR :: "addressing_mode \<Rightarrow> arch \<Rightarrow> arch" where
  "sem_LSR md c = shift md (operand md c div 2) (odd (operand md c)) c"

definition sem_ROL :: "addressing_mode \<Rightarrow> arch \<Rightarrow> arch" where
  "sem_ROL md c = shift md (operand md c * 2 + carry_in c) (bit (operand md c) 7) c"

definition sem_ROR :: "addressing_mode \<Rightarrow> arch \<Rightarrow> arch" where
  "sem_ROR md c = shift md (operand md c div 2 + carry_in c * 0x80) (odd (operand md c)) c"

definition sem_ORA :: "addressing_mode \<Rightarrow> arch \<Rightarrow> arch" where
  "sem_ORA md c = (let r = ar_A c OR operand md c in set_nz r ((past md c)\<lparr>ar_A := r\<rparr>))"

definition sem_EOR :: "addressing_mode \<Rightarrow> arch \<Rightarrow> arch" where
  "sem_EOR md c = (let r = ar_A c XOR operand md c in set_nz r ((past md c)\<lparr>ar_A := r\<rparr>))"

definition sem_AND :: "addressing_mode \<Rightarrow> arch \<Rightarrow> arch" where
  "sem_AND md c = (let r = ar_A c AND operand md c in set_nz r ((past md c)\<lparr>ar_A := r\<rparr>))"

definition sem_INC :: "addressing_mode \<Rightarrow> arch \<Rightarrow> arch" where
  "sem_INC md c = (let r = operand md c + 1 in set_nz r (store (ea md c) r (past md c)))"

definition sem_DEC :: "addressing_mode \<Rightarrow> arch \<Rightarrow> arch" where
  "sem_DEC md c = (let r = operand md c - 1 in set_nz r (store (ea md c) r (past md c)))"

definition sem_ADC :: "addressing_mode \<Rightarrow> arch \<Rightarrow> arch" where
  "sem_ADC md c = add_with_carry (operand md c) (past md c)"

definition sem_SBC :: "addressing_mode \<Rightarrow> arch \<Rightarrow> arch" where
  "sem_SBC md c = add_with_carry (NOT (operand md c)) (past md c)"

definition sem_CMP :: "addressing_mode \<Rightarrow> arch \<Rightarrow> arch" where
  "sem_CMP md c = compare (ar_A c) (operand md c) (past md c)"

definition sem_CPX :: "addressing_mode \<Rightarrow> arch \<Rightarrow> arch" where
  "sem_CPX md c = compare (ar_X c) (operand md c) (past md c)"

definition sem_CPY :: "addressing_mode \<Rightarrow> arch \<Rightarrow> arch" where
  "sem_CPY md c = compare (ar_Y c) (operand md c) (past md c)"

definition sem_BIT :: "addressing_mode \<Rightarrow> arch \<Rightarrow> arch" where
  "sem_BIT md c = set_flag FLAG_OVERFLOW (bit (operand md c) 6)
     (set_flag FLAG_NEGATIVE (bit (operand md c) 7)
       (set_flag FLAG_ZERO (ar_A c AND operand md c = 0) (past md c)))"

definition sem_NOP :: "addressing_mode \<Rightarrow> arch \<Rightarrow> arch" where
  "sem_NOP md c = past md c"

definition sem_STP :: "addressing_mode \<Rightarrow> arch \<Rightarrow> arch" where
  "sem_STP md c = c\<lparr>ar_halted := True\<rparr>"

subsection \<open>Decoding\<close>

definition instruction_set :: "(string \<times> (addressing_mode \<Rightarrow> arch \<Rightarrow> arch)) list" where
  "instruction_set =
     [(''LDA'', sem_LDA), (''LDX'', sem_LDX), (''LDY'', sem_LDY), (''STA'', sem_STA),
      (''STX'', sem_STX), (''STY'', sem_STY), (''BNE'', sem_BNE), (''BEQ'', sem_BEQ),
      (''BPL'', sem_BPL), (''BMI'', sem_BMI), (''BVC'', sem_BVC), (''BVS'', sem_BVS),
      (''BCC'', sem_BCC), (''BCS'', sem_BCS), (''PHA'', sem_PHA), (''PLA'', sem_PLA),
      (''PHP'', sem_PHP), (''PLP'', sem_PLP), (''JSR'', sem_JSR), (''RTS'', sem_RTS),
      (''RTI'', sem_RTI), (''JMP'', sem_JMP), (''BRK'', sem_BRK), (''INX'', sem_INX),
      (''DEX'', sem_DEX), (''INY'', sem_INY), (''DEY'', sem_DEY), (''TAX'', sem_TAX),
      (''TAY'', sem_TAY), (''TXA'', sem_TXA), (''TYA'', sem_TYA), (''TXS'', sem_TXS),
      (''TSX'', sem_TSX), (''SEC'', sem_SEC), (''CLC'', sem_CLC), (''CLV'', sem_CLV),
      (''SEI'', sem_SEI), (''CLI'', sem_CLI), (''SED'', sem_SED), (''ASL'', sem_ASL),
      (''LSR'', sem_LSR), (''ROL'', sem_ROL), (''ROR'', sem_ROR), (''ORA'', sem_ORA),
      (''EOR'', sem_EOR), (''AND'', sem_AND), (''INC'', sem_INC), (''DEC'', sem_DEC),
      (''ADC'', sem_ADC), (''SBC'', sem_SBC), (''CMP'', sem_CMP), (''CPX'', sem_CPX),
      (''CPY'', sem_CPY), (''BIT'', sem_BIT), (''NOP'', sem_NOP), (''STP'', sem_STP)]"

lemmas sem_defs =
  sem_LDA_def sem_LDX_def sem_LDY_def sem_STA_def sem_STX_def sem_STY_def sem_BNE_def
  sem_BEQ_def sem_BPL_def sem_BMI_def sem_BVC_def sem_BVS_def sem_BCC_def sem_BCS_def
  sem_PHA_def sem_PLA_def sem_PHP_def sem_PLP_def sem_JSR_def sem_RTS_def sem_RTI_def
  sem_JMP_def sem_BRK_def sem_INX_def sem_DEX_def sem_INY_def sem_DEY_def sem_TAX_def
  sem_TAY_def sem_TXA_def sem_TYA_def sem_TXS_def sem_TSX_def sem_SEC_def sem_CLC_def
  sem_CLV_def sem_SEI_def sem_CLI_def sem_SED_def sem_ASL_def sem_LSR_def sem_ROL_def
  sem_ROR_def sem_ORA_def sem_EOR_def sem_AND_def sem_INC_def sem_DEC_def sem_ADC_def
  sem_SBC_def sem_CMP_def sem_CPX_def sem_CPY_def sem_BIT_def sem_NOP_def sem_STP_def

text \<open>
  One instruction: fetch the opcode, decode it by its row of the opcode table, execute, and count the
  cycles of the table.  \<open>None\<close> is an opcode outside the documented instruction set.
\<close>

definition step :: "arch \<Rightarrow> arch option" where
  "step c =
     (let entry = opcode_row (ar_mem c (ar_PC c))
      in case map_of instruction_set (oe_mnemonic entry) of
           None \<Rightarrow> None
         | Some sem \<Rightarrow>
             let c' = sem (oe_addr_mode entry) (c\<lparr>ar_PC := ar_PC c + 1\<rparr>)
             in Some (c'\<lparr>ar_cycles := ar_cycles c' + uint (oe_cycles entry)\<rparr>))"

end
