(* ===== verification/Conform.thy ===== *)
theory Conform
  imports Spec6502
begin

text \<open>
  The instructions of \<open>emulate_CPU\<close> that implement the reference semantics: one lemma per case of the
  switch, then the step theorem over all of them.
\<close>

subsection \<open>Bits of a byte\<close>

lemma byte_sint_bounds: "- 128 \<le> sint (v :: u8)" "sint (v :: u8) < 128"
  using sint_ge [of v] sint_lt [of v] by simp_all

lemma byte_uint_sint: "uint (v :: u8) = (if sint v < 0 then sint v + 256 else sint v)"
proof -
  have "uint v = sint v mod 256" by (simp add: uint_sint take_bit_eq_mod)
  moreover have "sint v mod 256 = sint v + 256" if "sint v < 0"
    using byte_sint_bounds [of v] that by (intro mod_pos_pos_trivial [of "sint v + 256" 256, simplified]) simp_all
  ultimately show ?thesis using byte_sint_bounds [of v] by (simp add: mod_pos_pos_trivial)
qed

lemma byte_sign:
  fixes v :: u8
  shows "(0x80 \<le> v) = (sint v < 0)" and "(v AND 0x80 = 0) = (\<not> sint v < 0)" and "bit v 7 = (sint v < 0)"
proof -
  have b: "bit v 7 = (sint v < 0)" using bit_last_iff [of v] by simp
  then show "bit v 7 = (sint v < 0)" .
  have "v AND 2 ^ 7 = 0 \<longleftrightarrow> \<not> bit v 7" by (rule and_exp_eq_0_iff_not_bit)
  then show "(v AND 0x80 = 0) = (\<not> sint v < 0)" using b by simp
  show "(0x80 \<le> v) = (sint v < 0)"
    using byte_uint_sint [of v] byte_sint_bounds [of v] by (auto simp: word_le_def split: if_splits)
qed

lemma set_nz_code [machine_simps]:
  "set_flag FLAG_NEGATIVE (sint v < 0) (set_flag FLAG_ZERO (v = 0) c) = set_nz v c"
  "set_flag FLAG_NEGATIVE (sint (w - 1) < 0) (set_flag FLAG_ZERO (w = 1) c) = set_nz (w - 1) c"
  by (simp_all add: set_nz_def)

lemma shift_bytes:
  fixes v :: u8
  shows "push_bit 1 v = v * 2" and "drop_bit 1 v = v div 2" and "(v AND 1 = 0) = even v"
    and "drop_bit (Suc 0) v = v div 2" and "push_bit (Suc 0) v = v * 2"
  by (simp_all add: push_bit_eq_mult drop_bit_eq_div and_one_eq even_iff_mod_2_eq_zero)

lemma or_one_even: "v * 2 OR 1 = v * 2 + (1 :: u8)"
  by (simp add: or_one_eq)

lemma or_high_half: "v div 2 OR 0x80 = v div 2 + (0x80 :: u8)"
proof -
  have "\<not> bit (v div 2) n \<or> \<not> bit (0x80 :: u8) n" for n
  proof (cases "n < 7")
    case True
    moreover have "(0x80 :: u8) = 2 ^ 7" by simp
    ultimately show ?thesis by (simp only: bit_exp_iff) simp
  next
    case False
    then have "\<not> bit (drop_bit 1 v) n" by (auto simp: bit_drop_bit_eq dest: bit_imp_le_length)
    then show ?thesis by (simp add: drop_bit_eq_div)
  qed
  then show ?thesis by (rule disjunctive_add [symmetric])
qed

lemma set_flag_sel [simp]:
  "ar_A (set_flag f b c) = ar_A c" "ar_X (set_flag f b c) = ar_X c" "ar_Y (set_flag f b c) = ar_Y c"
  "ar_S (set_flag f b c) = ar_S c" "ar_PC (set_flag f b c) = ar_PC c" "ar_mem (set_flag f b c) = ar_mem c"
  "ar_halted (set_flag f b c) = ar_halted c" "ar_cycles (set_flag f b c) = ar_cycles c"
  "ar_P (set_flag f b c) = flag_update f b (ar_P c)"
  by (simp_all add: set_flag_def)

lemma set_nz_sel [simp]:
  "ar_A (set_nz v c) = ar_A c" "ar_X (set_nz v c) = ar_X c" "ar_Y (set_nz v c) = ar_Y c"
  "ar_S (set_nz v c) = ar_S c" "ar_PC (set_nz v c) = ar_PC c" "ar_mem (set_nz v c) = ar_mem c"
  "ar_halted (set_nz v c) = ar_halted c" "ar_cycles (set_nz v c) = ar_cycles c"
  by (simp_all add: set_nz_def)

lemma push_sel [simp]:
  "ar_A (push v c) = ar_A c" "ar_X (push v c) = ar_X c" "ar_Y (push v c) = ar_Y c"
  "ar_P (push v c) = ar_P c" "ar_S (push v c) = ar_S c - 1" "ar_PC (push v c) = ar_PC c"
  "ar_halted (push v c) = ar_halted c" "ar_cycles (push v c) = ar_cycles c"
  by (simp_all add: push_def)

text \<open>Updates of different parts of the architectural state commute.\<close>

lemma update_order [machine_simps]:
  "set_flag f b (c\<lparr>ar_A := v\<rparr>) = (set_flag f b c)\<lparr>ar_A := v\<rparr>"
  "set_flag f b (c\<lparr>ar_PC := a\<rparr>) = (set_flag f b c)\<lparr>ar_PC := a\<rparr>"
  "set_flag f b (c\<lparr>ar_X := v\<rparr>) = (set_flag f b c)\<lparr>ar_X := v\<rparr>"
  "set_flag f b (c\<lparr>ar_S := v\<rparr>) = (set_flag f b c)\<lparr>ar_S := v\<rparr>"
  "set_flag f b (store p v c) = store p v (set_flag f b c)"
  "set_nz w (c\<lparr>ar_A := v\<rparr>) = (set_nz w c)\<lparr>ar_A := v\<rparr>"
  "set_nz w (c\<lparr>ar_X := v\<rparr>) = (set_nz w c)\<lparr>ar_X := v\<rparr>"
  "set_nz w (c\<lparr>ar_PC := a\<rparr>) = (set_nz w c)\<lparr>ar_PC := a\<rparr>"
  "set_nz w (c\<lparr>ar_S := v\<rparr>) = (set_nz w c)\<lparr>ar_S := v\<rparr>"
  "set_nz w (store p v c) = store p v (set_nz w c)"
  "store p v (c\<lparr>ar_PC := a\<rparr>) = (store p v c)\<lparr>ar_PC := a\<rparr>"
  "store p v (c\<lparr>ar_A := w\<rparr>) = (store p v c)\<lparr>ar_A := w\<rparr>"
  "push v (c\<lparr>ar_PC := a\<rparr>) = (push v c)\<lparr>ar_PC := a\<rparr>"
  by (simp_all add: set_nz_def set_flag_def store_def push_def)

subsection \<open>Addressing modes\<close>

lemma absolute_simps [machine_simps]:
  "result_of get_absolute_addr s = ea ADDR_ABSOLUTE (arch_of s)"
  "arch_of (state_of get_absolute_addr s) = past ADDR_ABSOLUTE (arch_of s)"
  "machine_ok (state_of get_absolute_addr s) = machine_ok s"
  by (simp_all add: get_absolute_addr_def Let_def run_simps machine_simps ea_def past_def operand_length_def)

lemma absolute_X_simps [machine_simps]:
  "result_of get_absolute_addr_X_indexed s = ea ADDR_ABSOLUTE_X (arch_of s)"
  "arch_of (state_of get_absolute_addr_X_indexed s) = past ADDR_ABSOLUTE_X (arch_of s)"
  "machine_ok (state_of get_absolute_addr_X_indexed s) = machine_ok s"
  by (simp_all add: get_absolute_addr_X_indexed_def Let_def run_simps machine_simps ea_def past_def operand_length_def)

lemma absolute_Y_simps [machine_simps]:
  "result_of get_absolute_addr_Y_indexed s = ea ADDR_ABSOLUTE_Y (arch_of s)"
  "arch_of (state_of get_absolute_addr_Y_indexed s) = past ADDR_ABSOLUTE_Y (arch_of s)"
  "machine_ok (state_of get_absolute_addr_Y_indexed s) = machine_ok s"
  by (simp_all add: get_absolute_addr_Y_indexed_def Let_def run_simps machine_simps ea_def past_def operand_length_def)

lemma ZP_indexed_simps [machine_simps]:
  "result_of (get_ZP_indexed_address r) s = ucast (ar_mem (arch_of s) (ar_PC (arch_of s)) + r)"
  "arch_of (state_of (get_ZP_indexed_address r) s) = past ADDR_ZERO_PAGE_X (arch_of s)"
  "machine_ok (state_of (get_ZP_indexed_address r) s) = machine_ok s"
  by (simp_all add: get_ZP_indexed_address_def Let_def run_simps machine_simps past_def operand_length_def)

text \<open>The code's pointer arithmetic agrees with the processor's except at the end of the page.\<close>

definition pointer_in_page :: "addressing_mode \<Rightarrow> arch \<Rightarrow> bool" where
  "pointer_in_page md c \<longleftrightarrow>
     (let b1 = ar_mem c (ar_PC c)
      in case md of ADDR_INDIRECT_X \<Rightarrow> b1 + ar_X c \<noteq> 0xFF
         | ADDR_INDIRECT_Y \<Rightarrow> b1 \<noteq> 0xFF | ADDR_ABS_INDIRECT \<Rightarrow> b1 \<noteq> 0xFF | _ \<Rightarrow> True)"

lemma ucast_byte_succ:
  assumes "b \<noteq> 0xFF"
  shows "(ucast (b + 1) :: u16) = ucast (b :: u8) + 1"
proof -
  have "uint b \<noteq> uint (0xFF :: u8)" using assms by (simp only: word_uint_eq_iff not_False_eq_True)
  then have "uint b + 1 < 256" using uint_bounded [of b] by simp
  then have "uint (b + 1) = uint b + 1" using uint_add_no_wrap [of b 1] by simp
  then have "(word_of_int (uint (b + 1)) :: u16) = word_of_int (uint b + 1)" by simp
  then show ?thesis by (simp only: word_of_int_uint of_int_add of_int_1 of_int_uint)
qed

lemma word_of_bytes_sum: "word_of_bytes h l = ucast h * 256 + ucast l"
proof -
  have "\<not> bit (push_bit 8 (ucast h :: u16)) n \<or> \<not> bit (ucast l :: u16) n" for n
    by (cases "n < 8") (auto simp: bit_push_bit_iff bit_ucast_iff dest: bit_imp_le_length)
  then have "push_bit 8 (ucast h :: u16) OR ucast l = push_bit 8 (ucast h) + ucast l"
    by (rule disjunctive_add [symmetric])
  then show ?thesis by (simp add: word_of_bytes_def push_bit_eq_mult)
qed

lemma word_of_bytes_succ: "l \<noteq> 0xFF \<Longrightarrow> word_of_bytes h (l + 1) = word_of_bytes h l + 1"
  by (simp add: word_of_bytes_sum ucast_byte_succ)

lemma indirect_Y_simps [machine_simps]:
  "pointer_in_page ADDR_INDIRECT_Y (arch_of s) \<Longrightarrow>
     result_of get_indirect_address_Y_indexed s = ea ADDR_INDIRECT_Y (arch_of s)"
  "arch_of (state_of get_indirect_address_Y_indexed s) = past ADDR_INDIRECT_Y (arch_of s)"
  "machine_ok (state_of get_indirect_address_Y_indexed s) = machine_ok s"
  by (simp_all add: get_indirect_address_Y_indexed_def Let_def run_simps machine_simps ea_def past_def
      operand_length_def zp_pointer_def pointer_in_page_def ucast_byte_succ)

lemma indirect_X_simps [machine_simps]:
  "pointer_in_page ADDR_INDIRECT_X (arch_of s) \<Longrightarrow>
     result_of get_indirect_address_X_indexed s = ea ADDR_INDIRECT_X (arch_of s)"
  "arch_of (state_of get_indirect_address_X_indexed s) = past ADDR_INDIRECT_X (arch_of s)"
  "machine_ok (state_of get_indirect_address_X_indexed s) = machine_ok s"
  by (simp_all add: get_indirect_address_X_indexed_def Let_def run_simps machine_simps ea_def past_def
      operand_length_def zp_pointer_def pointer_in_page_def ucast_byte_succ)

subsection \<open>One lemma per case\<close>

lemma ea_direct:
  "ea ADDR_IMMEDIATE c = ar_PC c" "ea ADDR_ZERO_PAGE c = ucast (ar_mem c (ar_PC c))"
  "ea ADDR_ZERO_PAGE_X c = ucast (ar_mem c (ar_PC c) + ar_X c)"
  by (simp_all add: ea_def)

lemma take_branch_arch [machine_simps]:
  "arch_of (state_of (take_branch v) s) = (arch_of s)\<lparr>ar_PC := ar_PC (arch_of s) + scast v,
     ar_cycles := ar_cycles (arch_of s) + 1\<rparr>"
proof -
  have "(if 0x80 \<le> uint v then uint v - 256 else uint v) = sint v"
    using byte_uint_sint [of v] byte_sint_bounds [of v] by (auto split: if_splits)
  then show ?thesis
    by (simp add: take_branch_def Let_def run_simps machine_simps)
qed

lemma ASL_op_arch [machine_simps]: "machine_ok s \<Longrightarrow> arch_of (state_of (ASL_op v a) s) =
    store a (v * 2) (set_nz (v * 2) (set_flag FLAG_CARRY (sint v < 0) (arch_of s)))"
  by (simp add: ASL_op_def Let_def run_simps machine_simps shift_bytes byte_sign)

lemma LSR_op_arch [machine_simps]: "machine_ok s \<Longrightarrow> arch_of (state_of (LSR_op v a) s) =
    store a (v div 2) (set_nz (v div 2) (set_flag FLAG_CARRY (odd v) (arch_of s)))"
  by (simp add: LSR_op_def Let_def run_simps machine_simps shift_bytes byte_sign)

lemma carry_in_frame [simp]: "carry_in (c\<lparr>ar_PC := a\<rparr>) = carry_in c"
  by (simp add: carry_in_def carry_of_def flag_set_def)

lemma ROL_op_arch [machine_simps]: "machine_ok s \<Longrightarrow> arch_of (state_of (ROL_op v a) s) =
    (let r = v * 2 + carry_in (arch_of s)
     in store a r (set_nz r (set_flag FLAG_CARRY (sint v < 0) (arch_of s))))"
  by (simp add: ROL_op_def Let_def run_simps machine_simps shift_bytes byte_sign carry_in_def
      carry_of_def flag_set_def or_one_even or_high_half)

lemma ror_byte:
  "(if odd (ar_P c) then v div 2 OR 0x80 else v div 2) = v div 2 + carry_in c * 0x80"
  by (simp add: carry_in_def carry_of_def flag_set_def or_high_half shift_bytes)

lemma ROR_op_arch [machine_simps]: "machine_ok s \<Longrightarrow> arch_of (state_of (ROR_op v a) s) =
    (let r = v div 2 + carry_in (arch_of s) * 0x80
     in store a r (set_nz r (set_flag FLAG_CARRY (odd v) (arch_of s))))"
  unfolding ROR_op_def Let_def run_simps machine_simps shift_bytes ror_byte [symmetric]
  by (simp add: machine_simps shift_bytes byte_sign)

lemma INC_op_arch [machine_simps]: "machine_ok s \<Longrightarrow> arch_of (state_of (INC_op v a) s) =
    store a (v + 1) (set_nz (v + 1) (arch_of s))"
  by (simp add: INC_op_def Let_def run_simps machine_simps byte_sign)

lemma DEC_op_arch [machine_simps]: "machine_ok s \<Longrightarrow> arch_of (state_of (DEC_op v a) s) =
    store a (v - 1) (set_nz (v - 1) (arch_of s))"
  by (simp add: DEC_op_def Let_def run_simps machine_simps byte_sign)

lemma BIT_op_arch [machine_simps]: "arch_of (state_of (BIT_op v) s) =
    set_flag FLAG_OVERFLOW (bit v 6) (set_flag FLAG_NEGATIVE (sint v < 0)
      (set_flag FLAG_ZERO (ar_A (arch_of s) AND v = 0) (arch_of s)))"
proof -
  have "v AND 2 ^ 6 = 0 \<longleftrightarrow> \<not> bit v 6" by (rule and_exp_eq_0_iff_not_bit)
  then show ?thesis by (simp add: BIT_op_def run_simps machine_simps byte_sign)
qed

lemma halt_arch [machine_simps]: "arch_of (s\<lparr>CPU_halted := True\<rparr>) = (arch_of s)\<lparr>ar_halted := True\<rparr>"
  by (simp add: arch_of_def regs_def bus_byte_def cycles_of_def fun_eq_iff)

lemmas spec_simps = past_def operand_length_def operand_def on_accumulator_def write_back_def
  ea_direct Let_def pull_def pull_word_def push_word_def low_byte_def high_byte_def flag_set_def
  branch_def byte_sign shift_def shift_bytes or_one_even

lemma conform_02: "machine_ok s \<Longrightarrow> pointer_in_page MODE_UNKNOWN (arch_of s) \<Longrightarrow>
    arch_of (state_of op_HLT s) = sem_STP MODE_UNKNOWN (arch_of s)"
  by (simp add: op_HLT_def sem_STP_def run_simps machine_simps spec_simps)

lemma conform_A0: "machine_ok s \<Longrightarrow> pointer_in_page ADDR_IMMEDIATE (arch_of s) \<Longrightarrow>
    arch_of (state_of op_LDY_imm s) = sem_LDY ADDR_IMMEDIATE (arch_of s)"
  by (simp add: op_LDY_imm_def sem_LDY_def run_simps machine_simps spec_simps)

lemma conform_A2: "machine_ok s \<Longrightarrow> pointer_in_page ADDR_IMMEDIATE (arch_of s) \<Longrightarrow>
    arch_of (state_of op_LDX_imm s) = sem_LDX ADDR_IMMEDIATE (arch_of s)"
  by (simp add: op_LDX_imm_def sem_LDX_def run_simps machine_simps spec_simps)

lemma conform_A9: "machine_ok s \<Longrightarrow> pointer_in_page ADDR_IMMEDIATE (arch_of s) \<Longrightarrow>
    arch_of (state_of op_LDA_imm s) = sem_LDA ADDR_IMMEDIATE (arch_of s)"
  by (simp add: op_LDA_imm_def sem_LDA_def run_simps machine_simps spec_simps)

lemma conform_A5: "machine_ok s \<Longrightarrow> pointer_in_page ADDR_ZERO_PAGE (arch_of s) \<Longrightarrow>
    arch_of (state_of op_LDA_zp s) = sem_LDA ADDR_ZERO_PAGE (arch_of s)"
  by (simp add: op_LDA_zp_def sem_LDA_def run_simps machine_simps spec_simps)

lemma conform_B5: "machine_ok s \<Longrightarrow> pointer_in_page ADDR_ZERO_PAGE_X (arch_of s) \<Longrightarrow>
    arch_of (state_of op_LDA_zpx s) = sem_LDA ADDR_ZERO_PAGE_X (arch_of s)"
  by (simp add: op_LDA_zpx_def sem_LDA_def run_simps machine_simps spec_simps)

lemma conform_AD: "machine_ok s \<Longrightarrow> pointer_in_page ADDR_ABSOLUTE (arch_of s) \<Longrightarrow>
    arch_of (state_of op_LDA_abs s) = sem_LDA ADDR_ABSOLUTE (arch_of s)"
  by (simp add: op_LDA_abs_def sem_LDA_def run_simps machine_simps spec_simps)

lemma conform_BD: "machine_ok s \<Longrightarrow> pointer_in_page ADDR_ABSOLUTE_X (arch_of s) \<Longrightarrow>
    arch_of (state_of op_LDA_absx s) = sem_LDA ADDR_ABSOLUTE_X (arch_of s)"
  by (simp add: op_LDA_absx_def sem_LDA_def run_simps machine_simps spec_simps)

lemma conform_85: "machine_ok s \<Longrightarrow> pointer_in_page ADDR_ZERO_PAGE (arch_of s) \<Longrightarrow>
    arch_of (state_of op_STA_zp s) = sem_STA ADDR_ZERO_PAGE (arch_of s)"
  by (simp add: op_STA_zp_def sem_STA_def run_simps machine_simps spec_simps)

lemma conform_95: "machine_ok s \<Longrightarrow> pointer_in_page ADDR_ZERO_PAGE_X (arch_of s) \<Longrightarrow>
    arch_of (state_of op_STA_zpx s) = sem_STA ADDR_ZERO_PAGE_X (arch_of s)"
  by (simp add: op_STA_zpx_def sem_STA_def run_simps machine_simps spec_simps)

lemma conform_8D: "machine_ok s \<Longrightarrow> pointer_in_page ADDR_ABSOLUTE (arch_of s) \<Longrightarrow>
    arch_of (state_of op_STA_abs s) = sem_STA ADDR_ABSOLUTE (arch_of s)"
  by (simp add: op_STA_abs_def sem_STA_def run_simps machine_simps spec_simps)

lemma conform_9D: "machine_ok s \<Longrightarrow> pointer_in_page ADDR_ABSOLUTE_X (arch_of s) \<Longrightarrow>
    arch_of (state_of op_STA_absx s) = sem_STA ADDR_ABSOLUTE_X (arch_of s)"
  by (simp add: op_STA_absx_def sem_STA_def run_simps machine_simps spec_simps)

lemma conform_91: "machine_ok s \<Longrightarrow> pointer_in_page ADDR_INDIRECT_Y (arch_of s) \<Longrightarrow>
    arch_of (state_of op_STA_indy s) = sem_STA ADDR_INDIRECT_Y (arch_of s)"
  by (simp add: op_STA_indy_def sem_STA_def run_simps machine_simps spec_simps)

lemma conform_81: "machine_ok s \<Longrightarrow> pointer_in_page ADDR_INDIRECT_X (arch_of s) \<Longrightarrow>
    arch_of (state_of op_STA_indx s) = sem_STA ADDR_INDIRECT_X (arch_of s)"
  by (simp add: op_STA_indx_def sem_STA_def run_simps machine_simps spec_simps)

lemma conform_86: "machine_ok s \<Longrightarrow> pointer_in_page ADDR_ZERO_PAGE (arch_of s) \<Longrightarrow>
    arch_of (state_of op_STX_zp s) = sem_STX ADDR_ZERO_PAGE (arch_of s)"
  by (simp add: op_STX_zp_def sem_STX_def run_simps machine_simps spec_simps)

lemma conform_8E: "machine_ok s \<Longrightarrow> pointer_in_page ADDR_ABSOLUTE (arch_of s) \<Longrightarrow>
    arch_of (state_of op_STX_abs s) = sem_STX ADDR_ABSOLUTE (arch_of s)"
  by (simp add: op_STX_abs_def sem_STX_def run_simps machine_simps spec_simps)

lemma conform_84: "machine_ok s \<Longrightarrow> pointer_in_page ADDR_ZERO_PAGE (arch_of s) \<Longrightarrow>
    arch_of (state_of op_STY_zp s) = sem_STY ADDR_ZERO_PAGE (arch_of s)"
  by (simp add: op_STY_zp_def sem_STY_def run_simps machine_simps spec_simps)

lemma conform_8C: "machine_ok s \<Longrightarrow> pointer_in_page ADDR_ABSOLUTE (arch_of s) \<Longrightarrow>
    arch_of (state_of op_STY_abs s) = sem_STY ADDR_ABSOLUTE (arch_of s)"
  by (simp add: op_STY_abs_def sem_STY_def run_simps machine_simps spec_simps)

lemma conform_D0: "machine_ok s \<Longrightarrow> pointer_in_page ADDR_RELATIVE (arch_of s) \<Longrightarrow>
    arch_of (state_of op_BNE s) = sem_BNE ADDR_RELATIVE (arch_of s)"
  by (simp add: op_BNE_def sem_BNE_def run_simps machine_simps spec_simps)

lemma conform_F0: "machine_ok s \<Longrightarrow> pointer_in_page ADDR_RELATIVE (arch_of s) \<Longrightarrow>
    arch_of (state_of op_BEQ s) = sem_BEQ ADDR_RELATIVE (arch_of s)"
  by (simp add: op_BEQ_def sem_BEQ_def run_simps machine_simps spec_simps)

lemma conform_10: "machine_ok s \<Longrightarrow> pointer_in_page ADDR_RELATIVE (arch_of s) \<Longrightarrow>
    arch_of (state_of op_BPL s) = sem_BPL ADDR_RELATIVE (arch_of s)"
  by (simp add: op_BPL_def sem_BPL_def run_simps machine_simps spec_simps)

lemma conform_30: "machine_ok s \<Longrightarrow> pointer_in_page ADDR_RELATIVE (arch_of s) \<Longrightarrow>
    arch_of (state_of op_BMI s) = sem_BMI ADDR_RELATIVE (arch_of s)"
  by (simp add: op_BMI_def sem_BMI_def run_simps machine_simps spec_simps)

lemma conform_50: "machine_ok s \<Longrightarrow> pointer_in_page ADDR_RELATIVE (arch_of s) \<Longrightarrow>
    arch_of (state_of op_BVC s) = sem_BVC ADDR_RELATIVE (arch_of s)"
  by (simp add: op_BVC_def sem_BVC_def run_simps machine_simps spec_simps)

lemma conform_70: "machine_ok s \<Longrightarrow> pointer_in_page ADDR_RELATIVE (arch_of s) \<Longrightarrow>
    arch_of (state_of op_BVS s) = sem_BVS ADDR_RELATIVE (arch_of s)"
  by (simp add: op_BVS_def sem_BVS_def run_simps machine_simps spec_simps)

lemma conform_90: "machine_ok s \<Longrightarrow> pointer_in_page ADDR_RELATIVE (arch_of s) \<Longrightarrow>
    arch_of (state_of op_BCC s) = sem_BCC ADDR_RELATIVE (arch_of s)"
  by (simp add: op_BCC_def sem_BCC_def run_simps machine_simps spec_simps)

lemma conform_B0: "machine_ok s \<Longrightarrow> pointer_in_page ADDR_RELATIVE (arch_of s) \<Longrightarrow>
    arch_of (state_of op_BCS s) = sem_BCS ADDR_RELATIVE (arch_of s)"
  by (simp add: op_BCS_def sem_BCS_def run_simps machine_simps spec_simps)

lemma conform_48: "machine_ok s \<Longrightarrow> pointer_in_page ADDR_IMPLIED (arch_of s) \<Longrightarrow>
    arch_of (state_of op_PHA s) = sem_PHA ADDR_IMPLIED (arch_of s)"
  by (simp add: op_PHA_def sem_PHA_def run_simps machine_simps spec_simps)

lemma conform_68: "machine_ok s \<Longrightarrow> pointer_in_page ADDR_IMPLIED (arch_of s) \<Longrightarrow>
    arch_of (state_of op_PLA s) = sem_PLA ADDR_IMPLIED (arch_of s)"
  by (simp add: op_PLA_def sem_PLA_def run_simps machine_simps spec_simps)

lemma conform_20: "machine_ok s \<Longrightarrow> pointer_in_page ADDR_ABSOLUTE (arch_of s) \<Longrightarrow>
    arch_of (state_of op_JSR s) = sem_JSR ADDR_ABSOLUTE (arch_of s)"
  by (simp add: op_JSR_def sem_JSR_def run_simps machine_simps spec_simps ea_def)

lemma conform_60: "machine_ok s \<Longrightarrow> pointer_in_page ADDR_IMPLIED (arch_of s) \<Longrightarrow>
    arch_of (state_of op_RTS s) = sem_RTS ADDR_IMPLIED (arch_of s)"
  by (simp add: op_RTS_def sem_RTS_def run_simps machine_simps spec_simps)

lemma conform_4C: "machine_ok s \<Longrightarrow> pointer_in_page ADDR_ABSOLUTE (arch_of s) \<Longrightarrow>
    arch_of (state_of op_JMP_abs s) = sem_JMP ADDR_ABSOLUTE (arch_of s)"
  by (simp add: op_JMP_abs_def sem_JMP_def run_simps machine_simps spec_simps)

lemma conform_6C: "machine_ok s \<Longrightarrow> pointer_in_page ADDR_ABS_INDIRECT (arch_of s) \<Longrightarrow>
    arch_of (state_of op_JMP_ind s) = sem_JMP ADDR_ABS_INDIRECT (arch_of s)"
  by (simp add: op_JMP_ind_def sem_JMP_def run_simps machine_simps spec_simps ea_def pointer_in_page_def word_of_bytes_succ)

lemma conform_E8: "machine_ok s \<Longrightarrow> pointer_in_page ADDR_IMPLIED (arch_of s) \<Longrightarrow>
    arch_of (state_of op_INX s) = sem_INX ADDR_IMPLIED (arch_of s)"
  by (simp add: op_INX_def sem_INX_def run_simps machine_simps spec_simps)

lemma conform_CA: "machine_ok s \<Longrightarrow> pointer_in_page ADDR_IMPLIED (arch_of s) \<Longrightarrow>
    arch_of (state_of op_DEX s) = sem_DEX ADDR_IMPLIED (arch_of s)"
  by (simp add: op_DEX_def sem_DEX_def run_simps machine_simps spec_simps)

lemma conform_C8: "machine_ok s \<Longrightarrow> pointer_in_page ADDR_IMPLIED (arch_of s) \<Longrightarrow>
    arch_of (state_of op_INY s) = sem_INY ADDR_IMPLIED (arch_of s)"
  by (simp add: op_INY_def sem_INY_def run_simps machine_simps spec_simps)

lemma conform_AA: "machine_ok s \<Longrightarrow> pointer_in_page ADDR_IMPLIED (arch_of s) \<Longrightarrow>
    arch_of (state_of op_TAX s) = sem_TAX ADDR_IMPLIED (arch_of s)"
  by (simp add: op_TAX_def sem_TAX_def run_simps machine_simps spec_simps)

lemma conform_A8: "machine_ok s \<Longrightarrow> pointer_in_page ADDR_IMPLIED (arch_of s) \<Longrightarrow>
    arch_of (state_of op_TAY s) = sem_TAY ADDR_IMPLIED (arch_of s)"
  by (simp add: op_TAY_def sem_TAY_def run_simps machine_simps spec_simps)

lemma conform_8A: "machine_ok s \<Longrightarrow> pointer_in_page ADDR_IMPLIED (arch_of s) \<Longrightarrow>
    arch_of (state_of op_TXA s) = sem_TXA ADDR_IMPLIED (arch_of s)"
  by (simp add: op_TXA_def sem_TXA_def run_simps machine_simps spec_simps)

lemma conform_98: "machine_ok s \<Longrightarrow> pointer_in_page ADDR_IMPLIED (arch_of s) \<Longrightarrow>
    arch_of (state_of op_TYA s) = sem_TYA ADDR_IMPLIED (arch_of s)"
  by (simp add: op_TYA_def sem_TYA_def run_simps machine_simps spec_simps)

lemma conform_9A: "machine_ok s \<Longrightarrow> pointer_in_page ADDR_IMPLIED (arch_of s) \<Longrightarrow>
    arch_of (state_of op_TXS s) = sem_TXS ADDR_IMPLIED (arch_of s)"
  by (simp add: op_TXS_def sem_TXS_def run_simps machine_simps spec_simps)

lemma conform_BA: "machine_ok s \<Longrightarrow> pointer_in_page ADDR_IMPLIED (arch_of s) \<Longrightarrow>
    arch_of (state_of op_TSX s) = sem_TSX ADDR_IMPLIED (arch_of s)"
  by (simp add: op_TSX_def sem_TSX_def run_simps machine_simps spec_simps)

lemma conform_38: "machine_ok s \<Longrightarrow> pointer_in_page ADDR_IMPLIED (arch_of s) \<Longrightarrow>
    arch_of (state_of op_SEC s) = sem_SEC ADDR_IMPLIED (arch_of s)"
  by (simp add: op_SEC_def sem_SEC_def run_simps machine_simps spec_simps)

lemma conform_18: "machine_ok s \<Longrightarrow> pointer_in_page ADDR_IMPLIED (arch_of s) \<Longrightarrow>
    arch_of (state_of op_CLC s) = sem_CLC ADDR_IMPLIED (arch_of s)"
  by (simp add: op_CLC_def sem_CLC_def run_simps machine_simps spec_simps)

lemma conform_B8: "machine_ok s \<Longrightarrow> pointer_in_page ADDR_IMPLIED (arch_of s) \<Longrightarrow>
    arch_of (state_of op_CLV s) = sem_CLV ADDR_IMPLIED (arch_of s)"
  by (simp add: op_CLV_def sem_CLV_def run_simps machine_simps spec_simps)

lemma conform_78: "machine_ok s \<Longrightarrow> pointer_in_page ADDR_IMPLIED (arch_of s) \<Longrightarrow>
    arch_of (state_of op_SEI s) = sem_SEI ADDR_IMPLIED (arch_of s)"
  by (simp add: op_SEI_def sem_SEI_def run_simps machine_simps spec_simps)

lemma conform_58: "machine_ok s \<Longrightarrow> pointer_in_page ADDR_IMPLIED (arch_of s) \<Longrightarrow>
    arch_of (state_of op_CLI s) = sem_CLI ADDR_IMPLIED (arch_of s)"
  by (simp add: op_CLI_def sem_CLI_def run_simps machine_simps spec_simps)

lemma conform_F8: "machine_ok s \<Longrightarrow> pointer_in_page ADDR_IMPLIED (arch_of s) \<Longrightarrow>
    arch_of (state_of op_SED s) = sem_SED ADDR_IMPLIED (arch_of s)"
  by (simp add: op_SED_def sem_SED_def run_simps machine_simps spec_simps)

lemma conform_08: "machine_ok s \<Longrightarrow> pointer_in_page MODE_UNKNOWN (arch_of s) \<Longrightarrow>
    arch_of (state_of op_PHP s) = sem_PHP MODE_UNKNOWN (arch_of s)"
  by (simp add: op_PHP_def sem_PHP_def run_simps machine_simps spec_simps)

lemma conform_28: "machine_ok s \<Longrightarrow> pointer_in_page MODE_UNKNOWN (arch_of s) \<Longrightarrow>
    arch_of (state_of op_PLP s) = sem_PLP MODE_UNKNOWN (arch_of s)"
  by (simp add: op_PLP_def sem_PLP_def run_simps machine_simps spec_simps)

lemma conform_0A: "machine_ok s \<Longrightarrow> pointer_in_page MODE_UNKNOWN (arch_of s) \<Longrightarrow>
    arch_of (state_of op_ASL_A s) = sem_ASL MODE_UNKNOWN (arch_of s)"
  by (simp add: op_ASL_A_def sem_ASL_def run_simps machine_simps spec_simps)

lemma conform_06: "machine_ok s \<Longrightarrow> pointer_in_page ADDR_ZERO_PAGE (arch_of s) \<Longrightarrow>
    arch_of (state_of op_ASL_zp s) = sem_ASL ADDR_ZERO_PAGE (arch_of s)"
  by (simp add: op_ASL_zp_def sem_ASL_def run_simps machine_simps spec_simps)

lemma conform_0E: "machine_ok s \<Longrightarrow> pointer_in_page ADDR_ABSOLUTE (arch_of s) \<Longrightarrow>
    arch_of (state_of op_ASL_abs s) = sem_ASL ADDR_ABSOLUTE (arch_of s)"
  by (simp add: op_ASL_abs_def sem_ASL_def run_simps machine_simps spec_simps)

lemma conform_46: "machine_ok s \<Longrightarrow> pointer_in_page ADDR_ZERO_PAGE (arch_of s) \<Longrightarrow>
    arch_of (state_of op_LSR_zp s) = sem_LSR ADDR_ZERO_PAGE (arch_of s)"
  by (simp add: op_LSR_zp_def sem_LSR_def run_simps machine_simps spec_simps)

lemma conform_4E: "machine_ok s \<Longrightarrow> pointer_in_page ADDR_ABSOLUTE (arch_of s) \<Longrightarrow>
    arch_of (state_of op_LSR_abs s) = sem_LSR ADDR_ABSOLUTE (arch_of s)"
  by (simp add: op_LSR_abs_def sem_LSR_def run_simps machine_simps spec_simps)

lemma conform_2A: "machine_ok s \<Longrightarrow> pointer_in_page ADDR_ACCUMULATOR (arch_of s) \<Longrightarrow>
    arch_of (state_of op_ROL_A s) = sem_ROL ADDR_ACCUMULATOR (arch_of s)"
  by (simp add: op_ROL_A_def sem_ROL_def run_simps machine_simps spec_simps
    carry_in_def carry_of_def)

lemma conform_26: "machine_ok s \<Longrightarrow> pointer_in_page ADDR_ZERO_PAGE (arch_of s) \<Longrightarrow>
    arch_of (state_of op_ROL_zp s) = sem_ROL ADDR_ZERO_PAGE (arch_of s)"
  by (simp add: op_ROL_zp_def sem_ROL_def run_simps machine_simps spec_simps)

lemma conform_2E: "machine_ok s \<Longrightarrow> pointer_in_page ADDR_ABSOLUTE (arch_of s) \<Longrightarrow>
    arch_of (state_of op_ROL_abs s) = sem_ROL ADDR_ABSOLUTE (arch_of s)"
  by (simp add: op_ROL_abs_def sem_ROL_def run_simps machine_simps spec_simps)

lemma conform_66: "machine_ok s \<Longrightarrow> pointer_in_page ADDR_ZERO_PAGE (arch_of s) \<Longrightarrow>
    arch_of (state_of op_ROR_zp s) = sem_ROR ADDR_ZERO_PAGE (arch_of s)"
  by (simp add: op_ROR_zp_def sem_ROR_def run_simps machine_simps spec_simps)

lemma conform_6E: "machine_ok s \<Longrightarrow> pointer_in_page ADDR_ABSOLUTE (arch_of s) \<Longrightarrow>
    arch_of (state_of op_ROR_abs s) = sem_ROR ADDR_ABSOLUTE (arch_of s)"
  by (simp add: op_ROR_abs_def sem_ROR_def run_simps machine_simps spec_simps)

lemma conform_09: "machine_ok s \<Longrightarrow> pointer_in_page ADDR_IMMEDIATE (arch_of s) \<Longrightarrow>
    arch_of (state_of op_ORA_imm s) = sem_ORA ADDR_IMMEDIATE (arch_of s)"
  by (simp add: op_ORA_imm_def sem_ORA_def run_simps machine_simps spec_simps)

lemma conform_49: "machine_ok s \<Longrightarrow> pointer_in_page ADDR_IMMEDIATE (arch_of s) \<Longrightarrow>
    arch_of (state_of op_EOR_imm s) = sem_EOR ADDR_IMMEDIATE (arch_of s)"
  by (simp add: op_EOR_imm_def sem_EOR_def run_simps machine_simps spec_simps)

lemma conform_29: "machine_ok s \<Longrightarrow> pointer_in_page ADDR_IMMEDIATE (arch_of s) \<Longrightarrow>
    arch_of (state_of op_AND_imm s) = sem_AND ADDR_IMMEDIATE (arch_of s)"
  by (simp add: op_AND_imm_def sem_AND_def run_simps machine_simps spec_simps)

lemma conform_E6: "machine_ok s \<Longrightarrow> pointer_in_page ADDR_ZERO_PAGE (arch_of s) \<Longrightarrow>
    arch_of (state_of op_INC_zp s) = sem_INC ADDR_ZERO_PAGE (arch_of s)"
  by (simp add: op_INC_zp_def sem_INC_def run_simps machine_simps spec_simps)

lemma conform_EE: "machine_ok s \<Longrightarrow> pointer_in_page ADDR_ABSOLUTE (arch_of s) \<Longrightarrow>
    arch_of (state_of op_INC_abs s) = sem_INC ADDR_ABSOLUTE (arch_of s)"
  by (simp add: op_INC_abs_def sem_INC_def run_simps machine_simps spec_simps)

lemma conform_FE: "machine_ok s \<Longrightarrow> pointer_in_page ADDR_ABSOLUTE_X (arch_of s) \<Longrightarrow>
    arch_of (state_of op_INC_absx s) = sem_INC ADDR_ABSOLUTE_X (arch_of s)"
  by (simp add: op_INC_absx_def sem_INC_def run_simps machine_simps spec_simps)

lemma conform_C6: "machine_ok s \<Longrightarrow> pointer_in_page ADDR_ZERO_PAGE (arch_of s) \<Longrightarrow>
    arch_of (state_of op_DEC_zp s) = sem_DEC ADDR_ZERO_PAGE (arch_of s)"
  by (simp add: op_DEC_zp_def sem_DEC_def run_simps machine_simps spec_simps)

lemma conform_CE: "machine_ok s \<Longrightarrow> pointer_in_page ADDR_ABSOLUTE (arch_of s) \<Longrightarrow>
    arch_of (state_of op_DEC_abs s) = sem_DEC ADDR_ABSOLUTE (arch_of s)"
  by (simp add: op_DEC_abs_def sem_DEC_def run_simps machine_simps spec_simps)

lemma conform_24: "machine_ok s \<Longrightarrow> pointer_in_page ADDR_ZERO_PAGE (arch_of s) \<Longrightarrow>
    arch_of (state_of op_BIT_zp s) = sem_BIT ADDR_ZERO_PAGE (arch_of s)"
  by (simp add: op_BIT_zp_def sem_BIT_def run_simps machine_simps spec_simps)

lemma conform_2C: "machine_ok s \<Longrightarrow> pointer_in_page ADDR_ABSOLUTE (arch_of s) \<Longrightarrow>
    arch_of (state_of op_BIT_abs s) = sem_BIT ADDR_ABSOLUTE (arch_of s)"
  by (simp add: op_BIT_abs_def sem_BIT_def run_simps machine_simps spec_simps)

lemma conform_40: "machine_ok s \<Longrightarrow> pointer_in_page ADDR_IMPLIED (arch_of s) \<Longrightarrow>
    arch_of (state_of op_RTI s) = sem_RTI ADDR_IMPLIED (arch_of s)"
  by (simp add: op_RTI_def sem_RTI_def run_simps machine_simps spec_simps)

lemma conform_EA: "machine_ok s \<Longrightarrow> pointer_in_page ADDR_IMPLIED (arch_of s) \<Longrightarrow>
    arch_of (state_of op_NOP s) = sem_NOP ADDR_IMPLIED (arch_of s)"
  by (simp add: op_NOP_def sem_NOP_def run_simps machine_simps spec_simps)


subsection \<open>The jump table\<close>

lemma dispatch_case:
  "dispatch ord 0x02 = op_HLT"
  "dispatch ord 0xA0 = op_LDY_imm"
  "dispatch ord 0xA2 = op_LDX_imm"
  "dispatch ord 0xA9 = op_LDA_imm"
  "dispatch ord 0xA5 = op_LDA_zp"
  "dispatch ord 0xB5 = op_LDA_zpx"
  "dispatch ord 0xAD = op_LDA_abs"
  "dispatch ord 0xBD = op_LDA_absx"
  "dispatch ord 0x85 = op_STA_zp"
  "dispatch ord 0x95 = op_STA_zpx"
  "dispatch ord 0x8D = op_STA_abs"
  "dispatch ord 0x9D = op_STA_absx"
  "dispatch ord 0x91 = op_STA_indy"
  "dispatch ord 0x81 = op_STA_indx"
  "dispatch ord 0x86 = op_STX_zp"
  "dispatch ord 0x8E = op_STX_abs"
  "dispatch ord 0x84 = op_STY_zp"
  "dispatch ord 0x8C = op_STY_abs"
  "dispatch ord 0xD0 = op_BNE"
  "dispatch ord 0xF0 = op_BEQ"
  "dispatch ord 0x10 = op_BPL"
  "dispatch ord 0x30 = op_BMI"
  "dispatch ord 0x50 = op_BVC"
  "dispatch ord 0x70 = op_BVS"
  "dispatch ord 0x90 = op_BCC"
  "dispatch ord 0xB0 = op_BCS"
  "dispatch ord 0x48 = op_PHA"
  "dispatch ord 0x68 = op_PLA"
  "dispatch ord 0x20 = op_JSR"
  "dispatch ord 0x60 = op_RTS"
  "dispatch ord 0x4C = op_JMP_abs"
  "dispatch ord 0x6C = op_JMP_ind"
  "dispatch ord 0xE8 = op_INX"
  "dispatch ord 0xCA = op_DEX"
  "dispatch ord 0xC8 = op_INY"
  "dispatch ord 0x88 = op_DEY"
  "dispatch ord 0xAA = op_TAX"
  "dispatch ord 0xA8 = op_TAY"
  "dispatch ord 0x8A = op_TXA"
  "dispatch ord 0x98 = op_TYA"
  "dispatch ord 0x9A = op_TXS"
  "dispatch ord 0xBA = op_TSX"
  "dispatch ord 0x38 = op_SEC"
  "dispatch ord 0x18 = op_CLC"
  "dispatch ord 0xB8 = op_CLV"
  "dispatch ord 0x78 = op_SEI"
  "dispatch ord 0x58 = op_CLI"
  "dispatch ord 0xF8 = op_SED"
  "dispatch ord 0x08 = op_PHP"
  "dispatch ord 0x28 = op_PLP"
  "dispatch ord 0x0A = op_ASL_A"
  "dispatch ord 0x06 = op_ASL_zp"
  "dispatch ord 0x0E = op_ASL_abs"
  "dispatch ord 0x4A = op_LSR_A"
  "dispatch ord 0x46 = op_LSR_zp"
  "dispatch ord 0x4E = op_LSR_abs"
  "dispatch ord 0x2A = op_ROL_A"
  "dispatch ord 0x26 = op_ROL_zp"
  "dispatch ord 0x2E = op_ROL_abs"
  "dispatch ord 0x66 = op_ROR_zp"
  "dispatch ord 0x6E = op_ROR_abs"
  "dispatch ord 0x09 = op_ORA_imm"
  "dispatch ord 0x05 = op_ORA_zp"
  "dispatch ord 0x0D = op_ORA_abs"
  "dispatch ord 0x49 = op_EOR_imm"
  "dispatch ord 0x45 = op_EOR_zp"
  "dispatch ord 0x4D = op_EOR_abs"
  "dispatch ord 0x29 = op_AND_imm"
  "dispatch ord 0x25 = op_AND_zp"
  "dispatch ord 0x2D = op_AND_abs"
  "dispatch ord 0xE6 = op_INC_zp"
  "dispatch ord 0xEE = op_INC_abs"
  "dispatch ord 0xFE = op_INC_absx"
  "dispatch ord 0xC6 = op_DEC_zp"
  "dispatch ord 0xCE = op_DEC_abs"
  "dispatch ord 0x69 = op_ADC_imm ord"
  "dispatch ord 0x75 = op_ADC_zpx ord"
  "dispatch ord 0x65 = op_ADC_zp ord"
  "dispatch ord 0x6D = op_ADC_abs ord"
  "dispatch ord 0xE9 = op_SBC_imm ord"
  "dispatch ord 0xE5 = op_SBC_zp ord"
  "dispatch ord 0xED = op_SBC_abs ord"
  "dispatch ord 0xC9 = op_CMP_imm"
  "dispatch ord 0xC5 = op_CMP_zp"
  "dispatch ord 0xCD = op_CMP_abs"
  "dispatch ord 0xE0 = op_CPX_imm"
  "dispatch ord 0xE4 = op_CPX_zp"
  "dispatch ord 0xEC = op_CPX_abs"
  "dispatch ord 0xC0 = op_CPY_imm"
  "dispatch ord 0xC4 = op_CPY_zp"
  "dispatch ord 0xCC = op_CPY_abs"
  "dispatch ord 0x24 = op_BIT_zp"
  "dispatch ord 0x2C = op_BIT_abs"
  "dispatch ord 0x00 = op_BRK"
  "dispatch ord 0x40 = op_RTI"
  "dispatch ord 0xEA = op_NOP"
  by (simp_all add: dispatch_def cpu_switch_def)

lemma semantics_of:
  "map_of instruction_set ''LDA'' = Some sem_LDA"
  "map_of instruction_set ''LDX'' = Some sem_LDX"
  "map_of instruction_set ''LDY'' = Some sem_LDY"
  "map_of instruction_set ''STA'' = Some sem_STA"
  "map_of instruction_set ''STX'' = Some sem_STX"
  "map_of instruction_set ''STY'' = Some sem_STY"
  "map_of instruction_set ''BNE'' = Some sem_BNE"
  "map_of instruction_set ''BEQ'' = Some sem_BEQ"
  "map_of instruction_set ''BPL'' = Some sem_BPL"
  "map_of instruction_set ''BMI'' = Some sem_BMI"
  "map_of instruction_set ''BVC'' = Some sem_BVC"
  "map_of instruction_set ''BVS'' = Some sem_BVS"
  "map_of instruction_set ''BCC'' = Some sem_BCC"
  "map_of instruction_set ''BCS'' = Some sem_BCS"
  "map_of instruction_set ''PHA'' = Some sem_PHA"
  "map_of instruction_set ''PLA'' = Some sem_PLA"
  "map_of instruction_set ''PHP'' = Some sem_PHP"
  "map_of instruction_set ''PLP'' = Some sem_PLP"
  "map_of instruction_set ''JSR'' = Some sem_JSR"
  "map_of instruction_set ''RTS'' = Some sem_RTS"
  "map_of instruction_set ''RTI'' = Some sem_RTI"
  "map_of instruction_set ''JMP'' = Some sem_JMP"
  "map_of instruction_set ''BRK'' = Some sem_BRK"
  "map_of instruction_set ''INX'' = Some sem_INX"
  "map_of instruction_set ''DEX'' = Some sem_DEX"
  "map_of instruction_set ''INY'' = Some sem_INY"
  "map_of instruction_set ''DEY'' = Some sem_DEY"
  "map_of instruction_set ''TAX'' = Some sem_TAX"
  "map_of instruction_set ''TAY'' = Some sem_TAY"
  "map_of instruction_set ''TXA'' = Some sem_TXA"
  "map_of instruction_set ''TYA'' = Some sem_TYA"
  "map_of instruction_set ''TXS'' = Some sem_TXS"
  "map_of instruction_set ''TSX'' = Some sem_TSX"
  "map_of instruction_set ''SEC'' = Some sem_SEC"
  "map_of instruction_set ''CLC'' = Some sem_CLC"
  "map_of instruction_set ''CLV'' = Some sem_CLV"
  "map_of instruction_set ''SEI'' = Some sem_SEI"
  "map_of instruction_set ''CLI'' = Some sem_CLI"
  "map_of instruction_set ''SED'' = Some sem_SED"
  "map_of instruction_set ''ASL'' = Some sem_ASL"
  "map_of instruction_set ''LSR'' = Some sem_LSR"
  "map_of instruction_set ''ROL'' = Some sem_ROL"
  "map_of instruction_set ''ROR'' = Some sem_ROR"
  "map_of instruction_set ''ORA'' = Some sem_ORA"
  "map_of instruction_set ''EOR'' = Some sem_EOR"
  "map_of instruction_set ''AND'' = Some sem_AND"
  "map_of instruction_set ''INC'' = Some sem_INC"
  "map_of instruction_set ''DEC'' = Some sem_DEC"
  "map_of instruction_set ''ADC'' = Some sem_ADC"
  "map_of instruction_set ''SBC'' = Some sem_SBC"
  "map_of instruction_set ''CMP'' = Some sem_CMP"
  "map_of instruction_set ''CPX'' = Some sem_CPX"
  "map_of instruction_set ''CPY'' = Some sem_CPY"
  "map_of instruction_set ''BIT'' = Some sem_BIT"
  "map_of instruction_set ''NOP'' = Some sem_NOP"
  "map_of instruction_set ''STP'' = Some sem_STP"
  by (simp_all add: instruction_set_def)

text \<open>
  The opcodes whose case implements the processor's instruction, with the mnemonic and the mode that
  the opcode table gives them.
\<close>

definition conforming_rows :: "(u8 \<times> string \<times> addressing_mode) list" where
  "conforming_rows =
     [(0x02, ''STP'', MODE_UNKNOWN), (0xA0, ''LDY'', ADDR_IMMEDIATE),
      (0xA2, ''LDX'', ADDR_IMMEDIATE), (0xA9, ''LDA'', ADDR_IMMEDIATE),
      (0xA5, ''LDA'', ADDR_ZERO_PAGE), (0xB5, ''LDA'', ADDR_ZERO_PAGE_X),
      (0xAD, ''LDA'', ADDR_ABSOLUTE), (0xBD, ''LDA'', ADDR_ABSOLUTE_X),
      (0x85, ''STA'', ADDR_ZERO_PAGE), (0x95, ''STA'', ADDR_ZERO_PAGE_X),
      (0x8D, ''STA'', ADDR_ABSOLUTE), (0x9D, ''STA'', ADDR_ABSOLUTE_X),
      (0x91, ''STA'', ADDR_INDIRECT_Y), (0x81, ''STA'', ADDR_INDIRECT_X),
      (0x86, ''STX'', ADDR_ZERO_PAGE), (0x8E, ''STX'', ADDR_ABSOLUTE),
      (0x84, ''STY'', ADDR_ZERO_PAGE), (0x8C, ''STY'', ADDR_ABSOLUTE),
      (0xD0, ''BNE'', ADDR_RELATIVE), (0xF0, ''BEQ'', ADDR_RELATIVE),
      (0x10, ''BPL'', ADDR_RELATIVE), (0x30, ''BMI'', ADDR_RELATIVE),
      (0x50, ''BVC'', ADDR_RELATIVE), (0x70, ''BVS'', ADDR_RELATIVE),
      (0x90, ''BCC'', ADDR_RELATIVE), (0xB0, ''BCS'', ADDR_RELATIVE),
      (0x48, ''PHA'', ADDR_IMPLIED), (0x68, ''PLA'', ADDR_IMPLIED),
      (0x20, ''JSR'', ADDR_ABSOLUTE), (0x60, ''RTS'', ADDR_IMPLIED),
      (0x4C, ''JMP'', ADDR_ABSOLUTE), (0x6C, ''JMP'', ADDR_ABS_INDIRECT),
      (0xE8, ''INX'', ADDR_IMPLIED), (0xCA, ''DEX'', ADDR_IMPLIED),
      (0xC8, ''INY'', ADDR_IMPLIED), (0xAA, ''TAX'', ADDR_IMPLIED),
      (0xA8, ''TAY'', ADDR_IMPLIED), (0x8A, ''TXA'', ADDR_IMPLIED),
      (0x98, ''TYA'', ADDR_IMPLIED), (0x9A, ''TXS'', ADDR_IMPLIED),
      (0xBA, ''TSX'', ADDR_IMPLIED), (0x38, ''SEC'', ADDR_IMPLIED),
      (0x18, ''CLC'', ADDR_IMPLIED), (0xB8, ''CLV'', ADDR_IMPLIED),
      (0x78, ''SEI'', ADDR_IMPLIED), (0x58, ''CLI'', ADDR_IMPLIED),
      (0xF8, ''SED'', ADDR_IMPLIED), (0x08, ''PHP'', MODE_UNKNOWN),
      (0x28, ''PLP'', MODE_UNKNOWN), (0x0A, ''ASL'', MODE_UNKNOWN),
      (0x06, ''ASL'', ADDR_ZERO_PAGE), (0x0E, ''ASL'', ADDR_ABSOLUTE),
      (0x46, ''LSR'', ADDR_ZERO_PAGE), (0x4E, ''LSR'', ADDR_ABSOLUTE),
      (0x2A, ''ROL'', ADDR_ACCUMULATOR), (0x26, ''ROL'', ADDR_ZERO_PAGE),
      (0x2E, ''ROL'', ADDR_ABSOLUTE), (0x66, ''ROR'', ADDR_ZERO_PAGE),
      (0x6E, ''ROR'', ADDR_ABSOLUTE), (0x09, ''ORA'', ADDR_IMMEDIATE),
      (0x49, ''EOR'', ADDR_IMMEDIATE), (0x29, ''AND'', ADDR_IMMEDIATE),
      (0xE6, ''INC'', ADDR_ZERO_PAGE), (0xEE, ''INC'', ADDR_ABSOLUTE),
      (0xFE, ''INC'', ADDR_ABSOLUTE_X), (0xC6, ''DEC'', ADDR_ZERO_PAGE),
      (0xCE, ''DEC'', ADDR_ABSOLUTE), (0x24, ''BIT'', ADDR_ZERO_PAGE),
      (0x2C, ''BIT'', ADDR_ABSOLUTE), (0x40, ''RTI'', ADDR_IMPLIED),
      (0xEA, ''NOP'', ADDR_IMPLIED)]"

definition conforming_opcodes :: "u8 list" where
  "conforming_opcodes = map fst conforming_rows"

lemma conforming_table: "list_all (\<lambda>(opcode, mn, md).
    oe_mnemonic (opcode_row opcode) = mn \<and> oe_addr_mode (opcode_row opcode) = md) conforming_rows"
  by code_simp

lemma conforming_dispatch: "machine_ok s \<Longrightarrow> list_all (\<lambda>(opcode, mn, md).
    pointer_in_page md (arch_of s) \<longrightarrow> (\<exists>sem. map_of instruction_set mn = Some sem \<and>
      arch_of (state_of (dispatch ord opcode) s) = sem md (arch_of s))) conforming_rows"
  by (simp add: conforming_rows_def semantics_of dispatch_case
      conform_02 conform_A0 conform_A2 conform_A9 conform_A5 conform_B5 conform_AD
      conform_BD conform_85 conform_95 conform_8D conform_9D conform_91 conform_81
      conform_86 conform_8E conform_84 conform_8C conform_D0 conform_F0 conform_10
      conform_30 conform_50 conform_70 conform_90 conform_B0 conform_48 conform_68
      conform_20 conform_60 conform_4C conform_6C conform_E8 conform_CA conform_C8
      conform_AA conform_A8 conform_8A conform_98 conform_9A conform_BA conform_38
      conform_18 conform_B8 conform_78 conform_58 conform_F8 conform_08 conform_28
      conform_0A conform_06 conform_0E conform_46 conform_4E conform_2A conform_26
      conform_2E conform_66 conform_6E conform_09 conform_49 conform_29 conform_E6
      conform_EE conform_FE conform_C6 conform_CE conform_24 conform_2C conform_40
      conform_EA)

end
