(* ===== verification/Frame.thy ===== *)
theory Frame
  imports Arch
begin

text \<open>
  What the instructions leave alone.  An observation \<open>F\<close> of the machine that no register update, no RAM
  update and no trace hook but the operand hook changes is kept by the bus, the stack and the shared
  operations (locale \<open>bus_frame\<close>); with the operand hook, by every primitive (\<open>machine_frame\<close>); one that
  also ignores the halt flag and the cycle counter is kept by every case of the switch
  (\<open>handler_frame\<close>).
  The interpretations are the parts of the machine the later theories need.
\<close>

lemmas accessor_defs = reg_A_def reg_X_def reg_Y_def reg_status_def stack_pointer_def program_counter_def
  set_A_register_def set_X_register_def set_Y_register_def set_SP_def set_status_register_def
  bit_OR_A_def bit_XOR_A_def bit_AND_A_def increment_PC_def set_PC_def set_status_flag_def

locale bus_frame =
  fixes F :: "machine \<Rightarrow> 'f"
  assumes keeps_regs [frame_simps]: "F (upd_regs f s) = F s"
    and keeps_ram [frame_simps]: "F (s\<lparr>m_emu := (m_emu s)\<lparr>e_RAM := (e_RAM (m_emu s))[i := v]\<rparr>\<rparr>) = F s"
    and keeps_address [frame_simps]: "F (upd_log (tail_log_set_address a) s) = F s"
    and keeps_indexed [frame_simps]: "F (upd_log (tail_log_set_indexed_address a) s) = F s"
    and keeps_written [frame_simps]: "F (upd_log (tail_log_set_written_value v) s) = F s"
    and keeps_read [frame_simps]: "F (upd_log (tail_log_set_read_value v) s) = F s"
begin

lemma keeps_accessors [frame_simps]:
  "F (state_of reg_A s) = F s" "F (state_of reg_X s) = F s"
  "F (state_of reg_Y s) = F s" "F (state_of reg_status s) = F s"
  "F (state_of stack_pointer s) = F s"
  "F (state_of program_counter s) = F s"
  "F (state_of (set_A_register v) s) = F s"
  "F (state_of (set_X_register v) s) = F s"
  "F (state_of (set_Y_register v) s) = F s"
  "F (state_of (set_SP v) s) = F s"
  "F (state_of (set_status_register v) s) = F s"
  "F (state_of (bit_OR_A v) s) = F s"
  "F (state_of (bit_XOR_A v) s) = F s"
  "F (state_of (bit_AND_A v) s) = F s"
  "F (state_of increment_PC s) = F s"
  "F (state_of (set_PC a) s) = F s"
  "F (state_of (set_status_flag f b) s) = F s"
  by (simp_all add: accessor_defs run_simps frame_simps)

lemma keeps_memory [frame_simps]:
  "F (state_of (emu_read a) s) = F s"
  "F (state_of (emu_write a v) s) = F s"
  by (simp_all add: emu_read_def emu_write_def run_simps frame_simps)

lemma keeps_stack [frame_simps]:
  "F (state_of (push_stack v) s) = F s"
  "F (state_of pull_stack s) = F s"
  by (simp_all add: push_stack_def pull_stack_def run_simps frame_simps)

lemma keeps_both_XOR_A [frame_simps]: "F (state_of (both_XOR_A ord u v) s) = F s"
  by (cases ord; simp add: both_XOR_A_def run_simps frame_simps)

lemma keeps_ops [frame_simps]:
  "F (state_of (ASL_op v a) s) = F s"
  "F (state_of (LSR_op v a) s) = F s"
  "F (state_of (ROL_op v a) s) = F s"
  "F (state_of (ROR_op v a) s) = F s"
  "F (state_of (ADC_op ord v) s) = F s"
  "F (state_of (SBC_op ord v) s) = F s"
  "F (state_of (INC_op v a) s) = F s"
  "F (state_of (DEC_op v a) s) = F s"
  "F (state_of (CMP_op v w) s) = F s"
  "F (state_of (BIT_op v) s) = F s"
  by (simp_all add: ASL_op_def LSR_op_def ROL_op_def ROR_op_def ADC_op_def SBC_op_def INC_op_def
      DEC_op_def CMP_op_def BIT_op_def Let_def split_beta run_simps frame_simps)

end

locale machine_frame = bus_frame +
  assumes keeps_operand [frame_simps]: "F (upd_log (tail_log_set_operand v) s) = F s"
begin

lemma keeps_fetch [frame_simps]:
  "F (state_of read_increment_PC s) = F s"
  "F (state_of read_PC s) = F s"
  by (simp_all add: read_increment_PC_def read_PC_def run_simps frame_simps)

lemma keeps_modes [frame_simps]:
  "F (state_of (get_ZP_indexed_address r) s) = F s"
  "F (state_of get_absolute_addr s) = F s"
  "F (state_of get_absolute_addr_X_indexed s) = F s"
  "F (state_of get_absolute_addr_Y_indexed s) = F s"
  "F (state_of get_indirect_address_Y_indexed s) = F s"
  "F (state_of get_indirect_address_X_indexed s) = F s"
  by (simp_all add: get_ZP_indexed_address_def get_absolute_addr_def get_absolute_addr_X_indexed_def
      get_absolute_addr_Y_indexed_def get_indirect_address_Y_indexed_def
      get_indirect_address_X_indexed_def Let_def run_simps frame_simps)

text \<open>The cases that neither count cycles nor halt.\<close>

lemma keeps_plain_handlers [frame_simps]:
  "list_all (\<lambda>(opcode, handler). opcode \<in> {0x02, 0xD0, 0xF0, 0x10, 0x30, 0x50, 0x70, 0x90, 0xB0} \<or>
     F (state_of handler s) = F s) (cpu_switch ord)"
  by (simp add: cpu_switch_def handler_defs Let_def run_simps frame_simps)

end

locale handler_frame = machine_frame +
  assumes keeps_halted [frame_simps]: "F (s\<lparr>CPU_halted := b\<rparr>) = F s"
    and keeps_cycles [frame_simps]: "F (add_cycles n s) = F s"
begin

lemma keeps_take_branch [frame_simps]: "F (state_of (take_branch v) s) = F s"
  by (simp add: take_branch_def Let_def run_simps frame_simps)

lemma keeps_handlers:
  "list_all (\<lambda>(opcode, handler). F (state_of handler s) = F s) (cpu_switch ord)"
  by (simp add: cpu_switch_def handler_defs Let_def run_simps frame_simps)

lemma keeps_dispatch [frame_simps]: "F (state_of (dispatch ord opcode) s) = F s"
proof (cases "map_of (cpu_switch ord) opcode")
  case None
  then show ?thesis by (simp add: dispatch_def run_simps)
next
  case (Some handler)
  then have "(opcode, handler) \<in> set (cpu_switch ord)" by (rule map_of_SomeD)
  then show ?thesis using keeps_handlers [of s ord] Some by (auto simp: dispatch_def list_all_iff)
qed

end

subsection \<open>The parts no instruction changes\<close>

definition fixed_parts :: "machine \<Rightarrow> bool \<times> string \<times> u8 list \<times> u8 list \<times> heap \<times> terminal \<times> bool" where
  "fixed_parts s = (machine_ok s, e_filepath (m_emu s), e_ROM (m_emu s), e_header (m_emu s), m_heap s,
     m_term s, logger_enabled s)"

interpretation fixed: handler_frame fixed_parts
  by unfold_locales (simp_all add: fixed_parts_def machine_ok_def upd_regs_def upd_log_def add_cycles_def)

text \<open>The structure of the trace log: the hooks write only into the entry at the tail.\<close>

definition log_links :: "machine \<Rightarrow> u32 \<times> u32 \<times> int \<times> u32 \<times> int \<times> (u32 \<Rightarrow> u32 \<times> u32)" where
  "log_links s =
     (log_head (m_log s), log_tail (m_log s), current_length (m_log s), cur_selected_entry (m_log s),
      cur_selected_index (m_log s), \<lambda>p. (te_next (log_mem (m_log s) p), te_prev (log_mem (m_log s) p)))"

lemma upd_entry_index [simp]: "cur_selected_index (upd_entry p f lg) = cur_selected_index lg"
  by (simp add: upd_entry_def)

interpretation links: handler_frame log_links
  by unfold_locales (simp_all add: log_links_def upd_regs_def upd_log_def add_cycles_def fun_eq_iff
      tail_log_set_operand_def tail_log_set_address_def tail_log_set_indexed_address_def
      tail_log_set_written_value_def tail_log_set_read_value_def)

text \<open>What the entries of the log recorded when they were added.\<close>

definition log_snapshots :: "machine \<Rightarrow> u32 \<Rightarrow> registers \<times> int" where
  "log_snapshots s p = (te_registers (log_mem (m_log s) p), te_total_CPU_cycles (log_mem (m_log s) p))"

interpretation snapshots: handler_frame log_snapshots
  by unfold_locales (simp_all add: log_snapshots_def upd_regs_def upd_log_def add_cycles_def fun_eq_iff
      tail_log_set_operand_def tail_log_set_address_def tail_log_set_indexed_address_def
      tail_log_set_written_value_def tail_log_set_read_value_def)

interpretation cycles: machine_frame cycles_of
  by unfold_locales (simp_all add: cycles_of_def upd_regs_def upd_log_def)

subsection \<open>The operand bytes of an instruction\<close>

text \<open>Whether the tail entry has its opcode, and the index of its next operand byte.\<close>

definition operands_seen :: "machine \<Rightarrow> bool \<times> int" where
  "operands_seen s =
     (te_opcode (log_mem (m_log s) (log_tail (m_log s))) \<noteq> 0, current_operand (m_log s))"

definition see_operand :: "u8 \<Rightarrow> bool \<times> int \<Rightarrow> bool \<times> int" where
  "see_operand v bn = (if fst bn then (True, snd bn + 1) else (v \<noteq> 0, snd bn))"

interpretation operands: bus_frame operands_seen
  by unfold_locales (simp_all add: operands_seen_def upd_regs_def upd_log_def
      tail_log_set_address_def tail_log_set_indexed_address_def
      tail_log_set_written_value_def tail_log_set_read_value_def)

lemma operands_seen_updates [frame_simps]:
  "operands_seen (s\<lparr>CPU_halted := b\<rparr>) = operands_seen s"
  "operands_seen (add_cycles n s) = operands_seen s"
  "operands_seen (upd_log (tail_log_set_operand v) s) = see_operand v (operands_seen s)"
  by (simp_all add: operands_seen_def see_operand_def add_cycles_def upd_log_def tail_log_set_operand_def)

lemma operands_seen_fetch [frame_simps]:
  "operands_seen (state_of read_increment_PC s) = see_operand (result_of read_increment_PC s) (operands_seen s)"
  "operands_seen (state_of read_PC s) = see_operand (result_of read_PC s) (operands_seen s)"
  by (simp_all add: read_increment_PC_def read_PC_def run_simps frame_simps)

lemma see_operand_simps [simp]:
  "fst bn \<Longrightarrow> fst (see_operand v bn)" "fst bn \<Longrightarrow> snd (see_operand v bn) = snd bn + 1"
  by (simp_all add: see_operand_def)

lemma operands_seen_modes [frame_simps]:
  "fst (operands_seen s) \<Longrightarrow> snd (operands_seen (state_of (get_ZP_indexed_address r) s)) = snd (operands_seen s) + 1"
  "fst (operands_seen s) \<Longrightarrow> snd (operands_seen (state_of get_absolute_addr s)) = snd (operands_seen s) + 2"
  "fst (operands_seen s) \<Longrightarrow> snd (operands_seen (state_of get_absolute_addr_X_indexed s)) = snd (operands_seen s) + 2"
  "fst (operands_seen s) \<Longrightarrow> snd (operands_seen (state_of get_indirect_address_Y_indexed s)) = snd (operands_seen s) + 1"
  "fst (operands_seen s) \<Longrightarrow> snd (operands_seen (state_of get_indirect_address_X_indexed s)) = snd (operands_seen s) + 1"
  by (simp_all add: get_ZP_indexed_address_def get_absolute_addr_def get_absolute_addr_X_indexed_def
      get_indirect_address_Y_indexed_def get_indirect_address_X_indexed_def Let_def run_simps frame_simps)

lemma operands_seen_branch [frame_simps]: "operands_seen (state_of (take_branch v) s) = operands_seen s"
  by (simp add: take_branch_def Let_def run_simps frame_simps)

lemma operands_seen_handlers:
  "fst (operands_seen s) \<Longrightarrow> list_all (\<lambda>(opcode, handler).
     snd (operands_seen (state_of handler s)) \<le> snd (operands_seen s) + 2) (cpu_switch ord)"
  by (simp add: cpu_switch_def handler_defs Let_def run_simps frame_simps)

lemma operands_seen_brk: "operands_seen (state_of op_BRK s) = operands_seen s"
  by (simp add: op_BRK_def run_simps frame_simps)

end
