(* ===== verification/CpuProps.thy ===== *)
theory CpuProps
  imports Conform Frame
begin

text \<open>
  The properties of the emulated CPU: the step refinement, the arithmetic instructions, the cases that
  deviate from the processor, and what every step preserves.
\<close>

subsection \<open>The fetch\<close>

text \<open>The state after the opcode has been fetched, at the head of the switch.\<close>

definition fetched :: "machine \<Rightarrow> machine" where
  "fetched s = state_of (do {
     reset_tracker; log_state; opcode \<leftarrow> read_increment_PC; set_cur_opcode opcode }) s"

definition opcode_at :: "arch \<Rightarrow> u8" where
  "opcode_at c = ar_mem c (ar_PC c)"

lemma reset_tracker_simps [machine_simps]:
  "arch_of (state_of reset_tracker s) = arch_of s" "machine_ok (state_of reset_tracker s) = machine_ok s"
  by (simp_all add: reset_tracker_def run_simps arch_of_def regs_def bus_byte_def cycles_of_def
      machine_ok_def fun_eq_iff)

lemma log_state_simps [machine_simps]:
  "arch_of (state_of log_state s) = arch_of s" "machine_ok (state_of log_state s) = machine_ok s"
  by (simp_all add: log_state_def run_simps arch_of_def regs_def bus_byte_def cycles_of_def
      machine_ok_def fun_eq_iff split_beta)

lemma set_cur_opcode_simps [machine_simps]:
  "arch_of (state_of (set_cur_opcode v) s) = arch_of s"
  "machine_ok (state_of (set_cur_opcode v) s) = machine_ok s"
  by (simp_all add: set_cur_opcode_def run_simps arch_of_def regs_def bus_byte_def cycles_of_def
      machine_ok_def fun_eq_iff)

lemma fetched_arch: "arch_of (fetched s) = (arch_of s)\<lparr>ar_PC := ar_PC (arch_of s) + 1\<rparr>"
  and fetched_ok: "machine_ok (fetched s) = machine_ok s"
  by (simp_all add: fetched_def run_simps machine_simps)

lemma emulate_CPU_state:
  "state_of (emulate_CPU ord) s =
     add_cycles (uint (oe_cycles (opcode_row (opcode_at (arch_of s)))))
       (state_of (dispatch ord (opcode_at (arch_of s))) (fetched s))"
  by (simp add: emulate_CPU_def fetched_def run_simps machine_simps opcode_at_def)

lemma emulate_CPU_arch:
  "arch_of (state_of (emulate_CPU ord) s) =
     (let c = arch_of (state_of (dispatch ord (opcode_at (arch_of s))) (fetched s))
      in c\<lparr>ar_cycles := ar_cycles c + uint (oe_cycles (opcode_row (opcode_at (arch_of s))))\<rparr>)"
  by (simp add: emulate_CPU_state Let_def)

lemma step_by_dispatch:
  assumes "map_of instruction_set (oe_mnemonic (opcode_row (opcode_at (arch_of s)))) = Some sem"
    and "arch_of (state_of (dispatch ord (opcode_at (arch_of s))) (fetched s)) =
      sem (oe_addr_mode (opcode_row (opcode_at (arch_of s)))) (arch_of (fetched s))"
  shows "step (arch_of s) = Some (arch_of (state_of (emulate_CPU ord) s))"
  using assms by (simp add: step_def emulate_CPU_arch Let_def fetched_arch opcode_at_def)

subsection \<open>The step refinement\<close>

definition operand_mode :: "arch \<Rightarrow> addressing_mode" where
  "operand_mode c = oe_addr_mode (opcode_row (opcode_at c))"

text \<open>
  Claim C1.  For 71 of the 96 implemented opcodes, \<open>emulate_CPU\<close> is the processor: on every machine
  with its RAM and ROM buffers in place, the registers, flags, stack, memory, program counter and
  cycle counter it leaves are those of the reference step, which decodes by the mnemonic, mode and
  cycles of the opcode table.  An indirect operand has to have its pointer inside one page.
\<close>

theorem cpu_step_conforms:
  assumes "machine_ok s" and "opcode_at (arch_of s) \<in> set conforming_opcodes"
    and "pointer_in_page (operand_mode (arch_of s)) (arch_of (fetched s))"
  shows "step (arch_of s) = Some (arch_of (state_of (emulate_CPU ord) s))"
proof -
  let ?op = "opcode_at (arch_of s)"
  obtain mn md where row: "(?op, mn, md) \<in> set conforming_rows"
    using assms(2) by (auto simp: conforming_opcodes_def)
  have tab: "oe_mnemonic (opcode_row ?op) = mn" "oe_addr_mode (opcode_row ?op) = md"
    using conforming_table row by (auto simp: list_all_iff)
  have "pointer_in_page md (arch_of (fetched s))"
    using assms(3) tab by (simp add: operand_mode_def)
  then obtain sem where "map_of instruction_set mn = Some sem"
    "arch_of (state_of (dispatch ord ?op) (fetched s)) = sem md (arch_of (fetched s))"
    using conforming_dispatch [of "fetched s" ord] row assms(1) by (auto simp: list_all_iff fetched_ok)
  then show ?thesis by (intro step_by_dispatch) (simp_all add: tab)
qed

text \<open>A machine with a program at 0x8000: the concrete machine of the witnesses.\<close>

definition rom_image :: "u8 list \<Rightarrow> u8 list" where
  "rom_image prog = take 0x8000 (prog @ replicate 0x8000 0)"

lemma rom_image_nth: "i < length prog \<Longrightarrow> i < 0x8000 \<Longrightarrow> rom_image prog ! i = prog ! i"
  by (simp add: rom_image_def nth_append)

lemma length_rom_image [simp]: "length (rom_image prog) = 0x8000"
  by (simp add: rom_image_def)

definition machine_with :: "u8 list \<Rightarrow> machine" where
  "machine_with prog =
     \<lparr>m_emu = demo_emulator\<lparr>e_ROM := rom_image prog\<rparr>,
      CPU_halted = False, logger_enabled = True,
      debug_tracker = \<lparr>reg_read_bitflag = 0, reg_write_bitflag = 0, reads_mem = False, writes_mem = False\<rparr>,
      m_log = empty_log, m_heap = demo_heap,
      m_term = blank_terminal\<rparr>"

lemma machine_with_ok [simp]: "machine_ok (machine_with prog)"
  by (simp add: machine_ok_def machine_with_def demo_emulator_def)

lemma machine_with_registers [simp]:
  "ar_A (arch_of (machine_with prog)) = 0" "ar_X (arch_of (machine_with prog)) = 0"
  "ar_Y (arch_of (machine_with prog)) = 0" "ar_P (arch_of (machine_with prog)) = 0"
  "ar_S (arch_of (machine_with prog)) = 0" "ar_PC (arch_of (machine_with prog)) = 0x8000"
  "ar_cycles (arch_of (machine_with prog)) = 7" "ar_halted (arch_of (machine_with prog)) = False"
  by (simp_all add: arch_of_def machine_with_def regs_def demo_emulator_def zero_registers_def
      cycles_of_def)

lemma machine_with_rom:
  "unat i < length prog \<Longrightarrow> unat i < 0x8000 \<Longrightarrow>
     ar_mem (arch_of (machine_with prog)) (0x8000 + i) = prog ! unat i"
proof -
  assume i: "unat i < length prog" "unat i < 0x8000"
  then have "i < 0x8000" by (simp add: word_less_nat_alt)
  then have "uint i < 0x8000" by (simp add: word_less_def)
  then have "uint (0x8000 + i) = 0x8000 + uint i"
    using uint_add_no_wrap [of "0x8000" i] by simp
  then have "0x8000 \<le> 0x8000 + i" by (simp add: word_le_def)
  with i show ?thesis
    by (simp add: arch_of_def bus_byte_def machine_with_def rom_image_nth)
qed

lemma machine_with_opcode: "prog \<noteq> [] \<Longrightarrow> opcode_at (arch_of (machine_with prog)) = hd prog"
  using machine_with_rom [of 0 prog] by (cases prog) (simp_all add: opcode_at_def)

theorem cpu_step_conforms_witness:
  "step (arch_of (machine_with [0xA9, 0x42])) =
     Some (arch_of (state_of (emulate_CPU Left_first) (machine_with [0xA9, 0x42])))"
proof -
  let ?s = "machine_with [0xA9, 0x42]"
  have op: "opcode_at (arch_of ?s) = 0xA9" by (simp add: machine_with_opcode)
  have md: "oe_addr_mode (opcode_row 0xA9) = ADDR_IMMEDIATE" by code_simp
  show ?thesis
    by (rule cpu_step_conforms)
      (simp_all add: op md operand_mode_def pointer_in_page_def conforming_opcodes_def conforming_rows_def)
qed

subsection \<open>Arithmetic\<close>

text \<open>The sign that the two \<open>bit_XOR_A\<close> calls of \<open>ADC_op\<close> and \<open>SBC_op\<close> leave in the overflow flag.\<close>

definition neg :: "u8 \<Rightarrow> bool" where
  "neg v \<longleftrightarrow> sint v < 0"

definition adc_overflow :: "eval_order \<Rightarrow> u8 \<Rightarrow> u8 \<Rightarrow> u8 \<Rightarrow> bool" where
  "adc_overflow ord a v r = (case ord of Left_first \<Rightarrow> neg a = neg v \<and> neg r
                                      | Right_first \<Rightarrow> neg a \<noteq> neg r \<and> neg v)"

definition sbc_overflow :: "eval_order \<Rightarrow> u8 \<Rightarrow> u8 \<Rightarrow> u8 \<Rightarrow> bool" where
  "sbc_overflow ord a v r = (case ord of Left_first \<Rightarrow> neg a \<noteq> neg v \<and> \<not> neg r
                                      | Right_first \<Rightarrow> neg a \<noteq> neg r \<and> \<not> neg v)"

text \<open>A sum or difference with the carry, its result byte and the flags, the overflow flag given.\<close>

definition arith_state :: "bool \<Rightarrow> u8 \<Rightarrow> bool \<Rightarrow> arch \<Rightarrow> arch" where
  "arith_state carry r overflow c =
     set_nz r ((set_flag FLAG_CARRY carry (set_flag FLAG_OVERFLOW overflow c))\<lparr>ar_A := r\<rparr>)"

lemma neg_bit: "neg v = bit v 7"
  by (simp add: neg_def byte_sign)

lemma neg_xor: "neg (a XOR b) = (neg a \<noteq> neg b)"
  by (simp add: neg_bit bit_xor_iff)

lemma sign_test: "(v AND 0x80 \<noteq> 0) = neg v"
  by (simp add: neg_def byte_sign)

lemma neg_and: "neg (a AND b) = (neg a \<and> neg b)"
  by (simp add: neg_bit bit_and_iff)

lemma neg_not: "neg (NOT a) = (\<not> neg a)"
  by (simp add: neg_bit bit_not_iff)

definition adc_sum :: "arch \<Rightarrow> u8 \<Rightarrow> int" where
  "adc_sum c v = uint (ar_A c) + uint v + carry_of c"

definition sbc_sum :: "arch \<Rightarrow> u8 \<Rightarrow> int" where
  "sbc_sum c v = uint (ar_A c) - uint v - (1 - carry_of c)"

lemma both_XOR_A_simps [machine_simps]:
  "arch_of (state_of (both_XOR_A ord u v) s) = (arch_of s)\<lparr>ar_A := ar_A (arch_of s) XOR u XOR v\<rparr>"
  "fst (result_of (both_XOR_A ord u v) s) =
     (case ord of Left_first \<Rightarrow> ar_A (arch_of s) XOR u | Right_first \<Rightarrow> ar_A (arch_of s) XOR v XOR u)"
  "snd (result_of (both_XOR_A ord u v) s) =
     (case ord of Left_first \<Rightarrow> ar_A (arch_of s) XOR u XOR v | Right_first \<Rightarrow> ar_A (arch_of s) XOR v)"
  "machine_ok (state_of (both_XOR_A ord u v) s) = machine_ok s"
  by (cases ord; simp add: both_XOR_A_def run_simps machine_simps ac_simps)+

lemma sign_test_and:
  "(x AND y AND 0x80 = 0) = (\<not> (neg x \<and> neg y))" "(x AND (y AND 0x80) = 0) = (\<not> (neg x \<and> neg y))"
  using sign_test [of "x AND y"] by (auto simp: neg_and and.assoc)

lemma adc_sum_code:
  "(if ar_P c AND FLAG_CARRY \<noteq> 0 then uint (ar_A c) + uint v + 1 else uint (ar_A c) + uint v) = adc_sum c v"
  by (simp add: adc_sum_def carry_of_def flag_set_def)

lemma sbc_sum_code:
  "(if NOT (ar_P c) AND FLAG_CARRY \<noteq> 0 then uint (ar_A c) - uint v - 1 else uint (ar_A c) - uint v) = sbc_sum c v"
  by (simp add: sbc_sum_def carry_of_def flag_set_def shift_bytes)

lemma overflow_bools:
  "(p = q \<and> p = (q = r)) = (p = q \<and> r)"
  "(p = (r = (\<not> q)) \<and> p = (\<not> r)) = (p = (\<not> r) \<and> q)"
  "(p = (\<not> q) \<and> p = (q = r)) = (p = (\<not> q) \<and> \<not> r)"
  "(p = (r = q) \<and> p = (\<not> r)) = (p = (\<not> r) \<and> \<not> q)"
  by blast+

lemma ADC_op_arch:
  "arch_of (state_of (ADC_op ord v) s) =
     (let c = arch_of s; sum = adc_sum c v; r = word_of_int sum
      in arith_state (sum > 255) r (adc_overflow ord (ar_A c) v r) c)"
  unfolding ADC_op_def Let_def run_simps machine_simps split_beta adc_sum_code
  by (cases ord; simp add: machine_simps arith_state_def sign_test_and neg_not neg_xor adc_overflow_def
      byte_sign overflow_bools)

lemma SBC_op_arch:
  "arch_of (state_of (SBC_op ord v) s) =
     (let c = arch_of s; sum = sbc_sum c v; r = word_of_int sum
      in arith_state (sum \<ge> 0) r (sbc_overflow ord (ar_A c) v r) c)"
  unfolding SBC_op_def Let_def run_simps machine_simps split_beta sbc_sum_code
  by (cases ord; simp add: machine_simps arith_state_def sign_test_and neg_not neg_xor sbc_overflow_def
      byte_sign overflow_bools)


lemma sint_byte_congruent: "\<exists>k. sint (word_of_int n :: u8) = n + 256 * k"
proof -
  let ?w = "word_of_int n :: u8"
  have u: "uint ?w = n mod 256" by (simp add: uint_word_of_int)
  have n: "n mod 256 = n - 256 * (n div 256)" by (simp add: minus_mult_div_eq_mod)
  show ?thesis
  proof (cases "sint ?w < 0")
    case True
    then have "sint ?w = n + 256 * (- (n div 256) - 1)"
      using byte_uint_sint [of ?w] u n by simp
    then show ?thesis by blast
  next
    case False
    then have "sint ?w = n + 256 * (- (n div 256))"
      using byte_uint_sint [of ?w] u n by simp
    then show ?thesis by blast
  qed
qed

lemma overflow_arith:
  fixes a v c r m :: int
  assumes "- 128 \<le> a" "a < 128" "- 128 \<le> v" "v < 128" "- 128 \<le> r" "r < 128" "c = 0 \<or> c = 1"
    and r: "r = a + v + c + 256 * m"
  shows "(a + v + c < -128 \<or> 127 < a + v + c) \<longleftrightarrow> (a < 0) = (v < 0) \<and> (r < 0) \<noteq> (a < 0)"
proof -
  have c: "0 \<le> c" "c \<le> 1" using assms(7) by auto
  have "m < 2" "- 2 < m" using assms c by linarith+
  then consider "m = -1" | "m = 0" | "m = 1" by linarith
  then show ?thesis
    using assms(1-6) c r by cases (cases "a < 0"; cases "v < 0"; auto)+
qed

lemma signed_overflow:
  assumes "n = uint a + uint v + cin" and "cin = 0 \<or> cin = 1"
  shows "(sint a + sint v + cin < -128 \<or> 127 < sint a + sint v + cin) \<longleftrightarrow>
    neg a = neg v \<and> neg (word_of_int n) \<noteq> neg a"
proof -
  obtain k where k: "sint (word_of_int n :: u8) = n + 256 * k" using sint_byte_congruent by blast
  define m where "m = k + (if sint a < 0 then 1 else 0) + (if sint v < 0 then 1 else 0)"
  have "sint (word_of_int n :: u8) = sint a + sint v + cin + 256 * m"
    using k byte_uint_sint [of a] byte_uint_sint [of v] by (simp add: assms(1) m_def)
  from overflow_arith [OF byte_sint_bounds byte_sint_bounds byte_sint_bounds assms(2) this]
  show ?thesis unfolding neg_def .
qed

lemma carry_of_cases: "carry_of c = 0 \<or> carry_of c = 1"
  by (simp add: carry_of_def)

lemma add_with_carry_arith:
  "add_with_carry v c =
     (let sum = adc_sum c v; r = word_of_int sum
      in arith_state (sum > 255) r (neg (ar_A c) = neg v \<and> neg r \<noteq> neg (ar_A c)) c)"
  unfolding add_with_carry_def Let_def arith_state_def adc_sum_def
  by (subst signed_overflow [OF refl carry_of_cases]) (rule refl)

lemma subtract_with_borrow_arith:
  "add_with_carry (NOT v) c =
     (let sum = sbc_sum c v; r = word_of_int sum
      in arith_state (sum \<ge> 0) r (neg (ar_A c) \<noteq> neg v \<and> neg r \<noteq> neg (ar_A c)) c)"
proof -
  have "uint (NOT v) = 255 - uint v"
  proof -
    have "NOT v = 255 - v" by (simp add: not_eq_complement)
    moreover have "uint (255 - v) = uint (255 :: u8) - uint v"
      using uint_bounded [of v] by (intro uint_sub_no_wrap) simp
    ultimately show ?thesis by simp
  qed
  then have sum: "adc_sum c (NOT v) = sbc_sum c v + 256" by (simp add: adc_sum_def sbc_sum_def)
  have "(word_of_int (sbc_sum c v + 256) :: u8) = word_of_int (sbc_sum c v)" by simp
  moreover have "255 < sbc_sum c v + 256 \<longleftrightarrow> 0 \<le> sbc_sum c v" by auto
  ultimately show ?thesis
    unfolding add_with_carry_arith Let_def sum by (simp only: neg_not) simp
qed

text \<open>The state with the overflow flag inverted.\<close>

definition flip_overflow :: "arch \<Rightarrow> arch" where
  "flip_overflow c = c\<lparr>ar_P := ar_P c XOR FLAG_OVERFLOW\<rparr>"

lemma bit_flag_update:
  "n < 8 \<Longrightarrow> k < 8 \<Longrightarrow> bit (flag_update (2 ^ k) b f) n = (if n = k then b else bit f n)"
  by (auto simp: flag_update_def bit_or_iff bit_and_iff bit_not_iff bit_exp_iff)

lemma bit_flags:
  assumes "n < 8"
  shows "bit (flag_update FLAG_CARRY b f) n = (if n = 0 then b else bit f n)"
    and "bit (flag_update FLAG_ZERO b f) n = (if n = 1 then b else bit f n)"
    and "bit (flag_update FLAG_OVERFLOW b f) n = (if n = 6 then b else bit f n)"
    and "bit (flag_update FLAG_NEGATIVE b f) n = (if n = 7 then b else bit f n)"
    and "bit (FLAG_OVERFLOW :: u8) n = (n = 6)"
proof -
  have "bit (2 ^ 6 :: u8) n = (n = 6)" using assms by (auto simp only: bit_exp_iff) simp_all
  then show "bit (FLAG_OVERFLOW :: u8) n = (n = 6)" by simp
qed (use bit_flag_update [OF assms, of 0 b f] bit_flag_update [OF assms, of 1 b f]
      bit_flag_update [OF assms, of 6 b f] bit_flag_update [OF assms, of 7 b f] in simp_all)

lemma overflow_flip:
  "flag_update FLAG_NEGATIVE p (flag_update FLAG_ZERO q (flag_update FLAG_CARRY r
     (flag_update FLAG_OVERFLOW (\<not> v) f))) =
   flag_update FLAG_NEGATIVE p (flag_update FLAG_ZERO q (flag_update FLAG_CARRY r
     (flag_update FLAG_OVERFLOW v f))) XOR FLAG_OVERFLOW"
  (is "?a = ?b")
proof (rule bit_word_eqI)
  fix n assume "n < LENGTH(8)"
  then have n: "n < 8" by simp
  show "bit ?a n = bit ?b n"
    unfolding bit_xor_iff bit_flags [OF n] by auto
qed

lemma arith_state_flip: "arith_state carry r (\<not> v) c = flip_overflow (arith_state carry r v c)"
  by (simp add: flip_overflow_def arith_state_def set_nz_def set_flag_def overflow_flip)

text \<open>
  Claim C13.  Addition with carry: \<open>ADC_op\<close> leaves what the processor leaves, in either evaluation order
  of its two \<open>bit_XOR_A\<close> calls, except that the overflow flag is inverted in one case, because the calls
  change the accumulator while it is being compared: when both operands are negative if the left call
  comes first, and when a positive accumulator gets a negative result if the right one does.
\<close>

theorem adc_refines:
  "arch_of (state_of (ADC_op ord v) s) =
     (let c = arch_of s; expected = add_with_carry v c;
          wrong = (case ord of Left_first \<Rightarrow> neg (ar_A c) \<and> neg v
                             | Right_first \<Rightarrow> \<not> neg (ar_A c) \<and> neg (ar_A expected))
      in if wrong then flip_overflow expected else expected)"
  unfolding ADC_op_arch add_with_carry_arith Let_def adc_overflow_def arith_state_flip [symmetric]
  by (cases ord) (auto simp: arith_state_def intro: arg_cong)

text \<open>
  Claim C14.  Subtraction with borrow: \<open>SBC_op\<close> leaves what the processor leaves, which adds the
  complement of the operand, except that the overflow flag is inverted when a negative operand is
  subtracted from a positive accumulator (left call first), or when a positive accumulator gets a
  negative result (right call first).
\<close>

theorem sbc_refines:
  "arch_of (state_of (SBC_op ord v) s) =
     (let c = arch_of s; expected = add_with_carry (NOT v) c;
          wrong = (case ord of Left_first \<Rightarrow> \<not> neg (ar_A c) \<and> neg v
                             | Right_first \<Rightarrow> \<not> neg (ar_A c) \<and> neg (ar_A expected))
      in if wrong then flip_overflow expected else expected)"
  unfolding SBC_op_arch subtract_with_borrow_arith Let_def sbc_overflow_def arith_state_flip [symmetric]
  by (cases ord) (auto simp: arith_state_def intro: arg_cong)

subsection \<open>Cases that deviate from the processor\<close>

lemma flag_update_twice: "flag_update f b (flag_update f b' x) = flag_update f b x"
  by (rule bit_word_eqI) (auto simp: flag_update_def bit_or_iff bit_and_iff bit_not_iff)

lemma set_flag_twice: "set_flag f b (set_flag f b' c) = set_flag f b c"
  by (simp add: set_flag_def flag_update_twice)

lemma difference_sign: "v \<le> r \<Longrightarrow> (uint r - uint v > 127) = neg (r - (v :: u8))"
proof -
  assume "v \<le> r"
  then have "uint (r - v) = uint r - uint v" by (intro uint_sub_no_wrap) (simp add: word_le_def)
  moreover have "uint (r - v) > 127 \<longleftrightarrow> neg (r - v)"
    using byte_uint_sint [of "r - v"] byte_sint_bounds [of "r - v"] by (auto simp: neg_def split: if_splits)
  ultimately show ?thesis by simp
qed

text \<open>
  The comparisons: \<open>CMP_op\<close> sets carry and zero as the processor does, and the negative
  flag too when the register is not below the operand.  When it is below, the flag is cleared whatever
  the sign of the difference, because the code tests \<open>reg_value - input > 127\<close> on C integers.
\<close>

theorem cmp_refines:
  "arch_of (state_of (CMP_op v r) s) =
     (let expected = compare r v (arch_of s)
      in if v \<le> r then expected else set_flag FLAG_NEGATIVE False expected)"
proof (cases "v \<le> r")
  case True
  then show ?thesis
    using difference_sign [OF True]
    by (simp add: CMP_op_def run_simps machine_simps compare_def set_nz_def neg_def)
next
  case False
  then have "\<not> uint r - uint v > 127" by (simp add: word_le_def)
  with False show ?thesis
    by (simp add: CMP_op_def run_simps machine_simps compare_def set_nz_def set_flag_twice)
qed

text \<open>
  The zero-page and absolute forms of ORA, EOR and AND: accumulator, flags and program
  counter are the processor's, but the result is also written back to the operand's address, which
  the processor only reads.
\<close>

theorem logic_writes_back:
  assumes "machine_ok s"
    and "(handler, sem, md) \<in> set [(op_ORA_zp, sem_ORA, ADDR_ZERO_PAGE), (op_ORA_abs, sem_ORA, ADDR_ABSOLUTE),
      (op_EOR_zp, sem_EOR, ADDR_ZERO_PAGE), (op_EOR_abs, sem_EOR, ADDR_ABSOLUTE),
      (op_AND_zp, sem_AND, ADDR_ZERO_PAGE), (op_AND_abs, sem_AND, ADDR_ABSOLUTE)]"
  shows "arch_of (state_of handler s) =
    (let expected = sem md (arch_of s) in store (ea md (arch_of s)) (ar_A expected) expected)"
  using assms(2)
  by (auto simp: op_ORA_zp_def op_ORA_abs_def op_EOR_zp_def op_EOR_abs_def op_AND_zp_def op_AND_abs_def
      sem_ORA_def sem_EOR_def sem_AND_def run_simps machine_simps spec_simps assms(1))

theorem logic_writes_back_witness:
  "arch_of (state_of op_ORA_zp (machine_with [0x10])) =
     (let expected = sem_ORA ADDR_ZERO_PAGE (arch_of (machine_with [0x10]))
      in store (ea ADDR_ZERO_PAGE (arch_of (machine_with [0x10]))) (ar_A expected) expected)"
  by (rule logic_writes_back) simp_all

lemma carry_kept: "set_flag FLAG_CARRY (odd (ar_P c)) c = c"
proof -
  have "flag_update FLAG_CARRY (odd f) f = f" for f
    by (rule bit_word_eqI)
      (auto simp: flag_update_def bit_or_iff bit_and_iff bit_not_iff bit_1_iff bit_0 intro!: gr0I)
  then show ?thesis by (simp add: set_flag_def)
qed

text \<open>
  Three cases do something else than their instruction.  DEY decrements X and leaves Y
  alone: it is DEX.  LSR A never clears the carry: an even accumulator keeps the old one.  BRK pushes
  the status without the two break bits and leaves the interrupt-disable flag as it was.
\<close>

theorem deviating_cases:
  assumes "machine_ok s"
  shows "arch_of (state_of op_DEY s) = sem_DEX ADDR_IMPLIED (arch_of s) \<and>
    arch_of (state_of op_LSR_A s) =
      (let c = arch_of s
       in shift ADDR_ACCUMULATOR (ar_A c div 2) (odd (ar_A c) \<or> flag_set c FLAG_CARRY) c) \<and>
    arch_of (state_of op_BRK s) =
      (let c = arch_of s; c' = push (ar_P c) (push_word (ar_PC c + 1) c)
       in c'\<lparr>ar_PC := word_of_bytes (ar_mem c' 0xFFFF) (ar_mem c' 0xFFFE)\<rparr>)"
proof (intro conjI)
  show "arch_of (state_of op_DEY s) = sem_DEX ADDR_IMPLIED (arch_of s)"
    by (simp add: op_DEY_def sem_DEX_def run_simps machine_simps spec_simps)
  show "arch_of (state_of op_LSR_A s) =
      (let c = arch_of s
       in shift ADDR_ACCUMULATOR (ar_A c div 2) (odd (ar_A c) \<or> flag_set c FLAG_CARRY) c)"
    by (cases "odd (ar_A (arch_of s))")
      (simp_all add: op_LSR_A_def run_simps machine_simps spec_simps carry_kept)
  show "arch_of (state_of op_BRK s) =
      (let c = arch_of s; c' = push (ar_P c) (push_word (ar_PC c + 1) c)
       in c'\<lparr>ar_PC := word_of_bytes (ar_mem c' 0xFFFF) (ar_mem c' 0xFFFE)\<rparr>)"
    by (simp add: op_BRK_def run_simps machine_simps spec_simps assms)
qed

theorem deviating_cases_witness:
  "arch_of (state_of op_DEY (machine_with [])) = sem_DEX ADDR_IMPLIED (arch_of (machine_with []))"
  using deviating_cases [of "machine_with []"] by simp

text \<open>
  An opcode without a case in the switch is skipped as if it had no operands: only the
  program counter moves, by one byte whatever length the opcode table gives, and the table's cycles
  are counted.
\<close>

theorem unimplemented_opcode:
  assumes "opcode_at (arch_of s) \<notin> set (map fst (cpu_switch ord))"
  shows "arch_of (state_of (emulate_CPU ord) s) =
    (let c = arch_of s
     in c\<lparr>ar_PC := ar_PC c + 1, ar_cycles := ar_cycles c + uint (oe_cycles (opcode_row (opcode_at c)))\<rparr>)"
proof -
  have "map_of (cpu_switch ord) (opcode_at (arch_of s)) = None"
    using assms by (simp add: map_of_eq_None_iff)
  then show ?thesis
    by (simp add: emulate_CPU_arch dispatch_def run_simps fetched_arch Let_def)
qed

theorem unimplemented_opcode_witness:
  "ar_PC (arch_of (state_of (emulate_CPU Left_first) (machine_with [0xB1, 0x10]))) = 0x8001 \<and>
   oe_num_bytes (opcode_row 0xB1) = 2"
proof -
  have "oe_num_bytes (opcode_row 0xB1) = 2" by code_simp
  moreover have "opcode_at (arch_of (machine_with [0xB1, 0x10])) \<notin> set (map fst (cpu_switch Left_first))"
    by (simp add: machine_with_opcode cpu_switch_def)
  from unimplemented_opcode [OF this] have
    "ar_PC (arch_of (state_of (emulate_CPU Left_first) (machine_with [0xB1, 0x10]))) = 0x8001"
    by (simp add: Let_def)
  ultimately show ?thesis by simp
qed

subsection \<open>The stack\<close>

definition stack_address :: "u8 \<Rightarrow> u16" where
  "stack_address i = 0x100 + ucast i"

lemma uint_stack_address: "uint (stack_address i) = 0x100 + uint i"
  unfolding stack_address_def
  using uint_bounded [of i] by (subst uint_add_no_wrap) (simp_all add: unsigned_ucast_eq take_bit_int_eq_self)

lemma stack_address_inj [simp]: "stack_address i = stack_address j \<longleftrightarrow> i = j"
  by (simp add: word_uint_eq_iff uint_stack_address)

lemma stack_address_ram: "stack_address i < 0x800"
  using uint_bounded [of i] by (simp add: word_less_def uint_stack_address)

lemma push_mem: "ar_mem (push v c) = (ar_mem c)(stack_address (ar_S c) := v)"
  using stack_address_ram [of "ar_S c"] by (simp add: push_def store_def stack_address_def)

lemma bytes_of_word: "word_of_bytes (ucast (drop_bit 8 w)) (ucast w) = w"
  by (rule bit_word_eqI)
    (auto simp: word_of_bytes_def bit_or_iff bit_push_bit_iff bit_ucast_iff bit_drop_bit_eq not_le)

text \<open>
  What \<open>push_stack\<close> pushes, \<open>pull_stack\<close> returns, at every stack pointer including the wrap
  of the 8-bit pointer, and the stack pointer is back where it was.
\<close>

theorem push_pull:
  assumes "machine_ok s"
  shows "result_of pull_stack (state_of (push_stack v) s) = v \<and>
    ar_S (arch_of (state_of pull_stack (state_of (push_stack v) s))) = ar_S (arch_of s)"
  using assms by (simp add: machine_simps push_mem stack_address_def [symmetric])

theorem push_pull_witness:
  "result_of pull_stack (state_of (push_stack 0x5A) (machine_with [])) = 0x5A"
  using push_pull [of "machine_with []" "0x5A"] by simp

text \<open>
  Claim C19.  A subroutine returns to the instruction after its call: if the callee \<open>s'\<close> leaves the stack
  pointer and the bytes of the stack page as JSR left them, RTS sets the program counter behind the
  two operand bytes of JSR, and the stack pointer to its value before the call.
\<close>

theorem jsr_rts_return:
  assumes "machine_ok s" and "ar_S (arch_of s') = ar_S (arch_of (state_of op_JSR s))"
    and "\<forall>i. ar_mem (arch_of s') (stack_address i) = ar_mem (arch_of (state_of op_JSR s)) (stack_address i)"
  shows "ar_PC (arch_of (state_of op_RTS s')) = ar_PC (arch_of s) + 2 \<and>
    ar_S (arch_of (state_of op_RTS s')) = ar_S (arch_of s)"
  using assms(2,3)
  by (simp add: op_JSR_def op_RTS_def run_simps machine_simps assms(1) push_mem
      stack_address_def [symmetric] bytes_of_word)

theorem jsr_rts_return_witness:
  "ar_PC (arch_of (state_of op_RTS (state_of op_JSR (machine_with [0x00, 0x90])))) = 0x8002"
  using jsr_rts_return [of "machine_with [0x00, 0x90]" "state_of op_JSR (machine_with [0x00, 0x90])"]
  by simp

subsection \<open>What a step preserves\<close>

lemma fixed_fetch: "machine_ok (fetched s) = machine_ok s" "e_ROM (m_emu (fetched s)) = e_ROM (m_emu s)"
  "m_term (fetched s) = m_term s" "cycles_of (fetched s) = cycles_of s"
proof -
  have f: "(machine_ok (state_of log_state s) = machine_ok s \<and> e_ROM (m_emu (state_of log_state s)) = e_ROM (m_emu s) \<and>
      m_term (state_of log_state s) = m_term s)" for s
    by (simp add: log_state_def run_simps split_beta machine_ok_def)
  have g: "(machine_ok (state_of reset_tracker s) = machine_ok s \<and> e_ROM (m_emu (state_of reset_tracker s)) = e_ROM (m_emu s) \<and>
      m_term (state_of reset_tracker s) = m_term s)" for s
    by (simp add: reset_tracker_def run_simps machine_ok_def)
  have k: "(machine_ok (state_of (set_cur_opcode v) s) = machine_ok s \<and> e_ROM (m_emu (state_of (set_cur_opcode v) s)) = e_ROM (m_emu s) \<and>
      m_term (state_of (set_cur_opcode v) s) = m_term s)" for s v
    by (simp add: set_cur_opcode_def run_simps machine_ok_def)
  have r: "fixed_parts (state_of read_increment_PC s) = fixed_parts s" for s by (rule fixed.keeps_fetch)
  show "machine_ok (fetched s) = machine_ok s" "e_ROM (m_emu (fetched s)) = e_ROM (m_emu s)"
    "m_term (fetched s) = m_term s"
    using r [of "state_of log_state (state_of reset_tracker s)"] f g k
    by (simp_all add: fetched_def run_simps fixed_parts_def)
  show "cycles_of (fetched s) = cycles_of s"
    using fetched_arch [of s] by (simp add: arch_of_sel)
qed

lemma dispatch_cycles:
  "cycles_of (state_of (dispatch ord opcode) s) = cycles_of s \<or>
   (opcode \<in> {0xD0, 0xF0, 0x10, 0x30, 0x50, 0x70, 0x90, 0xB0} \<and>
    cycles_of (state_of (dispatch ord opcode) s) = cycles_of s + 1)"
proof -
  have br: "cycles_of (state_of (take_branch v) s) = cycles_of s + 1" for v s
    by (simp add: take_branch_def Let_def run_simps frame_simps)
  have special: "cycles_of (state_of h s) = cycles_of s \<or> cycles_of (state_of h s) = cycles_of s + 1"
    if "h \<in> {op_BNE, op_BEQ, op_BPL, op_BMI, op_BVC, op_BVS, op_BCC, op_BCS}" for h
    using that by (auto simp: op_BNE_def op_BEQ_def op_BPL_def op_BMI_def op_BVC_def op_BVS_def
        op_BCC_def op_BCS_def run_simps frame_simps br split: if_splits)
  have halt: "cycles_of (state_of op_HLT s) = cycles_of s"
    by (simp add: op_HLT_def run_simps cycles_of_def)
  show ?thesis
  proof (cases "opcode \<in> {0xD0, 0xF0, 0x10, 0x30, 0x50, 0x70, 0x90, 0xB0}")
    case True
    then have "dispatch ord opcode \<in> {op_BNE, op_BEQ, op_BPL, op_BMI, op_BVC, op_BVS, op_BCC, op_BCS}"
      by (elim insertE emptyE) (simp_all add: dispatch_case)
    from special [OF this] True show ?thesis by blast
  next
    case False
    have "cycles_of (state_of (dispatch ord opcode) s) = cycles_of s"
    proof (cases "map_of (cpu_switch ord) opcode")
      case None
      then show ?thesis by (simp add: dispatch_def run_simps)
    next
      case (Some h)
      then have "(opcode, h) \<in> set (cpu_switch ord)" by (rule map_of_SomeD)
      then have "opcode = 0x02 \<or> cycles_of (state_of h s) = cycles_of s"
        using cycles.keeps_plain_handlers [of s ord] False unfolding list_all_iff by blast
      then show ?thesis
      proof
        assume "opcode = 0x02"
        then show ?thesis using halt by (simp only: dispatch_case)
      qed (simp add: dispatch_def Some)
    qed
    then show ?thesis by blast
  qed
qed

text \<open>
  Claim C15.  Every step keeps the machine well formed: RAM stays 0x800 bytes long, the ROM and the
  console are as before, and the cycle counter grows by the cycles of the opcode table, or by one more
  for a branch opcode.
\<close>

theorem emulate_CPU_preserves:
  "(machine_ok (state_of (emulate_CPU ord) s) = machine_ok s) \<and>
   e_ROM (m_emu (state_of (emulate_CPU ord) s)) = e_ROM (m_emu s) \<and>
   m_term (state_of (emulate_CPU ord) s) = m_term s \<and>
   cycles_of (state_of (emulate_CPU ord) s) - cycles_of s - uint (oe_cycles (opcode_row (opcode_at (arch_of s))))
     \<in> (if opcode_at (arch_of s) \<in> {0xD0, 0xF0, 0x10, 0x30, 0x50, 0x70, 0x90, 0xB0} then {0, 1} else {0})"
proof -
  let ?op = "opcode_at (arch_of s)"
  have d: "fixed_parts (state_of (dispatch ord ?op) (fetched s)) = fixed_parts (fetched s)"
    by (rule fixed.keeps_dispatch)
  have a: "fixed_parts (add_cycles n t) = fixed_parts t" for n t
    by (rule fixed.keeps_cycles)
  have "fixed_parts (state_of (emulate_CPU ord) s) = fixed_parts (fetched s)"
    unfolding emulate_CPU_state a d ..
  then have "(machine_ok (state_of (emulate_CPU ord) s) = machine_ok s) \<and>
     e_ROM (m_emu (state_of (emulate_CPU ord) s)) = e_ROM (m_emu s) \<and>
     m_term (state_of (emulate_CPU ord) s) = m_term s"
    by (simp add: fixed_parts_def fixed_fetch)
  then show ?thesis
    using dispatch_cycles [of ord ?op "fetched s"] by (auto simp: emulate_CPU_state fixed_fetch)
qed

subsection \<open>What a step logs\<close>

lemma log_list_links:
  assumes "log_links s = log_links t"
  shows "log_list (m_log s) h ps = log_list (m_log t) h ps"
proof -
  have "(te_next (log_mem (m_log s) p), te_prev (log_mem (m_log s) p)) =
      (te_next (log_mem (m_log t) p), te_prev (log_mem (m_log t) p))" for p
    using assms by (simp add: log_links_def fun_eq_iff)
  then have "dll (log_mem (m_log s)) 0 ps = dll (log_mem (m_log t)) 0 ps"
    by (intro dll_cong) simp
  then show ?thesis using assms by (simp add: log_list_def log_links_def)
qed

lemma add_entry_operand:
  "add_tracelog_entry emu lg h = (r, lg', h') \<Longrightarrow> r \<noteq> word_of_int (- ENOMEM) \<Longrightarrow> current_operand lg' = 0"
  by (auto simp: add_tracelog_entry_def Let_def split: prod.splits if_splits)

text \<open>The state in which the opcode is fetched: the tracker is reset and the entry added.\<close>

definition logged :: "machine \<Rightarrow> machine" where
  "logged s = state_of log_state (state_of reset_tracker s)"

lemma logged_log:
  "add_tracelog_entry (m_emu s) (m_log s) (m_heap s) = (r, lg', h') \<Longrightarrow>
     m_log (logged s) = lg' \<and> m_heap (logged s) = h' \<and> regs (logged s) = regs s"
  by (simp add: logged_def log_state_def reset_tracker_def run_simps regs_def)

lemma fetched_frames:
  "log_links (fetched s) = log_links (logged s)" "log_snapshots (fetched s) = log_snapshots (logged s)"
  "m_heap (fetched s) = m_heap (logged s)"
  "operands_seen (fetched s) = see_operand (opcode_at (arch_of s)) (operands_seen (logged s))"
proof -
  have cur: "log_links (state_of (set_cur_opcode v) t) = log_links t"
    "log_snapshots (state_of (set_cur_opcode v) t) = log_snapshots t"
    "m_heap (state_of (set_cur_opcode v) t) = m_heap t"
    "operands_seen (state_of (set_cur_opcode v) t) = operands_seen t" for v t
    by (simp_all add: set_cur_opcode_def run_simps log_links_def log_snapshots_def operands_seen_def fun_eq_iff)
  have "result_of read_increment_PC (logged s) = opcode_at (arch_of s)"
    by (simp add: logged_def machine_simps opcode_at_def)
  moreover have f: "fetched s = state_of (set_cur_opcode (result_of read_increment_PC (logged s)))
      (state_of read_increment_PC (logged s))"
    by (simp add: fetched_def logged_def run_simps)
  moreover have "m_heap (state_of read_increment_PC t) = m_heap t" for t
    using fixed.keeps_fetch(1) [of t] by (simp add: fixed_parts_def)
  ultimately show "log_links (fetched s) = log_links (logged s)"
    "log_snapshots (fetched s) = log_snapshots (logged s)" "m_heap (fetched s) = m_heap (logged s)"
    "operands_seen (fetched s) = see_operand (opcode_at (arch_of s)) (operands_seen (logged s))"
    unfolding f cur by (simp_all add: links.keeps_fetch snapshots.keeps_fetch operands_seen_fetch)
qed

lemma dispatch_operands:
  assumes "operands_seen s = (opcode \<noteq> 0, 0)"
  shows "snd (operands_seen (state_of (dispatch ord opcode) s)) \<le> 2"
proof (cases "opcode = 0")
  case True
  then show ?thesis using assms by (simp add: dispatch_case operands_seen_brk)
next
  case False
  then have *: "fst (operands_seen s)" "snd (operands_seen s) = 0" using assms by simp_all
  show ?thesis
  proof (cases "map_of (cpu_switch ord) opcode")
    case None
    then show ?thesis using * by (simp add: dispatch_def run_simps)
  next
    case (Some h)
    then have "(opcode, h) \<in> set (cpu_switch ord)" by (rule map_of_SomeD)
    then show ?thesis
      using operands_seen_handlers [OF *(1), of ord] * Some by (auto simp: dispatch_def list_all_iff)
  qed
qed

text \<open>A step changes the log and the heap as the adding of the entry does.\<close>

lemma emulate_CPU_log:
  "log_links (state_of (emulate_CPU ord) s) = log_links (logged s)"
  "log_snapshots (state_of (emulate_CPU ord) s) = log_snapshots (logged s)"
  "m_heap (state_of (emulate_CPU ord) s) = m_heap (logged s)"
proof -
  let ?s' = "state_of (emulate_CPU ord) s"
  show "log_links ?s' = log_links (logged s)" "log_snapshots ?s' = log_snapshots (logged s)"
    by (simp_all add: emulate_CPU_state links.keeps_cycles links.keeps_dispatch snapshots.keeps_cycles
        snapshots.keeps_dispatch fetched_frames)
  have "fixed_parts ?s' = fixed_parts (fetched s)"
    unfolding emulate_CPU_state fixed.keeps_cycles by (rule fixed.keeps_dispatch)
  then show "m_heap ?s' = m_heap (logged s)" by (simp add: fixed_parts_def fetched_frames)
qed

text \<open>
  Claim C16.  Every step adds one entry to the trace log: when the allocation succeeds, the log is again
  well formed, ends in a new entry that holds the registers and the cycle count from before the
  step, and the operand bytes of the instruction fit the two places of the entry.
\<close>

theorem emulate_CPU_logs:
  assumes "heap_ok (m_heap s)" and "log_list (m_log s) (m_heap s) ps"
    and "fst (add_tracelog_entry (m_emu s) (m_log s) (m_heap s)) \<noteq> word_of_int (- ENOMEM)"
  shows "\<exists>r. let s' = state_of (emulate_CPU ord) s in
    heap_ok (m_heap s') \<and> log_list (m_log s') (m_heap s') (drop (length ps - 256) ps @ [r]) \<and>
    log_snapshots s' r = (regs s, cycles_of s) \<and> current_operand (m_log s') \<le> 2"
proof -
  obtain r lg' h' where add: "add_tracelog_entry (m_emu s) (m_log s) (m_heap s) = (r, lg', h')"
    by (cases "add_tracelog_entry (m_emu s) (m_log s) (m_heap s)")
  then have r: "r \<noteq> word_of_int (- ENOMEM)" using assms(3) by simp
  note entry = add_entry_list [OF assms(1,2) add r]
  let ?op = "opcode_at (arch_of s)" and ?ps = "drop (length ps - 256) ps @ [r]"
  let ?d = "state_of (dispatch ord ?op) (fetched s)"
  define s' where "s' = state_of (emulate_CPU ord) s"
  have s': "s' = add_cycles (uint (oe_cycles (opcode_row ?op))) ?d"
    by (simp add: s'_def emulate_CPU_state)
  have lg: "m_log (logged s) = lg'" "m_heap (logged s) = h'" using logged_log [OF add] by simp_all
  have pay: "payload (log_mem lg' r) = snapshot (m_emu s)"
    using entry(3) by (simp add: log_contents_def)
  then have flds: "te_registers (log_mem lg' r) = regs s" "te_total_CPU_cycles (log_mem lg' r) = cycles_of s"
    "te_opcode (log_mem lg' r) = 0"
    by (auto simp: payload_def snapshot_def zero_entry_def regs_def cycles_of_def dest: arg_cong [of _ _ te_registers]
        arg_cong [of _ _ te_total_CPU_cycles] arg_cong [of _ _ te_opcode])
  note step = emulate_CPU_log [of ord s, folded s'_def]
  have "log_list (m_log s') h' ?ps" using log_list_links [OF step(1)] entry(2) lg by metis
  moreover have "m_heap s' = h'" using step(3) lg by simp
  moreover have "log_snapshots s' r = (regs s, cycles_of s)" unfolding step(2) by (simp add: log_snapshots_def lg flds)
  moreover have "current_operand (m_log s') \<le> 2"
  proof -
    have "log_tail lg' = r" using entry(2) by (simp add: log_list_def last_or_null_def)
    then have "operands_seen (logged s) = (False, 0)"
      using add_entry_operand [OF add r] by (simp add: operands_seen_def lg flds)
    then have "operands_seen (fetched s) = (?op \<noteq> 0, 0)" by (simp add: fetched_frames see_operand_def)
    then have "snd (operands_seen ?d) \<le> 2" by (rule dispatch_operands)
    then show ?thesis by (simp add: s' operands_seen_def add_cycles_def)
  qed
  ultimately show ?thesis using entry(1) unfolding s'_def [symmetric] Let_def by blast
qed

theorem emulate_CPU_logs_witness:
  "\<exists>r. log_snapshots (state_of (emulate_CPU Left_first) (machine_with [0xEA])) r = (regs (machine_with [0xEA]), 7) \<and>
     log_list (m_log (state_of (emulate_CPU Left_first) (machine_with [0xEA])))
       (m_heap (state_of (emulate_CPU Left_first) (machine_with [0xEA]))) [r]"
proof -
  have parts: "m_log (machine_with [0xEA]) = empty_log" "m_heap (machine_with [0xEA]) = demo_heap"
    "cycles_of (machine_with [0xEA]) = 7"
    by (simp_all add: machine_with_def cycles_of_def demo_emulator_def)
  have "fst (add_tracelog_entry (m_emu (machine_with [0xEA])) empty_log demo_heap) \<noteq> word_of_int (- ENOMEM)"
    by (simp add: demo_add ENOMEM_def)
  then show ?thesis
    using emulate_CPU_logs [of "machine_with [0xEA]" "[]" Left_first] empty_log_list demo_heap_ok
    by (auto simp: parts Let_def)
qed

end
