(* ===== verification/EmuRun.thy ===== *)
theory EmuRun
  imports CpuProps
begin

text \<open>
  The run loop and the start of the emulator: \<open>emu_run\<close>, \<open>emu_reset\<close>, \<open>emu_init\<close> and the small entry
  points of \<open>src/emulator/CPU/emulator.c\<close>.  The loop is a recursive function; its termination proof is
  the argument that an emulator run always ends.
\<close>

subsection \<open>Why the loop ends\<close>

text \<open>
  Every step counts at least one cycle, except on the eleven opcodes the table gives none; those have
  no case in the switch, so the program counter moves on by one, and at 0x800, where nothing is
  mapped, it meets the opcode 0, which counts seven cycles.
\<close>

definition zero_cycle_opcodes :: "u8 list" where
  "zero_cycle_opcodes = [0x12, 0x22, 0x32, 0x42, 0x52, 0x62, 0x72, 0x92, 0xB2, 0xD2, 0xF2]"

lemma table_zero_cycles:
  "map oe_opcode (filter (\<lambda>e. oe_cycles e = 0) opcode_table) = zero_cycle_opcodes"
  by code_simp

lemma table_max_cycles: "list_all (\<lambda>e. oe_cycles e \<le> 8) opcode_table"
  by code_simp

lemma zero_cycles_opcode:
  assumes "oe_cycles (opcode_row opcode) = 0"
  shows "opcode \<in> set zero_cycle_opcodes"
proof -
  have "opcode_row opcode \<in> set (filter (\<lambda>e. oe_cycles e = 0) opcode_table)"
    using assms opcode_row_in_table by simp
  then have "oe_opcode (opcode_row opcode) \<in> set (map oe_opcode (filter (\<lambda>e. oe_cycles e = 0) opcode_table))"
    unfolding set_map by (rule imageI)
  then show ?thesis unfolding table_zero_cycles opcode_row_opcode .
qed

lemma zero_cycles_dispatch: "list_all (\<lambda>opcode. map_of (cpu_switch ord) opcode = None) zero_cycle_opcodes"
  by (simp add: zero_cycle_opcodes_def cpu_switch_def)

lemma zero_cycles_unimplemented:
  "opcode \<in> set zero_cycle_opcodes \<Longrightarrow> opcode \<notin> set (map fst (cpu_switch ord))"
  using zero_cycles_dispatch [of ord] by (auto simp: list_all_iff map_of_eq_None_iff)

lemma opcode_at_gap: "ar_PC (arch_of s) = 0x800 \<Longrightarrow> opcode_at (arch_of s) = 0"
  by (simp add: opcode_at_def arch_of_def bus_byte_def)

lemma unat_dec: "(w :: u16) \<noteq> 0 \<Longrightarrow> unat (w - 1) < unat w"
  by (simp add: unat_gt_0 unat_minus_one)

definition run_measure :: "(machine \<times> machine) set" where
  "run_measure = inv_image (less_than <*lex*> less_than)
     (\<lambda>s. (nat (1000 - cycles_of s), unat (0x800 - ar_PC (arch_of s))))"

lemma emulate_CPU_progress:
  assumes "cycles_of s < 1000"
  shows "(state_of (emulate_CPU ord) s, s) \<in> run_measure"
proof -
  let ?op = "opcode_at (arch_of s)" and ?s' = "state_of (emulate_CPU ord) s"
  let ?n = "uint (oe_cycles (opcode_row ?op))"
  have ge: "cycles_of s + ?n \<le> cycles_of ?s'"
    using dispatch_cycles [of ord ?op "fetched s"] by (auto simp: emulate_CPU_state fixed_fetch)
  show ?thesis
  proof (cases "oe_cycles (opcode_row ?op) = 0")
    case False
    then have "0 < ?n" by (rule uint_pos)
    with ge assms show ?thesis by (simp add: run_measure_def)
  next
    case True
    then have z: "?op \<in> set zero_cycle_opcodes" by (rule zero_cycles_opcode)
    then have "?op \<noteq> 0" by (auto simp: zero_cycle_opcodes_def)
    then have pc: "ar_PC (arch_of s) \<noteq> 0x800" using opcode_at_gap by blast
    have next_pc: "ar_PC (arch_of ?s') = ar_PC (arch_of s) + 1" "cycles_of ?s' = cycles_of s"
      using unimplemented_opcode [OF zero_cycles_unimplemented [OF z], of ord] True
      by (simp_all add: Let_def arch_of_sel)
    have "unat (0x800 - ar_PC (arch_of s) - 1) < unat (0x800 - ar_PC (arch_of s))"
      using pc by (intro unat_dec) auto
    with next_pc show ?thesis by (simp add: run_measure_def diff_diff_eq)
  qed
qed

subsection \<open>The loop\<close>

(* src/src/emulator/CPU/emulator.c 650-652 emu_run: loop *)
function emu_run_loop :: "eval_order \<Rightarrow> machine \<Rightarrow> machine" where
  "emu_run_loop ord s =
     (if \<not> CPU_halted s \<and> cycles_of s < 1000
      then emu_run_loop ord (state_of (emulate_CPU ord) s)
      else s)"
  by pat_completeness auto
termination
proof (relation "inv_image run_measure snd")
  show "wf (inv_image run_measure snd)" by (auto simp: run_measure_def)
qed (simp add: emulate_CPU_progress)

declare emu_run_loop.simps [simp del]

text \<open>\<open>None\<close> is a cycle count that does not fit the digit buffer of \<open>print_decimal\<close>.\<close>

(* src/src/emulator/CPU/emulator.c 649-656 emu_run *)
definition emu_run :: "eval_order \<Rightarrow> machine \<Rightarrow> machine option" where
  "emu_run ord s =
     (let s = emu_run_loop ord s
      in case tracelog_print_entries (m_log s) (m_term s) of
           None \<Rightarrow> None
         | Some t \<Rightarrow> Some (s\<lparr>m_term := t\<rparr>))"

(* src/src/emulator/CPU/emulator.c 786-788 emu_enable_logger *)
definition emu_enable_logger :: "bool \<Rightarrow> unit prog" where
  "emu_enable_logger is_enabled = modifies (\<lambda>s. s\<lparr>logger_enabled := is_enabled\<rparr>)"

(* src/src/kernel.c 106-113 emu_print_hexdump *)
definition emu_print_hexdump :: "u16 \<Rightarrow> int \<Rightarrow> unit prog" where
  "emu_print_hexdump emu_address sz =
     fold (\<lambda>i p. do {
         p;
         byte \<leftarrow> emu_read (emu_address + word_of_int i);
         modifies (\<lambda>s. s\<lparr>m_term := terminal_writechar (of_char CHR '' '') 0
           (terminal_writechar (hexchar (byte AND 0xF)) 15
             (terminal_writechar (hexchar (drop_bit 4 byte)) 15 (m_term s)))\<rparr>) })
       [0 .. sz] skip"

subsection \<open>The run as a transition system\<close>

text \<open>One turn of the loop, and the states a run passes through.\<close>

inductive cpu_turn :: "eval_order \<Rightarrow> machine \<Rightarrow> machine \<Rightarrow> bool" for ord where
  turn: "\<not> CPU_halted s \<Longrightarrow> cycles_of s < 1000 \<Longrightarrow> cpu_turn ord s (state_of (emulate_CPU ord) s)"

inductive cpu_reaches :: "eval_order \<Rightarrow> machine \<Rightarrow> machine \<Rightarrow> bool" for ord s where
  start: "cpu_reaches ord s s"
| more: "cpu_reaches ord s t \<Longrightarrow> cpu_turn ord t u \<Longrightarrow> cpu_reaches ord s u"

inductive_cases cpu_turnE: "cpu_turn ord s t"

lemma cpu_reaches_trans: "cpu_reaches ord t u \<Longrightarrow> cpu_reaches ord s t \<Longrightarrow> cpu_reaches ord s u"
  by (induction rule: cpu_reaches.induct) (auto intro: cpu_reaches.intros)

definition run_over :: "machine \<Rightarrow> bool" where
  "run_over s \<longleftrightarrow> CPU_halted s \<or> 1000 \<le> cycles_of s"

lemma emu_run_loop_reaches: "cpu_reaches ord s (emu_run_loop ord s) \<and> run_over (emu_run_loop ord s)"
proof (induction ord s rule: emu_run_loop.induct)
  case (1 ord s)
  show ?case
  proof (cases "\<not> CPU_halted s \<and> cycles_of s < 1000")
    case True
    then have step: "cpu_reaches ord s (state_of (emulate_CPU ord) s)"
      by (intro more [OF start] turn) simp_all
    have eq: "emu_run_loop ord s = emu_run_loop ord (state_of (emulate_CPU ord) s)"
      using True by (subst emu_run_loop.simps) simp
    from "1.IH" [OF True] show ?thesis
      unfolding eq using cpu_reaches_trans step by blast
  next
    case False
    then have "emu_run_loop ord s = s" by (subst emu_run_loop.simps) auto
    with False show ?thesis by (auto simp: run_over_def intro: start)
  qed
qed

lemma run_over_final: "cpu_reaches ord s t \<Longrightarrow> run_over t \<Longrightarrow> t = emu_run_loop ord s"
proof -
  have "emu_run_loop ord s = emu_run_loop ord t" if "cpu_reaches ord s t" for t
    using that
  proof induction
    case (more t u)
    from more.hyps(2) have "emu_run_loop ord t = emu_run_loop ord u"
      by (cases rule: cpu_turn.cases) (subst emu_run_loop.simps, simp)
    with more.IH show ?case by simp
  qed simp
  moreover have "emu_run_loop ord t = t" if "run_over t"
    using that by (subst emu_run_loop.simps) (auto simp: run_over_def)
  ultimately show "cpu_reaches ord s t \<Longrightarrow> run_over t \<Longrightarrow> t = emu_run_loop ord s" by simp
qed

lemma table_cycles_bound: "uint (oe_cycles (opcode_row opcode)) \<le> 8"
  using opcode_row_all [OF table_max_cycles, of opcode] by (simp add: word_le_def)

lemma branch_cycles_bound:
  "opcode \<in> {0xD0, 0xF0, 0x10, 0x30, 0x50, 0x70, 0x90, 0xB0} \<Longrightarrow> uint (oe_cycles (opcode_row opcode)) \<le> 3"
proof -
  have "list_all (\<lambda>opcode. oe_cycles (opcode_row opcode) \<le> 3)
      [0xD0, 0xF0, 0x10, 0x30, 0x50, 0x70, 0x90, 0xB0]"
    by code_simp
  moreover assume "opcode \<in> {0xD0, 0xF0, 0x10, 0x30, 0x50, 0x70, 0x90, 0xB0}"
  ultimately show ?thesis by (auto simp: word_le_def)
qed

lemma emulate_CPU_cycles_bound: "cycles_of (state_of (emulate_CPU ord) s) \<le> cycles_of s + 8"
  using dispatch_cycles [of ord "opcode_at (arch_of s)" "fetched s"] table_cycles_bound [of "opcode_at (arch_of s)"]
    branch_cycles_bound [of "opcode_at (arch_of s)"] by (auto simp: emulate_CPU_state fixed_fetch)

lemma emulate_CPU_fixed:
  "machine_ok (state_of (emulate_CPU ord) s) = machine_ok s"
  "e_ROM (m_emu (state_of (emulate_CPU ord) s)) = e_ROM (m_emu s)"
  "m_term (state_of (emulate_CPU ord) s) = m_term s"
proof -
  have "fixed_parts (state_of (emulate_CPU ord) s) = fixed_parts (fetched s)"
    unfolding emulate_CPU_state fixed.keeps_cycles by (rule fixed.keeps_dispatch)
  then show "machine_ok (state_of (emulate_CPU ord) s) = machine_ok s"
    "e_ROM (m_emu (state_of (emulate_CPU ord) s)) = e_ROM (m_emu s)"
    "m_term (state_of (emulate_CPU ord) s) = m_term s"
    by (simp_all add: fixed_parts_def fixed_fetch)
qed

lemma cpu_reaches_invariant:
  assumes "cpu_reaches ord s t"
  shows "machine_ok t = machine_ok s \<and> e_ROM (m_emu t) = e_ROM (m_emu s) \<and> m_term t = m_term s \<and>
    (cycles_of s < 1000 \<longrightarrow> cycles_of t < 1008)"
  using assms
proof induction
  case (more t u)
  from more.hyps(2) show ?case
  proof (cases rule: cpu_turn.cases)
    case turn
    then show ?thesis
      using more.IH emulate_CPU_cycles_bound [of ord t] by (auto simp: emulate_CPU_fixed)
  qed
qed simp

text \<open>
  Claim C3.  The run loop ends, for every program and every state: its result is the one state that a
  run reaches in which the CPU is halted or 1000 cycles have passed.  Started below 1000 cycles it ends
  below 1008.  On the way RAM and ROM keep their sizes, and neither the ROM nor the console changes.
\<close>

theorem emu_run_loop_ends:
  "(\<forall>t. cpu_reaches ord s t \<and> (CPU_halted t \<or> 1000 \<le> cycles_of t) \<longleftrightarrow> t = emu_run_loop ord s) \<and>
   (cycles_of s < 1000 \<longrightarrow> cycles_of (emu_run_loop ord s) < 1008) \<and>
   machine_ok (emu_run_loop ord s) = machine_ok s \<and>
   e_ROM (m_emu (emu_run_loop ord s)) = e_ROM (m_emu s) \<and> m_term (emu_run_loop ord s) = m_term s"
  using emu_run_loop_reaches [of ord s] run_over_final [of ord s]
    cpu_reaches_invariant [of ord s "emu_run_loop ord s"]
  by (auto simp: run_over_def)

theorem emu_run_loop_ends_witness:
  "cycles_of (emu_run_loop Left_first (machine_with [0xEA])) < 1008 \<and> machine_ok (emu_run_loop Left_first (machine_with [0xEA]))"
proof -
  have "cycles_of (machine_with [0xEA]) < 1000" by (simp add: machine_with_def cycles_of_def demo_emulator_def)
  then show ?thesis using emu_run_loop_ends [of Left_first "machine_with [0xEA]"] by simp
qed

subsection \<open>The listing after the run\<close>

definition counts_printable :: "logger \<Rightarrow> bool" where
  "counts_printable lg \<longleftrightarrow> (\<forall>p. te_total_CPU_cycles (log_mem lg p) < 10 ^ 8)"

lemma remove_first_counts:
  "remove_first_entry lg h = (lg', h') \<Longrightarrow>
     te_total_CPU_cycles (log_mem lg' p) = te_total_CPU_cycles (log_mem lg p)"
  by (auto simp: remove_first_entry_def Let_def split: if_splits)

lemma add_entry_counts:
  assumes "counts_printable lg" and "e_total_CPU_cycles emu < 10 ^ 8"
    and "add_tracelog_entry emu lg h = (r, lg', h')"
  shows "counts_printable lg'"
proof -
  obtain lg1 h1 where rem: "(if current_length lg + 1 > TRACELOG_MAX_LENGTH then remove_first_entry lg h
      else (lg, h)) = (lg1, h1)"
    by fastforce
  have "counts_printable lg1"
    using assms(1) rem remove_first_counts [of lg h lg1 h1] by (auto simp: counts_printable_def split: if_splits)
  moreover obtain e h2 where "kmalloc h1 TRACELOG_ENTRY_SIZE = (e, h2)" by fastforce
  ultimately show ?thesis
    using assms(2,3) unfolding add_tracelog_entry_def rem
    by (auto simp: counts_printable_def Let_def zero_entry_def split: if_splits)
qed

lemma emulate_CPU_counts:
  assumes "counts_printable (m_log s)" and "cycles_of s < 10 ^ 8"
  shows "counts_printable (m_log (state_of (emulate_CPU ord) s))"
proof -
  obtain r lg' h' where add: "add_tracelog_entry (m_emu s) (m_log s) (m_heap s) = (r, lg', h')"
    by (cases "add_tracelog_entry (m_emu s) (m_log s) (m_heap s)")
  have lg: "counts_printable lg'"
    using add_entry_counts [OF assms(1) _ add] assms(2) by (simp add: cycles_of_def)
  have "te_total_CPU_cycles (log_mem (m_log (state_of (emulate_CPU ord) s)) p) =
      te_total_CPU_cycles (log_mem lg' p)" for p
    using logged_log [OF add] emulate_CPU_log(2) [of ord s] by (simp add: log_snapshots_def fun_eq_iff)
  with lg show ?thesis by (simp add: counts_printable_def)
qed

lemma print_entries_total:
  assumes "counts_printable lg"
  shows "print_entries_loop lg i p t \<noteq> None"
  using assms
proof (induction lg i p t rule: print_entries_loop.induct)
  case (1 lg i p t)
  show ?case
  proof (cases "i \<le> NUM_PRINT_ENTRIES \<and> i \<le> current_length lg")
    case True
    have "te_total_CPU_cycles (log_mem lg p) < 10 ^ 8"
      using "1.prems" by (simp add: counts_printable_def)
    then have line: "print_tracelog_entry (log_mem lg p) t = Some (print (entry_text (log_mem lg p) @ [CHR 0x0A]) t)"
      by (rule print_tracelog_entry_text)
    from "1.IH" [OF True line "1.prems"] show ?thesis
      by (subst print_entries_loop.simps) (simp add: True line)
  next
    case False
    then show ?thesis by (subst print_entries_loop.simps) (simp only: if_False option.distinct not_False_eq_True)
  qed
qed

lemma cpu_reaches_counts:
  assumes "cpu_reaches ord s t" and "counts_printable (m_log s)" and "cycles_of s < 10 ^ 8"
  shows "counts_printable (m_log t) \<and> cycles_of t < 10 ^ 8"
  using assms
proof (induction rule: cpu_reaches.induct)
  case (more t u)
  from more.hyps(2) show ?case
  proof (cases rule: cpu_turn.cases)
    case turn
    then show ?thesis
      using more emulate_CPU_cycles_bound [of ord t] emulate_CPU_counts [of t ord] by simp
  qed
qed simp

lemma emu_run_total:
  assumes "cycles_of s < 10 ^ 8" and "counts_printable (m_log s)"
  shows "\<exists>t. emu_run ord s = Some ((emu_run_loop ord s)\<lparr>m_term := t\<rparr>)"
proof -
  let ?s = "emu_run_loop ord s"
  have "counts_printable (m_log ?s)"
    using cpu_reaches_counts [of ord s ?s] emu_run_loop_reaches assms by blast
  then have "tracelog_print_entries (m_log ?s) (m_term ?s) \<noteq> None"
    unfolding tracelog_print_entries_def by (rule print_entries_total)
  then show ?thesis by (auto simp: emu_run_def Let_def)
qed

text \<open>
  \<open>emu_run\<close> returns: after the loop the listing is printed without overrunning the digit
  buffer, when the cycle counts in the log fit eight digits at the start.
\<close>

theorem emu_run_returns:
  assumes "cycles_of s < 10 ^ 8" and "counts_printable (m_log s)"
  shows "\<exists>s'. emu_run ord s = Some s' \<and> (CPU_halted s' \<or> 1000 \<le> cycles_of s')"
  using emu_run_total [OF assms, of ord] emu_run_loop_reaches [of ord s] by (auto simp: run_over_def cycles_of_def)

theorem emu_run_returns_witness:
  "\<exists>s'. emu_run Left_first (machine_with [0x02]) = Some s'"
proof -
  have "counts_printable empty_log" by (simp add: counts_printable_def empty_log_def zero_entry_def)
  moreover have "m_log (machine_with [0x02]) = empty_log" "cycles_of (machine_with [0x02]) < 10 ^ 8"
    by (simp_all add: machine_with_def cycles_of_def demo_emulator_def)
  ultimately show ?thesis using emu_run_returns [of "machine_with [0x02]" Left_first] by auto
qed

subsection \<open>Reset and start\<close>

text \<open>
  The ROM image comes from the file system: \<open>fd\<close> is what \<open>fopen\<close> returns for the path, and \<open>header\<close> and
  \<open>body\<close> are the bytes the two \<open>fread\<close> calls deliver; a short read leaves the rest of the buffer.
\<close>

record rom_file =
  rf_fd :: int
  rf_header :: "u8 list"
  rf_body :: "u8 list"

definition read_into :: "u8 list \<Rightarrow> u8 list \<Rightarrow> u8 list" where
  "read_into bs buffer = take (length buffer) bs @ drop (length bs) buffer"

definition print_term :: "string \<Rightarrow> unit prog" where
  "print_term str = modifies (\<lambda>s. s\<lparr>m_term := print str (m_term s)\<rparr>)"

(* src/src/emulator/CPU/emulator.c 725-741 emu_reset: up to emu_run *)
definition emu_load :: "rom_file \<Rightarrow> unit prog" where
  "emu_load file = do {
     do_when (rf_fd file \<noteq> 0) (do {
       print_term ''Opened '';
       path \<leftarrow> reads (\<lambda>s. e_filepath (m_emu s));
       print_term path;
       print_term [CHR 0x0A];
       modifies (\<lambda>s. s\<lparr>m_emu := (m_emu s)\<lparr>e_header := read_into (rf_header file) (e_header (m_emu s))\<rparr>\<rparr>);
       modifies (\<lambda>s. s\<lparr>m_emu := (m_emu s)\<lparr>e_ROM := read_into (rf_body file) (e_ROM (m_emu s))\<rparr>\<rparr>);
       set_status_flag FLAG_INTERRUPT_DISABLE True });
     PC_lowbyte \<leftarrow> emu_read 0xFFFC;
     PC_highbyte \<leftarrow> emu_read 0xFFFD;
     modifies (upd_regs (\<lambda>r. r\<lparr>r_program_counter := word_of_bytes PC_highbyte PC_lowbyte\<rparr>));
     modifies (upd_regs (\<lambda>r. r\<lparr>r_stack_pointer := 0xFD\<rparr>));
     print_term [CHR 0x0A] }"

(* src/src/emulator/CPU/emulator.c 725-743 emu_reset *)
definition emu_reset :: "eval_order \<Rightarrow> rom_file \<Rightarrow> machine \<Rightarrow> machine option" where
  "emu_reset ord file s = emu_run ord (state_of (emu_load file) s)"

text \<open>\<open>None\<close> of the first step is an allocation that failed: the code goes on with NULL buffers.\<close>

(* src/src/emulator/CPU/emulator.c 17-25 emu_init *)
definition emu_init :: "eval_order \<Rightarrow> (string \<Rightarrow> rom_file) \<Rightarrow> string \<Rightarrow> machine \<Rightarrow> machine option" where
  "emu_init ord fs filepath s =
     (let (ram, h) = kmalloc (m_heap s) 0x800;
          (rom, h) = kmalloc h 0x8000;
          (header, h) = kmalloc h 0x10
      in if ram = 0 \<or> rom = 0 \<or> header = 0 then None
         else emu_reset ord (fs filepath)
           (s\<lparr>m_heap := h, CPU_halted := False,
              m_emu := (m_emu s)\<lparr>e_RAM := replicate 0x800 0, e_ROM := replicate 0x8000 0,
                e_header := replicate 0x10 0, e_filepath := filepath, e_total_CPU_cycles := 8\<rparr>\<rparr>))"

lemma length_read_into [simp]: "length (read_into bs buffer) = length buffer"
  by (simp add: read_into_def)

lemma print_term_frame:
  "regs (state_of (print_term str) s) = regs s" "m_emu (state_of (print_term str) s) = m_emu s"
  "CPU_halted (state_of (print_term str) s) = CPU_halted s" "m_log (state_of (print_term str) s) = m_log s"
  "arch_of (state_of (print_term str) s) = arch_of s"
  by (simp_all add: print_term_def run_simps regs_def arch_of_def bus_byte_def cycles_of_def fun_eq_iff)

lemma emu_read_frame:
  "m_emu (state_of (emu_read a) s) = m_emu s" "CPU_halted (state_of (emu_read a) s) = CPU_halted s"
  "regs (state_of (emu_read a) s) = regs s" "bus_byte (state_of (emu_read a) s) = bus_byte s"
  by (simp_all add: emu_read_def run_simps machine_simps upd_log_def regs_def bus_byte_def fun_eq_iff)

lemma emu_read_result: "result_of (emu_read a) s = bus_byte s a"
  by (simp add: machine_simps arch_of_sel)

lemma bit_and_or_self: "(f OR b) AND b = (b :: u8)"
  by (rule bit_word_eqI) (auto simp: bit_or_iff bit_and_iff)

text \<open>The state in which the run starts.\<close>

definition emu_start :: "rom_file \<Rightarrow> machine \<Rightarrow> machine" where
  "emu_start file s = state_of (emu_load file) s"

lemma emu_start_state:
  assumes "rf_fd file \<noteq> 0" and "length (rf_body file) = 0x8000" and "length (e_ROM (m_emu s)) = 0x8000"
  shows "m_emu (emu_start file s) = (m_emu s)\<lparr>e_header := read_into (rf_header file) (e_header (m_emu s)),
      e_ROM := rf_body file, e_registers := (regs s)\<lparr>r_flags := flag_update FLAG_INTERRUPT_DISABLE True (r_flags (regs s)),
        r_program_counter := word_of_bytes (rf_body file ! 0x7FFD) (rf_body file ! 0x7FFC), r_stack_pointer := 0xFD\<rparr>\<rparr>"
    and "CPU_halted (emu_start file s) = CPU_halted s"
    and "m_heap (emu_start file s) = m_heap s"
    and "log_links (emu_start file s) = log_links s" and "log_snapshots (emu_start file s) = log_snapshots s"
proof -
  have body: "read_into (rf_body file) (e_ROM (m_emu s)) = rf_body file"
    using assms(2,3) by (simp add: read_into_def)
  show "m_emu (emu_start file s) = (m_emu s)\<lparr>e_header := read_into (rf_header file) (e_header (m_emu s)),
      e_ROM := rf_body file, e_registers := (regs s)\<lparr>r_flags := flag_update FLAG_INTERRUPT_DISABLE True (r_flags (regs s)),
        r_program_counter := word_of_bytes (rf_body file ! 0x7FFD) (rf_body file ! 0x7FFC), r_stack_pointer := 0xFD\<rparr>\<rparr>"
    using assms(1) body
    by (simp add: emu_start_def emu_load_def run_simps print_term_frame emu_read_frame
        emu_read_result set_status_flag_def upd_regs_def regs_def bus_byte_def)
  show "CPU_halted (emu_start file s) = CPU_halted s"
    using assms(1)
    by (simp add: emu_start_def emu_load_def run_simps print_term_frame emu_read_frame set_status_flag_def upd_regs_def)
  have heap: "m_heap (state_of (emu_read a) t) = m_heap t" for a t
    using fixed.keeps_memory(1) [of a t] by (simp add: fixed_parts_def)
  show "m_heap (emu_start file s) = m_heap s"
    using assms(1) by (simp add: emu_start_def emu_load_def run_simps heap print_term_def set_status_flag_def upd_regs_def)
  have other: "log_links (t\<lparr>m_emu := e\<rparr>) = log_links t" "log_snapshots (t\<lparr>m_emu := e\<rparr>) = log_snapshots t"
    "log_links (t\<lparr>m_term := w\<rparr>) = log_links t" "log_snapshots (t\<lparr>m_term := w\<rparr>) = log_snapshots t" for t e w
    by (simp_all add: log_links_def log_snapshots_def fun_eq_iff)
  show "log_links (emu_start file s) = log_links s" "log_snapshots (emu_start file s) = log_snapshots s"
    using assms(1) by (simp_all add: emu_start_def emu_load_def run_simps frame_simps print_term_def other)
qed

text \<open>
  \<open>emu_init\<close> starts the processor at the reset vector: when the three buffers can be
  allocated and the ROM file opens with a body of 0x8000 bytes, what it returns is the run from a
  state with the image as ROM, cleared RAM, the program counter taken from 0xFFFC and 0xFFFD, the
  stack pointer 0xFD, interrupts disabled and 8 cycles counted.
\<close>

theorem emu_init_starts_at_reset_vector:
  assumes "fst (kmalloc (m_heap s) 0x800) \<noteq> 0"
    and "fst (kmalloc (snd (kmalloc (m_heap s) 0x800)) 0x8000) \<noteq> 0"
    and "fst (kmalloc (snd (kmalloc (snd (kmalloc (m_heap s) 0x800)) 0x8000)) 0x10) \<noteq> 0"
    and "rf_fd (fs path) \<noteq> 0" and "length (rf_body (fs path)) = 0x8000"
  shows "\<exists>t. emu_init ord fs path s = emu_run ord t \<and> machine_ok t \<and> \<not> CPU_halted t \<and>
    e_ROM (m_emu t) = rf_body (fs path) \<and> e_RAM (m_emu t) = replicate 0x800 0 \<and>
    ar_PC (arch_of t) = word_of_bytes (rf_body (fs path) ! 0x7FFD) (rf_body (fs path) ! 0x7FFC) \<and>
    ar_S (arch_of t) = 0xFD \<and> flag_set (arch_of t) FLAG_INTERRUPT_DISABLE \<and> cycles_of t = 8"
proof -
  let ?file = "fs path"
  obtain ram h1 rom h2 hdr h3 where km: "kmalloc (m_heap s) 0x800 = (ram, h1)"
    "kmalloc h1 0x8000 = (rom, h2)" "kmalloc h2 0x10 = (hdr, h3)"
    by (meson surj_pair)
  define s0 where "s0 = s\<lparr>m_heap := h3, CPU_halted := False,
      m_emu := (m_emu s)\<lparr>e_RAM := replicate 0x800 0, e_ROM := replicate 0x8000 0,
        e_header := replicate 0x10 0, e_filepath := path, e_total_CPU_cycles := 8\<rparr>\<rparr>"
  define t where "t = state_of (emu_load ?file) s0"
  have init: "emu_init ord fs path s = emu_run ord t"
    using assms(1-3) km by (simp add: emu_init_def emu_reset_def t_def s0_def)
  have s0: "e_ROM (m_emu s0) = replicate 0x8000 0" "e_RAM (m_emu s0) = replicate 0x800 0"
    "\<not> CPU_halted s0" "e_total_CPU_cycles (m_emu s0) = 8"
    by (simp_all add: s0_def)
  have "length (e_ROM (m_emu s0)) = 0x8000" by (simp add: s0(1))
  note start = emu_start_state [OF assms(4,5) this, unfolded emu_start_def, folded t_def]
  have halt: "\<not> CPU_halted t" unfolding start(2) by (rule s0(3))
  have "flag_set (arch_of t) FLAG_INTERRUPT_DISABLE"
    by (simp add: flag_set_def arch_of_def regs_def start(1) flag_update_def bit_and_or_self)
  moreover have "machine_ok t" using assms(5) by (simp add: machine_ok_def start(1) s0)
  ultimately show ?thesis
    using init halt by (intro exI [of _ t]) (simp add: arch_of_def regs_def start(1) s0 cycles_of_def)
qed

definition free_heap :: heap where
  "free_heap = \<lparr>hp_table = \<lparr>ht_entries = (\<lambda>_. 0), ht_total = 16\<rparr>, hp_saddr = 0x01000000\<rparr>"

theorem emu_init_starts_at_reset_vector_witness:
  "\<exists>t. cycles_of t = 8 \<and> emu_init Left_first (\<lambda>_. \<lparr>rf_fd = 1, rf_header = [], rf_body = rom_image []\<rparr>) ''0:/a''
     ((machine_with [])\<lparr>m_heap := free_heap\<rparr>) = emu_run Left_first t"
proof -
  have "fst (kmalloc free_heap 0x800) \<noteq> 0"
    "fst (kmalloc (snd (kmalloc free_heap 0x800)) 0x8000) \<noteq> 0"
    "fst (kmalloc (snd (kmalloc (snd (kmalloc free_heap 0x800)) 0x8000)) 0x10) \<noteq> 0"
    by code_simp+
  then show ?thesis
    using emu_init_starts_at_reset_vector [of "(machine_with [])\<lparr>m_heap := free_heap\<rparr>"
        "\<lambda>_. \<lparr>rf_fd = 1, rf_header = [], rf_body = rom_image []\<rparr>" "''0:/a''" Left_first] by auto
qed

end
