(* ===== verification/Menu.thy ===== *)
theory Menu
  imports EmuRun
begin

text \<open>
  The start menu of \<open>src/kernel.c\<close>, the keyboard handler of \<open>src/drivers/keyboard/keyboard.c\<close> and the
  interrupt handlers of \<open>src/idt/idt.c\<close> that call it.  The keyboard is a sequence of scancodes; each one
  raises interrupt 0x21.  Here the emulator does not run; \<open>KeyPresses\<close> has the keys that arrive while it does.
\<close>

subsection \<open>The globals\<close>

abbreviation NUM_ROMS :: int where "NUM_ROMS \<equiv> 7"

text \<open>The emulator and the console are the record \<open>machine\<close>; \<open>k_ports\<close> is what was written to ports.\<close>

(* src/src/kernel.c 33-41 kernel_initialized, rom_selected, cursor_index, test_roms *)
record kernel =
  k_machine :: machine
  kernel_initialized :: bool
  rom_selected :: bool
  cursor_index :: int
  test_roms :: "string list"
  k_ports :: "(u16 \<times> u8) list"

definition on_terminal :: "(terminal \<Rightarrow> terminal) \<Rightarrow> kernel \<Rightarrow> kernel" where
  "on_terminal f k = k\<lparr>k_machine := (k_machine k)\<lparr>m_term := f (m_term (k_machine k))\<rparr>\<rparr>"

subsection \<open>The menu\<close>

abbreviation dq :: char where "dq \<equiv> CHR 0x22"
abbreviation nl :: char where "nl \<equiv> CHR 0x0A"

text \<open>The literals that \<open>draw_menu\<close> prints, in order.\<close>

definition menu_banner :: "string list" where
  "menu_banner =
     [[nl],
      ''  mm   m mmmmm  mmmm                          '' @ [dq] @ [dq] @ ''#           m              '' @ [nl],
      ''  #'' @ [dq] @ ''m  # #     #'' @ [dq] @ ''   '' @ [dq] @ ''      mmm   mmmmm  m   m   #    mmm  mm#mm   mmm   m mm '' @ [nl],
      ''  # #m # #mmmm '' @ [dq] @ ''#mmm      #'' @ [dq] @ ''  #  # # #  #   #   #   '' @ [dq] @ ''   #   #    #'' @ [dq] @ '' '' @ [dq] @ ''#  #'' @ [dq] @ ''  '' @ [dq] @ [nl],
      ''  #  # # #         '' @ [dq] @ ''#     #'' @ [dq] @ [dq] @ [dq] @ [dq] @ ''  # # #  #   #   #   m'' @ [dq] @ [dq] @ [dq] @ ''#   #    #   #  #    '' @ [nl],
      ''  #   ## #mmmm '' @ [dq] @ ''mmm#'' @ [dq] @ ''     '' @ [dq] @ ''#mm'' @ [dq] @ ''  # # #  '' @ [dq] @ ''mm'' @ [dq] @ ''#   '' @ [dq] @ ''mm '' @ [dq] @ ''mm'' @ [dq] @ ''#   '' @ [dq] @ ''mm  '' @ [dq] @ ''#m#'' @ [dq] @ ''  #    '' @ [nl],
      [nl],
      [nl],
      ''   Press the W and S keys to select an NES rom, '' @ [nl],
      ''   then press Enter to run it in the emulator. '' @ [nl] @ [nl],
      ''   Once it runs, you can scroll through the tracelog with the W and S keys.'' @ [nl] @ [nl]]"

(* src/src/kernel.c 227-249 draw_menu *)
definition draw_menu :: "kernel \<Rightarrow> kernel" where
  "draw_menu k =
     on_terminal (\<lambda>t.
       let t = reset_terminal t;
           t = fold print menu_banner t
       in fold (\<lambda>i t.
              let t = print_spaces 5 t;
                  t = (if cursor_index k = i then print '' > '' t else t);
                  t = print (test_roms k ! nat i) t
              in print [nl] t) [0 .. NUM_ROMS - 2] t) k"

(* src/src/kernel.c 251-256 increment_cursor *)
definition increment_cursor :: "kernel \<Rightarrow> kernel" where
  "increment_cursor k =
     (let k = (if cursor_index k < NUM_ROMS - 2 then k\<lparr>cursor_index := cursor_index k + 1\<rparr> else k)
      in draw_menu k)"

(* src/src/kernel.c 258-263 decrement_cursor *)
definition decrement_cursor :: "kernel \<Rightarrow> kernel" where
  "decrement_cursor k =
     (let k = (if cursor_index k > 0 then k\<lparr>cursor_index := cursor_index k - 1\<rparr> else k)
      in draw_menu k)"

subsection \<open>The keyboard\<close>

text \<open>The scroll handlers work on the log and the console; \<open>None\<close> is their \<open>None\<close>.\<close>

definition scroll :: "(logger \<Rightarrow> terminal \<Rightarrow> logger \<times> terminal option) \<Rightarrow> kernel \<Rightarrow> kernel option" where
  "scroll f k =
     (let m = k_machine k
      in case f (m_log m) (m_term m) of
           (lg, None) \<Rightarrow> None
         | (lg, Some t) \<Rightarrow> Some (k\<lparr>k_machine := m\<lparr>m_log := lg, m_term := t\<rparr>\<rparr>))"

(* src/src/drivers/keyboard/keyboard.c 6-34 handle_scancode *)
definition handle_scancode :: "u8 \<Rightarrow> kernel \<Rightarrow> kernel option" where
  "handle_scancode byte k =
     (if byte = 0x11 then (if rom_selected k then scroll scroll_up k else Some (decrement_cursor k))
      else if byte = 0x1F then (if rom_selected k then scroll scroll_down k else Some (increment_cursor k))
      else if byte = 0x1C then Some (if kernel_initialized k then k\<lparr>rom_selected := True\<rparr> else k)
      else Some k)"

definition port_out :: "u16 \<Rightarrow> u8 \<Rightarrow> kernel \<Rightarrow> kernel" where
  "port_out port val k = k\<lparr>k_ports := k_ports k @ [(port, val)]\<rparr>"

(* src/src/idt/idt.c 18-22 int21h_handler *)
definition int21h_handler :: "u8 \<Rightarrow> kernel \<Rightarrow> kernel option" where
  "int21h_handler scancode k = map_option (port_out 0x20 0x20) (handle_scancode scancode k)"

(* src/src/idt/idt.c 24-26 no_interrupt_handler *)
definition no_interrupt_handler :: "kernel \<Rightarrow> kernel" where
  "no_interrupt_handler k = port_out 0x20 0x20 k"

(* src/src/idt/idt.c 28-30 idt_zero *)
definition idt_zero :: "kernel \<Rightarrow> kernel" where
  "idt_zero k = on_terminal (print (''Divide by zero error'' @ [nl])) k"

subsection \<open>Waiting for the choice\<close>

text \<open>\<open>codes n\<close> is the \<open>n\<close>-th scancode.  The loop polls \<open>rom_selected\<close>, which only an interrupt changes.\<close>

(* src/src/kernel.c 220-222 kernel_main: menu loop *)
partial_function (option) menu_loop :: "(nat \<Rightarrow> u8) \<Rightarrow> nat \<Rightarrow> kernel \<Rightarrow> kernel option" where
  "menu_loop codes n k =
     (if \<not> rom_selected k
      then Option.bind (int21h_handler (codes n) k) (\<lambda>k. menu_loop codes (Suc n) k)
      else Some k)"

abbreviation rom_paths :: "string list" where
  "rom_paths \<equiv> [''0:/test1.nes'', ''0:/test2.nes'', ''0:/test3.nes'', ''0:/test4.nes'', ''0:/test5.nes'', ''0:/test6.nes'']"

(* src/src/kernel.c 210-224 kernel_main: from the ROM list to the emulator *)
definition kernel_menu :: "(nat \<Rightarrow> u8) \<Rightarrow> kernel \<Rightarrow> kernel option" where
  "kernel_menu codes k =
     (let k = k\<lparr>kernel_initialized := True\<rparr>;
          k = k\<lparr>test_roms := rom_paths\<rparr>;
          k = draw_menu k
      in Option.bind (menu_loop codes 0 k) (\<lambda>k.
           let m = (k_machine k)\<lparr>m_term := terminal_initialize (m_term (k_machine k))\<rparr>;
               m = state_of (emu_enable_logger True) m
           in Some (k\<lparr>k_machine := m\<rparr>)))"

(* src/src/kernel.c 210-226 kernel_main: from the ROM list on *)
definition kernel_start :: "eval_order \<Rightarrow> (string \<Rightarrow> rom_file) \<Rightarrow> (nat \<Rightarrow> u8) \<Rightarrow> kernel \<Rightarrow> machine option" where
  "kernel_start ord fs codes k =
     Option.bind (kernel_menu codes k) (\<lambda>k. emu_init ord fs (test_roms k ! nat (cursor_index k)) (k_machine k))"

subsection \<open>What the menu keeps\<close>

lemma on_terminal_frame [simp]:
  "kernel_initialized (on_terminal f k) = kernel_initialized k" "rom_selected (on_terminal f k) = rom_selected k"
  "cursor_index (on_terminal f k) = cursor_index k" "test_roms (on_terminal f k) = test_roms k"
  by (simp_all add: on_terminal_def)

lemma draw_menu_frame [simp]:
  "kernel_initialized (draw_menu k) = kernel_initialized k" "rom_selected (draw_menu k) = rom_selected k"
  "cursor_index (draw_menu k) = cursor_index k" "test_roms (draw_menu k) = test_roms k"
  by (simp_all add: draw_menu_def)

lemma port_out_frame [simp]:
  "kernel_initialized (port_out p v k) = kernel_initialized k" "rom_selected (port_out p v k) = rom_selected k"
  "cursor_index (port_out p v k) = cursor_index k" "test_roms (port_out p v k) = test_roms k"
  by (simp_all add: port_out_def)

lemma cursor_frame [simp]:
  "kernel_initialized (increment_cursor k) = kernel_initialized k" "rom_selected (increment_cursor k) = rom_selected k"
  "test_roms (increment_cursor k) = test_roms k"
  "kernel_initialized (decrement_cursor k) = kernel_initialized k" "rom_selected (decrement_cursor k) = rom_selected k"
  "test_roms (decrement_cursor k) = test_roms k"
  by (simp_all add: increment_cursor_def decrement_cursor_def)

text \<open>The emulator and its log do not change, only the console.\<close>

abbreviation but_console :: "kernel \<Rightarrow> machine" where
  "but_console k \<equiv> (k_machine k)\<lparr>m_term := blank_terminal\<rparr>"

lemma but_console_frame [simp]:
  "but_console (draw_menu k) = but_console k" "but_console (increment_cursor k) = but_console k"
  "but_console (decrement_cursor k) = but_console k" "k_machine (port_out p v k) = k_machine k"
  by (simp_all add: increment_cursor_def decrement_cursor_def draw_menu_def on_terminal_def port_out_def)

text \<open>What a key does to the position of the cursor.\<close>

definition move :: "u8 \<Rightarrow> int \<Rightarrow> int" where
  "move code c = (if code = 0x11 then max 0 (c - 1) else if code = 0x1F then min 5 (c + 1) else c)"

lemma cursor_index_move:
  "0 \<le> cursor_index k \<Longrightarrow> cursor_index (decrement_cursor k) = max 0 (cursor_index k - 1)"
  "cursor_index k \<le> 5 \<Longrightarrow> cursor_index (increment_cursor k) = min 5 (cursor_index k + 1)"
  by (simp_all add: increment_cursor_def decrement_cursor_def)

lemma scroll_frame:
  "scroll f k = Some k' \<Longrightarrow> cursor_index k' = cursor_index k \<and> rom_selected k' = rom_selected k \<and>
     kernel_initialized k' = kernel_initialized k \<and> test_roms k' = test_roms k"
  by (auto simp: scroll_def Let_def split: prod.splits option.splits)

text \<open>The keyboard as a transition system: any scancodes in any order.\<close>

inductive key_steps :: "kernel \<Rightarrow> u8 list \<Rightarrow> kernel \<Rightarrow> bool" where
  none: "key_steps k [] k"
| key: "key_steps k cs k1 \<Longrightarrow> int21h_handler c k1 = Some k2 \<Longrightarrow> key_steps k (cs @ [c]) k2"

lemma int21h_menu:
  assumes "\<not> rom_selected k" and "0 \<le> cursor_index k" and "cursor_index k \<le> 5"
  shows "\<exists>k'. int21h_handler c k = Some k' \<and> cursor_index k' = move c (cursor_index k) \<and>
    rom_selected k' = (c = 0x1C \<and> kernel_initialized k) \<and> kernel_initialized k' = kernel_initialized k \<and>
    test_roms k' = test_roms k \<and> but_console k' = but_console k"
  using assms by (simp add: int21h_handler_def handle_scancode_def move_def cursor_index_move)

lemma int21h_selected:
  assumes "rom_selected k" and "int21h_handler c k = Some k'"
  shows "rom_selected k' \<and> cursor_index k' = cursor_index k \<and> test_roms k' = test_roms k"
  using assms by (auto simp: int21h_handler_def handle_scancode_def split: if_splits dest!: scroll_frame)

lemma move_range: "0 \<le> c \<Longrightarrow> c \<le> 5 \<Longrightarrow> 0 \<le> move code c \<and> move code c \<le> 5"
  by (simp add: move_def)

text \<open>
  Claim C30.  Whatever keys are pressed, the cursor stays on one of the six ROMs of the menu, the list
  of ROMs does not change, and once a ROM is selected the selection and the cursor are final.
\<close>

theorem menu_invariant:
  assumes "key_steps k cs k'" and "0 \<le> cursor_index k" and "cursor_index k \<le> 5"
  shows "0 \<le> cursor_index k' \<and> cursor_index k' \<le> 5 \<and> test_roms k' = test_roms k \<and>
    (if rom_selected k then rom_selected k' \<and> cursor_index k' = cursor_index k else True)"
  using assms
proof (induction rule: key_steps.induct)
  case (none k)
  then show ?case by simp
next
  case (key k cs k1 c k2)
  show ?case
  proof (cases "rom_selected k1")
    case True
    then show ?thesis using key int21h_selected [OF True key.hyps(2)] by (simp split: if_splits)
  next
    case False
    then show ?thesis
      using key int21h_menu [of k1 c] move_range [of "cursor_index k1" c] by (auto split: if_splits)
  qed
qed

lemma menu_loop_returns:
  assumes "codes (n + j) = 0x1C" and "\<forall>i < j. codes (n + i) \<noteq> 0x1C"
    and "kernel_initialized k" and "\<not> rom_selected k" and "0 \<le> cursor_index k" and "cursor_index k \<le> 5"
  shows "\<exists>k'. menu_loop codes n k = Some k' \<and> rom_selected k' \<and> test_roms k' = test_roms k \<and> but_console k' = but_console k \<and>
    cursor_index k' = fold move (map codes [n ..< n + j]) (cursor_index k) \<and>
    0 \<le> cursor_index k' \<and> cursor_index k' \<le> 5"
  using assms
proof (induction j arbitrary: n k)
  case 0
  obtain k1 where k1: "int21h_handler (codes n) k = Some k1" "cursor_index k1 = move (codes n) (cursor_index k)"
    "rom_selected k1 = (codes n = 0x1C \<and> kernel_initialized k)" "test_roms k1 = test_roms k"
    "but_console k1 = but_console k"
    using int21h_menu [of k "codes n"] 0 by auto
  have "menu_loop codes n k = Some k1"
    using 0 k1 by (subst menu_loop.simps) (simp add: menu_loop.simps [of _ _ k1])
  with k1 0 show ?case by (simp add: move_def)
next
  case (Suc j)
  obtain k1 where k1: "int21h_handler (codes n) k = Some k1" "cursor_index k1 = move (codes n) (cursor_index k)"
    "rom_selected k1 = (codes n = 0x1C \<and> kernel_initialized k)" "kernel_initialized k1 = kernel_initialized k"
    "test_roms k1 = test_roms k" "but_console k1 = but_console k"
    using int21h_menu [of k "codes n"] Suc.prems by auto
  have "codes n \<noteq> 0x1C" using Suc.prems(2) by force
  have "\<exists>k'. menu_loop codes (Suc n) k1 = Some k' \<and> rom_selected k' \<and> test_roms k' = test_roms k1 \<and> but_console k' = but_console k1 \<and>
    cursor_index k' = fold move (map codes [Suc n ..< Suc n + j]) (cursor_index k1) \<and>
    0 \<le> cursor_index k' \<and> cursor_index k' \<le> 5"
  proof (rule Suc.IH)
    show "\<forall>i < j. codes (Suc n + i) \<noteq> 0x1C"
      using Suc.prems(2) by (metis Suc_less_eq add_Suc_shift)
  qed (use Suc.prems k1 \<open>codes n \<noteq> 0x1C\<close> move_range in simp_all)
  moreover have "menu_loop codes n k = menu_loop codes (Suc n) k1"
    using Suc.prems(4) k1(1) by (subst menu_loop.simps) simp
  moreover have "[n ..< n + Suc j] = n # [Suc n ..< Suc n + j]" by (simp add: upt_conv_Cons)
  ultimately show ?case using k1 by simp
qed

text \<open>
  As soon as Enter is pressed the menu is left, and the emulator is started on the ROM the
  cursor keys have led to: with W and S moving the cursor up and down between the six entries, the file
  that \<open>emu_init\<close> gets is that entry of the list.
\<close>

theorem menu_starts_chosen_rom:
  assumes "codes j = 0x1C" and "\<forall>i < j. codes i \<noteq> 0x1C"
    and "\<not> rom_selected k" and "cursor_index k = 0"
  shows "\<exists>m. kernel_start ord fs codes k = emu_init ord fs
      ([''0:/test1.nes'', ''0:/test2.nes'', ''0:/test3.nes'', ''0:/test4.nes'', ''0:/test5.nes'', ''0:/test6.nes'']
        ! nat (fold move (map codes [0 ..< j]) 0)) m \<and> logger_enabled m \<and>
    0 \<le> fold move (map codes [0 ..< j]) 0 \<and> fold move (map codes [0 ..< j]) 0 \<le> 5"
proof -
  let ?k = "draw_menu (k\<lparr>kernel_initialized := True, test_roms :=
    [''0:/test1.nes'', ''0:/test2.nes'', ''0:/test3.nes'', ''0:/test4.nes'', ''0:/test5.nes'', ''0:/test6.nes'']\<rparr>)"
  obtain k' where "menu_loop codes 0 ?k = Some k'" "test_roms k' = test_roms ?k"
    "cursor_index k' = fold move (map codes [0 ..< j]) 0" "0 \<le> cursor_index k'" "cursor_index k' \<le> 5"
    using menu_loop_returns [of codes 0 j ?k] assms by auto
  then show ?thesis
    by (intro exI [of _ "(k_machine k')\<lparr>m_term := terminal_initialize (m_term (k_machine k')), logger_enabled := True\<rparr>"])
      (simp add: kernel_start_def kernel_menu_def Let_def emu_enable_logger_def run_simps)
qed

subsection \<open>A sample session\<close>

definition demo_kernel :: kernel where
  "demo_kernel = \<lparr>k_machine = machine_with [], kernel_initialized = True, rom_selected = False,
     cursor_index = 0, test_roms = replicate 6 ''rom'', k_ports = []\<rparr>"

theorem menu_invariant_witness:
  "\<exists>k'. key_steps demo_kernel [0x11, 0x1F] k' \<and> 0 \<le> cursor_index k' \<and> cursor_index k' \<le> 5"
proof -
  obtain k1 where 1: "int21h_handler 0x11 demo_kernel = Some k1" "\<not> rom_selected k1" "cursor_index k1 = 0"
    using int21h_menu [of demo_kernel "0x11"] by (auto simp: demo_kernel_def move_def)
  obtain k2 where 2: "int21h_handler 0x1F k1 = Some k2"
    using int21h_menu [of k1 "0x1F"] 1 by auto
  have "key_steps demo_kernel ([] @ [0x11]) k1" by (rule key_steps.key [OF key_steps.none 1(1)])
  then have "key_steps demo_kernel (([] @ [0x11]) @ [0x1F]) k2" by (rule key_steps.key [OF _ 2])
  then have run: "key_steps demo_kernel [0x11, 0x1F] k2" by simp
  then show ?thesis using menu_invariant [OF run] by (intro exI [of _ k2]) (simp add: demo_kernel_def)
qed

theorem menu_starts_chosen_rom_witness:
  "\<exists>m. kernel_start Left_first (\<lambda>_. \<lparr>rf_fd = 1, rf_header = [], rf_body = []\<rparr>) (\<lambda>n. if n < 2 then 0x1F else 0x1C) demo_kernel =
     emu_init Left_first (\<lambda>_. \<lparr>rf_fd = 1, rf_header = [], rf_body = []\<rparr>) ''0:/test3.nes'' m \<and> logger_enabled m"
proof -
  have "[0 ..< 2] = [0, 1 :: nat]" by (simp add: upt_rec)
  then show ?thesis
    using menu_starts_chosen_rom [of "\<lambda>n. if n < 2 then 0x1F else 0x1C" 2 demo_kernel Left_first
        "\<lambda>_. \<lparr>rf_fd = 1, rf_header = [], rf_body = []\<rparr>"]
    by (simp add: demo_kernel_def move_def)
qed

end
