(* ===== verification/Pages.thy ===== *)
theory Pages
  imports HeapProps
begin

text \<open>
  Allocating several blocks: the contract \<open>page_allocator\<close> extends \<open>block_allocator\<close> by a count of what
  is left and by the shape of an address, and gives what clients that allocate many pages (page tables,
  parsed paths, the structures of the file system) need.  It is interpreted on \<open>kmalloc\<close> for a pool that
  starts on a page boundary, as the kernel's does.
\<close>

subsection \<open>Free blocks\<close>

definition free_blocks :: "heap \<Rightarrow> int set" where
  "free_blocks h = {b. 0 \<le> b \<and> b < total_of h \<and> block_free (entries_of h) b}"

definition avail :: "heap \<Rightarrow> nat" where
  "avail h = card (free_blocks h)"

definition pool_ok :: "heap \<Rightarrow> bool" where
  "pool_ok h \<longleftrightarrow> heap_ok h \<and> uint (hp_saddr h) mod 4096 = 0"

definition page :: "u32 \<Rightarrow> bool" where
  "page p \<longleftrightarrow> uint p mod 4096 = 0"

lemma finite_free_blocks: "finite (free_blocks h)"
  by (rule finite_subset [of _ "{0 ..< total_of h}"]) (auto simp: free_blocks_def)

lemma free_blocks_taken:
  assumes "fits (entries_of h) (total_of h) 1 s"
  shows "free_blocks (heap_mark_blocks_taken h s 1) = free_blocks h - {s}" and "s \<in> free_blocks h"
  using assms
  by (auto simp: free_blocks_def fits_def run_free_def block_free_def mark_blocks_taken_entries alloc_entry_def)

lemma avail_taken:
  "fits (entries_of h) (total_of h) 1 s \<Longrightarrow> Suc (avail (heap_mark_blocks_taken h s 1)) = avail h"
  unfolding avail_def
  by (simp only: free_blocks_taken(1) card_Suc_Diff1 finite_free_blocks free_blocks_taken(2))

lemma fits_one: "b \<in> free_blocks h \<Longrightarrow> fits (entries_of h) (total_of h) 1 b"
  using order_antisym [of _ b] by (auto simp: free_blocks_def fits_def run_free_def)

lemma avail_free:
  assumes ok: "heap_ok h" and p: "p \<in> live h"
  shows "Suc (avail h) \<le> avail (heap_free h p)"
proof -
  from p obtain b where b: "0 \<le> b" "b < total_of h" "is_head (entries_of h b)"
    and p_eq: "p = heap_block_to_address h b"
    by (auto simp: live_def live_blocks_def)
  have tok: "table_ok (entries_of h) (total_of h)" using ok by (simp add: heap_ok_def)
  from chain_exists [OF tok b(1,2)] obtain n
    where n: "chain (entries_of h) b n" "b + n \<le> total_of h" by blast
  have "0 < n" using n(1) by (simp add: chain_def)
  then have "insert b (free_blocks h) \<subseteq> free_blocks (heap_free h p)"
    using b(1,2) by (auto simp: free_blocks_def p_eq heap_free_chain [OF ok b(1,2) n] block_free_def)
  moreover have "b \<notin> free_blocks h" using head_not_free [OF b(3)] by (simp add: free_blocks_def block_free_def)
  ultimately have "card (insert b (free_blocks h)) \<le> avail (heap_free h p)"
    unfolding avail_def by (intro card_mono finite_free_blocks)
  then show ?thesis using \<open>b \<notin> free_blocks h\<close> by (simp add: finite_free_blocks avail_def)
qed

lemma live_page:
  assumes "pool_ok h" and "p \<in> live h"
  shows "page p"
proof -
  from assms(2) obtain b where b: "0 \<le> b" "b < total_of h" "p = heap_block_to_address h b"
    by (auto simp: live_def live_blocks_def)
  with assms(1) have "uint p = uint (hp_saddr h) + b * 4096"
    by (simp add: uint_block_address pool_ok_def)
  with assms(1) show ?thesis by (simp add: page_def pool_ok_def)
qed

subsection \<open>Sequences of allocations\<close>

fun alloc_list :: "('h \<Rightarrow> 'sz \<Rightarrow> 'p \<times> 'h) \<Rightarrow> 'h \<Rightarrow> 'sz list \<Rightarrow> 'p list \<times> 'h" where
  "alloc_list alloc h [] = ([], h)"
| "alloc_list alloc h (n # ns) =
     (let (p, h) = alloc h n; (ps, h) = alloc_list alloc h ns in (p # ps, h))"

text \<open>\<open>ps\<close> are new, different addresses: what a successful sequence of allocations from \<open>h\<close> to \<open>h'\<close> gives.\<close>

locale page_allocator = block_allocator alloc release owned ok small null
  for alloc :: "'h \<Rightarrow> 'sz \<Rightarrow> 'p \<times> 'h" and release owned ok small null +
  fixes left :: "'h \<Rightarrow> nat"
    and aligned :: "'p \<Rightarrow> bool"
  assumes alloc_progress: "ok h \<Longrightarrow> small n \<Longrightarrow> 0 < left h \<Longrightarrow> fst (alloc h n) \<noteq> null"
    and alloc_left: "ok h \<Longrightarrow> small n \<Longrightarrow> fst (alloc h n) \<noteq> null \<Longrightarrow> Suc (left (snd (alloc h n))) = left h"
    and release_left: "ok h \<Longrightarrow> p \<in> owned h \<Longrightarrow> Suc (left h) \<le> left (release h p)"
    and owned_aligned: "ok h \<Longrightarrow> p \<in> owned h \<Longrightarrow> aligned p"
begin

lemma alloc_one:
  assumes "ok h" and "small n" and "0 < left h" and "alloc h n = (p, h')"
  shows "p \<noteq> null" "p \<notin> owned h" "aligned p" "ok h'" "owned h' = insert p (owned h)" "Suc (left h') = left h"
proof -
  show p: "p \<noteq> null" using alloc_progress [OF assms(1-3)] assms(4) by simp
  show "p \<notin> owned h" using alloc_fresh [OF assms(1,2)] p assms(4) by simp
  show ok': "ok h'" using alloc_ok [OF assms(1,2)] assms(4) by simp
  show own: "owned h' = insert p (owned h)" using alloc_owned [OF assms(1,2)] p assms(4) by simp
  show "aligned p" using owned_aligned [OF ok'] own by simp
  show "Suc (left h') = left h" using alloc_left [OF assms(1,2)] p assms(4) by simp
qed

lemma alloc_many:
  assumes "ok h" and "\<forall>n \<in> set ns. small n" and "length ns \<le> left h" and "alloc_list alloc h ns = (ps, h')"
  shows "length ps = length ns \<and> distinct ps \<and> null \<notin> set ps \<and> set ps \<inter> owned h = {} \<and>
    (\<forall>p \<in> set ps. aligned p) \<and> ok h' \<and> owned h' = owned h \<union> set ps \<and> left h' + length ns = left h"
  using assms
proof (induction ns arbitrary: h ps)
  case Nil
  then show ?case by simp
next
  case (Cons n ns)
  obtain p h1 where 1: "alloc h n = (p, h1)" by (cases "alloc h n")
  obtain qs where 2: "alloc_list alloc h1 ns = (qs, h')" "ps = p # qs"
    using Cons.prems(4) 1 by (auto split: prod.splits)
  have one: "p \<noteq> null" "p \<notin> owned h" "aligned p" "ok h1" "owned h1 = insert p (owned h)" "Suc (left h1) = left h"
    using alloc_one [OF Cons.prems(1) _ _ 1] Cons.prems(2,3) by simp_all
  have "length ns \<le> left h1" using Cons.prems(3) one(6) by simp
  with Cons.IH [OF one(4) _ _ 2(1)] Cons.prems(2) one 2(2) show ?case by auto
qed

lemma release_many:
  assumes "ok h" and "set ps \<subseteq> owned h" and "distinct ps"
  shows "ok (fold (\<lambda>p h. release h p) ps h) \<and> owned (fold (\<lambda>p h. release h p) ps h) = owned h - set ps"
  using assms
proof (induction ps arbitrary: h)
  case Nil
  then show ?case by simp
next
  case (Cons p ps)
  then have "ok (release h p)" "owned (release h p) = owned h - {p}"
    by (simp_all add: release_ok release_owned)
  with Cons.IH [of "release h p"] Cons.prems show ?case by auto
qed

lemma release_many_left:
  assumes "ok h" and "set ps \<subseteq> owned h" and "distinct ps"
  shows "left h \<le> left (fold (\<lambda>p h. release h p) ps h)"
  using assms
proof (induction ps arbitrary: h)
  case Nil
  then show ?case by simp
next
  case (Cons p ps)
  then have "ok (release h p)" "owned (release h p) = owned h - {p}" "Suc (left h) \<le> left (release h p)"
    by (simp_all add: release_ok release_owned release_left)
  moreover have "set ps \<subseteq> owned h - {p}" using Cons.prems by auto
  ultimately show ?case using Cons.IH [of "release h p"] Cons.prems(3) by simp
qed

end

interpretation kernel_pages: page_allocator kmalloc kfree live pool_ok one_block 0 avail page
proof (unfold_locales, goal_cases)
  case (1 h n)
  then have "hp_saddr (snd (kmalloc h n)) = hp_saddr h"
    by (auto simp: pool_ok_def elim!: kmalloc_one_block)
  with 1 kernel_allocator.alloc_ok [of h n] show ?case by (simp add: pool_ok_def)
next
  case (6 h p)
  with kernel_allocator.release_ok [of h p] show ?case by (simp add: pool_ok_def kfree_def)
next
  case (8 h n)
  then obtain b where "b \<in> free_blocks h" by (auto simp: avail_def card_gt_0_iff)
  then have some: "fits (entries_of h) (total_of h) 1 b" by (rule fits_one)
  have ok: "heap_ok h" using 8(1) by (simp add: pool_ok_def)
  from ok 8(2) show ?case
  proof (cases rule: kmalloc_one_block)
    case (fit s)
    then show ?thesis using block_address_nonzero [OF ok, of s] by (simp add: first_fit_def fits_def)
  next
    case full
    with some show ?thesis by blast
  qed
next
  case (9 h n)
  then show ?case by (auto simp: pool_ok_def first_fit_def avail_taken elim!: kmalloc_one_block)
next
  case (10 h p)
  then show ?case by (simp add: pool_ok_def kfree_def avail_free)
next
  case (11 h p)
  then show ?case by (rule live_page)
qed (simp_all add: pool_ok_def kernel_allocator.alloc_fresh kernel_allocator.alloc_owned
    kernel_allocator.alloc_null kernel_allocator.release_owned zero_not_live)

text \<open>The kernel's heap right after its initialisation: 25600 free blocks.\<close>

lemma kheap_init_pool: "pool_ok (snd (kheap_init h))"
  using kheap_init_ok [of h] by (simp add: pool_ok_def kheap_init_eq)

lemma kheap_init_avail: "avail (snd (kheap_init h)) = 25600"
proof -
  have "free_blocks (snd (kheap_init h)) = {0 ..< 25600}"
    by (auto simp: free_blocks_def kheap_init_eq block_free_def memset_apply)
  then show ?thesis by (simp add: avail_def)
qed

subsection \<open>The pool and its pages\<close>

definition pool :: "heap \<Rightarrow> int set" where
  "pool h = {uint (hp_saddr h) ..< uint (hp_saddr h) + total_of h * 4096}"

definition page_range :: "u32 \<Rightarrow> int set" where
  "page_range p = {uint p ..< uint p + 4096}"

lemma kmalloc_pool: "heap_ok h \<Longrightarrow> one_block n \<Longrightarrow> pool (snd (kmalloc h n)) = pool h"
  by (erule (1) kmalloc_one_block) (simp_all add: pool_def)

lemma kfree_pool [simp]: "pool (kfree h p) = pool h"
  by (simp add: pool_def kfree_def)

lemma fold_kfree_pool [simp]: "pool (fold (\<lambda>p h. kfree h p) ps h) = pool h"
  by (induction ps arbitrary: h) simp_all

lemma page_in_pool:
  assumes "heap_ok h" and "p \<in> live h"
  shows "page_range p \<subseteq> pool h"
proof -
  from assms(2) obtain b where b: "0 \<le> b" "b < total_of h" "p = heap_block_to_address h b"
    by (auto simp: live_def live_blocks_def)
  with assms(1) have "uint p = uint (hp_saddr h) + b * 4096" by (simp add: uint_block_address)
  moreover have "(b + 1) * 4096 \<le> total_of h * 4096" using b by (intro mult_right_mono) simp_all
  ultimately show ?thesis using b by (auto simp: page_range_def pool_def algebra_simps)
qed

lemma pages_disjoint:
  assumes "page p" and "page q" and "p \<noteq> q"
  shows "page_range p \<inter> page_range q = {}"
proof -
  obtain i j where "uint p = 4096 * i" "uint q = 4096 * j"
    using assms(1,2) by (auto simp: page_def elim!: dvdE)
  moreover have "i \<noteq> j" using assms(3) calculation by (auto simp: word_uint_eq_iff)
  ultimately show ?thesis by (auto simp: page_range_def)
qed

subsection \<open>The bytes of taken blocks\<close>

definition held :: "heap \<Rightarrow> int set" where
  "held h = {a \<in> pool h. \<not> block_free (entries_of h) ((a - uint (hp_saddr h)) div 4096)}"

text \<open>In \<open>h'\<close> the blocks that are taken in \<open>h\<close> are taken as before.\<close>

definition keeps :: "heap \<Rightarrow> heap \<Rightarrow> bool" where
  "keeps h h' \<longleftrightarrow> hp_saddr h' = hp_saddr h \<and> total_of h' = total_of h \<and>
     (\<forall>b. 0 \<le> b \<and> b < total_of h \<and> \<not> block_free (entries_of h) b \<longrightarrow> entries_of h' b = entries_of h b)"

lemma keeps_refl: "keeps h h"
  by (simp add: keeps_def)

lemma keeps_trans: "keeps h h1 \<Longrightarrow> keeps h1 h2 \<Longrightarrow> keeps h h2"
  by (auto simp: keeps_def block_free_def)

lemma keeps_pool: "keeps h h' \<Longrightarrow> pool h' = pool h"
  by (simp add: keeps_def pool_def)

lemma block_of_address: "a \<in> pool h \<Longrightarrow> 0 \<le> (a - uint (hp_saddr h)) div 4096 \<and> (a - uint (hp_saddr h)) div 4096 < total_of h"
  by (auto simp: pool_def pos_imp_zdiv_nonneg_iff div_less_iff_less_mult)

lemma keeps_held: "keeps h h' \<Longrightarrow> held h \<subseteq> held h'"
  using keeps_pool [of h h'] block_of_address [of _ h] by (auto simp: held_def keeps_def block_free_def)

lemma keeps_live: "keeps h h' \<Longrightarrow> live h \<subseteq> live h'"
proof
  fix q assume k: "keeps h h'" and "q \<in> live h"
  then obtain b where b: "0 \<le> b" "b < total_of h" "is_head (entries_of h b)" "q = heap_block_to_address h b"
    by (auto simp: live_def live_blocks_def)
  moreover have "heap_block_to_address h' b = heap_block_to_address h b" using k by (simp add: keeps_def heap_block_to_address_def)
  moreover have "\<not> block_free (entries_of h) b" using head_not_free [OF b(3)] by (simp add: block_free_def)
  ultimately show "q \<in> live h'" using k unfolding keeps_def live_def live_blocks_def by force
qed

lemma page_of_block:
  assumes "heap_ok h" and "0 \<le> b" and "b < total_of h" and "a \<in> page_range (heap_block_to_address h b)"
  shows "(a - uint (hp_saddr h)) div 4096 = b" and "a \<in> pool h"
proof -
  have a: "uint (hp_saddr h) + b * 4096 \<le> a" "a < uint (hp_saddr h) + b * 4096 + 4096"
    using assms(4) uint_block_address [OF assms(1-3)] by (simp_all add: page_range_def)
  then show "(a - uint (hp_saddr h)) div 4096 = b"
    by (intro int_div_pos_eq [of _ _ _ "a - uint (hp_saddr h) - b * 4096"]) simp_all
  have "(b + 1) * 4096 \<le> total_of h * 4096" using assms(3) by (intro mult_right_mono) simp_all
  moreover have "0 \<le> b * 4096" using assms(2) by simp
  ultimately show "a \<in> pool h" using a unfolding pool_def atLeastLessThan_iff distrib_right by linarith
qed

text \<open>The page of a live block is held; the page of a block that is new in \<open>h'\<close> was not.\<close>

lemma page_held:
  assumes "heap_ok h" and "q \<in> live h"
  shows "page_range q \<subseteq> held h"
proof
  fix a assume a: "a \<in> page_range q"
  obtain b where b: "0 \<le> b" "b < total_of h" "is_head (entries_of h b)" "q = heap_block_to_address h b"
    using assms(2) by (auto simp: live_def live_blocks_def)
  with a page_of_block [OF assms(1) b(1,2), of a] head_not_free [OF b(3)] show "a \<in> held h"
    by (simp add: held_def block_free_def)
qed

lemma page_not_held:
  assumes "keeps h h'" and "heap_ok h'" and "p \<in> live h'" and "p \<notin> live h"
  shows "page_range p \<inter> held h = {}"
proof (rule equals0I)
  fix a assume a: "a \<in> page_range p \<inter> held h"
  obtain b where b: "0 \<le> b" "b < total_of h'" "is_head (entries_of h' b)" "p = heap_block_to_address h' b"
    using assms(3) by (auto simp: live_def live_blocks_def)
  have same: "hp_saddr h' = hp_saddr h" "total_of h' = total_of h" using assms(1) by (simp_all add: keeps_def)
  have "(a - uint (hp_saddr h)) div 4096 = b" using page_of_block [OF assms(2) b(1,2), of a] a b(4) same by simp
  then have "\<not> block_free (entries_of h) b" using a by (simp add: held_def)
  then have "is_head (entries_of h b)" using assms(1) b same by (simp add: keeps_def)
  moreover have "p = heap_block_to_address h b" using b(4) same by (simp add: heap_block_to_address_def)
  ultimately have "p \<in> live h" using b(1,2) same by (auto simp: live_def live_blocks_def)
  then show False using assms(4) by simp
qed

lemma keeps_taken: "fits (entries_of h) (total_of h) n s \<Longrightarrow> 0 < n \<Longrightarrow> keeps h (heap_mark_blocks_taken h s n)"
  by (auto simp: keeps_def mark_blocks_taken_entries fits_def run_free_def)

text \<open>A chain that was not there before does not run into a block that was taken.\<close>

lemma keeps_free:
  assumes "keeps h h1" and "heap_ok h" and "heap_ok h1" and "p \<in> live h1" and "p \<notin> live h"
  shows "keeps h (kfree h1 p)"
proof -
  have same: "hp_saddr h1 = hp_saddr h" "total_of h1 = total_of h" using assms(1) by (simp_all add: keeps_def)
  obtain b where b: "0 \<le> b" "b < total_of h1" "is_head (entries_of h1 b)" "p = heap_block_to_address h1 b"
    using assms(4) by (auto simp: live_def live_blocks_def)
  have tok: "table_ok (entries_of h1) (total_of h1)" "table_ok (entries_of h) (total_of h)"
    using assms(2,3) by (simp_all add: heap_ok_def)
  from chain_exists [OF tok(1) b(1,2)] obtain n where n: "chain (entries_of h1) b n" "b + n \<le> total_of h1"
    "\<forall>k. b < k \<and> k < b + n \<longrightarrow> is_cont (entries_of h1 k)" by blast
  have "block_free (entries_of h) (b + int i)" if "int i < n" for i
    using that
  proof (induction i)
    case 0
    show ?case
    proof (rule ccontr)
      assume "\<not> block_free (entries_of h) (b + int 0)"
      then have "is_head (entries_of h b)" using assms(1) b same by (simp add: keeps_def)
      then show False using assms(5) b same by (auto simp: live_def live_blocks_def heap_block_to_address_def)
    qed
  next
    case (Suc i)
    let ?k = "b + int (Suc i)"
    have k: "0 \<le> ?k" "?k < total_of h" "0 \<le> ?k - 1" "?k - 1 < total_of h" using Suc.prems b(1) n(2) same by simp_all
    have "?k - 1 = b + int i" by simp
    with Suc have free: "block_free (entries_of h) (?k - 1)" by simp
    have zero: "entries_of h (?k - 1) = 0" by (rule free_entry_zero [OF tok(2) k(3,4) free])
    show ?case
    proof (rule ccontr)
      assume "\<not> block_free (entries_of h) ?k"
      then have "entries_of h1 ?k = entries_of h ?k" using assms(1) k(1,2) by (simp add: keeps_def)
      moreover have "is_cont (entries_of h1 ?k)" using n(3) Suc.prems by simp
      ultimately have "has_next (entries_of h (?k - 1))" using table_okD [OF tok(2) k(1,2)] by (simp add: entry_ok_def)
      then show False unfolding zero by (simp add: has_next_def)
    qed
  qed
  then have free: "block_free (entries_of h) j" if "b \<le> j" "j < b + n" for j
    using that by (metis add_diff_cancel_left' add_diff_eq int_nat_eq zle_iff_zadd add.commute add_less_cancel_left)
  show ?thesis
    using assms(1) free heap_free_chain [OF assms(3) b(1,2) n(1,2)] by (auto simp: keeps_def kfree_def b(4))
qed

lemma kmalloc_keeps:
  assumes "heap_ok h" and "one_block n"
  shows "keeps h (snd (kmalloc h n))"
  using assms by (rule kmalloc_one_block) (auto simp: keeps_refl first_fit_def intro!: keeps_taken)

text \<open>Every allocation on its own is a heap.\<close>

lemma live_alone:
  assumes "pool_ok h" and "p \<in> live h"
  shows "\<exists>g. pool_ok g \<and> keeps g h \<and> live g = {p}"
proof -
  obtain b where b: "0 \<le> b" "b < total_of h" "is_head (entries_of h b)" "p = heap_block_to_address h b"
    using assms(2) by (auto simp: live_def live_blocks_def)
  have tok: "table_ok (entries_of h) (total_of h)" using assms(1) by (simp add: pool_ok_def heap_ok_def)
  from chain_exists [OF tok b(1,2)] obtain n where n: "chain (entries_of h) b n" "b + n \<le> total_of h"
    "\<forall>k. b < k \<and> k < b + n \<longrightarrow> is_cont (entries_of h k)" by blast
  have pos: "0 < n" using n(1) by (simp add: chain_def)
  let ?e = "\<lambda>j. if b \<le> j \<and> j < b + n then entries_of h j else 0"
  let ?g = "with_entries h ?e"
  have "entry_ok ?e (total_of h) i" if i: "0 \<le> i" "i < total_of h" for i
  proof (cases "b \<le> i \<and> i < b + n")
    case True
    note old = table_okD [OF tok i, unfolded entry_ok_def]
    have "\<not> has_next (entries_of h i)" if "\<not> i + 1 < b + n"
    proof -
      have "i = b + n - 1" using that True by simp
      then show ?thesis using n(1) by (simp add: chain_def)
    qed
    moreover have "\<not> is_cont (entries_of h i)" if "\<not> b \<le> i - 1"
    proof -
      have "i = b" using that True by simp
      then show ?thesis using is_head_not_cont [OF b(3)] by simp
    qed
    ultimately show ?thesis using old True by (auto simp: entry_ok_def)
  next
    case False
    then have "?e i = 0" by (simp only: if_False)
    moreover have "\<not> is_cont 0" "\<not> has_next 0" by (simp_all add: is_cont_def has_next_def)
    ultimately show ?thesis by (simp only: entry_ok_def simp_thms)
  qed
  then have "table_ok ?e (total_of h)" by (simp add: table_ok_def)
  then have "pool_ok ?g" using assms(1) by (simp add: pool_ok_def heap_ok_def)
  moreover have "keeps ?g h" by (auto simp: keeps_def block_free_def heap_get_entry_type_def)
  moreover have "live_blocks ?g = {b}"
  proof -
    have "k = b" if "b \<le> k" "k < b + n" "is_head (entries_of h k)" for k
      using that n(3) is_head_not_cont by (metis order_le_less)
    moreover have "\<not> is_head 0" by (simp add: is_head_def)
    ultimately show ?thesis using b(1-3) pos n(2) by (auto simp: live_blocks_def split: if_splits)
  qed
  then have "live ?g = {p}" by (simp add: live_def b(4) heap_block_to_address_def)
  ultimately show ?thesis by blast
qed

end
