(* ===== verification/Paging.thy ===== *)
theory Paging
  imports Pages
begin

text \<open>
  Page tables: \<open>src/memory/paging/paging.c\<close>.  The code reads and writes the tables as arrays of 32-bit
  entries; \<open>pmem\<close> is the physical memory seen that way, indexed by the address of the entry, and
  \<open>dword p i\<close> is the address of \<open>p[i]\<close>.  \<open>walk\<close> is the entry the MMU finds for a virtual address.
  The properties: a new chunk maps every address to itself, mapping a page changes the translation of
  that page only, and a range is mapped no further than its first page.
\<close>

type_synonym pmem = "u32 \<Rightarrow> u32"

definition dword :: "u32 \<Rightarrow> u32 \<Rightarrow> u32" where
  "dword p i = p + 4 * i"

subsection \<open>Operations\<close>

text \<open>\<open>kzalloc\<close> of \<open>n\<close> entries.\<close>

definition clear_dwords :: "pmem \<Rightarrow> u32 \<Rightarrow> int \<Rightarrow> pmem" where
  "clear_dwords m p n = (\<lambda>a. if uint p \<le> uint a \<and> uint a < uint p + 4 * n then 0 else m a)"

definition kzalloc_dwords :: "heap \<Rightarrow> pmem \<Rightarrow> int \<Rightarrow> u32 \<times> heap \<times> pmem" where
  "kzalloc_dwords h m n =
     (let (p, h) = kmalloc h (word_of_int (4 * n))
      in (p, h, if p = 0 then m else clear_dwords m p n))"

(* src/src/memory/paging/paging.c 15-18 paging_new_4gb: table loop *)
definition fill_table :: "u32 \<Rightarrow> u32 \<Rightarrow> u8 \<Rightarrow> pmem \<Rightarrow> pmem" where
  "fill_table entry offset flags m =
     fold (\<lambda>b m. m(dword entry (word_of_nat b) := (offset + word_of_nat b * 4096) OR ucast flags)) [0 ..< 1024] m"

text \<open>\<open>offset\<close> is an \<open>int\<close> that runs through the whole 32-bit range, as it does on the target.\<close>

(* src/src/memory/paging/paging.c 12-21 paging_new_4gb: loop body *)
definition new_table :: "u8 \<Rightarrow> u32 \<Rightarrow> nat \<Rightarrow> heap \<times> pmem \<times> u32 \<Rightarrow> heap \<times> pmem \<times> u32" where
  "new_table flags directory i =
     (\<lambda>(h, m, offset).
        let (entry, h, m) = kzalloc_dwords h m 1024;
            m = fill_table entry offset flags m;
            offset = offset + 1024 * 4096
        in (h, m(dword directory (word_of_nat i) := entry OR ucast flags OR 2), offset))"

text \<open>The result is the address of the chunk, whose only field is the directory's address.\<close>

(* src/src/memory/paging/paging.c 8-27 paging_new_4gb *)
definition paging_new_4gb :: "u8 \<Rightarrow> heap \<Rightarrow> pmem \<Rightarrow> u32 \<times> heap \<times> pmem" where
  "paging_new_4gb flags h m =
     (let (directory, h, m) = kzalloc_dwords h m 1024;
          (h, m, offset) = fold (new_table flags directory) [0 ..< 1024] (h, m, 0);
          (chunk_4gb, h, m) = kzalloc_dwords h m 1
      in (chunk_4gb, h, m(chunk_4gb := directory)))"

(* src/src/memory/paging/paging.c 35-38 paging_4gb_chunk_get_directory *)
definition paging_4gb_chunk_get_directory :: "pmem \<Rightarrow> u32 \<Rightarrow> u32" where
  "paging_4gb_chunk_get_directory m chunk = m chunk"

(* src/src/memory/paging/paging.c 40-42 paging_is_aligned *)
definition paging_is_aligned :: "u32 \<Rightarrow> bool" where
  "paging_is_aligned addr \<longleftrightarrow> addr mod 4096 = 0"

text \<open>The two out-parameters are written only on success.\<close>

(* src/src/memory/paging/paging.c 44-57 paging_get_indexes *)
definition paging_get_indexes :: "u32 \<Rightarrow> u32 \<times> u32 \<Rightarrow> int \<times> u32 \<times> u32" where
  "paging_get_indexes virtual_address out =
     (if \<not> paging_is_aligned virtual_address then (- EINVARG, out)
      else (0, virtual_address div (1024 * 4096), virtual_address mod (1024 * 4096) div 4096))"

(* src/src/memory/paging/paging.c 59-79 paging_set *)
definition paging_set :: "pmem \<Rightarrow> u32 \<Rightarrow> u32 \<Rightarrow> u32 \<Rightarrow> int \<times> pmem" where
  "paging_set m directory virt val =
     (if \<not> paging_is_aligned virt then (- EINVARG, m)
      else
        let (res, directory_index, table_index) = paging_get_indexes virt (0, 0)
        in if res < 0 then (res, m)
           else
             let entry = m (dword directory directory_index);
                 table = entry AND 0xfffff000
             in (0, m(dword table table_index := val)))"

(* src/src/memory/paging/paging.c 119-119 paging_map *)
definition paging_map :: "pmem \<Rightarrow> u32 \<Rightarrow> u32 \<Rightarrow> u32 \<Rightarrow> u32 \<Rightarrow> int \<times> pmem" where
  "paging_map m directory virt phys flags =
     (if virt mod 4096 \<noteq> 0 \<or> phys mod 4096 \<noteq> 0 then (- EINVARG, m)
      else paging_set m directory virt (phys OR flags))"

(* src/src/memory/paging/paging.c 122-132 paging_map_range *)
fun map_range_loop :: "nat \<Rightarrow> pmem \<Rightarrow> u32 \<Rightarrow> u32 \<Rightarrow> u32 \<Rightarrow> u32 \<Rightarrow> int \<Rightarrow> int \<times> pmem" where
  "map_range_loop 0 m directory virt phys flags res = (res, m)"
| "map_range_loop (Suc n) m directory virt phys flags res =
     (let (res, m) = paging_map m directory virt phys flags
      in if res = 0 then (res, m)
         else map_range_loop n m directory (virt + 4096) (phys + 4096) flags res)"

(* src/src/memory/paging/paging.c 122-132 paging_map_range *)
definition paging_map_range :: "pmem \<Rightarrow> u32 \<Rightarrow> u32 \<Rightarrow> u32 \<Rightarrow> int \<Rightarrow> u32 \<Rightarrow> int \<times> pmem" where
  "paging_map_range m directory virt phys count flags =
     map_range_loop (nat count) m directory virt phys flags 0"

(* src/src/memory/paging/paging.c 92-115 paging_map_to *)
definition paging_map_to :: "pmem \<Rightarrow> u32 \<Rightarrow> u32 \<Rightarrow> u32 \<Rightarrow> u32 \<Rightarrow> u32 \<Rightarrow> int \<times> pmem" where
  "paging_map_to m directory virt phys phys_end flags =
     (if virt mod 4096 \<noteq> 0 then (- EINVARG, m)
      else if phys mod 4096 \<noteq> 0 then (- EINVARG, m)
      else if phys_end mod 4096 \<noteq> 0 then (- EINVARG, m)
      else if phys_end < phys then (- EINVARG, m)
      else
        let total_bytes = phys_end - phys;
            total_pages = sint (total_bytes div 4096)
        in paging_map_range m directory virt phys total_pages flags)"

(* src/src/memory/paging/paging.c 117-117 paging_align_address *)
definition paging_align_address :: "u32 \<Rightarrow> u32" where
  "paging_align_address ptr = (if ptr mod 4096 \<noteq> 0 then ptr + 4096 - ptr mod 4096 else ptr)"

(* src/src/memory/paging/paging.c 81-90 paging_free_4gb *)
definition paging_free_4gb :: "u32 \<Rightarrow> pmem \<Rightarrow> heap \<Rightarrow> heap" where
  "paging_free_4gb chunk m h =
     (let h = fold (\<lambda>i h. let entry = m (dword (m chunk) (word_of_nat i));
                              table = entry AND 0xfffff000
                          in kfree h table) [0 ..< 1024] h;
          h = kfree h (m chunk)
      in kfree h chunk)"

text \<open>\<open>paging_load_directory\<close> loads CR3.\<close>

record mmu =
  cr3 :: u32
  current_directory :: u32

(* src/src/memory/paging/paging.c 29-33 paging_switch *)
definition paging_switch :: "u32 \<Rightarrow> mmu \<Rightarrow> mmu" where
  "paging_switch directory s = s\<lparr>cr3 := directory, current_directory := directory\<rparr>"

subsection \<open>Addresses in pages\<close>

definition page_of :: "u32 \<Rightarrow> u32" where
  "page_of a = a AND 0xfffff000"

lemma page_of_drop: "page_of a = push_bit 12 (drop_bit 12 a)"
proof (rule bit_word_eqI)
  fix n assume n: "n < LENGTH(32)"
  have "bit (0xfffff000 :: u32) n \<longleftrightarrow> 12 \<le> n"
  proof -
    have eq: "(0xfffff000 :: u32) = NOT (mask 12)" by (simp add: mask_eq_exp_minus_1)
    show ?thesis
      using n by (simp only: eq bit_not_iff bit_mask_iff possible_bit_word) auto
  qed
  then show "bit (page_of a) n = bit (push_bit 12 (drop_bit 12 a)) n"
    using n by (auto simp: page_of_def bit_simps)
qed

lemma uint_page_of: "uint (page_of a) = uint a - uint a mod 4096"
proof -
  have t: "take_bit 32 (uint a) = uint a" using uint_bounded [of a] by (simp add: take_bit_int_eq_self)
  have "uint (page_of a) = take_bit 32 (push_bit 12 (drop_bit 12 (uint a)))"
    by (simp add: page_of_drop unsigned_push_bit_eq unsigned_drop_bit_eq t)
  also have "\<dots> = push_bit 12 (drop_bit 12 (uint a))"
  proof (rule take_bit_int_eq_self)
    show "0 \<le> push_bit 12 (drop_bit 12 (uint a))" by simp
    have "push_bit 12 (drop_bit 12 (uint a)) = uint a div 4096 * 4096"
      by (simp add: push_bit_eq_mult drop_bit_eq_div)
    also have "\<dots> \<le> uint a" by (simp add: minus_mod_eq_div_mult [symmetric])
    finally show "push_bit 12 (drop_bit 12 (uint a)) < 2 ^ 32"
      using uint_bounded [of a] by simp
  qed
  also have "\<dots> = uint a div 4096 * 4096" by (simp add: push_bit_eq_mult drop_bit_eq_div)
  finally show ?thesis by (simp add: minus_mod_eq_div_mult)
qed

lemma page_page_of [simp]: "page (page_of a)"
  by (simp add: page_def uint_page_of)

lemma page_of_page [simp]: "page p \<Longrightarrow> page_of p = p"
  by (simp add: word_uint_eq_iff uint_page_of page_def)

lemma page_aligned: "a mod 4096 = 0 \<longleftrightarrow> page a"
  by (simp add: page_def word_uint_eq_iff uint_mod)

lemma uint_dword:
  assumes "page p" and "i < 1024"
  shows "uint (dword p i) = uint p + 4 * uint i"
proof -
  have i: "uint i < 1024" using assms(2) by (simp add: word_less_def)
  then have 4: "uint (4 * i) = 4 * uint i"
    by (simp add: uint_word_ariths)
  obtain q where q: "uint p = 4096 * q" using assms(1) by (auto simp: page_def)
  moreover have "uint p < 4294967296" using uint_bounded [of p] by simp
  ultimately have "q < 1048576" by simp
  then have "uint p + 4096 \<le> 4294967296" using q by simp
  then have "uint p + 4 * uint i < 4294967296" using i by linarith
  then have "uint p + uint (4 * i) < 2 ^ LENGTH(32)" unfolding 4 by simp
  then show ?thesis unfolding dword_def 4 [symmetric] by (rule uint_add_no_wrap)
qed

lemma page_of_dword [simp]:
  assumes "page p" and "i < 1024"
  shows "page_of (dword p i) = p"
proof -
  have "uint i < 1024" using assms(2) by (simp add: word_less_def)
  then have "4 * uint i mod 4096 = 4 * uint i" by simp
  moreover have "(uint p + 4 * uint i) mod 4096 = 4 * uint i mod 4096"
    using assms(1) by (simp add: page_def mod_add_eq [symmetric, of "uint p"])
  ultimately show ?thesis
    using assms by (simp add: word_uint_eq_iff uint_page_of uint_dword)
qed

lemma dword_eq [simp]:
  assumes "page p" "page q" "i < 1024" "j < 1024"
  shows "dword p i = dword q j \<longleftrightarrow> p = q \<and> i = j"
proof
  assume eq: "dword p i = dword q j"
  then have "p = q" using assms page_of_dword by metis
  with eq show "p = q \<and> i = j"
    using assms uint_dword [of q i] uint_dword [of q j] by (simp add: word_uint_eq_iff)
qed simp

lemma page_of_or:
  assumes "page p"
  shows "page_of (p OR ucast (f :: u8) OR 2) = p"
proof -
  have "page_of (p OR ucast f OR 2) = page_of p OR page_of (ucast f OR 2)"
    by (simp add: page_of_def bit.conj_disj_distrib2 or.assoc)
  moreover have "page_of (ucast f OR 2) = 0"
  proof -
    have "drop_bit 12 (ucast f OR 2 :: u32) = 0"
      by (rule bit_word_eqI) (auto simp: bit_simps dest: bit_imp_le_length)
    then show ?thesis by (simp add: page_of_drop)
  qed
  ultimately show ?thesis using assms by simp
qed

lemma page_of_range:
  assumes "page p" and "uint p \<le> uint a" and "uint a < uint p + 4096"
  shows "page_of a = p"
proof -
  obtain q where q: "uint p = 4096 * q" using assms(1) by (auto simp: page_def)
  have "uint a = 4096 * q + (uint a - uint p)" using q by simp
  then have "uint a mod 4096 = uint a - uint p"
    by (rule int_mod_pos_eq) (use assms in auto)
  then show ?thesis by (simp add: word_uint_eq_iff uint_page_of)
qed

lemma clear_dwords_frame:
  "page p \<Longrightarrow> n \<le> 1024 \<Longrightarrow> page_of a \<noteq> p \<Longrightarrow> clear_dwords m p n a = m a"
  using page_of_range [of p a] by (auto simp: clear_dwords_def)

lemma small_index: "n < 1024 \<Longrightarrow> (word_of_nat n :: u32) < 1024"
  by (simp add: word_less_nat_alt unat_of_nat)

lemma small_index_eq: "n < 1024 \<Longrightarrow> k < 1024 \<Longrightarrow> (word_of_nat n :: u32) = word_of_nat k \<longleftrightarrow> n = k"
  by (simp add: word_unat_eq_iff unat_of_nat)

subsection \<open>A new chunk\<close>

lemma fill_table_entry:
  assumes "page entry" and "n \<le> 1024" and "b < n"
  shows "fold (\<lambda>b m. m(dword entry (word_of_nat b) := f b)) [0 ..< n] m (dword entry (word_of_nat b)) = f b"
  using assms
proof (induction n)
  case 0
  then show ?case by simp
next
  case (Suc n)
  then show ?case by (cases "b = n") (auto simp: small_index small_index_eq)
qed

lemma fill_table_frame:
  assumes "page entry" and "n \<le> 1024" and "page_of a \<noteq> entry"
  shows "fold (\<lambda>b m. m(dword entry (word_of_nat b) := f b)) [0 ..< n] m a = m a"
  using assms
proof (induction n)
  case 0
  then show ?case by simp
next
  case (Suc n)
  then show ?case by (auto simp: small_index)
qed

text \<open>The entries of a directory at \<open>d\<close> whose tables are \<open>ts\<close>, mapping every address to itself.\<close>

definition identity_tables :: "u8 \<Rightarrow> pmem \<Rightarrow> u32 \<Rightarrow> u32 list \<Rightarrow> bool" where
  "identity_tables flags m d ts \<longleftrightarrow>
     (\<forall>i < length ts. m (dword d (word_of_nat i)) = ts ! i OR ucast flags OR 2) \<and>
     (\<forall>i < length ts. \<forall>b < 1024. m (dword (ts ! i) (word_of_nat b)) =
        (word_of_nat i * 0x400000 + word_of_nat b * 4096) OR ucast flags)"

lemma identity_tablesD:
  assumes "identity_tables flags m d ts" and "length ts = 1024" and "i < 1024"
  shows "m (dword d i) = ts ! unat i OR ucast flags OR 2"
    and "b < 1024 \<Longrightarrow> m (dword (ts ! unat i) b) = (i * 0x400000 + b * 4096) OR ucast flags"
proof -
  have i: "unat i < length ts" using assms(2,3) by (simp add: word_less_nat_alt)
  from assms(1) have d: "\<forall>i < length ts. m (dword d (word_of_nat i)) = ts ! i OR ucast flags OR 2"
    and t: "\<forall>i < length ts. \<forall>b < 1024. m (dword (ts ! i) (word_of_nat b)) =
        (word_of_nat i * 0x400000 + word_of_nat b * 4096) OR ucast flags"
    by (auto simp only: identity_tables_def)
  from d [rule_format, OF i] show "m (dword d i) = ts ! unat i OR ucast flags OR 2" by simp
  assume "b < 1024"
  then have "unat b < 1024" by (simp add: word_less_nat_alt)
  from t [rule_format, OF i this]
  show "m (dword (ts ! unat i) b) = (i * 0x400000 + b * 4096) OR ucast flags" by simp
qed

definition fresh_pages :: "u32 list \<Rightarrow> heap \<Rightarrow> heap \<Rightarrow> bool" where
  "fresh_pages ps h h' \<longleftrightarrow> distinct ps \<and> 0 \<notin> set ps \<and> (\<forall>p \<in> set ps. page p) \<and> set ps \<inter> live h = {} \<and>
     pool_ok h' \<and> live h' = live h \<union> set ps \<and> avail h' + length ps = avail h \<and> keeps h h'"

lemma fresh_pages_Nil: "pool_ok h \<Longrightarrow> fresh_pages [] h h"
  by (simp add: fresh_pages_def keeps_refl)

lemma fresh_pages_snoc:
  assumes "fresh_pages ps h h1" and "one_block n" and "kmalloc h1 n = (p, h2)" and "length ps < avail h"
  shows "fresh_pages (ps @ [p]) h h2" and "page p" and "p \<noteq> 0" and "p \<notin> live h" and "p \<notin> set ps"
proof -
  have "pool_ok h1" "0 < avail h1" using assms(1,4) by (auto simp: fresh_pages_def)
  note one = kernel_pages.alloc_one [OF this(1) assms(2) this(2) assms(3)]
  have "keeps h h2"
    using keeps_trans [of h h1 h2] kmalloc_keeps [of h1 n] assms(1-3) by (simp add: fresh_pages_def pool_ok_def)
  with one assms(1) show "fresh_pages (ps @ [p]) h h2" "page p" "p \<noteq> 0" "p \<notin> live h" "p \<notin> set ps"
    by (auto simp: fresh_pages_def)
qed

lemma fresh_pages_append:
  "fresh_pages ps h h1 \<Longrightarrow> fresh_pages qs h1 h2 \<Longrightarrow> fresh_pages (ps @ qs) h h2"
  by (auto simp: fresh_pages_def intro: keeps_trans)

lemma new_table_loop:
  assumes d: "page d" "d \<in> live h0" and ok: "pool_ok h0" and k: "k \<le> 1024" "k \<le> avail h0"
    and run: "fold (new_table flags d) [0 ..< k] (h0, m0, 0) = (h, m, off)"
  shows "\<exists>ts. length ts = k \<and> fresh_pages ts h0 h \<and> off = word_of_nat k * 0x400000 \<and>
    identity_tables flags m d ts \<and> (\<forall>a. page_of a \<noteq> d \<and> page_of a \<notin> set ts \<longrightarrow> m a = m0 a)"
  using k run
proof (induction k arbitrary: h m off)
  case 0
  then show ?case using ok by (auto simp: fresh_pages_Nil identity_tables_def)
next
  case (Suc k)
  obtain h1 m1 off1 where 1: "fold (new_table flags d) [0 ..< k] (h0, m0, 0) = (h1, m1, off1)"
    by (cases "fold (new_table flags d) [0 ..< k] (h0, m0, 0)")
  from Suc.IH [OF _ _ 1] Suc.prems(1,2) obtain ts where ts: "length ts = k" "fresh_pages ts h0 h1"
    "off1 = word_of_nat k * 0x400000" "identity_tables flags m1 d ts"
    "\<forall>a. page_of a \<noteq> d \<and> page_of a \<notin> set ts \<longrightarrow> m1 a = m0 a" by auto
  obtain t h2 where 2: "kmalloc h1 4096 = (t, h2)" by (cases "kmalloc h1 4096")
  have "one_block 4096" by (simp add: one_block_def)
  from fresh_pages_snoc [OF ts(2) this 2] ts(1) Suc.prems(2)
  have t: "fresh_pages (ts @ [t]) h0 h2" "page t" "t \<noteq> 0" "t \<notin> live h0" "t \<notin> set ts" by simp_all
  define m2 where "m2 = fill_table t off1 flags (clear_dwords m1 t 1024)"
  have m2_t: "m2 (dword t (word_of_nat b)) = (off1 + word_of_nat b * 4096) OR ucast flags" if "b < 1024" for b
    using that t(2) by (simp add: m2_def fill_table_def fill_table_entry)
  have m2_a: "m2 a = m1 a" if "page_of a \<noteq> t" for a
    using that t(2) by (simp add: m2_def fill_table_def fill_table_frame clear_dwords_frame)
  have "new_table flags d k (h1, m1, off1) = (h, m, off)" using Suc.prems(3) 1 by simp
  then have res: "h = h2" "m = m2(dword d (word_of_nat k) := t OR ucast flags OR 2)" "off = off1 + 0x400000"
    using 2 t(3) by (simp_all add: new_table_def kzalloc_dwords_def m2_def)
  have pages: "d \<noteq> t" "page (ts ! i)" "ts ! i \<noteq> d" "ts ! i \<noteq> t" if "i < k" for i
    using that ts(1,2) t d nth_mem [of i ts] by (auto simp: fresh_pages_def disjoint_iff)
  have "d \<noteq> t" using d t by auto
  have "identity_tables flags m d (ts @ [t])"
    unfolding identity_tables_def
  proof (intro conjI allI impI)
    fix i assume i: "i < length (ts @ [t])"
    then show "m (dword d (word_of_nat i)) = (ts @ [t]) ! i OR ucast flags OR 2"
      using Suc.prems(1) ts(1,4) \<open>d \<noteq> t\<close> d
      by (cases "i = k") (auto simp: res nth_append small_index small_index_eq m2_a identity_tables_def)
    fix b :: nat assume b: "b < 1024"
    show "m (dword ((ts @ [t]) ! i) (word_of_nat b)) =
        (word_of_nat i * 0x400000 + word_of_nat b * 4096) OR ucast flags"
      using i b Suc.prems(1) ts(1,3,4) \<open>d \<noteq> t\<close> d t(2) pages [of i]
      by (cases "i = k") (auto simp: res nth_append small_index m2_t m2_a identity_tables_def)
  qed
  moreover have "\<forall>a. page_of a \<noteq> d \<and> page_of a \<notin> set (ts @ [t]) \<longrightarrow> m a = m0 a"
    using ts(5) d Suc.prems(1) by (auto simp: res m2_a small_index)
  moreover have "off = word_of_nat (Suc k) * 0x400000"
    by (simp add: res ts(3) algebra_simps)
  ultimately show ?case using t(1) ts(1) unfolding res(1) by (intro exI [of _ "ts @ [t]"]) simp
qed


lemma paging_new_4gb_pages:
  assumes ok: "pool_ok h" and room: "1026 \<le> avail h" and run: "paging_new_4gb flags h m = (chunk, h', m')"
  shows "\<exists>d ts. length ts = 1024 \<and> fresh_pages (d # ts @ [chunk]) h h' \<and> identity_tables flags m' d ts \<and>
    m' chunk = d \<and> (\<forall>a. page_of a \<notin> set (d # ts @ [chunk]) \<longrightarrow> m' a = m a)"
proof -
  obtain d h1 where 1: "kmalloc h 4096 = (d, h1)" by (cases "kmalloc h 4096")
  have small: "one_block 4096" "one_block 4" by (simp_all add: one_block_def)
  from fresh_pages_snoc [OF fresh_pages_Nil [OF ok] small(1) 1] room
  have d: "fresh_pages [d] h h1" "page d" "d \<noteq> 0" "d \<notin> live h" by simp_all
  define m1 where "m1 = clear_dwords m d 1024"
  obtain h2 m2 off where 2: "fold (new_table flags d) [0 ..< 1024] (h1, m1, 0) = (h2, m2, off)"
    by (cases "fold (new_table flags d) [0 ..< 1024] (h1, m1, 0)")
  have "d \<in> live h1" "pool_ok h1" "1024 \<le> avail h1" using d(1) room by (auto simp: fresh_pages_def)
  from new_table_loop [OF d(2) this(1,2) _ this(3) 2]
  obtain ts where ts: "length ts = 1024" "fresh_pages ts h1 h2" "identity_tables flags m2 d ts"
    "\<forall>a. page_of a \<noteq> d \<and> page_of a \<notin> set ts \<longrightarrow> m2 a = m1 a" by auto
  have dts: "fresh_pages (d # ts) h h2" using fresh_pages_append [OF d(1) ts(2)] by simp
  obtain c h3 where 3: "kmalloc h2 4 = (c, h3)" by (cases "kmalloc h2 4")
  from fresh_pages_snoc [OF dts small(2) 3] room ts(1)
  have c: "fresh_pages (d # ts @ [c]) h h3" "page c" "c \<noteq> 0" "c \<noteq> d" "c \<notin> set ts" by simp_all
  define m3 where "m3 = (clear_dwords m2 c 1)(c := d)"
  have res: "chunk = c" "h' = h3" "m' = m3"
    using run d(3) c(3) 1 2 3
    by (auto simp add: paging_new_4gb_def kzalloc_dwords_def m1_def [symmetric] m3_def)
  have m3: "m3 a = m2 a" if "page_of a \<noteq> c" for a
    using that c(2) by (auto simp: m3_def clear_dwords_frame)
  have pages: "page (ts ! i)" "ts ! i \<noteq> c" if "i < 1024" for i
    using that ts(1,2) c(5) nth_mem [of i ts] by (auto simp: fresh_pages_def)
  have "identity_tables flags m3 d ts"
    using ts(1,3) d(2) c(4) pages by (auto simp: identity_tables_def m3 small_index)
  moreover have "\<forall>a. page_of a \<notin> set (d # ts @ [c]) \<longrightarrow> m3 a = m a"
    using ts(4) m3 d(2) by (auto simp: m1_def clear_dwords_frame)
  ultimately show ?thesis using ts(1) c(1) unfolding res
    by (intro exI [of _ d] exI [of _ ts]) (simp add: m3_def)
qed

subsection \<open>What the MMU sees\<close>

definition walk :: "pmem \<Rightarrow> u32 \<Rightarrow> u32 \<Rightarrow> u32" where
  "walk m directory va =
     m (dword (page_of (m (dword directory (va div 0x400000)))) (va div 4096 mod 1024))"

text \<open>A directory whose tables are pages of their own.\<close>

definition directory_ok :: "pmem \<Rightarrow> u32 \<Rightarrow> bool" where
  "directory_ok m directory \<longleftrightarrow> page directory \<and>
     (\<forall>i < 1024. page_of (m (dword directory i)) \<noteq> directory) \<and>
     inj_on (\<lambda>i. page_of (m (dword directory i))) {i. i < 1024}"

lemma index_bounds: "va div 0x400000 < (1024 :: u32)" "va div 4096 mod 1024 < (1024 :: u32)"
proof -
  have "uint va < 4194304 * 1024" using uint_bounded [of va] by simp
  then have "uint va div 4194304 < 1024" by (simp add: div_less_iff_less_mult)
  then show "va div 0x400000 < (1024 :: u32)" by (simp add: word_less_def uint_div)
  show "va div 4096 mod 1024 < (1024 :: u32)" by (simp add: word_less_def uint_mod uint_div)
qed

lemma index_split: "va div 0x400000 * 0x400000 + va div 4096 mod 1024 * 4096 = page_of (va :: u32)"
proof -
  have "va div 0x400000 = va div 4096 div 1024"
    by (simp add: word_uint_eq_iff uint_div div_mult2_eq [symmetric])
  then have "va div 0x400000 * 0x400000 + va div 4096 mod 1024 * 4096 =
      (va div 4096 div 1024 * 1024 + va div 4096 mod 1024) * 4096"
    by (simp add: algebra_simps)
  also have "\<dots> = va div 4096 * 4096" by (simp only: div_mult_mod_eq)
  also have "\<dots> = page_of va" by (simp add: page_of_drop push_bit_eq_mult drop_bit_eq_div)
  finally show ?thesis .
qed

lemma identity_entry:
  assumes "identity_tables flags m d ts" and "length ts = 1024" and "\<forall>t \<in> set ts. page t" and "i < 1024"
  shows "page_of (m (dword d i)) = ts ! unat i"
proof -
  have i: "unat i < 1024" using assms(4) by (simp add: word_less_nat_alt)
  with assms(2,3) show ?thesis by (simp add: identity_tablesD(1) [OF assms(1,2,4)] page_of_or)
qed

lemma identity_walk:
  assumes "identity_tables flags m d ts" and "length ts = 1024" and "\<forall>t \<in> set ts. page t"
  shows "walk m d va = page_of va OR ucast flags"
  using identity_entry [OF assms index_bounds(1)] identity_tablesD(2) [OF assms(1,2) index_bounds]
  by (simp add: walk_def index_split)

lemma identity_directory_ok:
  assumes "identity_tables flags m d ts" and "length ts = 1024" and "\<forall>t \<in> set ts. page t"
    and "page d" and "d \<notin> set ts" and "distinct ts"
  shows "directory_ok m d"
proof -
  have e: "page_of (m (dword d i)) = ts ! unat i" "unat i < length ts" if "i < 1024" for i
    using identity_entry [OF assms(1-3) that] that assms(2) by (simp_all add: word_less_nat_alt)
  have "inj_on (\<lambda>i. page_of (m (dword d i))) {i. i < 1024}"
    by (rule inj_onI) (simp add: e nth_eq_iff_index_eq [OF assms(6)], simp add: word_unat_eq_iff)
  moreover have "page_of (m (dword d i)) \<noteq> d" if "i < 1024" for i
    using e [OF that] assms(5) nth_mem by force
  ultimately show ?thesis using assms(4) by (simp add: directory_ok_def)
qed

text \<open>
  Claim C25.  When 1026 blocks are free, \<open>paging_new_4gb\<close> builds an address space that maps every
  address to itself with the given flags: the entry that the MMU finds for \<open>va\<close> is the page of \<open>va\<close>
  with the flags.  The directory and its 1024 tables are pages of their own, and memory outside the
  newly allocated pages is as it was.
\<close>

theorem paging_new_4gb_identity:
  assumes "pool_ok h" and "1026 \<le> avail h" and "paging_new_4gb flags h m = (chunk, h', m')"
  shows "walk m' (paging_4gb_chunk_get_directory m' chunk) va = page_of va OR ucast flags \<and>
    directory_ok m' (paging_4gb_chunk_get_directory m' chunk) \<and> pool_ok h' \<and>
    (page_of a \<notin> live h' - live h \<longrightarrow> m' a = m a)"
proof -
  from paging_new_4gb_pages [OF assms] obtain d ts where ts: "length ts = 1024"
    "fresh_pages (d # ts @ [chunk]) h h'" "identity_tables flags m' d ts" "m' chunk = d"
    "\<forall>a. page_of a \<notin> set (d # ts @ [chunk]) \<longrightarrow> m' a = m a" by blast
  note fresh = ts(2) [unfolded fresh_pages_def]
  have "live h' - live h = set (d # ts @ [chunk])" using fresh by auto
  moreover have "walk m' d va = page_of va OR ucast flags"
    using fresh by (intro identity_walk [OF ts(3,1)]) simp
  moreover have "directory_ok m' d"
    using fresh by (intro identity_directory_ok [OF ts(3,1)]) simp_all
  ultimately show ?thesis using fresh ts(4,5) by (simp add: paging_4gb_chunk_get_directory_def)
qed

text \<open>Freeing a chunk whose tables are \<open>ts\<close>.\<close>

lemma paging_free_tables:
  assumes "identity_tables flags m d ts" and "length ts = 1024" and "\<forall>t \<in> set ts. page t" and "m chunk = d"
  shows "paging_free_4gb chunk m h = fold (\<lambda>p h. kfree h p) (ts @ [d, chunk]) h"
proof -
  have "page_of (m (dword d (word_of_nat i))) = ts ! i" if "i < 1024" for i
    using identity_entry [OF assms(1-3) small_index [OF that]] that by (simp add: unat_of_nat)
  then have map_ts: "map (\<lambda>i. page_of (m (dword d (word_of_nat i)))) [0 ..< 1024] = ts"
    using assms(2) by (intro nth_equalityI) simp_all
  have "fold (\<lambda>i h. kfree h (m (dword d (word_of_nat i)) AND 0xfffff000)) [0 ..< 1024] h =
      fold (\<lambda>p h. kfree h p) ts h"
    unfolding map_ts [symmetric] by (simp add: fold_map comp_def page_of_def)
  then show ?thesis by (simp add: paging_free_4gb_def assms(4))
qed

text \<open>
  Claim C26.  \<open>paging_free_4gb\<close> undoes \<open>paging_new_4gb\<close> on the heap: the live addresses are again those
  from before the chunk was made, and the heap is well formed.
\<close>

theorem paging_free_4gb_restores:
  assumes "pool_ok h" and "1026 \<le> avail h" and "paging_new_4gb flags h m = (chunk, h', m')"
  shows "pool_ok (paging_free_4gb chunk m' h') \<and> live (paging_free_4gb chunk m' h') = live h"
proof -
  from paging_new_4gb_pages [OF assms] obtain d ts where ts: "length ts = 1024"
    "fresh_pages (d # ts @ [chunk]) h h'" "identity_tables flags m' d ts" "m' chunk = d" by blast
  note fresh = ts(2) [unfolded fresh_pages_def]
  have pages: "\<forall>t \<in> set ts. page t" using fresh by simp
  from paging_free_tables [OF ts(3,1) pages ts(4)]
  have "paging_free_4gb chunk m' h' = fold (\<lambda>p h. kfree h p) (ts @ [d, chunk]) h'" .
  moreover have "set (ts @ [d, chunk]) \<subseteq> live h'" "distinct (ts @ [d, chunk])" "pool_ok h'"
    "live h' - set (ts @ [d, chunk]) = live h"
    using fresh by auto
  ultimately show ?thesis using kernel_pages.release_many [of h' "ts @ [d, chunk]"] by simp
qed


subsection \<open>Mapping pages\<close>

lemma same_indexes:
  "va div 0x400000 = vb div 0x400000 \<and> va div 4096 mod 1024 = vb div 4096 mod 1024 \<longleftrightarrow> page_of va = page_of (vb :: u32)"
    (is "?L \<longleftrightarrow> ?R")
proof
  assume ?L
  then show ?R using index_split [of va] index_split [of vb] by simp
next
  have d: "x div 0x400000 = x div 4096 div 1024" for x :: u32
    by (simp add: word_uint_eq_iff uint_div div_mult2_eq [symmetric])
  have p: "page_of x div 4096 = x div 4096" for x :: u32
    by (simp add: word_uint_eq_iff uint_div uint_page_of minus_mod_eq_div_mult)
  assume ?R
  then have "va div 4096 = vb div 4096" using p by metis
  then show ?L by (simp add: d)
qed

lemma table_index: "virt mod 0x400000 div 4096 = virt div 4096 mod (1024 :: u32)"
proof -
  have "uint virt mod (4096 * 1024) = 4096 * (uint virt div 4096 mod 1024) + uint virt mod 4096"
    by (rule zmod_zmult2_eq) simp
  then have "uint virt mod 4194304 div 4096 = (uint virt mod 4096 + 4096 * (uint virt div 4096 mod 1024)) div 4096"
    by (simp add: add.commute)
  also have "\<dots> = uint virt div 4096 mod 1024" by (subst div_mult_self2) simp_all
  finally show ?thesis by (simp add: word_uint_eq_iff uint_div uint_mod)
qed

lemma paging_map_eq:
  assumes "page virt" and "page phys"
  shows "paging_map m directory virt phys flags =
    (0, m(dword (page_of (m (dword directory (virt div 0x400000)))) (virt div 4096 mod 1024) := phys OR flags))"
  using assms
  by (simp add: paging_map_def paging_set_def paging_get_indexes_def paging_is_aligned_def page_aligned
      table_index page_of_def)

lemma paging_map_walk:
  assumes "directory_ok m directory" and "page virt" and "page phys"
  shows "fst (paging_map m directory virt phys flags) = 0 \<and>
    directory_ok (snd (paging_map m directory virt phys flags)) directory \<and>
    walk (snd (paging_map m directory virt phys flags)) directory va =
      (if page_of va = virt then phys OR flags else walk m directory va)"
proof -
  let ?i = "virt div 0x400000" and ?b = "virt div 4096 mod 1024"
  let ?t = "\<lambda>i. page_of (m (dword directory i))"
  let ?m = "m(dword (?t ?i) ?b := phys OR flags)"
  have dir: "page directory" "\<And>i. i < 1024 \<Longrightarrow> ?t i \<noteq> directory" "inj_on ?t {i. i < 1024}"
    using assms(1) by (auto simp: directory_ok_def)
  have keep: "?m (dword directory i) = m (dword directory i)" if "i < 1024" for i
    using that dir(2) [OF index_bounds(1), of virt] dir(1) index_bounds [of virt] by auto
  have ok: "directory_ok ?m directory"
    using dir(2,3) keep unfolding directory_ok_def
    by (auto simp: dir(1) inj_on_def simp del: fun_upd_apply)
  have "walk ?m directory va = ?m (dword (?t (va div 0x400000)) (va div 4096 mod 1024))"
    by (simp only: walk_def keep [OF index_bounds(1)])
  also have "\<dots> = (if ?t (va div 0x400000) = ?t ?i \<and> va div 4096 mod 1024 = ?b then phys OR flags
      else walk m directory va)"
    using index_bounds [of va] index_bounds [of virt] by (simp add: walk_def)
  also have "?t (va div 0x400000) = ?t ?i \<longleftrightarrow> va div 0x400000 = ?i"
    using dir(3) index_bounds [of va] index_bounds [of virt] by (auto simp: inj_on_def)
  finally show ?thesis
    using ok same_indexes [of va virt] assms(2) unfolding paging_map_eq [OF assms(2,3)]
    by (simp add: fun_upd_def)
qed

text \<open>
  Claim C27.  \<open>paging_map\<close> of an aligned pair of addresses succeeds and changes the translation of that
  one page: the MMU finds the given frame and flags for every address of the page \<open>virt\<close>, and what it
  found before for every other address.  The directory keeps tables of its own.
\<close>

theorem paging_map_page:
  assumes "directory_ok m directory" and "page virt" and "page phys"
  shows "fst (paging_map m directory virt phys flags) = 0 \<and>
    directory_ok (snd (paging_map m directory virt phys flags)) directory \<and>
    walk (snd (paging_map m directory virt phys flags)) directory va =
      (if page_of va = virt then phys OR flags else walk m directory va)"
  by (rule paging_map_walk [OF assms])

lemma map_range_loop_eq:
  "map_range_loop n m directory virt phys flags res =
     (if n = 0 then (res, m) else paging_map m directory virt phys flags)"
proof (induction n arbitrary: virt phys res)
  case 0
  then show ?case by simp
next
  case (Suc n)
  have next_page: "page (a + 4096) \<longleftrightarrow> page a" for a :: u32
    by (simp add: page_def uint_word_ariths mod_mod_cancel)
  show ?case
  proof (cases "page virt \<and> page phys")
    case True
    then show ?thesis by (simp add: paging_map_eq)
  next
    case False
    then have fail: "paging_map m directory virt phys flags = (- EINVARG, m)"
      "paging_map m directory (virt + 4096) (phys + 4096) flags = (- EINVARG, m)"
      by (auto simp: paging_map_def page_aligned next_page)
    then show ?thesis by (simp add: Suc.IH EINVARG_def)
  qed
qed

text \<open>
  A range is not mapped beyond its first page: the loop of \<open>paging_map_range\<close> leaves at the
  first success, so for any positive \<open>count\<close> it does what \<open>paging_map\<close> does for the first page, and the
  translation of every other page of the range is as before.
\<close>

theorem paging_map_range_first_page:
  assumes "0 < count"
  shows "paging_map_range m directory virt phys count flags = paging_map m directory virt phys flags"
  using assms by (simp add: paging_map_range_def map_range_loop_eq)


subsection \<open>Concrete address spaces\<close>

text \<open>The chunk that \<open>kernel_main\<close> builds right after the initialisation of the heap.\<close>

definition boot_chunk :: "u32 \<times> heap \<times> pmem" where
  "boot_chunk = paging_new_4gb 7 (snd (kheap_init demo_heap)) (\<lambda>_. 0)"

lemma boot_heap: "pool_ok (snd (kheap_init demo_heap))" "1026 \<le> avail (snd (kheap_init demo_heap))"
  by (simp_all add: kheap_init_pool kheap_init_avail)

lemma boot_chunk_eq:
  "paging_new_4gb 7 (snd (kheap_init demo_heap)) (\<lambda>_. 0) =
     (fst boot_chunk, fst (snd boot_chunk), snd (snd boot_chunk))"
  by (simp add: boot_chunk_def)

lemma boot_directory_ok: "\<exists>m d. directory_ok m d"
proof -
  from paging_new_4gb_pages [OF boot_heap boot_chunk_eq] obtain d ts where ts: "length ts = 1024"
    "fresh_pages (d # ts @ [fst boot_chunk]) (snd (kheap_init demo_heap)) (fst (snd boot_chunk))"
    "identity_tables 7 (snd (snd boot_chunk)) d ts" by blast
  note fresh = ts(2) [unfolded fresh_pages_def]
  have "directory_ok (snd (snd boot_chunk)) d"
    using fresh by (intro identity_directory_ok [OF ts(3,1)]) simp_all
  then show ?thesis by blast
qed

theorem paging_new_4gb_identity_witness:
  "walk (snd (snd boot_chunk)) (paging_4gb_chunk_get_directory (snd (snd boot_chunk)) (fst boot_chunk)) 0x12345678 =
     0x12345007"
proof -
  have "page_of 0x12345678 OR ucast (7 :: u8) = 0x12345007" by (simp add: page_of_def)
  then show ?thesis
    using paging_new_4gb_identity [OF boot_heap boot_chunk_eq, of "0x12345678" 0] by simp
qed

theorem paging_free_4gb_restores_witness:
  "live (paging_free_4gb (fst boot_chunk) (snd (snd boot_chunk)) (fst (snd boot_chunk))) = {}"
  using paging_free_4gb_restores [OF boot_heap boot_chunk_eq] by (simp add: kheap_init_live)

theorem paging_map_page_witness:
  "\<exists>m d. walk (snd (paging_map m d 0x1000 0x5000 7)) d 0x1234 = 0x5007 \<and>
     walk (snd (paging_map m d 0x1000 0x5000 7)) d 0x2000 = walk m d 0x2000"
proof -
  obtain m d where "directory_ok m d" using boot_directory_ok by blast
  moreover have "page 0x1000" "page 0x5000" by (simp_all add: page_def)
  moreover have "page_of 0x1234 = 0x1000" "page_of 0x2000 \<noteq> 0x1000" by (simp_all add: page_of_def)
  ultimately show ?thesis
    using paging_map_page [of m d "0x1000" "0x5000" 7 "0x1234"] paging_map_page [of m d "0x1000" "0x5000" 7 "0x2000"]
    by (intro exI [of _ m] exI [of _ d]) simp
qed

theorem paging_map_range_first_page_witness:
  "snd (paging_map_range (\<lambda>_. 0x8000) 0x4000 0x1000 0x1000 2 3) 0x8004 = 0x1003 \<and>
   snd (paging_map_range (\<lambda>_. 0x8000) 0x4000 0x1000 0x1000 2 3) 0x8008 = 0x8000"
  using paging_map_range_first_page [of 2 "\<lambda>_. 0x8000" "0x4000" "0x1000" "0x1000" 3]
  by (simp add: paging_map_def paging_set_def paging_get_indexes_def paging_is_aligned_def dword_def)


end
