(* ===== verification/KMem.thy ===== *)
theory KMem
  imports Pages Terminal
begin

text \<open>
  The memory that the file-system code works on: the kernel heap, the bytes of memory and the console.
  \<open>kmem\<close> is extended by the components with stores for their structures, indexed by address.  Here are
  allocation and release on it, and what they leave alone.
\<close>

record kmem =
  km_heap :: heap
  km_mem :: memory
  km_term :: terminal

definition kalloc :: "u32 \<Rightarrow> 'a kmem_scheme \<Rightarrow> u32 \<times> 'a kmem_scheme" where
  "kalloc n s =
     (let (p, h, m) = kzalloc (km_heap s) (km_mem s) n in (p, s\<lparr>km_heap := h, km_mem := m\<rparr>))"

definition krelease :: "u32 \<Rightarrow> 'a kmem_scheme \<Rightarrow> 'a kmem_scheme" where
  "krelease p s = s\<lparr>km_heap := kfree (km_heap s) p\<rparr>"

definition kprint :: "string \<Rightarrow> 'a kmem_scheme \<Rightarrow> 'a kmem_scheme" where
  "kprint str s = s\<lparr>km_term := print str (km_term s)\<rparr>"

lemma krelease_frame [simp]:
  "km_mem (krelease p s) = km_mem s" "km_term (krelease p s) = km_term s" "kmem.more (krelease p s) = kmem.more s"
  "km_heap (krelease p s) = kfree (km_heap s) p"
  by (simp_all add: krelease_def)

lemma kprint_frame [simp]:
  "km_mem (kprint t s) = km_mem s" "km_heap (kprint t s) = km_heap s" "kmem.more (kprint t s) = kmem.more s"
  by (simp_all add: kprint_def)

lemma kalloc_frame [simp]: "kmem.more (snd (kalloc n s)) = kmem.more s" "km_term (snd (kalloc n s)) = km_term s"
  by (simp_all add: kalloc_def split: prod.splits)

subsection \<open>Strings under changes of memory\<close>

lemma cstr_frame:
  assumes "cstr m p s" and "\<forall>a \<in> {p .. p + int (length s)}. m' a = m a"
  shows "cstr m' p s"
  using assms
proof (induction s arbitrary: p)
  case Nil
  then show ?case by simp
next
  case (Cons c cs)
  then have "cstr m' (p + 1) cs" by (intro Cons.IH) auto
  with Cons.prems show ?case by simp
qed

lemma cstrI:
  assumes "\<forall>i < length c. m (q + int i) = c ! i" and "\<forall>b \<in> set c. b \<noteq> 0" and "m (q + int (length c)) = 0"
  shows "cstr m q c"
  using assms
proof (induction c arbitrary: q)
  case Nil
  then show ?case by simp
next
  case (Cons b bs)
  have "cstr m (q + 1) bs"
  proof (rule Cons.IH)
    show "m (q + 1 + int (length bs)) = 0" using Cons.prems(3) by (simp add: algebra_simps)
    show "\<forall>i < length bs. m (q + 1 + int i) = bs ! i"
    proof (intro allI impI)
      fix i assume "i < length bs"
      then show "m (q + 1 + int i) = bs ! i"
        using Cons.prems(1) [rule_format, of "Suc i"] by (simp add: algebra_simps)
    qed
  qed (use Cons.prems in simp)
  moreover have "m q = b" using Cons.prems(1) [rule_format, of 0] by simp
  ultimately show ?case using Cons.prems(2) by simp
qed

text \<open>A memory that holds a string and is zero elsewhere.\<close>

definition literal :: "int \<Rightarrow> u8 list \<Rightarrow> memory" where
  "literal p bs = (\<lambda>a. if p \<le> a \<and> a < p + int (length bs) then bs ! nat (a - p) else 0)"

lemma cstr_literal: "\<forall>b \<in> set bs. b \<noteq> 0 \<Longrightarrow> cstr (literal p bs) p bs"
  by (rule cstrI) (simp_all add: literal_def)

lemma cstr_range: "cstr m p s \<Longrightarrow> c \<in> set s \<Longrightarrow> c \<noteq> 0"
  by (induction s arbitrary: p) auto

subsection \<open>Allocation\<close>

lemma kalloc_spec:
  assumes "pool_ok (km_heap s)" and "one_block n" and "0 < avail (km_heap s)" and "kalloc n s = (p, s')"
  shows "p \<noteq> 0" "p \<notin> live (km_heap s)" "page p" "pool_ok (km_heap s')"
    "live (km_heap s') = insert p (live (km_heap s))" "Suc (avail (km_heap s')) = avail (km_heap s)"
    "pool (km_heap s') = pool (km_heap s)" "page_range p \<subseteq> pool (km_heap s)"
    "\<And>a. a \<notin> page_range p \<Longrightarrow> km_mem s' a = km_mem s a"
    "\<And>k. 0 \<le> k \<Longrightarrow> k < uint n \<Longrightarrow> km_mem s' (uint p + k) = 0"
    "s' = s\<lparr>km_heap := km_heap s', km_mem := km_mem s'\<rparr>" "keeps (km_heap s) (km_heap s')"
proof -
  obtain q h' where km: "kmalloc (km_heap s) n = (q, h')" by (cases "kmalloc (km_heap s) n")
  note one = kernel_pages.alloc_one [OF assms(1-3) km]
  have s': "p = q" "s' = s\<lparr>km_heap := h', km_mem := memset (km_mem s) (uint q) 0 (unat n)\<rparr>"
    using assms(4) km one(1) by (auto simp: kalloc_def kzalloc_def)
  show "p \<noteq> 0" "p \<notin> live (km_heap s)" "page p" "pool_ok (km_heap s')"
    "live (km_heap s') = insert p (live (km_heap s))" "Suc (avail (km_heap s')) = avail (km_heap s)"
    using one s' by simp_all
  show pool: "pool (km_heap s') = pool (km_heap s)"
    using kmalloc_pool [of "km_heap s" n] assms(1,2) km s' by (simp add: pool_ok_def)
  have "q \<in> live h'" "heap_ok h'" using one by (simp_all add: pool_ok_def)
  then show "page_range p \<subseteq> pool (km_heap s)"
    using page_in_pool [of h' q] pool s' by simp
  have "uint n \<le> 4096" using assms(2) by (simp add: one_block_def)
  then show "km_mem s' a = km_mem s a" if "a \<notin> page_range p" for a
    using that s' by (auto simp: memset_apply page_range_def)
  show "km_mem s' (uint p + k) = 0" if "0 \<le> k" "k < uint n" for k
    using that s' by (simp add: memset_apply)
  show "s' = s\<lparr>km_heap := km_heap s', km_mem := km_mem s'\<rparr>" using s' by simp
  have "keeps (km_heap s) h'" using kmalloc_keeps [of "km_heap s" n] assms(1,2) km by (simp add: pool_ok_def)
  then show "keeps (km_heap s) (km_heap s')" using s' by simp
qed

subsection \<open>What a client may rely on\<close>

text \<open>
  Between the heap \<open>h\<close> with the memory \<open>m\<close> and \<open>h'\<close> with \<open>m'\<close> no block is released, and bytes change only
  in blocks that were free in \<open>h\<close>.
\<close>

definition grows :: "heap \<Rightarrow> memory \<Rightarrow> heap \<Rightarrow> memory \<Rightarrow> bool" where
  "grows h m h' m' \<longleftrightarrow> pool_ok h \<and> pool_ok h' \<and> pool h' = pool h \<and> live h \<subseteq> live h' \<and> keeps h h' \<and>
     (\<forall>a. a \<notin> pool h \<or> a \<in> held h \<longrightarrow> m' a = m a)"

definition extends :: "'a kmem_scheme \<Rightarrow> 'a kmem_scheme \<Rightarrow> bool" where
  "extends s s' \<longleftrightarrow> grows (km_heap s) (km_mem s) (km_heap s') (km_mem s')"

lemma growsI:
  "pool_ok h \<Longrightarrow> pool_ok h' \<Longrightarrow> keeps h h' \<Longrightarrow> (\<And>a. a \<notin> pool h \<or> a \<in> held h \<Longrightarrow> m' a = m a) \<Longrightarrow> grows h m h' m'"
  by (simp add: grows_def keeps_pool keeps_live)

lemma grows_same: "pool_ok h \<Longrightarrow> pool_ok h' \<Longrightarrow> keeps h h' \<Longrightarrow> grows h m h' m"
  by (simp add: growsI)

lemma grows_trans:
  assumes "grows h m h1 m1" and "grows h1 m1 h2 m2"
  shows "grows h m h2 m2"
proof (rule growsI)
  note 1 = assms(1) [unfolded grows_def] and 2 = assms(2) [unfolded grows_def]
  show "pool_ok h" "pool_ok h2" "keeps h h2" using 1 2 keeps_trans by blast+
  fix a assume "a \<notin> pool h \<or> a \<in> held h"
  then show "m2 a = m a" using 1 2 keeps_held [of h h1] by (metis subsetD)
qed

lemma grows_memD: "grows h m h' m' \<Longrightarrow> a \<notin> pool h \<or> a \<in> held h \<Longrightarrow> m' a = m a"
  by (simp add: grows_def)

lemma grows_live:
  assumes "grows h m h' m'" and "q \<in> live h" and "a \<in> page_range q"
  shows "m' a = m a"
  using assms page_held [of h q] by (intro grows_memD [OF assms(1)]) (auto simp: grows_def pool_ok_def)

text \<open>A page that is new lies in blocks that were free; writing to it, and releasing it, is growth.\<close>

lemma grows_new_page:
  assumes "grows h m h1 m1" and "p \<in> live h1" and "p \<notin> live h"
  shows "page_range p \<subseteq> pool h - held h"
proof -
  have "keeps h h1" "heap_ok h1" "pool h1 = pool h" using assms(1) by (simp_all add: grows_def pool_ok_def)
  then show ?thesis using page_in_pool [of h1 p] page_not_held [of h h1 p] assms(2,3) by blast
qed

lemma grows_update:
  assumes "grows h m h1 m1" and "R \<subseteq> pool h - held h" and "\<And>a. a \<notin> R \<Longrightarrow> m2 a = m1 a"
  shows "grows h m h1 m2"
proof -
  have "m2 a = m a" if "a \<notin> pool h \<or> a \<in> held h" for a
    using that assms(2,3) grows_memD [OF assms(1) that] by (metis DiffD1 DiffD2 subsetD)
  then show ?thesis using assms(1) by (simp add: grows_def)
qed

lemma grows_write:
  assumes "grows h m h1 m1" and "p \<in> live h1" and "p \<notin> live h" and "\<And>a. a \<notin> page_range p \<Longrightarrow> m2 a = m1 a"
  shows "grows h m h1 m2"
  by (rule grows_update [OF assms(1) grows_new_page [OF assms(1-3)]]) (rule assms(4))

lemma grows_release:
  assumes "grows h m h1 m1" and "p \<in> live h1" and "p \<notin> live h"
  shows "grows h m (kfree h1 p) m1" "live (kfree h1 p) = live h1 - {p}" "Suc (avail h1) \<le> avail (kfree h1 p)"
proof -
  note g = assms(1) [unfolded grows_def]
  have ok: "pool_ok h1" "heap_ok h1" "heap_ok h" using g by (simp_all add: pool_ok_def)
  have "keeps h (kfree h1 p)" using keeps_free [OF _ ok(3,2) assms(2,3)] g by blast
  then show "grows h m (kfree h1 p) m1"
    using kernel_pages.release_ok [OF ok(1) assms(2)] g by (simp add: grows_def keeps_pool keeps_live)
  show "live (kfree h1 p) = live h1 - {p}" "Suc (avail h1) \<le> avail (kfree h1 p)"
    using kernel_pages.release_owned [OF ok(1) assms(2)] kernel_pages.release_left [OF ok(1) assms(2)] by simp_all
qed

lemma grows_release_many:
  "grows h m h1 m1 \<Longrightarrow> set ps \<subseteq> live h1 - live h \<Longrightarrow> distinct ps \<Longrightarrow> grows h m (fold (\<lambda>p h. kfree h p) ps h1) m1"
proof (induction ps arbitrary: h1)
  case (Cons p ps)
  then have p: "p \<in> live h1" "p \<notin> live h" by simp_all
  note rel = grows_release [OF Cons.prems(1) p]
  then show ?case using Cons.prems(2,3) by (auto intro!: Cons.IH)
qed simp

text \<open>The same on states.\<close>

lemma extends_parts:
  assumes "extends s s'"
  shows "pool_ok (km_heap s)" "pool_ok (km_heap s')" "pool (km_heap s') = pool (km_heap s)"
    "live (km_heap s) \<subseteq> live (km_heap s')" "held (km_heap s) \<subseteq> held (km_heap s')"
  using assms keeps_held by (auto simp: extends_def grows_def)

lemma extends_refl: "pool_ok (km_heap s) \<Longrightarrow> extends s s"
  by (simp add: extends_def grows_same keeps_refl)

lemma extends_heldD:
  "extends s s' \<Longrightarrow> a \<notin> pool (km_heap s) \<or> a \<in> held (km_heap s) \<Longrightarrow> km_mem s' a = km_mem s a"
  unfolding extends_def by (rule grows_memD)

lemma extends_memD:
  "extends s s' \<Longrightarrow> a \<notin> pool (km_heap s) \<or> (\<exists>q \<in> live (km_heap s). a \<in> page_range q) \<Longrightarrow>
   km_mem s' a = km_mem s a"
  unfolding extends_def using grows_memD grows_live by blast

lemma extends_trans: "extends s s1 \<Longrightarrow> extends s1 s2 \<Longrightarrow> extends s s2"
  unfolding extends_def by (rule grows_trans)

lemma extends_cong:
  "km_heap s1 = km_heap s2 \<Longrightarrow> km_mem s1 = km_mem s2 \<Longrightarrow> extends s s1 \<Longrightarrow> extends s s2"
  by (simp add: extends_def)

lemma extends_outside:
  assumes "extends s s'" and "cstr (km_mem s) p str" and "{p .. p + int (length str)} \<inter> pool (km_heap s) = {}"
  shows "cstr (km_mem s') p str"
  using assms by (intro cstr_frame [OF assms(2)]) (auto intro!: extends_heldD [OF assms(1)])

lemma extends_inside:
  assumes "extends s s'" and "cstr (km_mem s) (uint q) str" and "q \<in> live (km_heap s)" and "length str < 4096"
  shows "cstr (km_mem s') (uint q) str"
proof (rule cstr_frame [OF assms(2)], rule ballI)
  fix a assume "a \<in> {uint q .. uint q + int (length str)}"
  then have "a \<in> page_range q" using assms(4) by (simp add: page_range_def)
  then show "km_mem s' a = km_mem s a" using extends_memD [OF assms(1)] assms(3) by blast
qed

lemma extends_write:
  assumes "extends s s1" and "p \<in> live (km_heap s1)" and "p \<notin> live (km_heap s)" and "km_heap s2 = km_heap s1"
    and "\<And>a. a \<notin> page_range p \<Longrightarrow> km_mem s2 a = km_mem s1 a"
  shows "extends s s2"
  using assms grows_write [of "km_heap s" "km_mem s" "km_heap s1" "km_mem s1" p "km_mem s2"] by (simp add: extends_def)

lemma kalloc_extends:
  assumes "pool_ok (km_heap s)" and "one_block n" and "0 < avail (km_heap s)" and "kalloc n s = (p, s')"
  shows "extends s s'"
proof -
  note new = kalloc_spec [OF assms]
  have "extends s (s\<lparr>km_heap := km_heap s'\<rparr>)" using new(4,12) assms(1) by (simp add: extends_def grows_same)
  then show ?thesis
    by (rule extends_write [where p = p]) (use new in simp_all)
qed

lemma krelease_extends:
  assumes "extends s s1" and "p \<in> live (km_heap s1)" and "p \<notin> live (km_heap s)"
  shows "extends s (krelease p s1)"
    and "live (km_heap (krelease p s1)) = live (km_heap s1) - {p}"
    and "Suc (avail (km_heap s1)) \<le> avail (km_heap (krelease p s1))"
  using grows_release [of "km_heap s" "km_mem s" "km_heap s1" "km_mem s1" p] assms by (simp_all add: extends_def)

end
