(* ===== verification/PathParser.thy ===== *)
theory PathParser
  imports KMem
begin

text \<open>
  The path parser of \<open>src/fs/pparser.c\<close>: a path \<open>0:/dir/file\<close> in memory becomes a linked list of parts on
  the kernel heap.  Strings are bytes of memory; the structures \<open>path_root\<close> and \<open>path_part\<close> are in
  stores indexed by their address, and NULL is address 0.  \<open>None\<close> is a call that does not return, which a
  path without a terminating NUL can cause.  The reference is \<open>components\<close>, the parts of a path as lists.
\<close>

subsection \<open>The data\<close>

(* src/src/fs/pparser.h 4-7 path_root *)
record path_root =
  drive_no :: int
  first_part :: u32

(* src/src/fs/pparser.h 9-12 path_part *)
record path_part =
  part_str :: u32
  next_part :: u32

record path_mem = kmem +
  pm_roots :: "u32 \<Rightarrow> path_root"
  pm_parts :: "u32 \<Rightarrow> path_part"

abbreviation PEACHOS_MAX_PATH :: int where "PEACHOS_MAX_PATH \<equiv> 108"
abbreviation SLASH :: u8 where "SLASH \<equiv> 0x2F"
abbreviation COLON :: u8 where "COLON \<equiv> 0x3A"

definition upd_root :: "u32 \<Rightarrow> (path_root \<Rightarrow> path_root) \<Rightarrow> 'a path_mem_scheme \<Rightarrow> 'a path_mem_scheme" where
  "upd_root p f s = s\<lparr>pm_roots := (pm_roots s)(p := f (pm_roots s p))\<rparr>"

definition upd_part :: "u32 \<Rightarrow> (path_part \<Rightarrow> path_part) \<Rightarrow> 'a path_mem_scheme \<Rightarrow> 'a path_mem_scheme" where
  "upd_part p f s = s\<lparr>pm_parts := (pm_parts s)(p := f (pm_parts s p))\<rparr>"

subsection \<open>Operations\<close>

text \<open>The comparison with the literal \<open>:/\<close> is the comparison of its two bytes (\<open>memcmp_zero_iff\<close>).\<close>

(* src/src/fs/pparser.c 9-12 pathparser_path_valid_format *)
definition pathparser_path_valid_format :: "int \<Rightarrow> memory \<Rightarrow> bool" where
  "pathparser_path_valid_format filename m \<longleftrightarrow>
     (let len = strnlen m filename PEACHOS_MAX_PATH
      in len \<ge> 3 \<and> isdigit (m filename) \<and> m (filename + 1) = COLON \<and> m (filename + 2) = SLASH)"

text \<open>The second result is the advanced path.\<close>

(* src/src/fs/pparser.c 15-26 pathparser_get_drive_by_path *)
definition pathparser_get_drive_by_path ::
  "int \<Rightarrow> 'a path_mem_scheme \<Rightarrow> int \<times> int \<times> 'a path_mem_scheme" where
  "pathparser_get_drive_by_path path s =
     (if \<not> pathparser_path_valid_format path (km_mem s)
      then (- EBADPATH, path, kprint (''bad path drive num'' @ [CHR 0x0A]) s)
      else let drive_no = tonumericdigit (km_mem s path) in (drive_no, path + 3, s))"

text \<open>The allocation is not checked: the fields are written through NULL when it fails.\<close>

(* src/src/fs/pparser.c 30-35 pathparser_create_root *)
definition pathparser_create_root :: "int \<Rightarrow> 'a path_mem_scheme \<Rightarrow> u32 \<times> 'a path_mem_scheme" where
  "pathparser_create_root drive_number s =
     (let (path_r, s) = kalloc 8 s
      in (path_r, upd_root path_r (\<lambda>_. \<lparr>drive_no = drive_number, first_part = 0\<rparr>) s))"

(* src/src/fs/pparser.c 41-45 pathparser_get_path_part: loop *)
partial_function (option) copy_part_loop :: "memory \<Rightarrow> int \<Rightarrow> int \<Rightarrow> int \<Rightarrow> (int \<times> int \<times> memory) option" where
  "copy_part_loop m result path i =
     (if m path \<noteq> SLASH \<and> m path \<noteq> 0
      then copy_part_loop (m(result + i := m path)) result (path + 1) (i + 1)
      else Some (i, path, m))"

(* src/src/fs/pparser.c 38-57 pathparser_get_path_part *)
definition pathparser_get_path_part ::
  "int \<Rightarrow> 'a path_mem_scheme \<Rightarrow> (u32 \<times> int \<times> 'a path_mem_scheme) option" where
  "pathparser_get_path_part path s =
     (let (result_path_part, s) = kalloc 108 s
      in do {
        (i, path, m) \<leftarrow> copy_part_loop (km_mem s) (uint result_path_part) path 0;
        let s = s\<lparr>km_mem := m\<rparr>;
        let path = (if m path = SLASH then path + 1 else path);
        if i = 0 then Some (0, path, krelease result_path_part s)
        else Some (result_path_part, path, s) })"

(* src/src/fs/pparser.c 60-76 pathparser_parse_path_part *)
definition pathparser_parse_path_part ::
  "u32 \<Rightarrow> int \<Rightarrow> 'a path_mem_scheme \<Rightarrow> (u32 \<times> int \<times> 'a path_mem_scheme) option" where
  "pathparser_parse_path_part last_part path s = do {
     (path_part_str, path, s) \<leftarrow> pathparser_get_path_part path s;
     if path_part_str = 0 then Some (0, path, s)
     else
       let (part, s) = kalloc 8 s;
           s = upd_part part (\<lambda>_. \<lparr>part_str = path_part_str, next_part = 0\<rparr>) s;
           s = (if last_part \<noteq> 0 then upd_part last_part (\<lambda>p. p\<lparr>next_part := part\<rparr>) s else s)
       in Some (part, path, s) }"

(* src/src/fs/pparser.c 81-85 pathparser_free: loop *)
partial_function (option) free_parts_loop :: "u32 \<Rightarrow> 'a path_mem_scheme \<Rightarrow> 'a path_mem_scheme option" where
  "free_parts_loop part s =
     (if part \<noteq> 0
      then let next = next_part (pm_parts s part);
               s = krelease (part_str (pm_parts s part)) s
           in free_parts_loop next (krelease part s)
      else Some s)"

(* src/src/fs/pparser.c 79-88 pathparser_free *)
definition pathparser_free :: "u32 \<Rightarrow> 'a path_mem_scheme \<Rightarrow> 'a path_mem_scheme option" where
  "pathparser_free root s = map_option (krelease root) (free_parts_loop (first_part (pm_roots s root)) s)"

(* src/src/fs/pparser.c 118-120 pathparser_parse: loop *)
partial_function (option) parse_loop :: "u32 \<Rightarrow> int \<Rightarrow> 'a path_mem_scheme \<Rightarrow> 'a path_mem_scheme option" where
  "parse_loop part path s = do {
     (part, path, s) \<leftarrow> pathparser_parse_path_part part path s;
     if part \<noteq> 0 then parse_loop part path s else Some s }"

text \<open>The loop of the code starts with one call before it and makes one call per turn.\<close>

(* src/src/fs/pparser.c 91-124 pathparser_parse *)
definition pathparser_parse :: "int \<Rightarrow> 'a path_mem_scheme \<Rightarrow> (u32 \<times> 'a path_mem_scheme) option" where
  "pathparser_parse path s = do {
     len \<leftarrow> strlen (km_mem s) path;
     if PEACHOS_MAX_PATH < len then Some (0, s)
     else
       let (res, tmp_path, s) = pathparser_get_drive_by_path path s
       in if res < 0 then Some (0, s)
          else
            let (path_root, s) = pathparser_create_root res s
            in if path_root = 0 then Some (0, kprint (''no root'' @ [CHR 0x0A]) s)
               else do {
                 (first, tmp_path, s) \<leftarrow> pathparser_parse_path_part 0 tmp_path s;
                 if first = 0 then Some (path_root, s)
                 else do {
                   let s = upd_root path_root (\<lambda>r. r\<lparr>first_part := first\<rparr>) s;
                   s \<leftarrow> parse_loop first tmp_path s;
                   Some (path_root, s) } } }"

subsection \<open>The parts of a path\<close>

text \<open>The reference: the components of the text after the drive, up to the first empty one.\<close>

function components :: "u8 list \<Rightarrow> u8 list list" where
  "components str =
     (let c = takeWhile (\<lambda>b. b \<noteq> SLASH) str
      in if c = [] then [] else c # components (drop (Suc (length c)) str))"
  by pat_completeness auto
termination
  by (relation "measure length") (auto simp: takeWhile_eq_Nil_iff)

declare components.simps [simp del]

text \<open>The list of parts that starts at address \<open>p\<close>, with the text of each.\<close>

fun parts_at :: "'a path_mem_scheme \<Rightarrow> u32 \<Rightarrow> u32 list \<Rightarrow> u8 list list \<Rightarrow> bool" where
  "parts_at s p [] [] \<longleftrightarrow> p = 0"
| "parts_at s p (q # qs) (c # cs) \<longleftrightarrow>
     p = q \<and> q \<noteq> 0 \<and> cstr (km_mem s) (uint (part_str (pm_parts s q))) c \<and>
     parts_at s (next_part (pm_parts s q)) qs cs"
| "parts_at s p _ _ \<longleftrightarrow> False"

abbreviation component :: "u8 list \<Rightarrow> u8 list" where
  "component str \<equiv> takeWhile (\<lambda>b. b \<noteq> SLASH) str"

text \<open>What follows a component, its separator skipped.\<close>

abbreviation after_component :: "u8 list \<Rightarrow> u8 list" where
  "after_component str \<equiv> drop (Suc (length (component str))) str"

lemma component_Nil_iff: "component str = [] \<longleftrightarrow> str = [] \<or> hd str = SLASH"
  by (cases str) auto

lemma component_length: "length (component str) \<le> length str"
  by (rule length_takeWhile_le)

lemma components_Cons:
  "component str \<noteq> [] \<Longrightarrow> components str = component str # components (after_component str)"
  by (subst components.simps) (simp add: Let_def)

lemma components_Nil: "component str = [] \<Longrightarrow> components str = []"
  by (subst components.simps) (simp add: Let_def)

subsection \<open>One component\<close>

lemma cstr_drop: "cstr m p str \<Longrightarrow> k \<le> length str \<Longrightarrow> cstr m (p + int k) (drop k str)"
proof (induction str arbitrary: p k)
  case Nil
  then show ?case by simp
next
  case (Cons c cs)
  show ?case
  proof (cases k)
    case 0
    with Cons.prems show ?thesis by simp
  next
    case (Suc j)
    with Cons have "cstr m (p + 1 + int j) (drop j cs)" by simp
    with Suc show ?thesis by (simp add: algebra_simps)
  qed
qed

lemma cstr_take:
  assumes "cstr m p str" and "m' (q + int (length c)) = 0" and "c = take k str"
    and "\<forall>i < length c. m' (q + int i) = c ! i"
  shows "cstr m' q c"
  using assms cstr_range [OF assms(1)] by (intro cstrI) (auto dest: in_set_takeD)

lemma copy_part_loop_spec:
  assumes "cstr m path str" and "0 \<le> i"
    and "{path .. path + int (length str)} \<inter> {r ..< r + i + int (length (component str))} = {}"
  shows "\<exists>m'. copy_part_loop m r path i =
      Some (i + int (length (component str)), path + int (length (component str)), m') \<and>
    (\<forall>a. m' a = (if r + i \<le> a \<and> a < r + i + int (length (component str))
                 then component str ! nat (a - (r + i)) else m a))"
  using assms
proof (induction str arbitrary: m path i)
  case Nil
  then show ?case by (subst copy_part_loop.simps) auto
next
  case (Cons c cs)
  show ?case
  proof (cases "c = SLASH")
    case True
    with Cons.prems show ?thesis by (subst copy_part_loop.simps) auto
  next
    case False
    let ?m = "m(r + i := c)" and ?n = "int (length (component cs))"
    have apart: "r + i \<notin> {path .. path + int (length (c # cs))}"
      using Cons.prems(2,3) False by (auto simp: disjoint_iff)
    have here: "cstr ?m (path + 1) cs"
      by (rule cstr_frame [of m]) (use Cons.prems(1) apart in auto)
    have apart1: "{path + 1 .. path + 1 + int (length cs)} \<inter> {r ..< r + (i + 1) + ?n} = {}"
    proof -
      have "{path + 1 .. path + 1 + int (length cs)} \<subseteq> {path .. path + int (length (c # cs))}" by auto
      moreover have "{r ..< r + (i + 1) + ?n} = {r ..< r + i + int (length (component (c # cs)))}"
        using False by (simp add: algebra_simps)
      ultimately show ?thesis using Cons.prems(3) by blast
    qed
    have "0 \<le> i + 1" using Cons.prems(2) by simp
    from Cons.IH [OF here this apart1]
    obtain m' where m': "copy_part_loop ?m r (path + 1) (i + 1) = Some (i + 1 + ?n, path + 1 + ?n, m')"
      "\<forall>a. m' a = (if r + (i + 1) \<le> a \<and> a < r + (i + 1) + ?n then component cs ! nat (a - (r + (i + 1))) else ?m a)"
      by blast
    have "copy_part_loop m r path i = copy_part_loop ?m r (path + 1) (i + 1)"
      using Cons.prems(1) False by (subst copy_part_loop.simps) simp
    moreover have "m' a = (if r + i \<le> a \<and> a < r + i + int (length (component (c # cs)))
        then component (c # cs) ! nat (a - (r + i)) else m a)" for a
    proof (cases "r + (i + 1) \<le> a")
      case True
      then have "nat (a - (r + i)) = Suc (nat (a - (r + (i + 1))))" by linarith
      with True False m'(2) show ?thesis by simp
    next
      case a: False
      with False m'(2) show ?thesis by (cases "a = r + i") simp_all
    qed
    ultimately show ?thesis using m'(1) False by (simp add: algebra_simps)
  qed
qed

text \<open>A call of \<open>pathparser_get_path_part\<close> on a path that lies outside the pool.\<close>

definition path_here :: "'a path_mem_scheme \<Rightarrow> int \<Rightarrow> u8 list \<Rightarrow> bool" where
  "path_here s path str \<longleftrightarrow> cstr (km_mem s) path str \<and> length str < 108 \<and>
     {path .. path + int (length str)} \<inter> pool (km_heap s) = {}"

lemma path_here_extends:
  "path_here s path str \<Longrightarrow> extends s s' \<Longrightarrow> path_here s' path str"
  using extends_outside [of s s' path str] by (auto simp: path_here_def extends_def grows_def)

lemma path_here_drop:
  assumes "path_here s path str" and "k \<le> length str"
  shows "path_here s (path + int k) (drop k str)"
proof -
  have "{path + int k .. path + int k + int (length (drop k str))} \<subseteq> {path .. path + int (length str)}"
    using assms(2) by auto
  then have "{path + int k .. path + int k + int (length (drop k str))} \<inter> pool (km_heap s) = {}"
    using assms(1) unfolding path_here_def by blast
  moreover have "length (drop k str) < 108" using assms(1) by (auto simp: path_here_def)
  ultimately show ?thesis using assms by (simp add: path_here_def cstr_drop)
qed

lemma get_path_part_spec:
  assumes ok: "pool_ok (km_heap s)" and room: "0 < avail (km_heap s)" and here: "path_here s path str"
  shows "\<exists>p path' s'. pathparser_get_path_part path s = Some (p, path', s') \<and> extends s s' \<and>
    path_mem.more s' = path_mem.more s \<and> pm_roots s' = pm_roots s \<and> pm_parts s' = pm_parts s \<and>
    (if component str = [] then p = 0 \<and> live (km_heap s') = live (km_heap s) \<and> avail (km_heap s) \<le> avail (km_heap s')
     else path_here s' path' (after_component str) \<and> p \<noteq> 0 \<and> p \<notin> live (km_heap s) \<and>
       live (km_heap s') = insert p (live (km_heap s)) \<and> Suc (avail (km_heap s')) = avail (km_heap s) \<and>
       cstr (km_mem s') (uint p) (component str))"
proof -
  let ?c = "component str" let ?n = "int (length ?c)"
  obtain p s1 where 1: "kalloc 108 s = (p, s1)" by (cases "kalloc 108 s")
  have small: "one_block 108" by (simp add: one_block_def)
  note new = kalloc_spec [OF ok small room 1] and ext1 = kalloc_extends [OF ok small room 1]
  have here1: "path_here s1 path str" by (rule path_here_extends [OF here ext1])
  have n: "?n \<le> int (length str)" "length str < 108" "?n < 108"
    using here component_length [of str] by (auto simp: path_here_def)
  have "{uint p ..< uint p + 0 + ?n} \<subseteq> pool (km_heap s)" using new(8) n(3) by (auto simp: page_range_def)
  then have "{path .. path + int (length str)} \<inter> {uint p ..< uint p + 0 + ?n} = {}"
    using here unfolding path_here_def by blast
  then obtain m where m: "copy_part_loop (km_mem s1) (uint p) path 0 = Some (?n, path + ?n, m)"
    "\<forall>a. m a = (if uint p \<le> a \<and> a < uint p + ?n then ?c ! nat (a - uint p) else km_mem s1 a)"
    using copy_part_loop_spec [of "km_mem s1" path str 0 "uint p"] here1 by (auto simp: path_here_def)
  define s2 where "s2 = s1\<lparr>km_mem := m\<rparr>"
  have ext2: "extends s s2"
  proof (rule extends_write [OF ext1, where p = p])
    show "km_mem s2 a = km_mem s1 a" if "a \<notin> page_range p" for a
      using that m(2) n by (auto simp: s2_def page_range_def)
  qed (use new ok in \<open>auto simp: s2_def\<close>)
  have here2: "path_here s2 path str" by (rule path_here_extends [OF here ext2])
  define path' where "path' = (if m (path + ?n) = SLASH then path + ?n + 1 else path + ?n)"
  have run: "pathparser_get_path_part path s =
      (if ?c = [] then Some (0, path', krelease p s2) else Some (p, path', s2))"
    using 1 m(1) by (simp add: pathparser_get_path_part_def path'_def s2_def)
  have more: "path_mem.more s2 = path_mem.more s" "pm_roots s2 = pm_roots s" "pm_parts s2 = pm_parts s"
    using arg_cong [OF new(11), of path_mem.more] arg_cong [OF new(11), of pm_roots] arg_cong [OF new(11), of pm_parts]
    by (simp_all add: s2_def)
  show ?thesis
  proof (cases "?c = []")
    case True
    have live: "p \<in> live (km_heap s2)" using new(5) by (simp add: s2_def)
    note rel = krelease_extends [OF ext2 live new(2)]
    have "avail (km_heap s) \<le> avail (km_heap (krelease p s2))" using rel(3) new(6) by (simp add: s2_def)
    moreover have "live (km_heap (krelease p s2)) = live (km_heap s)" using rel(2) new(2,5) by (simp add: s2_def)
    ultimately show ?thesis using True run rel(1) more by (auto simp: krelease_def)
  next
    case False
    have c_end: "m (path + ?n) = (if ?n < int (length str) then SLASH else 0)"
    proof -
      have "cstr m (path + ?n) (drop (length ?c) str)"
        using here2 n(1) by (auto simp: path_here_def s2_def intro: cstr_drop)
      moreover have "drop (length ?c) str = dropWhile (\<lambda>b. b \<noteq> SLASH) str" by (simp add: dropWhile_eq_drop)
      moreover have "hd (dropWhile (\<lambda>b. b \<noteq> SLASH) str) = SLASH" if "dropWhile (\<lambda>b. b \<noteq> SLASH) str \<noteq> []"
        using hd_dropWhile [OF that] by simp
      ultimately show ?thesis
        using n(1) by (cases "dropWhile (\<lambda>b. b \<noteq> SLASH) str") auto
    qed
    have "path_here s2 path' (after_component str)"
    proof (cases "?n < int (length str)")
      case True
      then have "path' = path + int (Suc (length ?c))" by (simp add: path'_def c_end)
      with True show ?thesis using path_here_drop [OF here2, of "Suc (length ?c)"] by simp
    next
      case False
      then have "m (path + ?n) = 0" using c_end by simp
      then have "path' = path + int (length ?c)" by (simp add: path'_def)
      moreover have "length ?c = length str" using False n(1) by simp
      ultimately show ?thesis using path_here_drop [OF here2, of "length ?c"] by simp
    qed
    moreover have "cstr m (uint p) ?c"
    proof (rule cstr_take [where k = "length ?c" and str = str and m = "km_mem s1" and p = path])
      show "m (uint p + ?n) = 0" using m(2) new(10) [of ?n] n by simp
      show "?c = take (length ?c) str" by (rule takeWhile_eq_take)
      show "cstr (km_mem s1) path str" using here1 by (simp add: path_here_def)
      show "\<forall>i < length ?c. m (uint p + int i) = ?c ! i" by (simp add: m(2))
    qed
    moreover have "km_heap s2 = km_heap s1" "km_mem s2 = m" by (simp_all add: s2_def)
    ultimately show ?thesis using False run ext2 more new(1,2,5,6)
      by (intro exI [of _ p] exI [of _ path'] exI [of _ s2]) simp
  qed
qed


subsection \<open>One part\<close>

lemma parse_path_part_end:
  assumes "pool_ok (km_heap s)" and "0 < avail (km_heap s)" and "path_here s path str" and "component str = []"
  shows "\<exists>path' s'. pathparser_parse_path_part last_part path s = Some (0, path', s') \<and> extends s s' \<and>
    path_mem.more s' = path_mem.more s \<and> pm_roots s' = pm_roots s \<and> pm_parts s' = pm_parts s \<and>
    live (km_heap s') = live (km_heap s) \<and> avail (km_heap s) \<le> avail (km_heap s')"
  using get_path_part_spec [OF assms(1-3)] assms(4) by (auto simp: pathparser_parse_path_part_def)

lemma parse_path_part_more:
  assumes ok: "pool_ok (km_heap s)" and room: "2 \<le> avail (km_heap s)" and here: "path_here s path str"
    and more: "component str \<noteq> []"
  shows "\<exists>q p path' s'. pathparser_parse_path_part last_part path s = Some (q, path', s') \<and> extends s s' \<and>
    path_mem.more s' = path_mem.more s \<and> pm_roots s' = pm_roots s \<and>
    pm_parts s' =
      (if last_part \<noteq> 0
       then (pm_parts s)(q := \<lparr>part_str = p, next_part = 0\<rparr>,
               last_part := (((pm_parts s)(q := \<lparr>part_str = p, next_part = 0\<rparr>)) last_part)\<lparr>next_part := q\<rparr>)
       else (pm_parts s)(q := \<lparr>part_str = p, next_part = 0\<rparr>)) \<and>
    path_here s' path' (after_component str) \<and> cstr (km_mem s') (uint p) (component str) \<and>
    q \<noteq> 0 \<and> q \<noteq> p \<and> q \<notin> live (km_heap s) \<and> p \<notin> live (km_heap s) \<and>
    live (km_heap s') = {q, p} \<union> live (km_heap s) \<and> avail (km_heap s') + 2 = avail (km_heap s)"
proof -
  from get_path_part_spec [OF ok _ here] room more obtain p path' s1
    where 1: "pathparser_get_path_part path s = Some (p, path', s1)" "extends s s1"
      "path_mem.more s1 = path_mem.more s" "pm_roots s1 = pm_roots s" "pm_parts s1 = pm_parts s"
      "path_here s1 path' (after_component str)" "p \<noteq> 0" "p \<notin> live (km_heap s)"
      "live (km_heap s1) = insert p (live (km_heap s))" "Suc (avail (km_heap s1)) = avail (km_heap s)"
      "cstr (km_mem s1) (uint p) (component str)"
    by auto
  obtain q s2 where 2: "kalloc 8 s1 = (q, s2)" by (cases "kalloc 8 s1")
  have small: "one_block 8" by (simp add: one_block_def)
  have ok1: "pool_ok (km_heap s1)" "0 < avail (km_heap s1)" using 1(2,10) room by (simp_all add: extends_def grows_def)
  note new = kalloc_spec [OF ok1(1) small ok1(2) 2] and ext = kalloc_extends [OF ok1(1) small ok1(2) 2]
  have same: "path_mem.more s2 = path_mem.more s" "pm_roots s2 = pm_roots s" "pm_parts s2 = pm_parts s"
    using 1(3-5) arg_cong [OF new(11), of path_mem.more] arg_cong [OF new(11), of pm_roots]
      arg_cong [OF new(11), of pm_parts]
    by simp_all
  define s3 where "s3 = (let s' = upd_part q (\<lambda>_. \<lparr>part_str = p, next_part = 0\<rparr>) s2
    in if last_part \<noteq> 0 then upd_part last_part (\<lambda>r. r\<lparr>next_part := q\<rparr>) s' else s')"
  have run: "pathparser_parse_path_part last_part path s = Some (q, path', s3)"
    using 1(1,7) 2 by (simp add: pathparser_parse_path_part_def s3_def Let_def)
  have s3: "km_heap s3 = km_heap s2" "km_mem s3 = km_mem s2" "path_mem.more s3 = path_mem.more s2"
    "pm_roots s3 = pm_roots s2"
    by (simp_all add: s3_def upd_part_def Let_def)
  have parts: "pm_parts s3 =
      (if last_part \<noteq> 0
       then (pm_parts s)(q := \<lparr>part_str = p, next_part = 0\<rparr>,
               last_part := (((pm_parts s)(q := \<lparr>part_str = p, next_part = 0\<rparr>)) last_part)\<lparr>next_part := q\<rparr>)
       else (pm_parts s)(q := \<lparr>part_str = p, next_part = 0\<rparr>))"
    by (simp add: s3_def upd_part_def Let_def same(3))
  have "length (component str) < 4096"
    using here component_length [of str] by (simp add: path_here_def)
  with 1(9,11) have "cstr (km_mem s2) (uint p) (component str)" by (intro extends_inside [OF ext]) simp_all
  then have str: "cstr (km_mem s3) (uint p) (component str)" by (simp add: s3)
  have "path_here s2 path' (after_component str)" by (rule path_here_extends [OF 1(6) ext])
  then have here3: "path_here s3 path' (after_component str)" by (simp add: path_here_def s3)
  have ext3: "extends s s3" by (rule extends_cong [OF _ _ extends_trans [OF 1(2) ext]]) (simp_all add: s3)
  have qp: "q \<noteq> p" "q \<notin> live (km_heap s)" using new(2) 1(9) by auto
  have live: "live (km_heap s3) = {q, p} \<union> live (km_heap s)" "avail (km_heap s3) + 2 = avail (km_heap s)"
    using new(5,6) 1(9,10) by (auto simp: s3)
  have "path_mem.more s3 = path_mem.more s" "pm_roots s3 = pm_roots s" using s3 same by simp_all
  with run parts str here3 ext3 qp live new(1) 1(8) show ?thesis by blast
qed

subsection \<open>All parts\<close>

definition strs_of :: "'a path_mem_scheme \<Rightarrow> u32 list \<Rightarrow> u32 list" where
  "strs_of s qs = map (\<lambda>q. part_str (pm_parts s q)) qs"

text \<open>
  \<open>qs\<close> are the parts that were added between \<open>s\<close> and \<open>s'\<close>: they and their strings are new blocks, and
  nothing else is.
\<close>

definition added_parts :: "'a path_mem_scheme \<Rightarrow> 'a path_mem_scheme \<Rightarrow> u32 list \<Rightarrow> bool" where
  "added_parts s s' qs \<longleftrightarrow> extends s s' \<and> distinct (qs @ strs_of s' qs) \<and>
     set (qs @ strs_of s' qs) \<inter> live (km_heap s) = {} \<and>
     live (km_heap s') = live (km_heap s) \<union> set (qs @ strs_of s' qs) \<and>
     avail (km_heap s) \<le> avail (km_heap s') + 2 * length qs \<and>
     path_mem.more s' = path_mem.more s \<and> pm_roots s' = pm_roots s"

lemma strs_of_cong: "\<forall>q \<in> set qs. pm_parts s q = pm_parts s' q \<Longrightarrow> strs_of s qs = strs_of s' qs"
  by (simp add: strs_of_def)

lemma added_parts_Cons:
  assumes "extends s s1" and "live (km_heap s1) = {q, p} \<union> live (km_heap s)"
    and "q \<noteq> p" "q \<notin> live (km_heap s)" "p \<notin> live (km_heap s)" and "avail (km_heap s1) + 2 = avail (km_heap s)"
    and "path_mem.more s1 = path_mem.more s" "pm_roots s1 = pm_roots s"
    and "added_parts s1 s' qs" and "part_str (pm_parts s' q) = p"
  shows "added_parts s s' (q # qs)"
proof -
  have "strs_of s' (q # qs) = p # strs_of s' qs" using assms(10) by (simp add: strs_of_def)
  with assms extends_trans [OF assms(1), of s'] show ?thesis by (auto simp: added_parts_def)
qed

lemma parse_loop_spec:
  assumes "pool_ok (km_heap s)" and "2 * length (components str) < avail (km_heap s)" and "path_here s path str"
    and "last_part \<in> live (km_heap s)" and "last_part \<noteq> 0" and "next_part (pm_parts s last_part) = 0"
  shows "\<exists>s' qs. parse_loop last_part path s = Some s' \<and> added_parts s s' qs \<and>
    parts_at s' (next_part (pm_parts s' last_part)) qs (components str) \<and>
    part_str (pm_parts s' last_part) = part_str (pm_parts s last_part) \<and>
    (\<forall>r \<in> live (km_heap s). r \<noteq> last_part \<longrightarrow> pm_parts s' r = pm_parts s r)"
  using assms
proof (induction str arbitrary: last_part path s rule: components.induct)
  case (1 str)
  show ?case
  proof (cases "component str = []")
    case True
    from parse_path_part_end [OF "1.prems"(1) _ "1.prems"(3) True, of last_part] "1.prems"(2)
    obtain path' s' where s': "pathparser_parse_path_part last_part path s = Some (0, path', s')" "extends s s'"
      "path_mem.more s' = path_mem.more s" "pm_roots s' = pm_roots s" "pm_parts s' = pm_parts s"
      "live (km_heap s') = live (km_heap s)" "avail (km_heap s) \<le> avail (km_heap s')" by auto
    have "parse_loop last_part path s = Some s'" using s'(1) by (subst parse_loop.simps) simp
    with s' "1.prems"(6) True show ?thesis
      by (intro exI [of _ s'] exI [of _ "[]"]) (simp add: added_parts_def strs_of_def components_Nil)
  next
    case False
    note cs = components_Cons [OF False]
    from parse_path_part_more [OF "1.prems"(1) _ "1.prems"(3) False, of last_part] "1.prems"(2,5) cs
    obtain q p path' s1 where s1: "pathparser_parse_path_part last_part path s = Some (q, path', s1)" "extends s s1"
      "path_mem.more s1 = path_mem.more s" "pm_roots s1 = pm_roots s"
      "pm_parts s1 = (pm_parts s)(q := \<lparr>part_str = p, next_part = 0\<rparr>,
         last_part := (((pm_parts s)(q := \<lparr>part_str = p, next_part = 0\<rparr>)) last_part)\<lparr>next_part := q\<rparr>)"
      "path_here s1 path' (after_component str)" "cstr (km_mem s1) (uint p) (component str)"
      "q \<noteq> 0" "q \<noteq> p" "q \<notin> live (km_heap s)" "p \<notin> live (km_heap s)"
      "live (km_heap s1) = {q, p} \<union> live (km_heap s)" "avail (km_heap s1) + 2 = avail (km_heap s)"
      by auto
    have "q \<noteq> last_part" using s1(10) "1.prems"(4) by auto
    have "\<exists>s' qs. parse_loop q path' s1 = Some s' \<and> added_parts s1 s' qs \<and>
      parts_at s' (next_part (pm_parts s' q)) qs (components (after_component str)) \<and>
      part_str (pm_parts s' q) = part_str (pm_parts s1 q) \<and>
      (\<forall>r \<in> live (km_heap s1). r \<noteq> q \<longrightarrow> pm_parts s' r = pm_parts s1 r)"
    proof (rule "1.IH" [OF refl False])
      show "pool_ok (km_heap s1)" using s1(2) by (simp add: extends_def grows_def)
      show "2 * length (components (after_component str)) < avail (km_heap s1)"
        using "1.prems"(2) s1(13) cs by simp
    qed (use s1 \<open>q \<noteq> last_part\<close> in simp_all)
    then obtain s' qs where s': "parse_loop q path' s1 = Some s'" "added_parts s1 s' qs"
      "parts_at s' (next_part (pm_parts s' q)) qs (components (after_component str))"
      "part_str (pm_parts s' q) = part_str (pm_parts s1 q)"
      "\<forall>r \<in> live (km_heap s1). r \<noteq> q \<longrightarrow> pm_parts s' r = pm_parts s1 r" by blast
    have p: "part_str (pm_parts s' q) = p" using s'(4) s1(5) \<open>q \<noteq> last_part\<close> by simp
    have last: "pm_parts s' last_part = (pm_parts s last_part)\<lparr>next_part := q\<rparr>"
      using s'(5) s1(5,12) "1.prems"(4) \<open>q \<noteq> last_part\<close> by simp
    have "length (component str) < 4096" using "1.prems"(3) component_length [of str] by (simp add: path_here_def)
    then have "cstr (km_mem s') (uint p) (component str)"
      using s'(2) s1(7,12) extends_inside [of s1 s' p "component str"] by (simp add: added_parts_def)
    then have "parts_at s' (next_part (pm_parts s' last_part)) (q # qs) (components str)"
      using s'(3) s1(8) p last unfolding cs by simp
    moreover have "added_parts s s' (q # qs)"
      by (rule added_parts_Cons [OF s1(2,12,9,10,11,13,3,4) s'(2) p])
    moreover have "parse_loop last_part path s = Some s'"
      using s1(1,8) s'(1) by (subst parse_loop.simps) simp
    moreover have "\<forall>r \<in> live (km_heap s). r \<noteq> last_part \<longrightarrow> pm_parts s' r = pm_parts s r"
    proof (intro ballI impI)
      fix r assume "r \<in> live (km_heap s)" "r \<noteq> last_part"
      moreover have "r \<noteq> q" using calculation(1) s1(10) by auto
      ultimately show "pm_parts s' r = pm_parts s r" using s'(5) s1(5,12) by simp
    qed
    ultimately show ?thesis using last by (intro exI [of _ s'] exI [of _ "q # qs"]) simp
  qed
qed


subsection \<open>Parsing a path\<close>

lemma isdigit_bounds: "isdigit d \<Longrightarrow> 0 \<le> tonumericdigit d \<and> tonumericdigit d \<le> 9"
  by (simp add: isdigit_def tonumericdigit_def)

lemma get_drive_spec:
  assumes "cstr (km_mem s) path (d # COLON # SLASH # str)" and "isdigit d"
  shows "pathparser_get_drive_by_path path s = (tonumericdigit d, path + 3, s)"
  using assms strnlen_cstr [OF assms(1), of PEACHOS_MAX_PATH]
  by (simp add: pathparser_get_drive_by_path_def pathparser_path_valid_format_def add.commute [of path])

text \<open>A path \<open>d:/str\<close> that the parser accepts: short enough, and not inside the pool of the heap.\<close>

definition path_ok :: "'a path_mem_scheme \<Rightarrow> int \<Rightarrow> u8 \<Rightarrow> u8 list \<Rightarrow> bool" where
  "path_ok s path d str \<longleftrightarrow> cstr (km_mem s) path (d # COLON # SLASH # str) \<and> isdigit d \<and>
     length (d # COLON # SLASH # str) \<le> 108 \<and>
     {path .. path + int (length (d # COLON # SLASH # str))} \<inter> pool (km_heap s) = {}"

text \<open>The root and the parts are what the call leaves on the heap.\<close>

definition parsed :: "'a path_mem_scheme \<Rightarrow> 'a path_mem_scheme \<Rightarrow> u32 \<Rightarrow> u32 list \<Rightarrow> u8 list list \<Rightarrow> bool" where
  "parsed s s' root qs cs \<longleftrightarrow> extends s s' \<and> root \<noteq> 0 \<and>
     parts_at s' (first_part (pm_roots s' root)) qs cs \<and>
     distinct (root # qs @ strs_of s' qs) \<and> set (root # qs @ strs_of s' qs) \<inter> live (km_heap s) = {} \<and>
     live (km_heap s') = live (km_heap s) \<union> set (root # qs @ strs_of s' qs) \<and>
     avail (km_heap s) \<le> avail (km_heap s') + 2 * length qs + 1 \<and> path_mem.more s' = path_mem.more s"

lemma parts_at_roots [simp]: "parts_at (upd_root r f s) p qs cs = parts_at s p qs cs"
  by (induction s p qs cs rule: parts_at.induct) (simp_all add: upd_root_def)

lemma strs_of_roots [simp]: "strs_of (upd_root r f s) qs = strs_of s qs"
  by (simp add: strs_of_def upd_root_def)

lemma upd_root_frame [simp]:
  "km_heap (upd_root r f s) = km_heap s" "km_mem (upd_root r f s) = km_mem s"
  "path_mem.more (upd_root r f s) = path_mem.more s" "pm_parts (upd_root r f s) = pm_parts s"
  "pm_roots (upd_root r f s) r = f (pm_roots s r)"
  by (simp_all add: upd_root_def)

lemma path_here_root: "path_here (upd_root r f s) path str = path_here s path str"
  by (simp add: path_here_def)

lemma pathparser_parse_spec:
  assumes ok: "pool_ok (km_heap s)" and path: "path_ok s path d str"
    and room: "2 * length (components str) + 1 < avail (km_heap s)"
  shows "\<exists>root s' qs. pathparser_parse path s = Some (root, s') \<and> parsed s s' root qs (components str) \<and>
    drive_no (pm_roots s' root) = tonumericdigit d"
proof -
  have str: "cstr (km_mem s) path (d # COLON # SLASH # str)" "isdigit d" "length str < 108"
    using path by (auto simp: path_ok_def)
  have drive: "pathparser_get_drive_by_path path s = (tonumericdigit d, path + 3, s)"
    by (rule get_drive_spec [OF str(1,2)])
  have pos: "\<not> tonumericdigit d < 0" using isdigit_bounds [OF str(2)] by simp
  have len: "strlen (km_mem s) path = Some (int (length (d # COLON # SLASH # str)))" by (rule strlen_cstr [OF str(1)])
  obtain root s1 where 1: "kalloc 8 s = (root, s1)" by (cases "kalloc 8 s")
  have small: "one_block 8" by (simp add: one_block_def)
  have room1: "0 < avail (km_heap s)" using room by simp
  note new = kalloc_spec [OF ok small room1 1] and ext1 = kalloc_extends [OF ok small room1 1]
  define s2 where "s2 = upd_root root (\<lambda>_. \<lparr>drive_no = tonumericdigit d, first_part = 0\<rparr>) s1"
  have ext2: "extends s s2" by (rule extends_cong [OF _ _ ext1]) (simp_all add: s2_def)
  have "cstr (km_mem s) (path + 3) str" using str(1) by (simp add: algebra_simps)
  moreover have "{path + 3 .. path + 3 + int (length str)} \<inter> pool (km_heap s) = {}"
  proof -
    have "{path + 3 .. path + 3 + int (length str)} \<subseteq> {path .. path + int (length (d # COLON # SLASH # str))}" by auto
    then show ?thesis using path unfolding path_ok_def by blast
  qed
  ultimately have "path_here s (path + 3) str" using str(3) by (simp add: path_here_def)
  then have here2: "path_here s2 (path + 3) str" by (rule path_here_extends [OF _ ext2])
  have more2: "path_mem.more s2 = path_mem.more s" using arg_cong [OF new(11), of path_mem.more] by (simp add: s2_def)
  have ok2: "pool_ok (km_heap s2)" "2 * length (components str) < avail (km_heap s2)"
    "live (km_heap s2) = insert root (live (km_heap s))" "Suc (avail (km_heap s2)) = avail (km_heap s)"
    "pm_roots s2 root = \<lparr>drive_no = tonumericdigit d, first_part = 0\<rparr>"
    using new(4,5,6) room by (simp_all add: s2_def)
  have run: "pathparser_parse path s = do {
      (first, tmp_path, s3) \<leftarrow> pathparser_parse_path_part 0 (path + 3) s2;
      if first = 0 then Some (root, s3)
      else do { s4 \<leftarrow> parse_loop first tmp_path (upd_root root (\<lambda>r. r\<lparr>first_part := first\<rparr>) s3); Some (root, s4) } }"
    using path 1 new(1) pos
    by (simp add: pathparser_parse_def len drive pathparser_create_root_def s2_def path_ok_def Let_def cong: if_cong)
  show ?thesis
  proof (cases "component str = []")
    case True
    from parse_path_part_end [OF ok2(1) _ here2 True, of 0] ok2(2)
    obtain path' s3 where 3: "pathparser_parse_path_part 0 (path + 3) s2 = Some (0, path', s3)" "extends s2 s3"
      "path_mem.more s3 = path_mem.more s2" "pm_roots s3 = pm_roots s2" "pm_parts s3 = pm_parts s2"
      "live (km_heap s3) = live (km_heap s2)" "avail (km_heap s2) \<le> avail (km_heap s3)" by auto
    have "parsed s s3 root [] (components str)"
      using 3 ok2 new(1,2) extends_trans [OF ext2 3(2)] more2 True by (simp add: parsed_def strs_of_def components_Nil)
    with 3(1,4) ok2(5) run show ?thesis by (intro exI [of _ root] exI [of _ s3] exI [of _ "[]"]) simp
  next
    case False
    note cs = components_Cons [OF False]
    from parse_path_part_more [OF ok2(1) _ here2 False, of 0] ok2(2) cs
    obtain q p path' s3 where 3: "pathparser_parse_path_part 0 (path + 3) s2 = Some (q, path', s3)" "extends s2 s3"
      "path_mem.more s3 = path_mem.more s2" "pm_roots s3 = pm_roots s2"
      "pm_parts s3 = (pm_parts s2)(q := \<lparr>part_str = p, next_part = 0\<rparr>)"
      "path_here s3 path' (after_component str)" "cstr (km_mem s3) (uint p) (component str)"
      "q \<noteq> 0" "q \<noteq> p" "q \<notin> live (km_heap s2)" "p \<notin> live (km_heap s2)"
      "live (km_heap s3) = {q, p} \<union> live (km_heap s2)" "avail (km_heap s3) + 2 = avail (km_heap s2)"
      by auto
    define s4 where "s4 = upd_root root (\<lambda>r. r\<lparr>first_part := q\<rparr>) s3"
    have ext4: "extends s2 s4" by (rule extends_cong [OF _ _ 3(2)]) (simp_all add: s4_def)
    have "\<exists>s' qs. parse_loop q path' s4 = Some s' \<and> added_parts s4 s' qs \<and>
      parts_at s' (next_part (pm_parts s' q)) qs (components (after_component str)) \<and>
      part_str (pm_parts s' q) = part_str (pm_parts s4 q) \<and>
      (\<forall>r \<in> live (km_heap s4). r \<noteq> q \<longrightarrow> pm_parts s' r = pm_parts s4 r)"
    proof (rule parse_loop_spec)
      show "pool_ok (km_heap s4)" using 3(2) by (simp add: extends_def grows_def s4_def)
      show "2 * length (components (after_component str)) < avail (km_heap s4)"
        using ok2(2) 3(13) cs by (simp add: s4_def)
    qed (use 3 in \<open>simp_all add: s4_def path_here_root\<close>)
    then obtain s' qs where s': "parse_loop q path' s4 = Some s'" "added_parts s4 s' qs"
      "parts_at s' (next_part (pm_parts s' q)) qs (components (after_component str))"
      "part_str (pm_parts s' q) = part_str (pm_parts s4 q)" by blast
    have p: "part_str (pm_parts s' q) = p" using s'(4) 3(5) by (simp add: s4_def)
    have roots: "pm_roots s' root = \<lparr>drive_no = tonumericdigit d, first_part = q\<rparr>"
      using s'(2) 3(4) ok2(5) by (simp add: added_parts_def s4_def)
    have "length (component str) < 4096" using here2 component_length [of str] by (simp add: path_here_def)
    then have "cstr (km_mem s') (uint p) (component str)"
      using s'(2) 3(7,12) extends_inside [of s4 s' p "component str"] by (simp add: added_parts_def s4_def)
    then have "parts_at s' q (q # qs) (components str)" using s'(3) 3(8) p unfolding cs by simp
    moreover have "strs_of s' (q # qs) = p # strs_of s' qs" using p by (simp add: strs_of_def)
    moreover have "live (km_heap s4) = {q, p, root} \<union> live (km_heap s)" "avail (km_heap s4) + 3 = avail (km_heap s)"
      "path_mem.more s4 = path_mem.more s"
      using 3(3,12,13) ok2(3,4) more2 by (auto simp: s4_def)
    moreover have "extends s s'" using s'(2) extends_trans [OF ext2 extends_trans [OF ext4]] by (simp add: added_parts_def)
    moreover have "q \<noteq> root" "p \<noteq> root" "q \<notin> live (km_heap s)" "p \<notin> live (km_heap s)" using 3(10,11) ok2(3) by auto
    ultimately have "parsed s s' root (q # qs) (components str)"
      using s'(2) new(1,2) 3(9) roots by (auto simp: parsed_def added_parts_def)
    moreover have "pathparser_parse path s = Some (root, s')" using run 3(1,8) s'(1) by (simp add: s4_def)
    ultimately show ?thesis using roots by (intro exI [of _ root] exI [of _ s'] exI [of _ "q # qs"]) simp
  qed
qed


subsection \<open>Releasing a parsed path\<close>

lemma free_parts_loop_run:
  assumes "parts_at s p qs cs"
  shows "\<exists>s'. free_parts_loop p s = Some s' \<and>
    km_heap s' = fold (\<lambda>a h. kfree h a) (concat (map (\<lambda>q. [part_str (pm_parts s q), q]) qs)) (km_heap s) \<and>
    pm_roots s' = pm_roots s \<and> path_mem.more s' = path_mem.more s"
  using assms
proof (induction qs arbitrary: s p cs)
  case Nil
  then have "p = 0" by (cases cs) simp_all
  then show ?case by (subst free_parts_loop.simps) simp
next
  case (Cons q qs)
  then obtain c ds where cs: "cs = c # ds" by (cases cs) simp_all
  let ?s = "krelease q (krelease (part_str (pm_parts s q)) s)"
  have same: "pm_parts ?s = pm_parts s" "km_mem ?s = km_mem s" by (simp_all add: krelease_def)
  have "parts_at ?s p' qs ds = parts_at s p' qs ds" for p'
    by (induction s p' qs ds rule: parts_at.induct) (simp_all add: krelease_def)
  with Cons.prems cs have "parts_at ?s (next_part (pm_parts s q)) qs ds" by simp
  from Cons.IH [OF this] obtain s' where s': "free_parts_loop (next_part (pm_parts s q)) ?s = Some s'"
    "km_heap s' = fold (\<lambda>a h. kfree h a) (concat (map (\<lambda>q. [part_str (pm_parts s q), q]) qs)) (km_heap ?s)"
    "pm_roots s' = pm_roots ?s" "path_mem.more s' = path_mem.more ?s"
    unfolding same by blast
  have "free_parts_loop p s = Some s'"
    using Cons.prems cs s'(1) by (subst free_parts_loop.simps) (simp add: Let_def)
  with s' show ?case by (intro exI [of _ s']) (simp add: krelease_def)
qed

lemma distinct_blocks:
  "distinct (qs @ map f qs) \<Longrightarrow> distinct (concat (map (\<lambda>q. [f q, q]) qs)) \<and>
     set (concat (map (\<lambda>q. [f q, q]) qs)) = set (qs @ map f qs)"
  by (induction qs) auto

lemma pathparser_free_spec:
  assumes "parsed s s' root qs cs"
  shows "\<exists>s''. pathparser_free root s' = Some s'' \<and> pool_ok (km_heap s'') \<and>
    live (km_heap s'') = live (km_heap s) \<and> path_mem.more s'' = path_mem.more s"
proof -
  note p = assms [unfolded parsed_def]
  from p obtain s1 where s1: "free_parts_loop (first_part (pm_roots s' root)) s' = Some s1"
    "km_heap s1 = fold (\<lambda>a h. kfree h a) (concat (map (\<lambda>q. [part_str (pm_parts s' q), q]) qs)) (km_heap s')"
    "path_mem.more s1 = path_mem.more s'"
    using free_parts_loop_run by blast
  let ?bs = "concat (map (\<lambda>q. [part_str (pm_parts s' q), q]) qs)"
  have bs: "distinct ?bs" "set ?bs = set (qs @ strs_of s' qs)"
    using distinct_blocks [of qs "\<lambda>q. part_str (pm_parts s' q)"] p by (simp_all add: strs_of_def)
  have "distinct (?bs @ [root])" "set (?bs @ [root]) \<subseteq> live (km_heap s')" "pool_ok (km_heap s')"
    "live (km_heap s') - set (?bs @ [root]) = live (km_heap s)"
    using p bs by (auto simp: extends_def grows_def)
  with kernel_pages.release_many [of "km_heap s'" "?bs @ [root]"]
  have "pool_ok (kfree (km_heap s1) root)" "live (kfree (km_heap s1) root) = live (km_heap s)"
    by (simp_all add: s1(2))
  then show ?thesis using s1(1,3) p by (simp add: pathparser_free_def krelease_def)
qed

subsection \<open>Properties\<close>

text \<open>Components written out with separators.\<close>

fun render :: "u8 list list \<Rightarrow> u8 list" where
  "render [] = []"
| "render [c] = c"
| "render (c # cs) = c @ SLASH # render cs"

definition component_ok :: "u8 list \<Rightarrow> bool" where
  "component_ok c \<longleftrightarrow> c \<noteq> [] \<and> SLASH \<notin> set c \<and> 0 \<notin> set c"

lemma components_render: "list_all component_ok cs \<Longrightarrow> components (render cs) = cs"
proof (induction cs rule: render.induct)
  case 1
  then show ?case by (subst components.simps) simp
next
  case (2 c)
  then have c: "component c = c" by (auto simp: component_ok_def takeWhile_eq_all_conv)
  from 2 show ?case
    by (subst components.simps) (simp add: Let_def c component_ok_def components.simps [of "[]"])
next
  case (3 c d cs)
  have "component (c @ SLASH # render (d # cs)) = c"
    using 3 by (subst takeWhile_append2) (auto simp: component_ok_def)
  with 3 show ?case by (subst components.simps) (simp add: Let_def component_ok_def)
qed

text \<open>
  Claim C32.  Parsing a rendered path gives back its drive and its components: for a path \<open>d:/c1/.../cn\<close>
  of at most 108 bytes outside the heap, with enough free blocks, \<open>pathparser_parse\<close> returns, the
  root holds the digit's value and heads a list with one part per component, whose strings are the
  components in their order; the blocks it took are new, and everything that was live is untouched.
\<close>

theorem pathparser_parse_render:
  assumes "pool_ok (km_heap s)" and "list_all component_ok cs" and "path_ok s path d (render cs)"
    and "2 * length cs + 1 < avail (km_heap s)"
  shows "\<exists>root s' qs. pathparser_parse path s = Some (root, s') \<and> root \<noteq> 0 \<and>
    drive_no (pm_roots s' root) = uint d - 48 \<and> parts_at s' (first_part (pm_roots s' root)) qs cs \<and>
    extends s s' \<and> live (km_heap s') = live (km_heap s) \<union> set (root # qs @ strs_of s' qs) \<and>
    distinct (root # qs @ strs_of s' qs)"
proof -
  have "isdigit d" using assms(3) by (simp add: path_ok_def)
  then have "uint d = sint d" by (subst uint_sint) (simp add: isdigit_def take_bit_int_eq_self)
  then have "tonumericdigit d = uint d - 48" by (simp add: tonumericdigit_def)
  with pathparser_parse_spec [OF assms(1,3)] assms(2,4) show ?thesis
    unfolding components_render [OF assms(2)] parsed_def by metis
qed

text \<open>
  Claim C33.  \<open>pathparser_free\<close> undoes \<open>pathparser_parse\<close> on the heap: whatever parts the path has, the
  release of the parsed path returns and leaves live exactly the blocks that were live before.
\<close>

theorem pathparser_parse_free:
  assumes "pool_ok (km_heap s)" and "path_ok s path d str"
    and "2 * length (components str) + 1 < avail (km_heap s)"
  shows "\<exists>root s' s''. pathparser_parse path s = Some (root, s') \<and> pathparser_free root s' = Some s'' \<and>
    pool_ok (km_heap s'') \<and> live (km_heap s'') = live (km_heap s)"
  using pathparser_parse_spec [OF assms] pathparser_free_spec by metis

text \<open>A path of two components in the memory of a freshly initialised heap.\<close>

definition demo_path_mem :: path_mem where
  "demo_path_mem = \<lparr>km_heap = snd (kheap_init demo_heap),
     km_mem = literal 0x5000 (0x30 # COLON # SLASH # render [bytes ''dir'', bytes ''a.nes'']),
     km_term = \<lparr>video_mem = (\<lambda>_. 0), terminal_row = 0, terminal_col = 0\<rparr>,
     pm_roots = (\<lambda>_. \<lparr>drive_no = 0, first_part = 0\<rparr>), pm_parts = (\<lambda>_. \<lparr>part_str = 0, next_part = 0\<rparr>)\<rparr>"

lemma demo_path_ok:
  "path_ok demo_path_mem 0x5000 0x30 (render [bytes ''dir'', bytes ''a.nes''])"
  "list_all component_ok [bytes ''dir'', bytes ''a.nes'']"
proof -
  have "cstr (km_mem demo_path_mem) 0x5000 (0x30 # COLON # SLASH # render [bytes ''dir'', bytes ''a.nes''])"
    unfolding demo_path_mem_def kmem.select_convs by (rule cstr_literal) (simp add: bytes_def)
  then show "path_ok demo_path_mem 0x5000 0x30 (render [bytes ''dir'', bytes ''a.nes''])"
    by (auto simp: path_ok_def isdigit_def bytes_def demo_path_mem_def pool_def kheap_init_eq)
  show "list_all component_ok [bytes ''dir'', bytes ''a.nes'']"
    by (simp add: component_ok_def bytes_def)
qed

theorem pathparser_parse_render_witness:
  "\<exists>root s' qs. pathparser_parse 0x5000 demo_path_mem = Some (root, s') \<and> drive_no (pm_roots s' root) = 0 \<and>
     parts_at s' (first_part (pm_roots s' root)) qs [bytes ''dir'', bytes ''a.nes'']"
  using pathparser_parse_render [OF _ demo_path_ok(2,1)]
  by (simp add: demo_path_mem_def kheap_init_pool kheap_init_avail) blast

theorem pathparser_parse_free_witness:
  "\<exists>root s' s''. pathparser_parse 0x5000 demo_path_mem = Some (root, s') \<and> pathparser_free root s' = Some s'' \<and>
     live (km_heap s'') = {}"
  using pathparser_parse_free [OF _ demo_path_ok(1)] components_render [OF demo_path_ok(2)]
  by (simp add: demo_path_mem_def kheap_init_pool kheap_init_avail kheap_init_live) blast


end
