(* ===== verification/Disk.thy ===== *)
theory Disk
  imports HeapProps
begin

text \<open>
  Reading the disk: the ATA sector driver of \<open>src/disk/disk.c\<close> and the byte stream over it of
  \<open>src/disk/streamer.c\<close>.  The drive is hardware and a parameter: \<open>ata l\<close> is the 512 bytes it returns
  for the 28-bit sector number \<open>l\<close> latched in its registers; the driver waits until it is ready.
\<close>

type_synonym ata = "u32 \<Rightarrow> u8 list"

definition PEACHOS_SECTOR_SIZE :: int where "PEACHOS_SECTOR_SIZE = 512"

lemma smod_sector: "n smod 512 < 512" "0 \<le> n \<Longrightarrow> n smod 512 = n mod (512 :: int)"
proof -
  have "\<bar>n\<bar> mod 512 < 512" by simp
  then show "n smod 512 < 512" by (auto simp: smod_int_alt_def sgn_if intro: order_le_less_trans [of _ 0])
  show "0 \<le> n \<Longrightarrow> n smod 512 = n mod 512" by (auto simp: smod_int_alt_def sgn_if)
qed

lemma sector_rest: "512 \<le> n smod 512 + k \<Longrightarrow> 0 < (k :: int)"
  using smod_sector(1) [of n] by linarith

subsection \<open>Sectors\<close>

text \<open>The task-file registers 0x1F3 to 0x1F6, and the sector number the drive takes from them.\<close>

record task_file =
  tf_low :: u8
  tf_mid :: u8
  tf_high :: u8
  tf_head :: u8

definition latched_lba :: "task_file \<Rightarrow> u32" where
  "latched_lba tf = push_bit 24 (ucast (tf_head tf AND 0x0F)) OR push_bit 16 (ucast (tf_high tf)) OR
     push_bit 8 (ucast (tf_mid tf)) OR ucast (tf_low tf)"

text \<open>\<open>lba\<close> is an \<open>int\<close>; the shifts are arithmetic.\<close>

(* src/src/disk/disk.c 11-16 disk_read_sector: outb *)
definition select_sector :: "u32 \<Rightarrow> task_file" where
  "select_sector lba =
     \<lparr>tf_low = ucast (lba AND 0xff), tf_mid = ucast (signed_drop_bit 8 lba),
      tf_high = ucast (signed_drop_bit 16 lba), tf_head = ucast (signed_drop_bit 24 lba OR 0xE0)\<rparr>"

text \<open>Consecutive sectors follow the latched one; each is copied as 256 words, low byte first.\<close>

(* src/src/disk/disk.c 9-37 disk_read_sector *)
definition disk_read_sector :: "ata \<Rightarrow> u32 \<Rightarrow> int \<Rightarrow> u8 list" where
  "disk_read_sector ata lba tot =
     concat (map (\<lambda>b. ata (latched_lba (select_sector lba) + word_of_int b)) [0 .. tot - 1])"

text \<open>The only disk is disk 0; another pointer is refused.  A pointer to a structure is its address.\<close>

(* src/src/disk/disk.h 10-20 disk *)
record disk =
  disk_type :: u32
  disk_sector_size :: int
  disk_id :: int
  disk_filesystem :: u32
  disk_fs_private :: u32

text \<open>A \<open>struct disk*\<close> is \<open>None\<close> (NULL) or the address of the one global.\<close>

datatype disk_ptr = The_disk | Other_disk

(* src/src/disk/disk.c 47-52 disk_get *)
definition disk_get :: "int \<Rightarrow> disk_ptr option" where
  "disk_get index = (if index \<noteq> 0 then None else Some The_disk)"

(* src/src/disk/disk.c 54-61 disk_read_block *)
definition disk_read_block :: "ata \<Rightarrow> disk_ptr \<Rightarrow> u32 \<Rightarrow> int \<Rightarrow> int \<times> u8 list" where
  "disk_read_block ata idisk lba tot =
     (if idisk \<noteq> The_disk then (- EIO, []) else (0, disk_read_sector ata lba tot))"

subsection \<open>The stream\<close>

(* src/src/disk/streamer.h 6-9 disk_stream *)
record disk_stream =
  ds_pos :: int
  ds_disk :: disk_ptr

(* src/src/disk/streamer.c 18-21 diskstreamer_seek *)
definition diskstreamer_seek :: "disk_stream \<Rightarrow> int \<Rightarrow> int \<times> disk_stream" where
  "diskstreamer_seek stream pos = (0, stream\<lparr>ds_pos := pos\<rparr>)"

(* src/src/disk/streamer.c 39-41 diskstreamer_read: copy loop *)
definition copy_from_sector :: "u8 list \<Rightarrow> int \<Rightarrow> int \<Rightarrow> memory \<Rightarrow> int \<Rightarrow> memory" where
  "copy_from_sector buf offset total_to_read m out =
     fold (\<lambda>i m. m(out + i := buf ! nat (offset + i))) [0 .. total_to_read - 1] m"

(* src/src/disk/streamer.c 23-50 diskstreamer_read *)
function diskstreamer_read ::
  "ata \<Rightarrow> disk_stream \<Rightarrow> memory \<Rightarrow> int \<Rightarrow> int \<Rightarrow> int \<times> disk_stream \<times> memory" where
  "diskstreamer_read ata stream m out tot =
     (let sector = ds_pos stream sdiv PEACHOS_SECTOR_SIZE;
          offset = ds_pos stream smod PEACHOS_SECTOR_SIZE;
          overflow = (offset + tot \<ge> PEACHOS_SECTOR_SIZE);
          total_to_read = (if overflow then tot - ((offset + tot) - PEACHOS_SECTOR_SIZE) else tot);
          (res, buf) = disk_read_block ata (ds_disk stream) (word_of_int sector) 1
      in if res < 0 then (res, stream, m)
         else
           let m = copy_from_sector buf offset total_to_read m out;
               stream = stream\<lparr>ds_pos := ds_pos stream + total_to_read\<rparr>
           in if overflow
              then diskstreamer_read ata stream m (out + total_to_read) (tot - total_to_read)
              else (res, stream, m))"
  by pat_completeness auto
termination
  by (relation "measure (\<lambda>(ata, stream, m, out, tot). nat tot)") 
    (auto simp: PEACHOS_SECTOR_SIZE_def smod_sector dest: sector_rest)

declare diskstreamer_read.simps [simp del]

subsection \<open>The disk as one array of bytes\<close>

lemma latched_select:
  assumes "lba < 2 ^ 28"
  shows "latched_lba (select_sector lba) = lba"
proof -
  have "uint lba < 2 ^ 28" using assms by (simp add: word_less_def)
  then have low: "take_bit 28 lba = lba"
    by (simp add: word_uint_eq_iff unsigned_take_bit_eq take_bit_int_eq_self)
  have top: "\<not> bit lba k" if "28 \<le> k" for k
    using that low by (metis bit_take_bit_iff not_less)
  have head: "(ucast (signed_drop_bit 24 lba OR 0xE0) :: u8) AND 0x0F = take_bit 4 (ucast (drop_bit 24 lba))"
  proof (rule bit_word_eqI)
    fix n assume "n < LENGTH(8)"
    then have "n = 0 \<or> n = 1 \<or> n = 2 \<or> n = 3 \<or> n = 4 \<or> n = 5 \<or> n = 6 \<or> n = 7" by auto
    then show "bit ((ucast (signed_drop_bit 24 lba OR 0xE0) :: u8) AND 0x0F) n =
        bit (take_bit 4 (ucast (drop_bit 24 lba)) :: u8) n"
      by (elim disjE) (simp_all add: bit_simps)
  qed
  show ?thesis
  proof (rule bit_word_eqI)
    fix n assume n: "n < LENGTH(32)"
    consider "n < 8" | "8 \<le> n" "n < 16" | "16 \<le> n" "n < 24" | "24 \<le> n" "n < 28" | "28 \<le> n" by linarith
    then show "bit (latched_lba (select_sector lba)) n = bit lba n"
      unfolding latched_lba_def select_sector_def task_file.simps head and_low_byte
      using n top [of n] by cases (simp_all add: bit_simps, linarith+)
  qed
qed

definition disk_byte :: "ata \<Rightarrow> int \<Rightarrow> u8" where
  "disk_byte ata p = ata (word_of_int (p div 512)) ! nat (p mod 512)"

lemma copy_from_sector_apply:
  "0 \<le> n \<Longrightarrow> copy_from_sector buf offset n m out a =
     (if out \<le> a \<and> a < out + n then buf ! nat (offset + (a - out)) else m a)"
proof (induction n rule: int_ge_induct)
  case base
  show ?case by (auto simp: copy_from_sector_def)
next
  case (step n)
  then show ?case by (auto simp: copy_from_sector_def upto_rec2 [of 0 n])
qed

lemma disk_byte_sector:
  assumes "0 \<le> k" and "p mod 512 + k < 512"
  shows "disk_byte ata (p + k) = ata (word_of_int (p div 512)) ! nat (p mod 512 + k)"
proof -
  have eq: "p + k = 512 * (p div 512) + (p mod 512 + k)" using mult_div_mod_eq [of 512 p] by linarith
  have pos: "0 \<le> p mod 512 + k" using assms(1) by simp
  have "(p + k) div 512 = p div 512" "(p + k) mod 512 = p mod 512 + k"
    using int_div_pos_eq [OF eq pos assms(2)] int_mod_pos_eq [OF eq pos assms(2)] by simp_all
  then show ?thesis by (simp add: disk_byte_def)
qed

lemma disk_read_one:
  assumes "0 \<le> sec" and "sec < 2 ^ 28"
  shows "disk_read_block ata The_disk (word_of_int sec) 1 = (0, ata (word_of_int sec))"
proof -
  have "(word_of_int sec :: u32) < 2 ^ 28"
    using assms by (simp add: word_less_def uint_of_int_id)
  then show ?thesis by (simp add: disk_read_block_def disk_read_sector_def latched_select)
qed

lemma diskstreamer_read_spec:
  assumes "ds_disk stream = The_disk"
    and "0 \<le> ds_pos stream" and "0 \<le> tot" and "ds_pos stream + tot < 2 ^ 31"
  shows "diskstreamer_read ata stream m out tot =
    (0, stream\<lparr>ds_pos := ds_pos stream + tot\<rparr>,
     (\<lambda>a. if out \<le> a \<and> a < out + tot then disk_byte ata (ds_pos stream + (a - out)) else m a))"
  using assms
proof (induction ata stream m out tot rule: diskstreamer_read.induct)
  case (1 ata stream m out tot)
  let ?pos = "ds_pos stream"
  define off where "off = ?pos mod 512"
  define n where "n = (if 512 \<le> off + tot then 512 - off else tot)"
  have off: "0 \<le> off" "off < 512" by (simp_all add: off_def)
  have n: "0 \<le> n" "n \<le> tot" "off + n \<le> 512" using off "1.prems"(3) by (auto simp: n_def)
  have "?pos div 512 < 2 ^ 28" using "1.prems"(3,4) by (simp add: div_less_iff_less_mult)
  then have block: "disk_read_block ata The_disk (word_of_int (?pos sdiv 512)) 1 =
      (0, ata (word_of_int (?pos div 512)))"
    using "1.prems"(2) by (simp add: sdiv_nonneg disk_read_one)
  have offs: "?pos smod 512 = off"
    using "1.prems"(2) by (simp add: smod_sector off_def)
  let ?buf = "ata (word_of_int (?pos div 512))"
  define m1 where "m1 = copy_from_sector ?buf off n m out"
  have m1: "m1 = (\<lambda>a. if out \<le> a \<and> a < out + n then disk_byte ata (?pos + (a - out)) else m a)"
    using n off by (auto simp: m1_def copy_from_sector_apply disk_byte_sector off_def fun_eq_iff)
  show ?case
  proof (cases "512 \<le> off + tot")
    case False
    then have "diskstreamer_read ata stream m out tot = (0, stream\<lparr>ds_pos := ?pos + tot\<rparr>, m1)"
      using "1.prems"(1)
      by (subst diskstreamer_read.simps)
        (simp add: PEACHOS_SECTOR_SIZE_def Let_def block offs m1_def n_def)
    with False show ?thesis by (simp add: m1 n_def)
  next
    case True
    let ?s = "stream\<lparr>ds_pos := ?pos + n\<rparr>"
    have n': "n = 512 - off" using True by (simp add: n_def)
    have rec: "diskstreamer_read ata stream m out tot = diskstreamer_read ata ?s m1 (out + n) (tot - n)"
      using True "1.prems"(1)
      by (subst diskstreamer_read.simps)
        (simp add: PEACHOS_SECTOR_SIZE_def Let_def block offs m1_def n' algebra_simps)
    have "diskstreamer_read ata ?s m1 (out + n) (tot - n) =
      (0, ?s\<lparr>ds_pos := ds_pos ?s + (tot - n)\<rparr>,
       (\<lambda>a. if out + n \<le> a \<and> a < out + n + (tot - n) then disk_byte ata (ds_pos ?s + (a - (out + n))) else m1 a))"
      using "1.IH" "1.prems" True n n'
      by (auto simp: PEACHOS_SECTOR_SIZE_def Let_def block offs m1_def)
    then show ?thesis unfolding rec using n by (auto simp: m1 fun_eq_iff algebra_simps)
  qed
qed

text \<open>
  Claim C24.  The stream presents the sectors as one array of bytes: reading \<open>tot\<close> bytes at a position
  copies exactly the bytes \<open>pos\<close> to \<open>pos + tot - 1\<close> of the disk to the buffer, across any number of
  sector boundaries, touches no other memory, returns 0 and leaves the position behind the last byte.
\<close>

theorem diskstreamer_read_flat:
  assumes "ds_disk stream = The_disk"
    and "0 \<le> ds_pos stream" and "0 \<le> tot" and "ds_pos stream + tot < 2 ^ 31"
  shows "diskstreamer_read ata stream m out tot =
    (0, stream\<lparr>ds_pos := ds_pos stream + tot\<rparr>,
     (\<lambda>a. if out \<le> a \<and> a < out + tot then disk_byte ata (ds_pos stream + (a - out)) else m a))"
  using assms by (rule diskstreamer_read_spec)

lemma diskstreamer_read_flat_witness:
  "diskstreamer_read (\<lambda>l. map (\<lambda>i. ucast l + word_of_nat i) [0 ..< 512]) \<lparr>ds_pos = 510, ds_disk = The_disk\<rparr>
     (\<lambda>_. 0) 0x10 4 =
   (0, \<lparr>ds_pos = 514, ds_disk = The_disk\<rparr>,
    (\<lambda>a. if 0x10 \<le> a \<and> a < 0x14
      then disk_byte (\<lambda>l. map (\<lambda>i. ucast l + word_of_nat i) [0 ..< 512]) (510 + (a - 0x10)) else 0))"
  using diskstreamer_read_flat [where stream = "\<lparr>ds_pos = 510, ds_disk = The_disk\<rparr>" and tot = 4
      and ata = "\<lambda>l. map (\<lambda>i. ucast l + word_of_nat i) [0 ..< 512]" and m = "\<lambda>_. 0" and out = "0x10"]
  by (simp cong: if_cong)

end
