(* ===== verification/Fat16.thy ===== *)
theory Fat16
  imports PathParser Disk
begin

text \<open>
  The FAT16 driver of \<open>src/fs/fat/fat16.c\<close>, and the part of \<open>src/disk/streamer.c\<close> that allocates streams.
  Packed on-disk structures (the boot sector's header, directory items) are bytes of memory and are
  decoded where the code reads a field; the driver's own structures are in stores indexed by address.
  There is one disk.  \<open>None\<close> is a call that does not return, traps on a division by zero, or reads a
  structure as one of another type (a directory as a file).  Sizes and positions on a FAT16 volume of
  less than 2 GiB fit in \<open>int\<close>.
\<close>

subsection \<open>On-disk structures\<close>

definition le16 :: "memory \<Rightarrow> int \<Rightarrow> u16" where
  "le16 m p = push_bit 8 (ucast (m (p + 1))) OR ucast (m p)"

definition le32 :: "memory \<Rightarrow> int \<Rightarrow> u32" where
  "le32 m p = push_bit 16 (ucast (le16 m (p + 2))) OR ucast (le16 m p)"

(* src/src/fs/fat/fat16.c 30-62 fat_header, fat_header_extended, fat_h *)
record fat_h =
  bytes_per_sector :: u16
  sectors_per_cluster :: u8
  reserved_sectors :: u16
  fat_copies :: u8
  root_dir_entries :: u16
  number_of_sectors :: u16
  media_type :: u8
  sectors_per_fat :: u16
  sectors_per_track :: u16
  number_of_heads :: u16
  hidden_setors :: u32
  sectors_big :: u32
  drive_number :: u8
  win_nt_bit :: u8
  signature :: u8
  volume_id :: u32

text \<open>The header whose first byte is at \<open>p\<close>; the jump instruction and the names are not read by the code.\<close>

definition fat_h_at :: "memory \<Rightarrow> int \<Rightarrow> fat_h" where
  "fat_h_at m p =
     \<lparr>bytes_per_sector = le16 m (p + 11), sectors_per_cluster = m (p + 13), reserved_sectors = le16 m (p + 14),
      fat_copies = m (p + 16), root_dir_entries = le16 m (p + 17), number_of_sectors = le16 m (p + 19),
      media_type = m (p + 21), sectors_per_fat = le16 m (p + 22), sectors_per_track = le16 m (p + 24),
      number_of_heads = le16 m (p + 26), hidden_setors = le32 m (p + 28), sectors_big = le32 m (p + 32),
      drive_number = m (p + 36), win_nt_bit = m (p + 37), signature = m (p + 38), volume_id = le32 m (p + 39)\<rparr>"

abbreviation sizeof_fat_h :: int where "sizeof_fat_h \<equiv> 62"

(* src/src/fs/fat/fat16.c 64-78 fat_directory_item *)
record fat_directory_item =
  di_attribute :: u8
  creation_time :: u16
  creation_date :: u16
  last_access :: u16
  high_16_bits_first_cluster :: u16
  last_mod_time :: u16
  last_mod_date :: u16
  low_16_bits_first_cluster :: u16
  filesize :: u32

text \<open>The item at \<open>p\<close>; its name is the 8 bytes at \<open>p\<close>, its extension the 3 bytes after them.\<close>

definition item_at :: "memory \<Rightarrow> int \<Rightarrow> fat_directory_item" where
  "item_at m p =
     \<lparr>di_attribute = m (p + 11), creation_time = le16 m (p + 14), creation_date = le16 m (p + 16),
      last_access = le16 m (p + 18), high_16_bits_first_cluster = le16 m (p + 20),
      last_mod_time = le16 m (p + 22), last_mod_date = le16 m (p + 24),
      low_16_bits_first_cluster = le16 m (p + 26), filesize = le32 m (p + 28)\<rparr>"

abbreviation sizeof_item :: int where "sizeof_item \<equiv> 32"

abbreviation (input) FAT_ITEM_TYPE_DIRECTORY :: u32 where "FAT_ITEM_TYPE_DIRECTORY \<equiv> 0"
abbreviation (input) FAT_ITEM_TYPE_FILE :: u32 where "FAT_ITEM_TYPE_FILE \<equiv> 1"
abbreviation (input) FAT_FILE_READ_ONLY :: u8 where "FAT_FILE_READ_ONLY \<equiv> 0x01"
abbreviation (input) FAT_FILE_SUBDIRECTORY :: u8 where "FAT_FILE_SUBDIRECTORY \<equiv> 0x10"

subsection \<open>The driver's structures\<close>

(* src/src/fs/fat/fat16.c 80-85 fat_directory *)
record fat_directory =
  dir_item :: u32
  dir_total :: int
  sector_pos :: int
  ending_sector_pos :: int

text \<open>The union of the two pointers is one address.\<close>

(* src/src/fs/fat/fat16.c 87-94 fat_item *)
record fat_item =
  fi_ptr :: u32
  fi_type :: u32

(* src/src/fs/fat/fat16.c 96-99 fat_file_descriptor *)
record fat_file_descriptor =
  ffd_item :: u32
  ffd_pos :: u32

text \<open>The header is at the address of the structure, in the bytes of memory.\<close>

(* src/src/fs/fat/fat16.c 101-113 fat_private *)
record fat_private =
  root_directory :: fat_directory
  cluster_read_stream :: u32
  fat_read_stream :: u32
  directory_stream :: u32

record fs_mem = path_mem +
  fs_disk :: disk
  fs_streams :: "u32 \<Rightarrow> disk_stream"
  fs_privates :: "u32 \<Rightarrow> fat_private"
  fs_dirs :: "u32 \<Rightarrow> fat_directory"
  fs_items :: "u32 \<Rightarrow> fat_item"
  fs_fds :: "u32 \<Rightarrow> fat_file_descriptor"

type_synonym 'a fs_prog = "fs_mem \<Rightarrow> ('a \<times> fs_mem) option"

text \<open>\<open>&fat16_fs\<close>, an address that the linker chooses and that is not NULL.\<close>

abbreviation FAT16_FS :: u32 where "FAT16_FS \<equiv> 0x100"

definition the_private :: "fs_mem \<Rightarrow> fat_private" where
  "the_private s = fs_privates s (disk_fs_private (fs_disk s))"

definition the_header :: "fs_mem \<Rightarrow> fat_h" where
  "the_header s = fat_h_at (km_mem s) (uint (disk_fs_private (fs_disk s)))"

abbreviation sector_size :: "fs_mem \<Rightarrow> int" where
  "sector_size s \<equiv> disk_sector_size (fs_disk s)"

subsection \<open>Streams\<close>

(* src/src/disk/streamer.c 6-16 diskstreamer_new *)
definition diskstreamer_new :: "int \<Rightarrow> fs_mem \<Rightarrow> u32 \<times> fs_mem" where
  "diskstreamer_new disk_no s =
     (case disk_get disk_no of
        None \<Rightarrow> (0, s)
      | Some d \<Rightarrow>
          let (p, s) = kalloc 8 s
          in (p, s\<lparr>fs_streams := (fs_streams s)(p := \<lparr>ds_pos = 0, ds_disk = d\<rparr>)\<rparr>))"

(* src/src/disk/streamer.c 52-54 diskstreamer_close *)
definition diskstreamer_close :: "u32 \<Rightarrow> fs_mem \<Rightarrow> fs_mem" where
  "diskstreamer_close stream s = krelease stream s"

text \<open>The streamer's operations on the stream at an address.\<close>

definition stream_seek :: "u32 \<Rightarrow> int \<Rightarrow> fs_mem \<Rightarrow> int \<times> fs_mem" where
  "stream_seek p pos s =
     (let (res, st) = diskstreamer_seek (fs_streams s p) pos in (res, s\<lparr>fs_streams := (fs_streams s)(p := st)\<rparr>))"

definition stream_read :: "ata \<Rightarrow> u32 \<Rightarrow> int \<Rightarrow> int \<Rightarrow> fs_mem \<Rightarrow> int \<times> fs_mem" where
  "stream_read ata p out tot s =
     (let (res, st, m) = diskstreamer_read ata (fs_streams s p) (km_mem s) out tot
      in (res, s\<lparr>km_mem := m, fs_streams := (fs_streams s)(p := st)\<rparr>))"

text \<open>Reading into a local variable: a memory of its own, with the variable at address 0.\<close>

definition stream_read_local :: "ata \<Rightarrow> u32 \<Rightarrow> int \<Rightarrow> fs_mem \<Rightarrow> int \<times> memory \<times> fs_mem" where
  "stream_read_local ata p tot s =
     (let (res, st, m) = diskstreamer_read ata (fs_streams s p) (\<lambda>_. 0) 0 tot
      in (res, m, s\<lparr>fs_streams := (fs_streams s)(p := st)\<rparr>))"

subsection \<open>Directories\<close>

(* src/src/fs/fat/fat16.c 143-145 fat16_sector_to_absolute *)
definition fat16_sector_to_absolute :: "fs_mem \<Rightarrow> int \<Rightarrow> int" where
  "fat16_sector_to_absolute s sector = sector * sector_size s"

(* src/src/fs/fat/fat16.c 163-179 fat16_get_total_items_for_directory: loop *)
partial_function (option) count_items_loop :: "ata \<Rightarrow> u32 \<Rightarrow> int \<Rightarrow> int fs_prog" where
  "count_items_loop ata stream i s =
     (let (res, item, s) = stream_read_local ata stream sizeof_item s
      in if res \<noteq> PEACHOS_ALL_OK then Some (- EIO, s)
         else if item 0 = 0x00 then Some (i, s)
         else if item 0 = 0xE5 then count_items_loop ata stream i s
         else count_items_loop ata stream (i + 1) s)"

(* src/src/fs/fat/fat16.c 147-186 fat16_get_total_items_for_directory *)
definition fat16_get_total_items_for_directory :: "ata \<Rightarrow> u32 \<Rightarrow> int fs_prog" where
  "fat16_get_total_items_for_directory ata directory_start_sector s =
     (let directory_start_pos = sint (directory_start_sector * word_of_int (sector_size s));
          stream = directory_stream (the_private s);
          (res, s) = stream_seek stream directory_start_pos s
      in if res \<noteq> PEACHOS_ALL_OK then Some (- EIO, s) else count_items_loop ata stream 0 s)"

text \<open>\<open>directory\<close> is the root directory inside the private data.\<close>

definition set_root_directory :: "u32 \<Rightarrow> fat_directory \<Rightarrow> fs_mem \<Rightarrow> fs_mem" where
  "set_root_directory p d s = s\<lparr>fs_privates := (fs_privates s)(p := (fs_privates s p)\<lparr>root_directory := d\<rparr>)\<rparr>"

(* src/src/fs/fat/fat16.c 188-238 fat16_get_root_directory *)
definition fat16_get_root_directory :: "ata \<Rightarrow> u32 \<Rightarrow> int fs_prog" where
  "fat16_get_root_directory ata fat_private s =
     (let header = fat_h_at (km_mem s) (uint fat_private);
          root_dir_sector_pos = uint (fat_copies header) * uint (sectors_per_fat header) + uint (reserved_sectors header);
          root_dir_size = uint (root_dir_entries header) * sizeof_item;
          total_sectors = root_dir_size sdiv sector_size s;
          total_sectors = (if root_dir_size smod sector_size s \<noteq> 0 then total_sectors + 1 else total_sectors)
      in do {
        (total_items, s) \<leftarrow> fat16_get_total_items_for_directory ata (word_of_int root_dir_sector_pos) s;
        let (dir, s) = kalloc (word_of_int root_dir_size) s;
        if dir = 0 then Some (- ENOMEM, s)
        else
          let stream = directory_stream (fs_privates s fat_private);
              (res, s) = stream_seek stream (fat16_sector_to_absolute s root_dir_sector_pos) s
          in if res \<noteq> PEACHOS_ALL_OK then Some (- EIO, krelease dir s)
             else
               let (res, s) = stream_read ata stream (uint dir) root_dir_size s
               in if res \<noteq> PEACHOS_ALL_OK then Some (- EIO, krelease dir s)
                  else Some (0, set_root_directory fat_private
                    \<lparr>dir_item = dir, dir_total = total_items, sector_pos = root_dir_sector_pos,
                     ending_sector_pos = root_dir_sector_pos + total_sectors\<rparr> s) })"

subsection \<open>Names\<close>

text \<open>
  The name is copied from the item's memory \<open>mi\<close> to a buffer in \<open>mo\<close>; the results are the advanced \<open>out\<close> and
  the buffer's memory.  \<open>size\<close> is at least 1 in both calls, so \<open>size - 1\<close> does not wrap.
\<close>

(* src/src/fs/fat/fat16.c 241-255 fat16_to_proper_string: loop *)
function proper_string_loop :: "memory \<Rightarrow> memory \<Rightarrow> int \<Rightarrow> int \<Rightarrow> int \<Rightarrow> int \<Rightarrow> int \<times> memory" where
  "proper_string_loop mi mo out inp size_in i =
     (if mi inp \<noteq> 0x00 \<and> mi inp \<noteq> 0x20 then
        let mo = mo(out := mi inp); out = out + 1; inp = inp + 1
        in if i \<ge> size_in - 1 then (out, mo) else proper_string_loop mi mo out inp size_in (i + 1)
      else (out, mo))"
  by pat_completeness auto
termination
  by (relation "measure (\<lambda>(mi, mo, out, inp, size_in, i). nat (size_in - i))") auto

declare proper_string_loop.simps [simp del]

(* src/src/fs/fat/fat16.c 240-256 fat16_to_proper_string *)
definition fat16_to_proper_string :: "memory \<Rightarrow> memory \<Rightarrow> int \<Rightarrow> int \<Rightarrow> int \<Rightarrow> int \<times> memory" where
  "fat16_to_proper_string mi mo out inp size_in =
     (let (out, mo) = proper_string_loop mi mo out inp size_in 0 in (out, mo(out := 0x00)))"

(* src/src/fs/fat/fat16.c 258-267 fat16_get_full_relative_filename *)
definition fat16_get_full_relative_filename :: "memory \<Rightarrow> int \<Rightarrow> memory \<Rightarrow> int \<Rightarrow> int \<Rightarrow> memory" where
  "fat16_get_full_relative_filename mi item mo out max_len =
     (let mo = memset mo out 0x00 (nat max_len);
          (out_tmp, mo) = fat16_to_proper_string mi mo out item 8
      in if mi (item + 8) \<noteq> 0x00 \<and> mi (item + 8) \<noteq> 0x20
         then
           let mo = mo(out_tmp := of_char CHR ''.''); out_tmp = out_tmp + 1
           in snd (fat16_to_proper_string mi mo out_tmp (item + 8) 3)
         else mo)"

text \<open>\<open>memcpy\<close> with a non-negative length returns.\<close>

(* src/src/fs/fat/fat16.c 269-282 fat16_clone_directory_item *)
definition fat16_clone_directory_item :: "u32 \<Rightarrow> int \<Rightarrow> u32 fs_prog" where
  "fat16_clone_directory_item item sz s =
     (if sz < sizeof_item then Some (0, s)
      else
        let (item_copy, s) = kalloc (word_of_int sz) s
        in if item_copy = 0 then Some (0, s)
           else do {
             m \<leftarrow> memcpy (km_mem s) (uint item_copy) (uint item) sz;
             Some (item_copy, s\<lparr>km_mem := m\<rparr>) })"

subsection \<open>Clusters\<close>

(* src/src/fs/fat/fat16.c 284-286 fat16_get_first_cluster *)
definition fat16_get_first_cluster :: "fat_directory_item \<Rightarrow> u32" where
  "fat16_get_first_cluster item = ucast (high_16_bits_first_cluster item OR low_16_bits_first_cluster item)"

(* src/src/fs/fat/fat16.c 288-290 fat16_cluster_to_sector *)
definition fat16_cluster_to_sector :: "fs_mem \<Rightarrow> int \<Rightarrow> int" where
  "fat16_cluster_to_sector s cluster =
     ending_sector_pos (root_directory (the_private s)) + (cluster - 2) * uint (sectors_per_cluster (the_header s))"

(* src/src/fs/fat/fat16.c 292-294 fat16_get_first_fat_sector *)
definition fat16_get_first_fat_sector :: "fs_mem \<Rightarrow> u32" where
  "fat16_get_first_fat_sector s = ucast (reserved_sectors (the_header s))"

(* src/src/fs/fat/fat16.c 296-319 fat16_get_fat_entry *)
definition fat16_get_fat_entry :: "ata \<Rightarrow> int \<Rightarrow> fs_mem \<Rightarrow> int \<times> fs_mem" where
  "fat16_get_fat_entry ata cluster s =
     (let stream = fat_read_stream (the_private s)
      in if stream = 0 then (-1, s)
         else
           let fat_table_position = fat16_get_first_fat_sector s * word_of_int (sector_size s);
               (res, s) = stream_seek stream (sint (fat_table_position + word_of_int (cluster * 2))) s
           in if res < 0 then (res, s)
              else
                let (res, result, s) = stream_read_local ata stream 2 s
                in if res < 0 then (res, s) else (uint (le16 result 0), s))"

text \<open>The entries at which the walk along the chain gives up.\<close>

(* src/src/fs/fat/fat16.c 330-352 fat16_get_cluster_for_offset: tests *)
definition chain_end :: "int \<Rightarrow> bool" where
  "chain_end entry \<longleftrightarrow> entry = 0xFFF8 \<or> entry = 0xFFFF \<or> entry = 0xFF7 \<or> entry = 0xFF0 \<or> entry = 0xFF6 \<or> entry = 0"

(* src/src/fs/fat/fat16.c 328-355 fat16_get_cluster_for_offset: loop *)
fun cluster_loop :: "ata \<Rightarrow> nat \<Rightarrow> int \<Rightarrow> fs_mem \<Rightarrow> int \<times> fs_mem" where
  "cluster_loop ata 0 cluster_to_use s = (cluster_to_use, s)"
| "cluster_loop ata (Suc n) cluster_to_use s =
     (let (entry, s) = fat16_get_fat_entry ata cluster_to_use s
      in if chain_end entry then (- EIO, s) else cluster_loop ata n entry s)"

definition cluster_bytes :: "fs_mem \<Rightarrow> int" where
  "cluster_bytes s = uint (sectors_per_cluster (the_header s)) * sector_size s"

(* src/src/fs/fat/fat16.c 322-361 fat16_get_cluster_for_offset *)
definition fat16_get_cluster_for_offset :: "ata \<Rightarrow> int \<Rightarrow> int \<Rightarrow> int fs_prog" where
  "fat16_get_cluster_for_offset ata starting_cluster offset s =
     (let size_of_cluster_bytes = cluster_bytes s
      in if size_of_cluster_bytes = 0 then None
         else
           let clusters_ahead = offset sdiv size_of_cluster_bytes
           in Some (cluster_loop ata (nat clusters_ahead) starting_cluster s))"

(* src/src/fs/fat/fat16.c 363-397 fat16_read_internal_from_stream *)
partial_function (option) fat16_read_internal_from_stream ::
  "ata \<Rightarrow> u32 \<Rightarrow> int \<Rightarrow> int \<Rightarrow> int \<Rightarrow> int \<Rightarrow> int fs_prog" where
  "fat16_read_internal_from_stream ata stream cluster offset tot out s = do {
     let size_of_cluster_bytes = cluster_bytes s;
     (cluster_to_use, s) \<leftarrow> fat16_get_cluster_for_offset ata cluster offset s;
     if cluster_to_use < 0 then Some (cluster_to_use, s)
     else
       let offset_from_cluster = offset smod size_of_cluster_bytes;
           starting_sector = fat16_cluster_to_sector s cluster_to_use;
           starting_pos = starting_sector * sector_size s + offset_from_cluster;
           total_to_read = (if tot > size_of_cluster_bytes then size_of_cluster_bytes else tot);
           (res, s) = stream_seek stream starting_pos s
       in if res \<noteq> PEACHOS_ALL_OK then Some (res, s)
          else
            let (res, s) = stream_read ata stream out total_to_read s
            in if res \<noteq> PEACHOS_ALL_OK then Some (res, s)
               else
                 let tot = tot - total_to_read
                 in if tot > 0
                    then fat16_read_internal_from_stream ata stream cluster (offset + total_to_read) tot
                           (out + total_to_read) s
                    else Some (res, s) }"

(* src/src/fs/fat/fat16.c 399-403 fat16_read_internal *)
definition fat16_read_internal :: "ata \<Rightarrow> int \<Rightarrow> int \<Rightarrow> int \<Rightarrow> int \<Rightarrow> int fs_prog" where
  "fat16_read_internal ata starting_cluster offset tot out s =
     (let stream = cluster_read_stream (the_private s)
      in fat16_read_internal_from_stream ata stream starting_cluster offset tot out s)"

subsection \<open>Items\<close>

(* src/src/fs/fat/fat16.c 405-415 fat16_free_directory *)
definition fat16_free_directory :: "u32 \<Rightarrow> fs_mem \<Rightarrow> fs_mem" where
  "fat16_free_directory directory s =
     (if directory = 0 then s
      else
        let s = (if dir_item (fs_dirs s directory) \<noteq> 0 then krelease (dir_item (fs_dirs s directory)) s else s)
        in krelease directory s)"

(* src/src/fs/fat/fat16.c 417-425 fat16_fat_item_free *)
definition fat16_fat_item_free :: "u32 \<Rightarrow> fs_mem \<Rightarrow> fs_mem" where
  "fat16_fat_item_free item s =
     (let it = fs_items s item;
          s = (if fi_type it = FAT_ITEM_TYPE_DIRECTORY then fat16_free_directory (fi_ptr it) s
               else if fi_type it = FAT_ITEM_TYPE_FILE then krelease (fi_ptr it) s
               else s)
      in krelease item s)"

definition upd_dir :: "u32 \<Rightarrow> (fat_directory \<Rightarrow> fat_directory) \<Rightarrow> fs_mem \<Rightarrow> fs_mem" where
  "upd_dir p f s = s\<lparr>fs_dirs := (fs_dirs s)(p := f (fs_dirs s p))\<rparr>"

definition upd_item :: "u32 \<Rightarrow> (fat_item \<Rightarrow> fat_item) \<Rightarrow> fs_mem \<Rightarrow> fs_mem" where
  "upd_item p f s = s\<lparr>fs_items := (fs_items s)(p := f (fs_items s p))\<rparr>"

definition upd_fd :: "u32 \<Rightarrow> (fat_file_descriptor \<Rightarrow> fat_file_descriptor) \<Rightarrow> fs_mem \<Rightarrow> fs_mem" where
  "upd_fd p f s = s\<lparr>fs_fds := (fs_fds s)(p := f (fs_fds s p))\<rparr>"

definition zero_directory :: fat_directory where
  "zero_directory = \<lparr>dir_item = 0, dir_total = 0, sector_pos = 0, ending_sector_pos = 0\<rparr>"

text \<open>On an error the directory is released and its address is returned all the same.\<close>

(* src/src/fs/fat/fat16.c 427-463 fat16_load_fat_directory *)
definition fat16_load_fat_directory :: "ata \<Rightarrow> u32 \<Rightarrow> u32 fs_prog" where
  "fat16_load_fat_directory ata item s =
     (let it = item_at (km_mem s) (uint item)
      in if di_attribute it AND FAT_FILE_SUBDIRECTORY = 0 then Some (0, fat16_free_directory 0 s)
         else
           let (directory, s) = kalloc 16 s
           in if directory = 0 then Some (0, fat16_free_directory 0 s)
              else do {
                let s = upd_dir directory (\<lambda>_. zero_directory) s;
                let cluster = sint (fat16_get_first_cluster (item_at (km_mem s) (uint item)));
                let cluster_sector = fat16_cluster_to_sector s cluster;
                (total_items, s) \<leftarrow> fat16_get_total_items_for_directory ata (word_of_int cluster_sector) s;
                let s = upd_dir directory (\<lambda>d. d\<lparr>dir_total := total_items\<rparr>) s;
                let directory_size = total_items * sizeof_item;
                let (p, s) = kalloc (word_of_int directory_size) s;
                let s = upd_dir directory (\<lambda>d. d\<lparr>dir_item := p\<rparr>) s;
                if p = 0 then Some (directory, fat16_free_directory directory s)
                else do {
                  (res, s) \<leftarrow> fat16_read_internal ata cluster 0x00 directory_size (uint p) s;
                  Some (directory, if res \<noteq> PEACHOS_ALL_OK then fat16_free_directory directory s else s) } })"

(* src/src/fs/fat/fat16.c 465-480 fat16_new_fat_item_for_directory_item *)
definition fat16_new_fat_item_for_directory_item :: "ata \<Rightarrow> u32 \<Rightarrow> u32 fs_prog" where
  "fat16_new_fat_item_for_directory_item ata item s =
     (let (f_item, s) = kalloc 8 s
      in if f_item = 0 then Some (0, s)
         else
           let s = upd_item f_item (\<lambda>_. \<lparr>fi_ptr = 0, fi_type = 0\<rparr>) s
           in if di_attribute (item_at (km_mem s) (uint item)) AND FAT_FILE_SUBDIRECTORY \<noteq> 0
              then do {
                (directory, s) \<leftarrow> fat16_load_fat_directory ata item s;
                let s = upd_item f_item (\<lambda>i. i\<lparr>fi_ptr := directory\<rparr>) s;
                Some (f_item, upd_item f_item (\<lambda>i. i\<lparr>fi_type := FAT_ITEM_TYPE_DIRECTORY\<rparr>) s) }
              else do {
                let s = upd_item f_item (\<lambda>i. i\<lparr>fi_type := FAT_ITEM_TYPE_FILE\<rparr>) s;
                (copy, s) \<leftarrow> fat16_clone_directory_item item sizeof_item s;
                Some (f_item, upd_item f_item (\<lambda>i. i\<lparr>fi_ptr := copy\<rparr>) s) })"

text \<open>
  The loop does not stop at the first match.  \<open>tmp_filename\<close> is a local of 108 bytes, in a memory of its own.
\<close>

(* src/src/fs/fat/fat16.c 486-492 fat16_find_item_in_directory: loop body *)
definition find_item_step :: "ata \<Rightarrow> u32 \<Rightarrow> u32 \<Rightarrow> nat \<Rightarrow> u32 \<Rightarrow> u32 fs_prog" where
  "find_item_step ata items name i f_item s =
     (let item = items + 32 * word_of_nat i;
          tmp_filename = fat16_get_full_relative_filename (km_mem s) (uint item) (\<lambda>_. 0) 0 PEACHOS_MAX_PATH
      in if istrncmp tmp_filename 0 (km_mem s) (uint name) PEACHOS_MAX_PATH = 0
         then fat16_new_fat_item_for_directory_item ata item s
         else Some (f_item, s))"

(* src/src/fs/fat/fat16.c 486-493 fat16_find_item_in_directory: loop *)
fun find_item_loop :: "ata \<Rightarrow> u32 \<Rightarrow> u32 \<Rightarrow> nat list \<Rightarrow> u32 \<Rightarrow> u32 fs_prog" where
  "find_item_loop ata items name [] f_item s = Some (f_item, s)"
| "find_item_loop ata items name (i # is) f_item s = do {
     (f_item, s) \<leftarrow> find_item_step ata items name i f_item s;
     find_item_loop ata items name is f_item s }"

(* src/src/fs/fat/fat16.c 482-495 fat16_find_item_in_directory *)
definition fat16_find_item_in_directory :: "ata \<Rightarrow> fat_directory \<Rightarrow> u32 \<Rightarrow> u32 fs_prog" where
  "fat16_find_item_in_directory ata directory name s =
     find_item_loop ata (dir_item directory) name [0 ..< nat (dir_total directory)] 0 s"

text \<open>\<open>part\<close> is the next part of the path; \<open>current_item\<close> may be NULL when a part was not found.\<close>

(* src/src/fs/fat/fat16.c 507-517 fat16_get_directory_entry: loop *)
partial_function (option) directory_entry_loop :: "ata \<Rightarrow> u32 \<Rightarrow> u32 \<Rightarrow> u32 fs_prog" where
  "directory_entry_loop ata current_item part s =
     (if part = 0 then Some (current_item, s)
      else if fi_type (fs_items s current_item) \<noteq> FAT_ITEM_TYPE_DIRECTORY then Some (0, s)
      else do {
        (tmp_item, s) \<leftarrow> fat16_find_item_in_directory ata (fs_dirs s (fi_ptr (fs_items s current_item)))
                         (part_str (pm_parts s part)) s;
        let s = fat16_fat_item_free current_item s;
        directory_entry_loop ata tmp_item (next_part (pm_parts s part)) s })"

(* src/src/fs/fat/fat16.c 497-520 fat16_get_directory_entry *)
definition fat16_get_directory_entry :: "ata \<Rightarrow> u32 \<Rightarrow> u32 fs_prog" where
  "fat16_get_directory_entry ata path s = do {
     (root_item, s) \<leftarrow> fat16_find_item_in_directory ata (root_directory (the_private s)) (part_str (pm_parts s path)) s;
     if root_item = 0 then Some (0, kprint (''no root item'' @ [CHR 0x0A]) s)
     else directory_entry_loop ata root_item (next_part (pm_parts s path)) s }"

subsection \<open>Mounting\<close>

definition upd_disk :: "(disk \<Rightarrow> disk) \<Rightarrow> fs_mem \<Rightarrow> fs_mem" where
  "upd_disk f s = s\<lparr>fs_disk := f (fs_disk s)\<rparr>"

definition upd_private :: "u32 \<Rightarrow> (fat_private \<Rightarrow> fat_private) \<Rightarrow> fs_mem \<Rightarrow> fs_mem" where
  "upd_private p f s = s\<lparr>fs_privates := (fs_privates s)(p := f (fs_privates s p))\<rparr>"

abbreviation sizeof_fat_private :: int where "sizeof_fat_private \<equiv> 92"

(* src/src/fs/fat/fat16.c 137-141 fat16_init_private *)
definition fat16_init_private :: "u32 \<Rightarrow> fs_mem \<Rightarrow> fs_mem" where
  "fat16_init_private p s =
     (let s = s\<lparr>km_mem := memset (km_mem s) (uint p) 0 92\<rparr>;
          s = upd_private p (\<lambda>_. \<lparr>root_directory = zero_directory, cluster_read_stream = 0, fat_read_stream = 0,
                                   directory_stream = 0\<rparr>) s;
          (st, s) = diskstreamer_new (disk_id (fs_disk s)) s;
          s = upd_private p (\<lambda>v. v\<lparr>cluster_read_stream := st\<rparr>) s;
          (st, s) = diskstreamer_new (disk_id (fs_disk s)) s;
          s = upd_private p (\<lambda>v. v\<lparr>fat_read_stream := st\<rparr>) s;
          (st, s) = diskstreamer_new (disk_id (fs_disk s)) s
      in upd_private p (\<lambda>v. v\<lparr>directory_stream := st\<rparr>) s)"

text \<open>The exit path: the stream is closed, and on an error the private data is released.\<close>

(* src/src/fs/fat/fat16.c 551-561 fat16_resolve: out *)
definition resolve_out :: "u32 \<Rightarrow> u32 \<Rightarrow> int \<Rightarrow> fs_mem \<Rightarrow> int \<times> fs_mem" where
  "resolve_out fat_private stream res s =
     (let s = (if stream \<noteq> 0 then diskstreamer_close stream s else s);
          s = (if res < 0 then upd_disk (\<lambda>d. d\<lparr>disk_fs_private := 0\<rparr>) (krelease fat_private s) else s)
      in (res, s))"

(* src/src/fs/fat/fat16.c 522-562 fat16_resolve *)
definition fat16_resolve :: "ata \<Rightarrow> int fs_prog" where
  "fat16_resolve ata s =
     (let (fat_private, s) = kalloc (word_of_int sizeof_fat_private) s;
          s = fat16_init_private fat_private s;
          s = upd_disk (\<lambda>d. d\<lparr>disk_fs_private := fat_private, disk_filesystem := FAT16_FS\<rparr>) s;
          (stream, s) = diskstreamer_new (disk_id (fs_disk s)) s
      in if stream = 0 then Some (resolve_out fat_private stream (- ENOMEM) s)
         else
           let (res, s) = stream_read ata stream (uint fat_private) sizeof_fat_h s
           in if res \<noteq> PEACHOS_ALL_OK then Some (resolve_out fat_private stream (- EIO) s)
              else if signature (fat_h_at (km_mem s) (uint fat_private)) \<noteq> 0x29
              then Some (resolve_out fat_private stream (- EFSNOTUS) s)
              else do {
                (res, s) \<leftarrow> fat16_get_root_directory ata fat_private s;
                Some (resolve_out fat_private stream (if res \<noteq> PEACHOS_ALL_OK then - EIO else 0) s) })"

subsection \<open>Open files\<close>

abbreviation (input) FILE_MODE_READ :: u32 where "FILE_MODE_READ \<equiv> 0"

text \<open>\<open>ERROR(code)\<close> is the code as an address, which \<open>ISERR\<close> recognises by its sign.\<close>

(* src/src/kernel.h 14-14 ERROR *)
definition ERROR :: "int \<Rightarrow> u32" where "ERROR v = word_of_int v"

(* src/src/kernel.h 16-16 ISERR *)
definition ISERR :: "u32 \<Rightarrow> bool" where "ISERR v \<longleftrightarrow> sint v < 0"

(* src/src/fs/fat/fat16.c 564-596 fat16_open *)
definition fat16_open :: "ata \<Rightarrow> u32 \<Rightarrow> u32 \<Rightarrow> u32 fs_prog" where
  "fat16_open ata path mode s =
     (if mode \<noteq> FILE_MODE_READ then Some (ERROR (- ERDONLY), s)
      else
        let (descriptor, s) = kalloc 8 s
        in if descriptor = 0 then Some (ERROR (- ENOMEM), s)
           else do {
             (item, s) \<leftarrow> fat16_get_directory_entry ata path s;
             let s = upd_fd descriptor (\<lambda>_. \<lparr>ffd_item = item, ffd_pos = 0\<rparr>) s;
             if item = 0 then Some (ERROR (- EIO), krelease descriptor s)
             else Some (descriptor, s) })"

text \<open>\<open>nmemb\<close> reads of \<open>size\<close> bytes; the position is written back only when all of them succeed.\<close>

(* src/src/fs/fat/fat16.c 603-611 fat16_read: loop *)
fun read_loop :: "ata \<Rightarrow> nat \<Rightarrow> u32 \<Rightarrow> int \<Rightarrow> u32 \<Rightarrow> int \<Rightarrow> (int \<times> int) fs_prog" where
  "read_loop ata 0 item offset sz out_ptr s = Some ((0, offset), s)"
| "read_loop ata (Suc n) item offset sz out_ptr s = do {
     (res, s) \<leftarrow> fat16_read_internal ata (sint (fat16_get_first_cluster (item_at (km_mem s) (uint item))))
                   offset (sint sz) out_ptr s;
     if res < 0 then Some ((res, offset), s)
     else read_loop ata n item (offset + sint sz) sz (out_ptr + uint sz) s }"

(* src/src/fs/fat/fat16.c 598-616 fat16_read *)
definition fat16_read :: "ata \<Rightarrow> u32 \<Rightarrow> u32 \<Rightarrow> u32 \<Rightarrow> int \<Rightarrow> int fs_prog" where
  "fat16_read ata descriptor sz nmemb out_ptr s =
     (let desc = fs_fds s descriptor;
          f_item = fs_items s (ffd_item desc)
      in if fi_type f_item \<noteq> FAT_ITEM_TYPE_FILE then None
         else do {
           ((res, offset), s) \<leftarrow> read_loop ata (unat nmemb) (fi_ptr f_item) (sint (ffd_pos desc)) sz out_ptr s;
           if res < 0 then Some (res, s)
           else Some (sint nmemb, upd_fd descriptor (\<lambda>d. d\<lparr>ffd_pos := word_of_int offset\<rparr>) s) })"

datatype seek_mode = SEEK_SET | SEEK_CUR | SEEK_END | SEEK_other u32

text \<open>\<open>FILE_SEEK_MODE\<close> is an \<open>unsigned int\<close> with three named values.\<close>

(* src/src/fs/file.h 7-12 FILE_SEEK_MODE *)
definition seek_mode_of :: "u32 \<Rightarrow> seek_mode" where
  "seek_mode_of w = (if w = 0 then SEEK_SET else if w = 1 then SEEK_CUR else if w = 2 then SEEK_END else SEEK_other w)"

(* src/src/fs/fat/fat16.c 618-652 fat16_seek *)
definition fat16_seek :: "u32 \<Rightarrow> u32 \<Rightarrow> u32 \<Rightarrow> fs_mem \<Rightarrow> int \<times> fs_mem" where
  "fat16_seek private offset mode s =
     (let desc_item = fs_items s (ffd_item (fs_fds s private))
      in if fi_type desc_item \<noteq> FAT_ITEM_TYPE_FILE then (- EINVARG, s)
         else
           let ritem = item_at (km_mem s) (uint (fi_ptr desc_item))
           in if offset \<ge> filesize ritem then (- EIO, s)
              else (case seek_mode_of mode of
                      SEEK_SET \<Rightarrow> (0, upd_fd private (\<lambda>d. d\<lparr>ffd_pos := offset\<rparr>) s)
                    | SEEK_END \<Rightarrow> (- EUNIMP, s)
                    | SEEK_CUR \<Rightarrow> (0, upd_fd private (\<lambda>d. d\<lparr>ffd_pos := ffd_pos d + offset\<rparr>) s)
                    | SEEK_other _ \<Rightarrow> (- EINVARG, s)))"

(* src/src/fs/file.h 30-33 file_stat *)
record file_stat =
  fst_flags :: u32
  fst_filesize :: u32

text \<open>\<open>stat\<close> is the caller's structure; it is written only on success.\<close>

(* src/src/fs/fat/fat16.c 654-672 fat16_stat *)
definition fat16_stat :: "u32 \<Rightarrow> file_stat \<Rightarrow> fs_mem \<Rightarrow> int \<times> file_stat" where
  "fat16_stat private stat s =
     (let desc_item = fs_items s (ffd_item (fs_fds s private))
      in if fi_type desc_item \<noteq> FAT_ITEM_TYPE_FILE then (- EINVARG, stat)
         else
           let ritem = item_at (km_mem s) (uint (fi_ptr desc_item));
               stat = stat\<lparr>fst_filesize := filesize ritem, fst_flags := 0x00\<rparr>
           in (0, if di_attribute ritem AND FAT_FILE_READ_ONLY \<noteq> 0
                  then stat\<lparr>fst_flags := fst_flags stat OR 1\<rparr> else stat))"

(* src/src/fs/fat/fat16.c 674-677 fat16_free_file_descriptor *)
definition fat16_free_file_descriptor :: "u32 \<Rightarrow> fs_mem \<Rightarrow> fs_mem" where
  "fat16_free_file_descriptor desc s =
     (let s = fat16_fat_item_free (ffd_item (fs_fds s desc)) s in krelease desc s)"

(* src/src/fs/fat/fat16.c 679-682 fat16_close *)
definition fat16_close :: "u32 \<Rightarrow> fs_mem \<Rightarrow> int \<times> fs_mem" where
  "fat16_close private s = (0, fat16_free_file_descriptor private s)"


end
