(* ===== verification/Fat16Props.thy ===== *)
theory Fat16Props
  imports Fat16
begin

text \<open>
  What the FAT16 driver computes: the cluster of a position is found along the chain of the allocation
  table, reading copies the bytes of the file's clusters, and names are rendered as the 8.3 name of the
  item.  The references are the table and the clusters as bytes of the disk.
\<close>

subsection \<open>Streams\<close>

definition same_disks :: "(u32 \<Rightarrow> disk_stream) \<Rightarrow> (u32 \<Rightarrow> disk_stream) \<Rightarrow> bool" where
  "same_disks f g \<longleftrightarrow> (\<forall>p. ds_disk (f p) = ds_disk (g p))"

lemma same_disks_refl [simp]: "same_disks f f"
  by (simp add: same_disks_def)

lemma same_disks_trans: "same_disks f g \<Longrightarrow> same_disks g h \<Longrightarrow> same_disks f h"
  by (simp add: same_disks_def)

lemma same_disks_upd [simp]:
  "ds_disk st = ds_disk (g p) \<Longrightarrow> same_disks f g \<Longrightarrow> same_disks (f(p := st)) g"
  by (simp add: same_disks_def)

lemma same_disks_move [simp]: "same_disks f g \<Longrightarrow> same_disks (f(p := (f p)\<lparr>ds_pos := x\<rparr>)) g"
  by (simp add: same_disks_def)

lemma stream_seek_eq:
  "stream_seek p pos s = (0, s\<lparr>fs_streams := (fs_streams s)(p := (fs_streams s p)\<lparr>ds_pos := pos\<rparr>)\<rparr>)"
  by (simp add: stream_seek_def diskstreamer_seek_def)

text \<open>The bytes \<open>pos ..\<close> of the disk laid over memory at \<open>out\<close>.\<close>

definition overlay :: "(int \<Rightarrow> u8) \<Rightarrow> int \<Rightarrow> int \<Rightarrow> memory \<Rightarrow> memory" where
  "overlay f out n m = (\<lambda>a. if out \<le> a \<and> a < out + n then f (a - out) else m a)"

lemma overlay_overlay:
  "0 \<le> n \<Longrightarrow> 0 \<le> k \<Longrightarrow> \<forall>i. 0 \<le> i \<and> i < k \<longrightarrow> g i = f (n + i) \<Longrightarrow>
   overlay g (out + n) k (overlay f out n m) = overlay f out (n + k) m"
  by (auto simp: overlay_def fun_eq_iff algebra_simps)

lemma overlay_cong: "\<forall>i. 0 \<le> i \<and> i < n \<longrightarrow> f i = g i \<Longrightarrow> overlay f out n m = overlay g out n m"
  by (auto simp: overlay_def fun_eq_iff)

lemma overlay_outside: "a < out \<or> out + n \<le> a \<Longrightarrow> overlay f out n m a = m a"
  by (auto simp: overlay_def)

lemma stream_read_spec:
  assumes "ds_disk (fs_streams s p) = The_disk" and "0 \<le> ds_pos (fs_streams s p)" and "0 \<le> n"
    and "ds_pos (fs_streams s p) + n < 2 ^ 31"
  shows "stream_read ata p out n s =
    (0, s\<lparr>km_mem := overlay (\<lambda>i. disk_byte ata (ds_pos (fs_streams s p) + i)) out n (km_mem s),
          fs_streams := (fs_streams s)(p := (fs_streams s p)\<lparr>ds_pos := ds_pos (fs_streams s p) + n\<rparr>)\<rparr>)"
  using assms by (simp add: stream_read_def diskstreamer_read_spec overlay_def)

lemma stream_read_local_spec:
  assumes "ds_disk (fs_streams s p) = The_disk" and "0 \<le> ds_pos (fs_streams s p)" and "0 \<le> n"
    and "ds_pos (fs_streams s p) + n < 2 ^ 31"
  shows "stream_read_local ata p n s =
    (0, overlay (\<lambda>i. disk_byte ata (ds_pos (fs_streams s p) + i)) 0 n (\<lambda>_. 0),
     s\<lparr>fs_streams := (fs_streams s)(p := (fs_streams s p)\<lparr>ds_pos := ds_pos (fs_streams s p) + n\<rparr>)\<rparr>)"
  using assms by (simp add: stream_read_local_def diskstreamer_read_spec overlay_def)

text \<open>Seeking to \<open>pos\<close> and reading there.\<close>

lemma read_at:
  assumes "ds_disk (fs_streams s p) = The_disk" and "0 \<le> pos" and "0 \<le> n" and "pos + n < 2 ^ 31"
  shows "stream_read ata p out n (s\<lparr>fs_streams := (fs_streams s)(p := (fs_streams s p)\<lparr>ds_pos := pos\<rparr>)\<rparr>) =
    (0, s\<lparr>km_mem := overlay (\<lambda>i. disk_byte ata (pos + i)) out n (km_mem s),
          fs_streams := (fs_streams s)(p := (fs_streams s p)\<lparr>ds_pos := pos + n\<rparr>)\<rparr>)"
  by (subst stream_read_spec) (use assms in simp_all)

lemma read_local_at:
  assumes "ds_disk (fs_streams s p) = The_disk" and "0 \<le> pos" and "0 \<le> n" and "pos + n < 2 ^ 31"
  shows "stream_read_local ata p n (s\<lparr>fs_streams := (fs_streams s)(p := (fs_streams s p)\<lparr>ds_pos := pos\<rparr>)\<rparr>) =
    (0, overlay (\<lambda>i. disk_byte ata (pos + i)) 0 n (\<lambda>_. 0),
     s\<lparr>fs_streams := (fs_streams s)(p := (fs_streams s p)\<lparr>ds_pos := pos + n\<rparr>)\<rparr>)"
  by (subst stream_read_local_spec) (use assms in simp_all)

subsection \<open>The mounted volume\<close>

definition fat_position :: "fs_mem \<Rightarrow> int" where
  "fat_position s = uint (reserved_sectors (the_header s)) * 512"

definition cluster_start :: "fs_mem \<Rightarrow> int \<Rightarrow> int" where
  "cluster_start s c =
     (ending_sector_pos (root_directory (the_private s)) +
      (c - 2) * uint (sectors_per_cluster (the_header s))) * 512"

text \<open>A volume with its streams in place.\<close>

definition mounted :: "fs_mem \<Rightarrow> bool" where
  "mounted s \<longleftrightarrow> sector_size s = 512 \<and> sectors_per_cluster (the_header s) \<noteq> 0 \<and>
     0 \<le> ending_sector_pos (root_directory (the_private s)) \<and>
     fat_read_stream (the_private s) \<noteq> 0 \<and>
     ds_disk (fs_streams s (fat_read_stream (the_private s))) = The_disk \<and>
     ds_disk (fs_streams s (cluster_read_stream (the_private s))) = The_disk \<and>
     ds_disk (fs_streams s (directory_stream (the_private s))) = The_disk"

lemma private_streams [simp]:
  "the_private (s\<lparr>fs_streams := f\<rparr>) = the_private s" "the_header (s\<lparr>fs_streams := f\<rparr>) = the_header s"
  "the_private (s\<lparr>km_mem := m\<rparr>) = the_private s"
  by (simp_all add: the_private_def the_header_def)

lemma geometry_streams [simp]:
  "fat_position (s\<lparr>fs_streams := f\<rparr>) = fat_position s" "cluster_start (s\<lparr>fs_streams := f\<rparr>) = cluster_start s"
  "cluster_bytes (s\<lparr>fs_streams := f\<rparr>) = cluster_bytes s"
  by (simp_all add: fat_position_def cluster_start_def cluster_bytes_def fun_eq_iff)

lemma mounted_streams [simp]:
  "same_disks f (fs_streams s) \<Longrightarrow> mounted (s\<lparr>fs_streams := f\<rparr>) = mounted s"
  by (simp add: mounted_def same_disks_def)

text \<open>The entry of a cluster in the first allocation table.\<close>

definition fat_entry :: "ata \<Rightarrow> int \<Rightarrow> int \<Rightarrow> int" where
  "fat_entry ata tbl c = uint (le16 (\<lambda>a. disk_byte ata (tbl + c * 2 + a)) 0)"

lemma fat_entry_bounds: "0 \<le> fat_entry ata tbl c" "fat_entry ata tbl c < 65536"
  using uint_lt2p [of "le16 (\<lambda>a. disk_byte ata (tbl + c * 2 + a)) 0"] by (simp_all add: fat_entry_def)

lemma get_fat_entry_spec:
  assumes "mounted s" and "0 \<le> c" and "c < 65536"
  shows "\<exists>f. fat16_get_fat_entry ata c s = (fat_entry ata (fat_position s) c, s\<lparr>fs_streams := f\<rparr>) \<and>
    same_disks f (fs_streams s)"
proof -
  let ?r = "uint (reserved_sectors (the_header s))"
  have r: "0 \<le> ?r" "?r < 65536" using uint_lt2p [of "reserved_sectors (the_header s)"] by simp_all
  have pos: "fat_position s + c * 2 < 2 ^ 31 - 2" "0 \<le> fat_position s"
    using r assms(2,3) by (simp_all add: fat_position_def)
  have "uint (fat16_get_first_fat_sector s) = ?r"
    using r by (simp add: fat16_get_first_fat_sector_def unsigned_ucast_eq take_bit_int_eq_self_iff)
  then have "fat16_get_first_fat_sector s = word_of_int ?r" by (metis word_of_int_uint)
  then have "fat16_get_first_fat_sector s * word_of_int (sector_size s) + word_of_int (c * 2) =
      word_of_int (fat_position s + c * 2)"
    using assms(1) by (simp add: mounted_def fat_position_def)
  then have sint: "sint (fat16_get_first_fat_sector s * word_of_int (sector_size s) + word_of_int (c * 2)) =
      fat_position s + c * 2"
    using pos assms(2) by (simp only: sint_of_small)
  have le: "uint (le16 (overlay (\<lambda>i. disk_byte ata (fat_position s + c * 2 + i)) 0 2 (\<lambda>_. 0)) 0) =
      fat_entry ata (fat_position s) c"
    by (simp add: fat_entry_def le16_def overlay_def)
  let ?p = "fat_read_stream (the_private s)" and ?pos = "fat_position s + c * 2"
  let ?f = "(fs_streams s)(?p := (fs_streams s ?p)\<lparr>ds_pos := ?pos + 2\<rparr>)"
  have disk: "ds_disk (fs_streams s ?p) = The_disk" "?p \<noteq> 0" using assms(1) by (simp_all add: mounted_def)
  have "0 \<le> ?pos" "?pos + 2 < 2 ^ 31" using pos assms(2) by simp_all
  from read_local_at [OF disk(1) this(1) _ this(2)] disk(2)
  have "fat16_get_fat_entry ata c s = (fat_entry ata (fat_position s) c, s\<lparr>fs_streams := ?f\<rparr>)"
    by (simp only: fat16_get_fat_entry_def Let_def if_False stream_seek_eq sint prod.case) (simp add: le)
  moreover have "same_disks ?f (fs_streams s)" by simp
  ultimately show ?thesis by blast
qed


subsection \<open>The chain of a file\<close>

text \<open>
  The clusters of a file: \<open>cs\<close> starts with the file's first cluster, each entry of the table leads to
  the next one, and each lies in the first 2 GiB of the disk, which positions of type \<open>int\<close> reach.
\<close>

definition file_chain :: "ata \<Rightarrow> fs_mem \<Rightarrow> int list \<Rightarrow> bool" where
  "file_chain ata s cs \<longleftrightarrow> cs \<noteq> [] \<and>
     (\<forall>i. Suc i < length cs \<longrightarrow> fat_entry ata (fat_position s) (cs ! i) = cs ! Suc i) \<and>
     (\<forall>c \<in> set cs. \<not> chain_end c \<and> 2 \<le> c \<and> c < 65536 \<and> cluster_start s (c + 2) < 2 ^ 31)"

lemma file_chain_streams [simp]: "file_chain ata (s\<lparr>fs_streams := f\<rparr>) cs = file_chain ata s cs"
  by (simp add: file_chain_def)

lemma file_chain_drop: "file_chain ata s cs \<Longrightarrow> k < length cs \<Longrightarrow> file_chain ata s (drop k cs)"
  by (auto simp: file_chain_def dest: in_set_dropD)

lemma file_chain_nth:
  "file_chain ata s cs \<Longrightarrow> k < length cs \<Longrightarrow>
   \<not> chain_end (cs ! k) \<and> 2 \<le> cs ! k \<and> cs ! k < 65536 \<and> cluster_start s (cs ! k + 2) < 2 ^ 31"
  by (simp add: file_chain_def)

lemma file_chain_hd:
  assumes "file_chain ata s cs"
  shows "cs \<noteq> []" "hd cs = cs ! 0" "0 \<le> hd cs" "hd cs < 65536" "2 \<le> hd cs"
proof -
  show "cs \<noteq> []" using assms by (simp add: file_chain_def)
  then show "hd cs = cs ! 0" "0 \<le> hd cs" "hd cs < 65536" "2 \<le> hd cs"
    using file_chain_nth [OF assms, of 0] by (simp_all add: hd_conv_nth)
qed

lemma cluster_loop_chain:
  assumes "mounted s" and "file_chain ata s cs" and "n < length cs"
  shows "\<exists>f. cluster_loop ata n (hd cs) s = (cs ! n, s\<lparr>fs_streams := f\<rparr>) \<and> same_disks f (fs_streams s)"
  using assms
proof (induction n arbitrary: cs s)
  case 0
  then show ?case by (auto simp: hd_conv_nth intro!: exI [of _ "fs_streams s"])
next
  case (Suc n)
  note hd = file_chain_hd(2,3,4) [OF Suc.prems(2)]
  obtain f where f: "fat16_get_fat_entry ata (hd cs) s = (fat_entry ata (fat_position s) (hd cs), s\<lparr>fs_streams := f\<rparr>)"
    "same_disks f (fs_streams s)"
    using get_fat_entry_spec [OF Suc.prems(1) hd(2,3)] by blast
  have nxt: "fat_entry ata (fat_position s) (hd cs) = cs ! 1" "\<not> chain_end (cs ! 1)"
    using Suc.prems(2,3) file_chain_nth [OF Suc.prems(2), of 1] by (auto simp: file_chain_def hd)
  have "mounted (s\<lparr>fs_streams := f\<rparr>)" "file_chain ata (s\<lparr>fs_streams := f\<rparr>) (drop 1 cs)" "n < length (drop 1 cs)"
    using Suc.prems f(2) file_chain_drop [of ata s cs 1] by simp_all
  from Suc.IH [OF this] obtain g where
    g: "cluster_loop ata n (cs ! 1) (s\<lparr>fs_streams := f\<rparr>) = (cs ! Suc n, s\<lparr>fs_streams := g\<rparr>)" "same_disks g f"
    using Suc.prems(3) by (auto simp: hd_drop_conv_nth)
  with f nxt show ?case by (auto intro!: exI [of _ g] intro: same_disks_trans)
qed

lemma cluster_loop_end:
  assumes "mounted s" and "file_chain ata s cs" and "chain_end (fat_entry ata (fat_position s) (last cs))"
    and "length cs \<le> n"
  shows "\<exists>f. cluster_loop ata n (hd cs) s = (- EIO, s\<lparr>fs_streams := f\<rparr>) \<and> same_disks f (fs_streams s)"
  using assms
proof (induction n arbitrary: cs s)
  case 0
  then show ?case by (simp add: file_chain_def)
next
  case (Suc n)
  note hd = file_chain_hd(3,4,1) [OF Suc.prems(2)]
  obtain f where f: "fat16_get_fat_entry ata (hd cs) s = (fat_entry ata (fat_position s) (hd cs), s\<lparr>fs_streams := f\<rparr>)"
    "same_disks f (fs_streams s)"
    using get_fat_entry_spec [OF Suc.prems(1) hd(1,2)] by blast
  show ?case
  proof (cases "tl cs = []")
    case True
    then have "last cs = hd cs" using hd(3) by (cases cs) simp_all
    with f Suc.prems(3) show ?thesis by (auto intro!: exI [of _ f])
  next
    case False
    then have len: "1 < length cs" using hd(3) by (cases cs) auto
    then have nxt: "fat_entry ata (fat_position s) (hd cs) = cs ! 1" "\<not> chain_end (cs ! 1)"
      using Suc.prems(2) file_chain_nth [OF Suc.prems(2), of 1] by (auto simp: file_chain_def hd_conv_nth hd(3))
    have "mounted (s\<lparr>fs_streams := f\<rparr>)" "file_chain ata (s\<lparr>fs_streams := f\<rparr>) (drop 1 cs)"
      "chain_end (fat_entry ata (fat_position (s\<lparr>fs_streams := f\<rparr>)) (last (drop 1 cs)))" "length (drop 1 cs) \<le> n"
      using Suc.prems f(2) len file_chain_drop [of ata s cs 1] by simp_all
    from Suc.IH [OF this] obtain g where
      g: "cluster_loop ata n (cs ! 1) (s\<lparr>fs_streams := f\<rparr>) = (- EIO, s\<lparr>fs_streams := g\<rparr>)" "same_disks g f"
      using len by (auto simp: hd_drop_conv_nth)
    with f nxt show ?thesis by (auto intro!: exI [of _ g] intro: same_disks_trans)
  qed
qed

lemma cluster_bytes_pos: "mounted s \<Longrightarrow> 0 < cluster_bytes s"
  by (simp add: mounted_def cluster_bytes_def) (metis bot_nat_0.not_eq_extremum unat_eq_zero uint_nat of_nat_0_less_iff)

lemma get_cluster_spec:
  assumes "mounted s" and "file_chain ata s cs" and "0 \<le> offset"
  shows "nat (offset div cluster_bytes s) < length cs \<Longrightarrow>
      \<exists>f. fat16_get_cluster_for_offset ata (hd cs) offset s =
        Some (cs ! nat (offset div cluster_bytes s), s\<lparr>fs_streams := f\<rparr>) \<and> same_disks f (fs_streams s)"
    and "length cs \<le> nat (offset div cluster_bytes s) \<Longrightarrow>
      chain_end (fat_entry ata (fat_position s) (last cs)) \<Longrightarrow>
      \<exists>f. fat16_get_cluster_for_offset ata (hd cs) offset s = Some (- EIO, s\<lparr>fs_streams := f\<rparr>) \<and>
        same_disks f (fs_streams s)"
  using cluster_bytes_pos [OF assms(1)] assms(3) cluster_loop_chain [OF assms(1,2)] cluster_loop_end [OF assms(1,2)]
  by (simp_all add: fat16_get_cluster_for_offset_def sdiv_nonneg)


subsection \<open>Reading clusters\<close>

lemma apart_outside:
  assumes "{x ..< y} \<inter> A = {}" and "a \<in> A"
  shows "a < x \<or> y \<le> (a :: int)"
proof -
  have "a \<notin> {x ..< y}" using assms by blast
  then show ?thesis by auto
qed

lemma apart_part:
  assumes "{x ..< y} \<inter> A = {}" and "x \<le> x'" and "y' \<le> (y :: int)"
  shows "{x' ..< y'} \<inter> A = {}"
proof -
  have "{x' ..< y'} \<subseteq> {x ..< y}" using assms(2,3) by auto
  with assms(1) show ?thesis by blast
qed

text \<open>Structures in memory depend on their own bytes only.\<close>

lemma le16_cong: "m' p = m p \<Longrightarrow> m' (p + 1) = m (p + 1) \<Longrightarrow> le16 m' p = le16 m p"
  by (simp add: le16_def)

lemma le32_cong:
  "m' p = m p \<Longrightarrow> m' (p + 1) = m (p + 1) \<Longrightarrow> m' (p + 2) = m (p + 2) \<Longrightarrow> m' (p + 3) = m (p + 3) \<Longrightarrow>
   le32 m' p = le32 m p"
  by (simp add: le32_def le16_def algebra_simps)

lemma fat_h_at_cong: "(\<And>a. p \<le> a \<Longrightarrow> a < p + sizeof_fat_h \<Longrightarrow> m' a = m a) \<Longrightarrow> fat_h_at m' p = fat_h_at m p"
  unfolding fat_h_at_def by (intro fat_h.equality) (auto intro!: le16_cong le32_cong)

lemma item_at_cong: "(\<And>a. p \<le> a \<Longrightarrow> a < p + sizeof_item \<Longrightarrow> m' a = m a) \<Longrightarrow> item_at m' p = item_at m p"
  unfolding item_at_def by (intro fat_directory_item.equality) (auto intro!: le16_cong le32_cong)

definition header_bytes :: "fs_mem \<Rightarrow> int set" where
  "header_bytes s = {uint (disk_fs_private (fs_disk s)) ..< uint (disk_fs_private (fs_disk s)) + sizeof_fat_h}"

lemma header_bytes_frame [simp]:
  "header_bytes (s\<lparr>fs_streams := f\<rparr>) = header_bytes s" "header_bytes (s\<lparr>km_mem := m\<rparr>) = header_bytes s"
  by (simp_all add: header_bytes_def)

lemma header_overlay:
  assumes "{out ..< out + n} \<inter> header_bytes s = {}"
  shows "the_header (s\<lparr>km_mem := overlay f out n (km_mem s)\<rparr>) = the_header s"
proof -
  have "overlay f out n (km_mem s) a = km_mem s a" if "a \<in> header_bytes s" for a
    using assms that by (intro overlay_outside apart_outside)
  then show ?thesis
    unfolding the_header_def header_bytes_def
    by simp (rule fat_h_at_cong, simp)
qed

lemma geometry_overlay:
  assumes "{out ..< out + n} \<inter> header_bytes s = {}"
  shows "fat_position (s\<lparr>km_mem := overlay f out n (km_mem s)\<rparr>) = fat_position s"
    "cluster_start (s\<lparr>km_mem := overlay f out n (km_mem s)\<rparr>) = cluster_start s"
    "cluster_bytes (s\<lparr>km_mem := overlay f out n (km_mem s)\<rparr>) = cluster_bytes s"
    "mounted (s\<lparr>km_mem := overlay f out n (km_mem s)\<rparr>) = mounted s"
    "file_chain ata (s\<lparr>km_mem := overlay f out n (km_mem s)\<rparr>) cs = file_chain ata s cs"
  by (simp_all add: fat_position_def cluster_start_def cluster_bytes_def mounted_def file_chain_def fun_eq_iff
      header_overlay [OF assms])

text \<open>The position on the disk from which byte \<open>i\<close> of a read at \<open>offset\<close> is taken.\<close>

definition read_position :: "fs_mem \<Rightarrow> int list \<Rightarrow> int \<Rightarrow> int \<Rightarrow> int" where
  "read_position s cs offset i =
     cluster_start s (cs ! nat (offset div cluster_bytes s + i div cluster_bytes s)) +
     (offset mod cluster_bytes s + i mod cluster_bytes s)"

lemma div_shift:
  fixes b :: int
  assumes "b \<noteq> 0"
  shows "(a + b) div b + i div b = a div b + (b + i) div b"
    and "(a + b) div b + (t - b - 1) div b = a div b + (t - 1) div b"
proof -
  have "t - b - 1 + b = t - 1" by simp
  with div_add_self2 [OF assms, of "t - b - 1"] have "(t - 1) div b = (t - b - 1) div b + 1" by simp
  then show "(a + b) div b + i div b = a div b + (b + i) div b"
    and "(a + b) div b + (t - b - 1) div b = a div b + (t - 1) div b"
    unfolding div_add_self1 [OF assms] div_add_self2 [OF assms] by simp_all
qed

lemma read_position_next:
  assumes "0 < cluster_bytes s"
  shows "read_position s cs (offset + cluster_bytes s) i = read_position s cs offset (cluster_bytes s + i)"
proof -
  let ?cb = "cluster_bytes s"
  have "?cb \<noteq> 0" using assms by (rule less_imp_neq [symmetric])
  from div_shift(1) [OF this, of offset i] show ?thesis by (simp only: read_position_def mod_add_self1 mod_add_self2)
qed

lemma read_position_first:
  "0 \<le> i \<Longrightarrow> i < cluster_bytes s \<Longrightarrow> read_position s cs offset i =
     cluster_start s (cs ! nat (offset div cluster_bytes s)) + offset mod cluster_bytes s + i"
  by (simp add: read_position_def)

lemma cluster_start_add: "mounted s \<Longrightarrow> cluster_start s (c + k) = cluster_start s c + k * cluster_bytes s"
  by (simp add: cluster_start_def cluster_bytes_def mounted_def algebra_simps)

lemma cluster_start_nonneg:
  assumes "mounted s" and "2 \<le> c"
  shows "0 \<le> cluster_start s c"
proof -
  have "0 \<le> cluster_start s 2" using assms(1) by (simp add: mounted_def cluster_start_def)
  moreover have "0 \<le> (c - 2) * cluster_bytes s"
    using assms cluster_bytes_pos [OF assms(1)] by simp
  ultimately show ?thesis using cluster_start_add [OF assms(1), of 2 "c - 2"] by simp
qed

lemma cluster_to_sector:
  "mounted s \<Longrightarrow> fat16_cluster_to_sector s c * sector_size s = cluster_start s c"
  by (simp add: mounted_def fat16_cluster_to_sector_def cluster_start_def)

lemma read_internal_from_stream_spec:
  assumes "mounted s" and "file_chain ata s cs" and "0 \<le> offset" and "0 < tot"
    and "offset div cluster_bytes s + (tot - 1) div cluster_bytes s < int (length cs)"
    and "{out ..< out + tot} \<inter> header_bytes s = {}" and "ds_disk (fs_streams s st) = The_disk"
  shows "\<exists>f. fat16_read_internal_from_stream ata st (hd cs) offset tot out s =
      Some (0, s\<lparr>km_mem := overlay (\<lambda>i. disk_byte ata (read_position s cs offset i)) out tot (km_mem s),
                 fs_streams := f\<rparr>) \<and> same_disks f (fs_streams s)"
  using assms
proof (induction "nat tot" arbitrary: s offset tot out rule: less_induct)
  case less
  let ?cb = "cluster_bytes s" and ?c = "cs ! nat (offset div cluster_bytes s)"
  have cb: "0 < ?cb" by (rule cluster_bytes_pos [OF less.prems(1)])
  define n where "n = (if tot > ?cb then ?cb else tot)"
  have n: "0 < n" "n \<le> ?cb" "n \<le> tot" using cb less.prems(4) by (simp_all add: n_def)
  have idx: "nat (offset div ?cb) < length cs"
    using less.prems(3,4,5) cb pos_imp_zdiv_nonneg_iff [OF cb, of "tot - 1"] pos_imp_zdiv_nonneg_iff [OF cb, of offset]
    by linarith
  note c = file_chain_nth [OF less.prems(2) idx]
  let ?pos = "cluster_start s ?c + offset mod ?cb"
  have "?pos + n \<le> cluster_start s (?c + 2)"
    using n pos_mod_bound [OF cb, of offset] cluster_start_add [OF less.prems(1), of ?c 2] by linarith
  then have pos: "0 \<le> ?pos" "?pos + n < 2 ^ 31"
    using c cb cluster_start_nonneg [OF less.prems(1), of ?c] by simp_all
  obtain f where f: "fat16_get_cluster_for_offset ata (hd cs) offset s = Some (?c, s\<lparr>fs_streams := f\<rparr>)"
    "same_disks f (fs_streams s)"
    using get_cluster_spec(1) [OF less.prems(1-3) idx] by blast
  let ?s1 = "s\<lparr>fs_streams := f\<rparr>"
  have disk1: "ds_disk (fs_streams ?s1 st) = The_disk" using f(2) less.prems(7) by (simp add: same_disks_def)
  define m where "m = overlay (\<lambda>i. disk_byte ata (read_position s cs offset i)) out n (km_mem s)"
  have m: "overlay (\<lambda>i. disk_byte ata (?pos + i)) out n (km_mem s) = m"
    unfolding m_def using n by (intro overlay_cong) (simp add: read_position_first)
  let ?f2 = "f(st := (f st)\<lparr>ds_pos := ?pos + n\<rparr>)"
  let ?s2 = "s\<lparr>km_mem := m, fs_streams := ?f2\<rparr>"
  have read: "stream_read ata st out n (?s1\<lparr>fs_streams := (fs_streams ?s1)(st := (fs_streams ?s1 st)\<lparr>ds_pos := ?pos\<rparr>)\<rparr>) =
      (0, ?s2)"
    using read_at [OF disk1 pos(1) _ pos(2)] n m by simp
  have start: "fat16_cluster_to_sector ?s1 ?c * sector_size ?s1 = cluster_start s ?c"
    using cluster_to_sector [of ?s1 ?c] less.prems(1) f(2) by simp
  have step: "fat16_read_internal_from_stream ata st (hd cs) offset tot out s =
      (if tot - n > 0 then fat16_read_internal_from_stream ata st (hd cs) (offset + n) (tot - n) (out + n) ?s2
       else Some (0, ?s2))"
    using c less.prems(3) cb
    by (subst fat16_read_internal_from_stream.simps)
      (simp only: f(1) bind.simps Let_def prod.case start stream_seek_eq smod_nonneg n_def [symmetric] read
        PEACHOS_ALL_OK_def, simp)
  have disj: "{out ..< out + n} \<inter> header_bytes s = {}" using n by (intro apart_part [OF less.prems(6)]) simp_all
  note geo = geometry_overlay [OF disj, where f = "\<lambda>i. disk_byte ata (read_position s cs offset i)", folded m_def]
  show ?case
  proof (cases "tot - n > 0")
    case False
    then show ?thesis using step f(2) n by (auto simp: m_def intro!: exI [of _ ?f2])
  next
    case True
    then have n_cb: "n = ?cb" by (simp add: n_def split: if_splits)
    have "\<exists>g. fat16_read_internal_from_stream ata st (hd cs) (offset + n) (tot - n) (out + n) ?s2 =
      Some (0, ?s2\<lparr>km_mem := overlay (\<lambda>i. disk_byte ata (read_position ?s2 cs (offset + n) i)) (out + n) (tot - n) (km_mem ?s2),
                 fs_streams := g\<rparr>) \<and> same_disks g (fs_streams ?s2)"
    proof (rule less.hyps)
      show "nat (tot - n) < nat tot" using n True by simp
      show "mounted ?s2" using less.prems(1) f(2) geo(4) by simp
      show "(offset + n) div cluster_bytes ?s2 + (tot - n - 1) div cluster_bytes ?s2 < int (length cs)"
        using less.prems(5) cb div_shift(2) [of ?cb offset tot] geo(3) by (simp add: n_cb)
      show "{out + n ..< out + n + (tot - n)} \<inter> header_bytes ?s2 = {}"
        using n apart_part [OF less.prems(6), of "out + n" "out + tot"] by simp
    qed (use less.prems f(2) geo True n disk1 in \<open>simp_all\<close>)
    then obtain g where
      g: "fat16_read_internal_from_stream ata st (hd cs) (offset + n) (tot - n) (out + n) ?s2 =
        Some (0, ?s2\<lparr>km_mem := overlay (\<lambda>i. disk_byte ata (read_position ?s2 cs (offset + n) i)) (out + n) (tot - n) m,
                   fs_streams := g\<rparr>)" "same_disks g ?f2"
      by auto
    have "read_position ?s2 cs (offset + n) i = read_position s cs offset (n + i)" for i
      using read_position_next [OF cb, of cs offset i] geo(2,3) by (simp add: n_cb read_position_def)
    then have "overlay (\<lambda>i. disk_byte ata (read_position ?s2 cs (offset + n) i)) (out + n) (tot - n) m =
        overlay (\<lambda>i. disk_byte ata (read_position s cs offset i)) out tot (km_mem s)"
      using n overlay_overlay [of n "tot - n" "\<lambda>i. disk_byte ata (read_position s cs offset (n + i))"
          "\<lambda>i. disk_byte ata (read_position s cs offset i)" out "km_mem s"]
      by (simp add: m_def)
    moreover have "same_disks g (fs_streams s)"
      using g(2) f(2) same_disks_move [OF f(2)] by (rule_tac same_disks_trans)
    ultimately show ?thesis using step True g(1) by auto
  qed
qed


subsection \<open>The contents of a file\<close>

text \<open>The bytes of a file are those of its clusters, one after the other.\<close>

definition cluster_data :: "ata \<Rightarrow> fs_mem \<Rightarrow> int \<Rightarrow> u8 list" where
  "cluster_data ata s c = map (\<lambda>i. disk_byte ata (cluster_start s c + int i)) [0 ..< nat (cluster_bytes s)]"

definition file_data :: "ata \<Rightarrow> fs_mem \<Rightarrow> int list \<Rightarrow> u8 list" where
  "file_data ata s cs = concat (map (cluster_data ata s) cs)"

lemma concat_nth:
  assumes "\<forall>xs \<in> set xss. length xs = n" and "k < length xss * n"
  shows "concat xss ! k = xss ! (k div n) ! (k mod n)"
  using assms
proof (induction xss arbitrary: k)
  case Nil
  then show ?case by simp
next
  case (Cons xs xss)
  show ?case
  proof (cases "k < n")
    case True
    with Cons.prems show ?thesis by (simp add: nth_append)
  next
    case False
    moreover have "0 < n" using Cons.prems(2) by (cases n) simp_all
    ultimately have "k div n = Suc ((k - n) div n)" "k mod n = (k - n) mod n"
      by (simp_all add: le_div_geq le_mod_geq)
    with False Cons show ?thesis by (simp add: nth_append)
  qed
qed

lemma length_file_data: "length (file_data ata s cs) = length cs * nat (cluster_bytes s)"
  by (induction cs) (simp_all add: file_data_def cluster_data_def)

lemma file_data_nth:
  assumes "0 < cluster_bytes s" and "0 \<le> k" and "k < int (length (file_data ata s cs))"
  shows "file_data ata s cs ! nat k =
    disk_byte ata (cluster_start s (cs ! nat (k div cluster_bytes s)) + k mod cluster_bytes s)"
proof -
  let ?n = "nat (cluster_bytes s)"
  have n: "0 < ?n" "int ?n = cluster_bytes s" using assms(1) by simp_all
  have k: "nat k < length cs * ?n" using assms(2,3) by (simp add: length_file_data nat_less_iff)
  have "nat k div ?n < length cs" using k n(1) by (simp add: div_less_iff_less_mult)
  moreover have "nat k mod ?n < ?n" using n(1) by simp
  ultimately have "file_data ata s cs ! nat k =
      disk_byte ata (cluster_start s (cs ! (nat k div ?n)) + int (nat k mod ?n))"
    unfolding file_data_def using k by (subst concat_nth [of _ ?n]) (auto simp: cluster_data_def)
  moreover have "nat k div ?n = nat (k div cluster_bytes s)" using assms by (simp add: nat_div_distrib)
  moreover have "int (nat k mod ?n) = k mod cluster_bytes s" using assms by (simp add: zmod_int)
  ultimately show ?thesis by simp
qed

text \<open>A read that starts at a cluster or does not leave its first one.\<close>

definition in_order :: "int \<Rightarrow> int \<Rightarrow> int \<Rightarrow> bool" where
  "in_order cb offset n \<longleftrightarrow> offset mod cb = 0 \<or> offset mod cb + n \<le> cb"

lemma in_order_div_mod:
  assumes "in_order cb offset n" and "0 < cb" and "0 \<le> i" and "i < n"
  shows "offset div cb + i div cb = (offset + i) div cb" "offset mod cb + i mod cb = (offset + i) mod cb"
proof -
  have small: "offset mod cb + i mod cb < cb"
  proof (cases "offset mod cb = 0")
    case False
    then have "offset mod cb + i < cb" using assms by (simp add: in_order_def)
    moreover have "i mod cb \<le> i" by (rule zmod_le_nonneg_dividend [OF assms(3)])
    ultimately show ?thesis by simp
  qed (use assms(2) in simp)
  moreover have "0 \<le> offset mod cb + i mod cb" using assms(2) by simp
  ultimately show "offset mod cb + i mod cb = (offset + i) mod cb"
    using mod_add_eq [of offset cb i] by (simp add: mod_pos_pos_trivial)
  then show "offset div cb + i div cb = (offset + i) div cb"
    using div_add1_eq [of offset i cb] small \<open>0 \<le> offset mod cb + i mod cb\<close> by (simp add: div_pos_pos_trivial)
qed

lemma read_internal_data:
  assumes "mounted s" and "file_chain ata s cs" and "0 \<le> offset" and "0 < n"
    and "in_order (cluster_bytes s) offset n" and "offset + n \<le> int (length (file_data ata s cs))"
    and "{out ..< out + n} \<inter> header_bytes s = {}"
  shows "\<exists>f. fat16_read_internal ata (hd cs) offset n out s =
      Some (0, s\<lparr>km_mem := overlay (\<lambda>i. file_data ata s cs ! nat (offset + i)) out n (km_mem s), fs_streams := f\<rparr>) \<and>
    same_disks f (fs_streams s)"
proof -
  let ?cb = "cluster_bytes s"
  have cb: "0 < ?cb" by (rule cluster_bytes_pos [OF assms(1)])
  note dm = in_order_div_mod [OF assms(5) cb]
  have "offset div ?cb + (n - 1) div ?cb = (offset + (n - 1)) div ?cb" using assms(4) by (intro dm) simp_all
  also have "\<dots> < int (length cs)"
    using assms(6) cb by (simp add: length_file_data zdiv_less_iff)
  finally have last: "offset div ?cb + (n - 1) div ?cb < int (length cs)" .
  have "disk_byte ata (read_position s cs offset i) = file_data ata s cs ! nat (offset + i)" if "0 \<le> i" "i < n" for i
    using that assms(3,6) dm [of i] by (simp add: read_position_def file_data_nth [OF cb])
  then have eq: "overlay (\<lambda>i. disk_byte ata (read_position s cs offset i)) out n (km_mem s) =
      overlay (\<lambda>i. file_data ata s cs ! nat (offset + i)) out n (km_mem s)"
    by (intro overlay_cong) simp
  have "ds_disk (fs_streams s (cluster_read_stream (the_private s))) = The_disk"
    using assms(1) by (simp add: mounted_def)
  from read_internal_from_stream_spec [OF assms(1-4) last assms(7) this] show ?thesis
    by (simp add: fat16_read_internal_def eq)
qed

lemma read_internal_end:
  assumes "mounted s" and "file_chain ata s cs" and "chain_end (fat_entry ata (fat_position s) (last cs))"
    and "int (length (file_data ata s cs)) \<le> offset"
  shows "\<exists>f. fat16_read_internal ata (hd cs) offset n out s = Some (- EIO, s\<lparr>fs_streams := f\<rparr>) \<and>
    same_disks f (fs_streams s)"
proof -
  let ?cb = "cluster_bytes s"
  have cb: "0 < ?cb" by (rule cluster_bytes_pos [OF assms(1)])
  have "int (length cs) * ?cb \<le> offset" using assms(4) cb by (simp add: length_file_data)
  then have "int (length cs) \<le> offset div ?cb" using zdiv_less_iff [OF cb, of offset] by (simp add: not_less [symmetric])
  then have "length cs \<le> nat (offset div ?cb)" by linarith
  moreover have "0 \<le> offset" using assms(4) by simp
  ultimately obtain f where "fat16_get_cluster_for_offset ata (hd cs) offset s = Some (- EIO, s\<lparr>fs_streams := f\<rparr>)"
    "same_disks f (fs_streams s)"
    using get_cluster_spec(2) [OF assms(1,2) _ _ assms(3), of offset] by auto
  then show ?thesis
    by (auto simp: fat16_read_internal_def fat16_read_internal_from_stream.simps [of _ _ _ offset] EIO_def)
qed


subsection \<open>Open files\<close>

definition file_item :: "fs_mem \<Rightarrow> u32 \<Rightarrow> u32" where
  "file_item s fd = fi_ptr (fs_items s (ffd_item (fs_fds s fd)))"

definition item_range :: "u32 \<Rightarrow> int set" where
  "item_range p = {uint p ..< uint p + sizeof_item}"

text \<open>The descriptor at \<open>fd\<close> is that of a file whose clusters are \<open>cs\<close>.\<close>

definition open_file :: "ata \<Rightarrow> fs_mem \<Rightarrow> u32 \<Rightarrow> int list \<Rightarrow> bool" where
  "open_file ata s fd cs \<longleftrightarrow> fi_type (fs_items s (ffd_item (fs_fds s fd))) = FAT_ITEM_TYPE_FILE \<and>
     sint (fat16_get_first_cluster (item_at (km_mem s) (uint (file_item s fd)))) = hd cs \<and> file_chain ata s cs"

lemma item_overlay:
  "{out ..< out + n} \<inter> item_range p = {} \<Longrightarrow> item_at (overlay f out n m) (uint p) = item_at m (uint p)"
  by (rule item_at_cong, rule overlay_outside, erule apart_outside) (simp add: item_range_def)

text \<open>Positions and sizes below 2 GiB; each of the reads is in order.\<close>

definition reads_in_order :: "int \<Rightarrow> int \<Rightarrow> int \<Rightarrow> nat \<Rightarrow> bool" where
  "reads_in_order cb offset sz n \<longleftrightarrow> (\<forall>k < n. in_order cb (offset + int k * sz) sz)"

lemma reads_in_order_Suc:
  "reads_in_order cb offset sz (Suc n) \<longleftrightarrow> in_order cb offset sz \<and> reads_in_order cb (offset + sz) sz n"
  by (simp add: reads_in_order_def All_less_Suc2 algebra_simps)

lemma read_loop_spec:
  assumes "mounted s" and "file_chain ata s cs" and "0 \<le> offset" and "0 < sint sz"
    and "sint (fat16_get_first_cluster (item_at (km_mem s) (uint item))) = hd cs"
    and "reads_in_order (cluster_bytes s) offset (sint sz) n"
    and "offset + int n * sint sz \<le> int (length (file_data ata s cs))"
    and "{out ..< out + int n * sint sz} \<inter> header_bytes s = {}"
    and "{out ..< out + int n * sint sz} \<inter> item_range item = {}"
  shows "\<exists>f. read_loop ata n item offset sz out s =
      Some ((0, offset + int n * sint sz),
        s\<lparr>km_mem := overlay (\<lambda>i. file_data ata s cs ! nat (offset + i)) out (int n * sint sz) (km_mem s),
          fs_streams := f\<rparr>) \<and> same_disks f (fs_streams s)"
  using assms
proof (induction n arbitrary: s offset out)
  case 0
  have "overlay g out 0 m = m" for g m by (auto simp: overlay_def fun_eq_iff)
  then show ?case by (auto intro!: exI [of _ "fs_streams s"])
next
  case (Suc n)
  let ?sz = "sint sz" and ?d = "file_data ata s cs"
  have order: "in_order (cluster_bytes s) offset ?sz" "reads_in_order (cluster_bytes s) (offset + ?sz) ?sz n"
    using Suc.prems(6) by (simp_all add: reads_in_order_Suc)
  have rest: "0 \<le> int n * ?sz" "int (Suc n) * ?sz = ?sz + int n * ?sz" using Suc.prems(4) by (simp_all add: algebra_simps)
  have head: "{out ..< out + ?sz} \<inter> header_bytes s = {}"
    "{out ..< out + ?sz} \<inter> item_range item = {}"
    using rest apart_part [OF Suc.prems(8), of out "out + ?sz"] apart_part [OF Suc.prems(9), of out "out + ?sz"] by simp_all
  have "offset + ?sz \<le> int (length ?d)" using Suc.prems(7) rest by simp
  from read_internal_data [OF Suc.prems(1-4) order(1) this head(1)] obtain f where
    f: "fat16_read_internal ata (hd cs) offset ?sz out s =
      Some (0, s\<lparr>km_mem := overlay (\<lambda>i. ?d ! nat (offset + i)) out ?sz (km_mem s), fs_streams := f\<rparr>)"
    "same_disks f (fs_streams s)" by blast
  define m where "m = overlay (\<lambda>i. ?d ! nat (offset + i)) out ?sz (km_mem s)"
  let ?s1 = "s\<lparr>km_mem := m, fs_streams := f\<rparr>"
  note geo = geometry_overlay [OF head(1), where f = "\<lambda>i. ?d ! nat (offset + i)", folded m_def]
  have "cluster_data ata ?s1 = cluster_data ata s" using geo(2,3) by (intro ext) (simp add: cluster_data_def)
  then have data: "file_data ata ?s1 cs = ?d" by (simp add: file_data_def)
  have "\<exists>g. read_loop ata n item (offset + ?sz) sz (out + ?sz) ?s1 =
      Some ((0, offset + ?sz + int n * ?sz),
        ?s1\<lparr>km_mem := overlay (\<lambda>i. file_data ata ?s1 cs ! nat (offset + ?sz + i)) (out + ?sz) (int n * ?sz) (km_mem ?s1),
          fs_streams := g\<rparr>) \<and> same_disks g (fs_streams ?s1)"
  proof (rule Suc.IH)
    show "mounted ?s1" using Suc.prems(1) f(2) geo(4) by simp
    show "file_chain ata ?s1 cs" using Suc.prems(2) geo(5) by simp
    show "sint (fat16_get_first_cluster (item_at (km_mem ?s1) (uint item))) = hd cs"
      using Suc.prems(5) head(2) by (simp add: m_def item_overlay)
    show "reads_in_order (cluster_bytes ?s1) (offset + ?sz) ?sz n" using order(2) geo(3) by simp
    show "offset + ?sz + int n * ?sz \<le> int (length (file_data ata ?s1 cs))" using Suc.prems(7) rest data by simp
    show "{out + ?sz ..< out + ?sz + int n * ?sz} \<inter> header_bytes ?s1 = {}"
      using apart_part [OF Suc.prems(8), of "out + ?sz" "out + ?sz + int n * ?sz"] rest Suc.prems(4) by simp
    show "{out + ?sz ..< out + ?sz + int n * ?sz} \<inter> item_range item = {}"
      using apart_part [OF Suc.prems(9), of "out + ?sz" "out + ?sz + int n * ?sz"] rest Suc.prems(4) by simp
  qed (use Suc.prems in simp_all)
  then obtain g where
    g: "read_loop ata n item (offset + ?sz) sz (out + ?sz) ?s1 =
      Some ((0, offset + int (Suc n) * ?sz),
        s\<lparr>km_mem := overlay (\<lambda>i. ?d ! nat (offset + ?sz + i)) (out + ?sz) (int n * ?sz) m, fs_streams := g\<rparr>)"
    "same_disks g (fs_streams s)"
    using rest(2) f(2) by (auto simp: data add.assoc intro: same_disks_trans)
  have "overlay (\<lambda>i. ?d ! nat (offset + ?sz + i)) (out + ?sz) (int n * ?sz) m =
      overlay (\<lambda>i. ?d ! nat (offset + i)) out (int (Suc n) * ?sz) (km_mem s)"
    unfolding m_def rest(2) using Suc.prems(4) rest(1) by (intro overlay_overlay) (simp_all add: add.assoc)
  moreover have "uint sz = ?sz" using Suc.prems(4) by (intro uint_of_sint) simp
  ultimately show ?case using Suc.prems(5) f(1) g by (auto simp: m_def)
qed


lemma read_spec:
  assumes "mounted s" and "open_file ata s fd cs" and "0 \<le> sint (ffd_pos (fs_fds s fd))" and "0 < sint sz"
    and "reads_in_order (cluster_bytes s) (sint (ffd_pos (fs_fds s fd))) (sint sz) (unat n)"
    and "sint (ffd_pos (fs_fds s fd)) + uint n * sint sz \<le> int (length (file_data ata s cs))"
    and "{out ..< out + uint n * sint sz} \<inter> (header_bytes s \<union> item_range (file_item s fd)) = {}"
  shows "\<exists>f. fat16_read ata fd sz n out s =
      Some (sint n, s\<lparr>
        km_mem := overlay (\<lambda>i. file_data ata s cs ! nat (sint (ffd_pos (fs_fds s fd)) + i)) out (uint n * sint sz) (km_mem s),
        fs_streams := f,
        fs_fds := (fs_fds s)(fd := (fs_fds s fd)\<lparr>ffd_pos := ffd_pos (fs_fds s fd) + n * sz\<rparr>)\<rparr>) \<and>
    same_disks f (fs_streams s)"
proof -
  have n: "int (unat n) = uint n" by simp
  have "word_of_int (sint (ffd_pos (fs_fds s fd)) + uint n * sint sz) = ffd_pos (fs_fds s fd) + n * sz" by simp
  moreover have "{out ..< out + uint n * sint sz} \<inter> header_bytes s = {}"
    "{out ..< out + uint n * sint sz} \<inter> item_range (file_item s fd) = {}"
    using assms(7) by blast+
  ultimately show ?thesis
    using read_loop_spec [of s ata cs "sint (ffd_pos (fs_fds s fd))" sz "file_item s fd" "unat n" out] assms
    unfolding n by (force simp: fat16_read_def file_item_def open_file_def upd_fd_def Let_def)
qed

end
