(* ===== verification/FatNames.thy ===== *)
theory FatNames
  imports Fat16Props
begin

text \<open>
  Names and items of a FAT16 directory: the text of an 8.3 name, the case-insensitive comparison, and what
  a search in a directory returns and allocates.
\<close>

subsection \<open>The name of an item\<close>

text \<open>A name field: its bytes up to a NUL or a space.\<close>

definition field_text :: "memory \<Rightarrow> int \<Rightarrow> nat \<Rightarrow> u8 list" where
  "field_text m p n = takeWhile (\<lambda>b. b \<noteq> 0 \<and> b \<noteq> 0x20) (map (\<lambda>i. m (p + int i)) [0 ..< n])"

definition dos_name :: "memory \<Rightarrow> int \<Rightarrow> u8 list" where
  "dos_name m p = field_text m p 8 @
     (if field_text m (p + 8) 3 = [] then [] else of_char (CHR ''.'') # field_text m (p + 8) 3)"

lemma field_text_0 [simp]: "field_text m p 0 = []"
  by (simp add: field_text_def)

lemma field_text_Suc:
  "field_text m p (Suc n) = (if m p \<noteq> 0 \<and> m p \<noteq> 0x20 then m p # field_text m (p + 1) n else [])"
proof -
  have "map (\<lambda>i. m (p + int i)) [0 ..< Suc n] = m p # map (\<lambda>i. m (p + 1 + int i)) [0 ..< n]"
    by (simp add: upt_conv_Cons map_Suc_upt [symmetric] o_def algebra_simps del: upt_Suc)
  then show ?thesis by (simp add: field_text_def del: upt_Suc)
qed

lemma field_text_length: "length (field_text m p n) \<le> n"
  using length_takeWhile_le [of _ "map (\<lambda>i. m (p + int i)) [0 ..< n]"] by (simp add: field_text_def)

lemma field_text_nonzero: "b \<in> set (field_text m p n) \<Longrightarrow> b \<noteq> 0"
  by (auto simp: field_text_def dest: set_takeWhileD)

lemma field_text_Nil_iff: "field_text m p (Suc n) = [] \<longleftrightarrow> m p = 0 \<or> m p = 0x20"
  by (auto simp: field_text_Suc)

lemma dos_name_length: "length (dos_name m p) \<le> 12"
  using field_text_length [of m p 8] field_text_length [of m "p + 8" 3] by (simp add: dos_name_def)

lemma dos_name_nonzero: "b \<in> set (dos_name m p) \<Longrightarrow> b \<noteq> 0"
  by (auto simp: dos_name_def of_char_def dest: field_text_nonzero split: if_splits)

text \<open>Bytes written to memory.\<close>

definition write_bytes :: "memory \<Rightarrow> int \<Rightarrow> u8 list \<Rightarrow> memory" where
  "write_bytes m p bs = overlay (\<lambda>i. bs ! nat i) p (int (length bs)) m"

lemma write_bytes_Nil [simp]: "write_bytes m p [] = m"
  by (auto simp: write_bytes_def overlay_def fun_eq_iff)

lemma write_bytes_Cons: "write_bytes m p (b # bs) = write_bytes (m(p := b)) (p + 1) bs"
proof
  fix a
  show "write_bytes m p (b # bs) a = write_bytes (m(p := b)) (p + 1) bs a"
    by (cases "a = p") (auto simp: write_bytes_def overlay_def nth_Cons' nat_diff_distrib intro!: arg_cong [where f = "nth bs"])
qed

lemma write_bytes_append: "write_bytes m p (as @ bs) = write_bytes (write_bytes m p as) (p + int (length as)) bs"
  by (induction as arbitrary: m p) (simp_all add: write_bytes_Cons algebra_simps)

lemma cstr_write: "\<forall>b \<in> set bs. b \<noteq> 0 \<Longrightarrow> cstr (write_bytes m p (bs @ [0])) p bs"
  by (rule cstrI) (auto simp: write_bytes_def overlay_def nth_append)

lemma proper_string_loop_spec:
  assumes "i < n"
  shows "proper_string_loop mi mo out inp n i =
    (out + int (length (field_text mi inp (nat (n - i)))), write_bytes mo out (field_text mi inp (nat (n - i))))"
  using assms
proof (induction mi mo out inp n i rule: proper_string_loop.induct)
  case (1 mi mo out inp n i)
  define k where "k = nat (n - (i + 1))"
  have k: "nat (n - i) = Suc k" using "1.prems" by (simp add: k_def Suc_nat_eq_nat_zadd1)
  show ?case
  proof (cases "mi inp \<noteq> 0 \<and> mi inp \<noteq> 0x20")
    case False
    then show ?thesis by (subst proper_string_loop.simps) (auto simp: k field_text_Suc)
  next
    case more: True
    show ?thesis
    proof (cases "i \<ge> n - 1")
      case True
      then have "k = 0" by (simp add: k_def)
      with more True show ?thesis
        by (subst proper_string_loop.simps) (simp add: k field_text_Suc write_bytes_Cons)
    next
      case False
      then have "i + 1 < n" by simp
      from "1.IH" [OF more refl refl refl False this]
      have IH: "proper_string_loop mi (mo(out := mi inp)) (out + 1) (inp + 1) n (i + 1) =
          (out + 1 + int (length (field_text mi (inp + 1) k)),
           write_bytes (mo(out := mi inp)) (out + 1) (field_text mi (inp + 1) k))"
        unfolding k_def .
      from more False show ?thesis
        by (subst proper_string_loop.simps) (simp add: k field_text_Suc write_bytes_Cons IH)
    qed
  qed
qed

lemma to_proper_string_spec:
  "0 < n \<Longrightarrow> fat16_to_proper_string mi mo out inp n =
    (out + int (length (field_text mi inp (nat n))), write_bytes mo out (field_text mi inp (nat n) @ [0]))"
  by (simp add: fat16_to_proper_string_def proper_string_loop_spec write_bytes_append write_bytes_Cons)

lemma write_bytes_shorter:
  "write_bytes (write_bytes m p (bs @ [c])) (p + int (length bs)) (d # ds) = write_bytes m p (bs @ d # ds)"
  by (simp add: write_bytes_append write_bytes_Cons)

lemma full_relative_filename_spec:
  "fat16_get_full_relative_filename mi item mo out n =
     write_bytes (memset mo out 0 (nat n)) out (dos_name mi item @ [0])"
proof (cases "mi (item + 8) \<noteq> 0x00 \<and> mi (item + 8) \<noteq> 0x20")
  case True
  then have ext: "field_text mi (item + 8) 3 \<noteq> []"
    using field_text_Nil_iff [of mi "item + 8" 2] by (simp add: numeral_3_eq_3)
  let ?name = "field_text mi item 8"
  have "(write_bytes m out (?name @ [0]))(out + int (length ?name) := c) = write_bytes m out (?name @ [c])" for m c
    using write_bytes_shorter [of m out ?name 0 c "[]"] by (simp add: write_bytes_Cons)
  with True ext show ?thesis
    by (simp add: fat16_get_full_relative_filename_def to_proper_string_spec dos_name_def Let_def
        write_bytes_append [symmetric] write_bytes_append write_bytes_Cons)
next
  case False
  then have "field_text mi (item + 8) 3 = []"
    using field_text_Nil_iff [of mi "item + 8" 2] by (auto simp: numeral_3_eq_3)
  with False show ?thesis
    by (auto simp: fat16_get_full_relative_filename_def to_proper_string_spec dos_name_def Let_def)
qed

subsection \<open>Comparing names\<close>

lemma tolower_zero [simp]: "tolower u = 0 \<longleftrightarrow> u = 0"
proof
  assume 0: "tolower u = 0"
  show "u = 0"
  proof (cases "65 \<le> sint u \<and> sint u \<le> 90")
    case True
    with 0 have "u = - 32" by (simp add: tolower_def eq_neg_iff_add_eq_0)
    with True show ?thesis by simp
  qed (use 0 in \<open>simp add: tolower_def split: if_splits\<close>)
qed (simp add: tolower_def)

lemma tolower_of_zero [simp]: "tolower 0 = 0" "0 = tolower u \<longleftrightarrow> u = 0"
  using tolower_zero [of u] by (auto simp: tolower_def)

lemma istrncmp_cstr:
  assumes "cstr m1 p a" and "cstr m2 q b" and "int (length a) < n"
  shows "istrncmp m1 p m2 q n = 0 \<longleftrightarrow> map tolower a = map tolower b"
  using assms
proof (induction a arbitrary: p q b n)
  case Nil
  then show ?case by (cases b) (auto simp: istrncmp.simps [of m1 p m2 q n] uint_0_iff)
next
  case (Cons x xs)
  show ?case
  proof (cases b)
    case Nil
    with Cons.prems show ?thesis by (auto simp: istrncmp.simps [of m1 p m2 q n] uint_0_iff)
  next
    case (Cons y ys)
    with Cons.prems Cons.IH [of "p + 1" "q + 1" ys "n - 1"] show ?thesis
      by (auto simp: istrncmp.simps [of m1 p m2 q n] Let_def dest: word_uint_eq_iff [THEN iffD2])
  qed
qed


subsection \<open>A new item for a file\<close>

lemma dos_name_cong: "(\<And>a. p \<le> a \<Longrightarrow> a < p + 11 \<Longrightarrow> m' a = m a) \<Longrightarrow> dos_name m' p = dos_name m p"
proof -
  assume eq: "\<And>a. p \<le> a \<Longrightarrow> a < p + 11 \<Longrightarrow> m' a = m a"
  have "map (\<lambda>i. m' (p + int i)) [0 ..< 8] = map (\<lambda>i. m (p + int i)) [0 ..< 8]"
    "map (\<lambda>i. m' (p + 8 + int i)) [0 ..< 3] = map (\<lambda>i. m (p + 8 + int i)) [0 ..< 3]"
    by (auto intro!: eq)
  then show ?thesis by (simp only: dos_name_def field_text_def)
qed

text \<open>Only the heap, bytes of memory and the store of items differ.\<close>

definition only_items :: "fs_mem \<Rightarrow> fs_mem \<Rightarrow> bool" where
  "only_items s s' \<longleftrightarrow> s' = s\<lparr>km_heap := km_heap s', km_mem := km_mem s', fs_items := fs_items s'\<rparr>"

lemma only_items_refl: "only_items s s"
  by (simp add: only_items_def)

lemma only_items_iff:
  "only_items s s' \<longleftrightarrow> km_term s' = km_term s \<and> pm_roots s' = pm_roots s \<and> pm_parts s' = pm_parts s \<and>
     fs_disk s' = fs_disk s \<and> fs_streams s' = fs_streams s \<and> fs_privates s' = fs_privates s \<and>
     fs_dirs s' = fs_dirs s \<and> fs_fds s' = fs_fds s"
  by (cases s; cases s') (auto simp: only_items_def)

text \<open>
  What a search adds: the blocks \<open>A\<close> are new, everything else is left alone.
\<close>

definition adds :: "fs_mem \<Rightarrow> fs_mem \<Rightarrow> u32 set \<Rightarrow> bool" where
  "adds s s' A \<longleftrightarrow> extends s s' \<and> finite A \<and> A \<inter> live (km_heap s) = {} \<and> 0 \<notin> A \<and>
     live (km_heap s') = live (km_heap s) \<union> A \<and> avail (km_heap s') + card A = avail (km_heap s) \<and>
     (\<forall>q. q \<notin> A \<longrightarrow> fs_items s' q = fs_items s q) \<and>
     only_items s s'"

lemma adds_refl: "pool_ok (km_heap s) \<Longrightarrow> adds s s {}"
  by (simp add: adds_def extends_refl only_items_refl)

lemma adds_trans:
  assumes "adds s s1 A" and "adds s1 s2 B"
  shows "adds s s2 (A \<union> B)" and "A \<inter> B = {}"
proof -
  note 1 = assms(1) [unfolded adds_def] and 2 = assms(2) [unfolded adds_def]
  show disj: "A \<inter> B = {}" using 1 2 by auto
  have "only_items s s2" using 1 2 by (simp add: only_items_iff)
  moreover have "card (A \<union> B) = card A + card B" using 1 2 disj by (simp add: card_Un_disjoint)
  ultimately show "adds s s2 (A \<union> B)"
    unfolding adds_def using 1 2 extends_trans [of s s1 s2] by auto
qed

text \<open>The 32 bytes at \<open>item\<close> lie in a live page.\<close>

definition in_live_page :: "fs_mem \<Rightarrow> u32 \<Rightarrow> bool" where
  "in_live_page s item \<longleftrightarrow>
     (\<exists>q \<in> live (km_heap s). uint q \<le> uint item \<and> uint item + sizeof_item \<le> uint q + 4096)"

lemma in_live_page_mem:
  assumes "in_live_page s item" and "extends s s'" and "0 \<le> k" and "k < sizeof_item"
  shows "km_mem s' (uint item + k) = km_mem s (uint item + k)"
proof -
  from assms(1) obtain q where q: "q \<in> live (km_heap s)" "uint q \<le> uint item" "uint item + sizeof_item \<le> uint q + 4096"
    by (auto simp: in_live_page_def)
  then have "uint item + k \<in> page_range q" using assms(3,4) by (simp add: page_range_def)
  with q(1) show ?thesis by (intro extends_memD [OF assms(2)]) blast
qed

text \<open>\<open>p\<close> is the item of a file whose directory item is a copy of the 32 bytes \<open>bs\<close>.\<close>

definition file_copy :: "fs_mem \<Rightarrow> u32 \<Rightarrow> (int \<Rightarrow> u8) \<Rightarrow> u32 set \<Rightarrow> bool" where
  "file_copy s p bs A \<longleftrightarrow> p \<in> A \<and> fi_ptr (fs_items s p) \<in> A \<and> fi_ptr (fs_items s p) \<noteq> p \<and>
     fi_type (fs_items s p) = FAT_ITEM_TYPE_FILE \<and>
     (\<forall>k. 0 \<le> k \<and> k < sizeof_item \<longrightarrow> km_mem s (uint (fi_ptr (fs_items s p)) + k) = bs k)"

lemma kalloc_adds:
  assumes "pool_ok (km_heap s)" and "one_block n" and "0 < avail (km_heap s)" and "kalloc n s = (p, s')"
  shows "adds s s' {p}"
proof -
  note new = kalloc_spec [OF assms]
  have "fs_items s' = fs_items s" "only_items s s'"
    using arg_cong [OF new(11), of fs_items] by (simp, subst new(11), simp add: only_items_iff)
  then show ?thesis
    unfolding adds_def using new(1,2,5,6) kalloc_extends [OF assms] by auto
qed

lemma adds_upd_item:
  assumes "adds s s1 A" and "p \<in> A"
  shows "adds s (upd_item p f s1) A"
  using assms extends_cong [of s1 "upd_item p f s1" s] by (auto simp: adds_def upd_item_def only_items_iff)

lemma adds_write:
  assumes "adds s s1 A" and "q \<in> A" and "pool_ok (km_heap s)" and "\<And>a. a \<notin> page_range q \<Longrightarrow> m a = km_mem s1 a"
  shows "adds s (s1\<lparr>km_mem := m\<rparr>) A"
proof -
  note 1 = assms(1) [unfolded adds_def]
  have "extends s (s1\<lparr>km_mem := m\<rparr>)"
    by (rule extends_write [where p = q and ?s1.0 = s1]) (use 1 assms in auto)
  then show ?thesis using 1 by (simp add: adds_def only_items_iff)
qed

lemma adds_ok: "adds s s' A \<Longrightarrow> pool_ok (km_heap s')"
  by (simp add: adds_def extends_def grows_def)

lemma new_file_item_spec:
  assumes "pool_ok (km_heap s)" and "1 < avail (km_heap s)" and "in_live_page s item"
    and "di_attribute (item_at (km_mem s) (uint item)) AND FAT_FILE_SUBDIRECTORY = 0"
  shows "\<exists>p q s'. fat16_new_fat_item_for_directory_item ata item s = Some (p, s') \<and> p \<noteq> q \<and> adds s s' {p, q} \<and>
    file_copy s' p (\<lambda>k. km_mem s (uint item + k)) {p, q}"
proof -
  have blk: "one_block 8" "one_block 32" by (simp_all add: one_block_def)
  obtain p s1 where 1: "kalloc 8 s = (p, s1)" by (cases "kalloc 8 s")
  have av: "0 < avail (km_heap s)" using assms(2) by simp
  note new1 = kalloc_spec(1-8) [OF assms(1) blk(1) av 1] and add1 = kalloc_adds [OF assms(1) blk(1) av 1]
  let ?s2 = "upd_item p (\<lambda>_. \<lparr>fi_ptr = 0, fi_type = FAT_ITEM_TYPE_FILE\<rparr>) s1"
  have add2: "adds s ?s2 {p}" by (rule adds_upd_item [OF add1]) simp
  obtain q s3 where 3: "kalloc 32 ?s2 = (q, s3)" by (cases "kalloc 32 ?s2")
  have ok2: "pool_ok (km_heap ?s2)" "0 < avail (km_heap ?s2)"
    using new1 assms(2) by (simp_all add: upd_item_def)
  note new3 = kalloc_spec(1-8) [OF ok2(1) blk(2) ok2(2) 3] and add3 = kalloc_adds [OF ok2(1) blk(2) ok2(2) 3]
  have ext: "extends s s1" "extends s s3"
    using add1 adds_trans(1) [OF add2 add3] by (simp_all add: adds_def)
  have pq: "p \<noteq> q" using adds_trans(2) [OF add2 add3] by blast
  have add3': "adds s s3 {p, q}" using adds_trans(1) [OF add2 add3] by (simp add: insert_commute)
  have "km_mem s1 a = km_mem s a" if "uint item \<le> a" "a < uint item + sizeof_item" for a
    using in_live_page_mem [OF assms(3) ext(1), of "a - uint item"] that by simp
  then have attr: "item_at (km_mem s1) (uint item) = item_at (km_mem s) (uint item)" by (rule item_at_cong)
  obtain r where r: "r \<in> live (km_heap s)" "uint r \<le> uint item" "uint item + sizeof_item \<le> uint r + 4096"
    using assms(3) by (auto simp: in_live_page_def)
  have "page_range q \<inter> page_range r = {}"
    using r(1) new3(2,3) live_page [OF assms(1) r(1)] new1(5) by (intro pages_disjoint) (auto simp: upd_item_def)
  then have apart: "uint q + 32 \<le> uint item \<or> uint item + 32 \<le> uint q"
    using r(2,3) by (auto simp: page_range_def split: if_splits)
  define m where "m = memcpy_loop (km_mem s3) (uint q) (uint item) 32"
  have m: "m a = (if uint q \<le> a \<and> a < uint q + 32 then km_mem s3 (uint item + (a - uint q)) else km_mem s3 a)" for a
    using memcpy_loop_apply [of "uint q" 32 "uint item" "km_mem s3" a] apart by (simp add: m_def)
  have clone: "fat16_clone_directory_item item 32 ?s2 = Some (q, s3\<lparr>km_mem := m\<rparr>)"
    using 3 new3(1) by (simp add: fat16_clone_directory_item_def memcpy_def m_def)
  let ?s4 = "upd_item p (\<lambda>i. i\<lparr>fi_ptr := q\<rparr>) (s3\<lparr>km_mem := m\<rparr>)"
  have "fat16_new_fat_item_for_directory_item ata item s = Some (p, ?s4)"
    using 1 new1(1) assms(4) clone attr
    by (simp add: fat16_new_fat_item_for_directory_item_def upd_item_def)
  moreover have "adds s (s3\<lparr>km_mem := m\<rparr>) {p, q}"
    by (rule adds_write [OF add3' _ assms(1), of q]) (auto simp: m page_range_def)
  then have "adds s ?s4 {p, q}" by (rule adds_upd_item) simp
  moreover have "fs_items s3 p = \<lparr>fi_ptr = 0, fi_type = FAT_ITEM_TYPE_FILE\<rparr>"
    using add3 pq by (simp add: adds_def upd_item_def)
  then have "file_copy ?s4 p (\<lambda>k. km_mem s (uint item + k)) {p, q}"
    using pq in_live_page_mem [OF assms(3) ext(2)] by (auto simp: file_copy_def upd_item_def m)
  ultimately show ?thesis using pq by blast
qed


subsection \<open>Searching a directory\<close>

text \<open>The address of entry \<open>i\<close> of a directory whose entries are in one page, and the entries with a name.\<close>

definition entry_address :: "u32 \<Rightarrow> nat \<Rightarrow> u32" where
  "entry_address items i = items + 32 * word_of_nat i"

definition entry_matches :: "fs_mem \<Rightarrow> u32 \<Rightarrow> u8 list \<Rightarrow> nat \<Rightarrow> bool" where
  "entry_matches s items nm i \<longleftrightarrow>
     map tolower (dos_name (km_mem s) (uint (entry_address items i))) = map tolower nm"

definition is_file :: "fs_mem \<Rightarrow> u32 \<Rightarrow> nat \<Rightarrow> bool" where
  "is_file s items i \<longleftrightarrow>
     di_attribute (item_at (km_mem s) (uint (entry_address items i))) AND FAT_FILE_SUBDIRECTORY = 0"

text \<open>A name and the entries of a directory in live pages of the heap.\<close>

definition searchable :: "fs_mem \<Rightarrow> u32 \<Rightarrow> u32 \<Rightarrow> u8 list \<Rightarrow> bool" where
  "searchable s items name nm \<longleftrightarrow> pool_ok (km_heap s) \<and> items \<in> live (km_heap s) \<and> name \<in> live (km_heap s) \<and>
     cstr (km_mem s) (uint name) nm \<and> length nm < 108"

lemma entry_address_uint:
  assumes "pool_ok (km_heap s)" and "items \<in> live (km_heap s)" and "i < 128"
  shows "uint (entry_address items i) = uint items + 32 * int i"
proof -
  have "page items" using live_page [OF assms(1,2)] .
  then obtain k where k: "uint items = 4096 * k" by (auto simp: page_def elim: dvdE)
  have lt: "uint items < 4294967296" using uint_lt2p [of items] by simp
  have "k < 1048576" using k lt by linarith
  then have "uint items + 4096 \<le> 4294967296" using k by linarith
  moreover have "uint (32 * word_of_nat i :: u32) = 32 * int i"
    using assms(3) by (simp add: uint_word_ariths unsigned_of_nat take_bit_eq_mod)
  ultimately show ?thesis
    using assms(3) by (simp add: entry_address_def uint_plus_if')
qed

lemma entry_in_live_page:
  assumes "pool_ok (km_heap s)" and "items \<in> live (km_heap s)" and "i < 128"
  shows "in_live_page s (entry_address items i)"
  using assms entry_address_uint [OF assms] by (auto simp: in_live_page_def intro!: bexI [of _ items])

lemma entry_bytes:
  fixes s :: fs_mem
  assumes "pool_ok (km_heap s)" and "items \<in> live (km_heap s)" and "i < 128" and "extends s s'"
    and "uint (entry_address items i) \<le> a" and "a < uint (entry_address items i) + sizeof_item"
  shows "km_mem s' a = km_mem s a"
  using in_live_page_mem [OF entry_in_live_page [OF assms(1-3)] assms(4), of "a - uint (entry_address items i)"] assms(5,6)
  by simp

lemma searchable_extends:
  assumes "searchable s items name nm" and "extends s s'"
  shows "searchable s' items name nm"
    and "i < 128 \<Longrightarrow> entry_matches s' items nm i = entry_matches s items nm i"
    and "i < 128 \<Longrightarrow> is_file s' items i = is_file s items i"
proof -
  note s = assms(1) [unfolded searchable_def]
  show "searchable s' items name nm"
    using s extends_inside [OF assms(2), of name nm] assms(2) by (auto simp: searchable_def extends_def grows_def)
  show "entry_matches s' items nm i = entry_matches s items nm i" if "i < 128"
  proof -
    have "dos_name (km_mem s') (uint (entry_address items i)) = dos_name (km_mem s) (uint (entry_address items i))"
      by (rule dos_name_cong) (use entry_bytes [of s items i s', OF _ _ that assms(2)] s in simp)
    then show ?thesis by (simp add: entry_matches_def)
  qed
  show "is_file s' items i = is_file s items i" if "i < 128"
  proof -
    have "item_at (km_mem s') (uint (entry_address items i)) = item_at (km_mem s) (uint (entry_address items i))"
      by (rule item_at_cong) (use entry_bytes [of s items i s', OF _ _ that assms(2)] s in simp)
    then show ?thesis by (simp add: is_file_def)
  qed
qed

lemma find_item_step_spec:
  assumes "searchable s items name nm" and "i < 128"
  shows "find_item_step ata items name i f s =
    (if entry_matches s items nm i then fat16_new_fat_item_for_directory_item ata (entry_address items i) s
     else Some (f, s))"
proof -
  let ?e = "uint (entry_address items i)"
  have "cstr (write_bytes (memset (\<lambda>_. 0) 0 0 108) 0 (dos_name (km_mem s) ?e @ [0])) 0 (dos_name (km_mem s) ?e)"
    by (rule cstr_write) (use dos_name_nonzero in blast)
  then show ?thesis
    using istrncmp_cstr [of _ 0 "dos_name (km_mem s) ?e" "km_mem s" "uint name" nm 108] dos_name_length [of "km_mem s" ?e] assms
    by (simp add: find_item_step_def full_relative_filename_spec Let_def entry_address_def [symmetric]
        entry_matches_def searchable_def)
qed

text \<open>The search creates an item for every match (\<open>ms\<close>) and returns the last one.\<close>

definition search_result :: "fs_mem \<Rightarrow> u32 \<Rightarrow> nat list \<Rightarrow> u32 \<Rightarrow> u32 \<Rightarrow> fs_mem \<Rightarrow> u32 set \<Rightarrow> bool" where
  "search_result s items ms f r s' A \<longleftrightarrow> adds s s' A \<and> card A = 2 * length ms \<and>
     (if ms = [] then r = f \<and> s' = s
      else file_copy s' r (\<lambda>k. km_mem s (uint (entry_address items (last ms)) + k)) A)"

lemma search_result_Cons:
  assumes new: "p \<noteq> q" "adds s s1 {p, q}" "file_copy s1 p (\<lambda>k. km_mem s (uint (entry_address items i) + k)) {p, q}"
    and rest: "search_result s1 items ms p r s' A"
    and ok: "pool_ok (km_heap s)" "items \<in> live (km_heap s)" "\<forall>j \<in> set ms. j < 128"
  shows "search_result s items (i # ms) f r s' ({p, q} \<union> A)"
proof -
  note r = rest [unfolded search_result_def]
  have add: "adds s1 s' A" using r by blast
  note both = adds_trans [OF new(2) add]
  have card: "card ({p, q} \<union> A) = 2 * length (i # ms)"
    using both(2) new(1) r by (simp add: card_Un_disjoint adds_def)
  show ?thesis
  proof (cases "ms = []")
    case True
    with r new(3) card both(1) show ?thesis by (auto simp: search_result_def file_copy_def)
  next
    case False
    then have j: "last ms < 128" using ok(3) by (simp add: last_in_set)
    have ext: "extends s s1" using new(2) by (simp add: adds_def)
    have "km_mem s1 (uint (entry_address items (last ms)) + k) = km_mem s (uint (entry_address items (last ms)) + k)"
      if "0 \<le> k" "k < sizeof_item" for k
      using entry_bytes [OF ok(1,2) j ext] that by simp
    then have "file_copy s' r (\<lambda>k. km_mem s (uint (entry_address items (last ms)) + k)) ({p, q} \<union> A)"
      using r False by (auto simp: file_copy_def)
    with card both(1) False show ?thesis by (simp add: search_result_def)
  qed
qed

lemma find_item_loop_spec:
  assumes "searchable s items name nm" and "\<forall>i \<in> set is. i < 128 \<and> (entry_matches s items nm i \<longrightarrow> is_file s items i)"
    and "2 * length (filter (entry_matches s items nm) is) \<le> avail (km_heap s)"
  shows "\<exists>r s' A. find_item_loop ata items name is f s = Some (r, s') \<and>
    search_result s items (filter (entry_matches s items nm) is) f r s' A"
  using assms
proof (induction "is" arbitrary: s f)
  case Nil
  then show ?case using adds_refl [of s] by (auto simp: searchable_def search_result_def intro!: exI [of _ "{}"])
next
  case (Cons i "is")
  note ok = Cons.prems(1) [unfolded searchable_def]
  have i: "i < 128" using Cons.prems(2) by simp
  show ?case
  proof (cases "entry_matches s items nm i")
    case False
    then have "find_item_loop ata items name (i # is) f s = find_item_loop ata items name is f s"
      using find_item_step_spec [OF Cons.prems(1) i] by simp
    with False show ?thesis using Cons.IH [OF Cons.prems(1), of f] Cons.prems(2,3) by simp
  next
    case True
    have "is_file s items i" "1 < avail (km_heap s)" using True Cons.prems(2,3) by simp_all
    then obtain p q s1 where new: "fat16_new_fat_item_for_directory_item ata (entry_address items i) s = Some (p, s1)"
      "p \<noteq> q" "adds s s1 {p, q}" "file_copy s1 p (\<lambda>k. km_mem s (uint (entry_address items i) + k)) {p, q}"
      using new_file_item_spec [OF _ _ entry_in_live_page [OF _ _ i], of s items ata] ok by (auto simp: is_file_def)
    have ext: "extends s s1" using new(3) by (simp add: adds_def)
    note kept = searchable_extends [OF Cons.prems(1) ext]
    have same: "filter (entry_matches s1 items nm) is = filter (entry_matches s items nm) is"
      by (rule filter_cong) (use kept(2) Cons.prems(2) in auto)
    have "avail (km_heap s1) + 2 = avail (km_heap s)" using new(2,3) by (simp add: adds_def)
    then have room: "2 * length (filter (entry_matches s1 items nm) is) \<le> avail (km_heap s1)"
      using Cons.prems(3) True by (simp add: same)
    have "\<forall>j \<in> set is. j < 128 \<and> (entry_matches s1 items nm j \<longrightarrow> is_file s1 items j)"
      using Cons.prems(2) kept(2,3) by auto
    from Cons.IH [OF kept(1) this room, of p] obtain r s' A where
      r: "find_item_loop ata items name is p s1 = Some (r, s')"
        "search_result s1 items (filter (entry_matches s items nm) is) p r s' A"
      unfolding same by blast
    have "\<forall>j \<in> set (filter (entry_matches s items nm) is). j < 128" using Cons.prems(2) by simp
    from search_result_Cons [OF new(2-4) r(2) _ _ this] ok True
    have "search_result s items (filter (entry_matches s items nm) (i # is)) f r s' ({p, q} \<union> A)" by simp
    moreover have "find_item_loop ata items name (i # is) f s = Some (r, s')"
      using find_item_step_spec [OF Cons.prems(1) i] True new(1) r(1) by simp
    ultimately show ?thesis by blast
  qed
qed

subsection \<open>Opening and closing a file of the root directory\<close>

text \<open>The names of the root directory that match, of a path with one component.\<close>

definition root_items :: "fs_mem \<Rightarrow> u32" where
  "root_items s = dir_item (root_directory (the_private s))"

definition root_matches :: "fs_mem \<Rightarrow> u8 list \<Rightarrow> nat list" where
  "root_matches s nm =
     filter (entry_matches s (root_items s) nm) [0 ..< nat (dir_total (root_directory (the_private s)))]"

definition one_component :: "fs_mem \<Rightarrow> u32 \<Rightarrow> u8 list \<Rightarrow> bool" where
  "one_component s path nm \<longleftrightarrow> next_part (pm_parts s path) = 0 \<and>
     searchable s (root_items s) (part_str (pm_parts s path)) nm \<and>
     dir_total (root_directory (the_private s)) \<le> 128 \<and> (\<forall>i \<in> set (root_matches s nm). is_file s (root_items s) i)"

lemma adds_private: "adds s s' A \<Longrightarrow> the_private s' = the_private s"
  by (simp add: adds_def only_items_iff the_private_def)

lemma one_component_adds:
  assumes "one_component s path nm" and "adds s s' A"
  shows "one_component s' path nm" and "root_matches s' nm = root_matches s nm" and "root_items s' = root_items s"
proof -
  note priv = adds_private [OF assms(2)]
  have parts: "pm_parts s' = pm_parts s" and ext: "extends s s'" using assms(2) by (simp_all add: adds_def only_items_iff)
  note o = assms(1) [unfolded one_component_def]
  show items: "root_items s' = root_items s" by (simp add: root_items_def priv)
  have search: "searchable s (root_items s) (part_str (pm_parts s path)) nm" using o by blast
  have small: "nat (dir_total (root_directory (the_private s))) \<le> 128" using o by (simp add: nat_le_iff)
  show matches: "root_matches s' nm = root_matches s nm"
    unfolding root_matches_def priv items
    by (rule filter_cong) (use searchable_extends(2) [OF search ext] small in auto)
  have "is_file s' (root_items s) i" if "i \<in> set (root_matches s nm)" for i
    using that o small searchable_extends(3) [OF search ext, of i] by (auto simp: root_matches_def)
  then show "one_component s' path nm"
    using o searchable_extends(1) [OF search ext] by (simp add: one_component_def matches items priv parts)
qed

lemma get_directory_entry_spec:
  assumes "one_component s path nm" and "2 * length (root_matches s nm) \<le> avail (km_heap s)"
  shows "\<exists>r s' A. search_result s (root_items s) (root_matches s nm) 0 r s' A \<and>
    fat16_get_directory_entry ata path s =
      (if root_matches s nm = [] then Some (0, kprint (''no root item'' @ [CHR 0x0A]) s) else Some (r, s'))"
proof -
  note o = assms(1) [unfolded one_component_def]
  let ?is = "[0 ..< nat (dir_total (root_directory (the_private s)))]"
  have "\<forall>i \<in> set ?is. i < 128 \<and> (entry_matches s (root_items s) nm i \<longrightarrow> is_file s (root_items s) i)"
    using o by (auto simp: root_matches_def)
  from find_item_loop_spec [OF _ this, of "part_str (pm_parts s path)" ata 0] o assms(2) [unfolded root_matches_def]
  obtain r s' A where
    r: "find_item_loop ata (root_items s) (part_str (pm_parts s path)) ?is 0 s = Some (r, s')"
      "search_result s (root_items s) (root_matches s nm) 0 r s' A"
    by (auto simp: root_matches_def)
  have find: "fat16_find_item_in_directory ata (root_directory (the_private s)) (part_str (pm_parts s path)) s = Some (r, s')"
    using r(1) by (simp add: fat16_find_item_in_directory_def root_items_def)
  have "r = 0 \<and> s' = s" if "root_matches s nm = []" using r(2) that by (simp add: search_result_def)
  moreover have "r \<noteq> 0 \<and> pm_parts s' = pm_parts s" if "root_matches s nm \<noteq> []"
    using r(2) that by (auto simp: search_result_def file_copy_def adds_def only_items_iff)
  ultimately show ?thesis
    using r(2) find o
    by (auto simp: fat16_get_directory_entry_def directory_entry_loop.simps intro!: exI)
qed

text \<open>The state after a successful open: \<open>d\<close> is the descriptor and \<open>A\<close> holds the new blocks.\<close>

definition opened :: "fs_mem \<Rightarrow> fs_mem \<Rightarrow> u32 \<Rightarrow> nat \<Rightarrow> u32 set \<Rightarrow> bool" where
  "opened s s' d i A \<longleftrightarrow> extends s s' \<and> finite A \<and> A \<inter> live (km_heap s) = {} \<and> 0 \<notin> A \<and> d \<in> A \<and>
     live (km_heap s') = live (km_heap s) \<union> A \<and> avail (km_heap s') + card A = avail (km_heap s) \<and>
     ffd_pos (fs_fds s' d) = 0 \<and> ffd_item (fs_fds s' d) \<noteq> d \<and> fi_ptr (fs_items s' (ffd_item (fs_fds s' d))) \<noteq> d \<and>
     file_copy s' (ffd_item (fs_fds s' d)) (\<lambda>k. km_mem s (uint (entry_address (root_items s) i) + k)) A \<and>
     (\<forall>q. q \<noteq> d \<longrightarrow> fs_fds s' q = fs_fds s q) \<and> (\<forall>q. q \<notin> A \<longrightarrow> fs_items s' q = fs_items s q) \<and>
     fs_disk s' = fs_disk s \<and> fs_streams s' = fs_streams s \<and> fs_privates s' = fs_privates s \<and>
     pm_parts s' = pm_parts s \<and> pm_roots s' = pm_roots s"

lemma open_spec:
  assumes "one_component s path nm" and "2 * length (root_matches s nm) < avail (km_heap s)"
  shows "if root_matches s nm = []
    then \<exists>s'. fat16_open ata path FILE_MODE_READ s = Some (ERROR (- EIO), s') \<and> pool_ok (km_heap s') \<and>
      live (km_heap s') = live (km_heap s)
    else \<exists>d s' A. fat16_open ata path FILE_MODE_READ s = Some (d, s') \<and> opened s s' d (last (root_matches s nm)) A \<and>
      card A = Suc (2 * length (root_matches s nm))"
proof -
  have ok: "pool_ok (km_heap s)" using assms(1) by (simp add: one_component_def searchable_def)
  have blk: "one_block 8" and av: "0 < avail (km_heap s)" using assms(2) by (simp_all add: one_block_def)
  obtain d s1 where 1: "kalloc 8 s = (d, s1)" by (cases "kalloc 8 s")
  note new = kalloc_spec(1-8) [OF ok blk av 1] and add = kalloc_adds [OF ok blk av 1]
  note one = one_component_adds [OF assms(1) add]
  have room: "2 * length (root_matches s1 nm) \<le> avail (km_heap s1)" using assms(2) new(6) by (simp add: one(2))
  obtain r s2 A where r: "search_result s1 (root_items s) (root_matches s nm) 0 r s2 A"
    "fat16_get_directory_entry ata path s1 =
      (if root_matches s nm = [] then Some (0, kprint (''no root item'' @ [CHR 0x0A]) s1) else Some (r, s2))"
    using get_directory_entry_spec [OF one(1) room, of ata] unfolding one(2,3) by blast
  show ?thesis
  proof (cases "root_matches s nm = []")
    case True
    have ext: "extends s s1" using add by (simp add: adds_def)
    have "pool_ok (kfree (km_heap s1) d)" "live (kfree (km_heap s1) d) = live (km_heap s1) - {d}"
      using krelease_extends(1,2) [OF ext, of d] new(2,5) by (auto simp: extends_def grows_def)
    with True 1 new r(2) show ?thesis by (auto simp: fat16_open_def upd_fd_def)
  next
    case False
    let ?s' = "upd_fd d (\<lambda>_. \<lparr>ffd_item = r, ffd_pos = 0\<rparr>) s2"
    have add2: "adds s1 s2 A" and copy: "file_copy s2 r (\<lambda>k. km_mem s1 (uint (entry_address (root_items s) (last (root_matches s nm))) + k)) A"
      and cardA: "card A = 2 * length (root_matches s nm)"
      using r(1) False by (simp_all add: search_result_def)
    note both = adds_trans [OF add add2]
    have d: "d \<notin> A" "r \<in> A" "r \<noteq> 0" using both(2) copy add2 by (auto simp: file_copy_def adds_def)
    then have run: "fat16_open ata path FILE_MODE_READ s = Some (d, ?s')"
      using False 1 new(1) r(2) by (simp add: fat16_open_def upd_fd_def)
    have "last (root_matches s nm) \<in> set (root_matches s nm)" using False by simp
    then have i: "last (root_matches s nm) < 128" using assms(1) by (auto simp: one_component_def root_matches_def)
    have ext: "extends s s1" using add by (simp add: adds_def)
    have bytes: "km_mem s1 (uint (entry_address (root_items s) (last (root_matches s nm))) + k) =
        km_mem s (uint (entry_address (root_items s) (last (root_matches s nm))) + k)"
      if "0 \<le> k" "k < sizeof_item" for k
      using entry_bytes [OF ok _ i ext, of "root_items s"] assms(1) that by (simp add: one_component_def searchable_def)
    have "opened s ?s' d (last (root_matches s nm)) ({d} \<union> A)"
      using both(1) copy d bytes extends_cong [of s2 ?s' s]
      by (auto simp: opened_def adds_def only_items_iff upd_fd_def file_copy_def)
    moreover have "card ({d} \<union> A) = Suc (2 * length (root_matches s nm))"
      using cardA d(1) add2 by (simp add: adds_def)
    ultimately show ?thesis using run False by auto
  qed
qed

lemma close_spec:
  assumes "opened s s' d i A" and "card A = 3"
  shows "\<exists>s''. fat16_close d s' = (0, s'') \<and> pool_ok (km_heap s'') \<and> live (km_heap s'') = live (km_heap s)"
proof -
  note o = assms(1) [unfolded opened_def]
  let ?r = "ffd_item (fs_fds s' d)" let ?q = "fi_ptr (fs_items s' ?r)"
  have ok: "pool_ok (km_heap s')" using o by (simp add: extends_def grows_def)
  have sub: "{?q, ?r, d} \<subseteq> A" "distinct [?q, ?r, d]" using o by (auto simp: file_copy_def)
  then have "card {?q, ?r, d} = 3" by simp
  then have A: "A = {?q, ?r, d}" using sub(1) o assms(2) card_subset_eq [of A "{?q, ?r, d}"] by metis
  have "set [?q, ?r, d] \<subseteq> live (km_heap s')" using o A by auto
  note rel = kernel_pages.release_many [OF ok this sub(2)]
  have "live (km_heap s') - set [?q, ?r, d] = live (km_heap s)" using o A by auto
  then show ?thesis
    using rel o by (simp add: fat16_close_def fat16_free_file_descriptor_def fat16_fat_item_free_def file_copy_def Let_def)
qed


end
