(* ===== verification/FatMount.thy ===== *)
theory FatMount
  imports FatNames
begin

text \<open>
  Mounting a FAT16 volume: what \<open>fat16_resolve\<close> builds from the boot sector and the root directory of the
  disk.
\<close>

subsection \<open>Counting the entries of a directory\<close>

text \<open>
  The directory that starts at byte \<open>pos\<close> of the disk ends with the first entry whose first byte is 0; that
  is entry number \<open>n\<close>.
\<close>

definition ends_at :: "ata \<Rightarrow> int \<Rightarrow> nat \<Rightarrow> bool" where
  "ends_at ata pos n \<longleftrightarrow> disk_byte ata (pos + 32 * int n) = 0 \<and> (\<forall>k < n. disk_byte ata (pos + 32 * int k) \<noteq> 0)"

definition used_entries :: "ata \<Rightarrow> int \<Rightarrow> nat \<Rightarrow> nat list" where
  "used_entries ata pos n = filter (\<lambda>k. disk_byte ata (pos + 32 * int k) \<noteq> 0xE5) [0 ..< n]"

lemma ends_at_Suc:
  "ends_at ata pos (Suc n) \<longleftrightarrow> disk_byte ata pos \<noteq> 0 \<and> ends_at ata (pos + 32) n"
  by (auto simp: ends_at_def All_less_Suc2 algebra_simps)

lemma length_used_Suc:
  "length (used_entries ata pos (Suc n)) =
     (if disk_byte ata pos \<noteq> 0xE5 then 1 else 0) + length (used_entries ata (pos + 32) n)"
proof -
  have "[0 ..< Suc n] = 0 # map Suc [0 ..< n]" by (simp add: map_Suc_upt upt_conv_Cons del: upt_Suc)
  then show ?thesis
    by (simp add: used_entries_def filter_map o_def algebra_simps del: upt_Suc)
qed

lemma count_items_loop_spec:
  assumes "ds_disk (fs_streams s p) = The_disk" and "0 \<le> ds_pos (fs_streams s p)"
    and "ends_at ata (ds_pos (fs_streams s p)) n" and "ds_pos (fs_streams s p) + 32 * int n + 32 < 2 ^ 31"
  shows "\<exists>f. count_items_loop ata p i s =
      Some (i + int (length (used_entries ata (ds_pos (fs_streams s p)) n)), s\<lparr>fs_streams := f\<rparr>) \<and>
    same_disks f (fs_streams s)"
  using assms
proof (induction n arbitrary: s i)
  case 0
  let ?pos = "ds_pos (fs_streams s p)"
  let ?s1 = "s\<lparr>fs_streams := (fs_streams s)(p := (fs_streams s p)\<lparr>ds_pos := ?pos + 32\<rparr>)\<rparr>"
  have "stream_read_local ata p 32 s = (0, overlay (\<lambda>i. disk_byte ata (?pos + i)) 0 32 (\<lambda>_. 0), ?s1)"
    by (rule stream_read_local_spec) (use 0 in simp_all)
  moreover have "disk_byte ata ?pos = 0" using 0(3) by (simp add: ends_at_def)
  ultimately have "count_items_loop ata p i s = Some (i, ?s1)"
    by (subst count_items_loop.simps) (simp add: PEACHOS_ALL_OK_def overlay_def)
  then show ?case by (auto simp: used_entries_def same_disks_def)
next
  case (Suc n)
  let ?pos = "ds_pos (fs_streams s p)"
  let ?s1 = "s\<lparr>fs_streams := (fs_streams s)(p := (fs_streams s p)\<lparr>ds_pos := ?pos + 32\<rparr>)\<rparr>"
  have read: "stream_read_local ata p 32 s = (0, overlay (\<lambda>i. disk_byte ata (?pos + i)) 0 32 (\<lambda>_. 0), ?s1)"
    by (rule stream_read_local_spec) (use Suc.prems in simp_all)
  let ?j = "if disk_byte ata ?pos \<noteq> 0xE5 then i + 1 else i"
  have "disk_byte ata ?pos \<noteq> 0" using Suc.prems(3) by (simp add: ends_at_Suc)
  then have step: "count_items_loop ata p i s = count_items_loop ata p ?j ?s1"
    by (subst count_items_loop.simps) (simp add: read PEACHOS_ALL_OK_def overlay_def)
  have "\<exists>f. count_items_loop ata p ?j ?s1 =
      Some (?j + int (length (used_entries ata (ds_pos (fs_streams ?s1 p)) n)), ?s1\<lparr>fs_streams := f\<rparr>) \<and>
    same_disks f (fs_streams ?s1)"
    by (rule Suc.IH) (use Suc.prems in \<open>simp_all add: ends_at_Suc\<close>)
  then obtain f where f: "count_items_loop ata p ?j ?s1 =
      Some (?j + int (length (used_entries ata (?pos + 32) n)), s\<lparr>fs_streams := f\<rparr>)" "same_disks f (fs_streams ?s1)"
    by auto
  have "same_disks f (fs_streams s)" using f(2) by (auto simp: same_disks_def)
  with f(1) show ?case unfolding step length_used_Suc by (auto intro!: exI [of _ f])
qed

lemma total_items_spec:
  assumes "ds_disk (fs_streams s (directory_stream (the_private s))) = The_disk" and "sector_size s = 512"
    and "0 \<le> sec" and "ends_at ata (sec * 512) n" and "sec * 512 + 32 * int n + 32 < 2 ^ 31"
  shows "\<exists>f. fat16_get_total_items_for_directory ata (word_of_int sec) s =
      Some (int (length (used_entries ata (sec * 512) n)), s\<lparr>fs_streams := f\<rparr>) \<and> same_disks f (fs_streams s)"
proof -
  let ?p = "directory_stream (the_private s)"
  let ?s1 = "s\<lparr>fs_streams := (fs_streams s)(?p := (fs_streams s ?p)\<lparr>ds_pos := sec * 512\<rparr>)\<rparr>"
  have "sint (word_of_int sec * word_of_int (sector_size s) :: u32) = sint (word_of_int (sec * 512) :: u32)"
    by (simp add: assms(2))
  also have "\<dots> = sec * 512" using assms(3,5) by (intro sint_of_small) simp_all
  finally have pos: "sint (word_of_int sec * word_of_int (sector_size s) :: u32) = sec * 512" .
  have run: "fat16_get_total_items_for_directory ata (word_of_int sec) s = count_items_loop ata ?p 0 ?s1"
    unfolding fat16_get_total_items_for_directory_def pos stream_seek_eq by (simp add: PEACHOS_ALL_OK_def Let_def)
  have "\<exists>f. count_items_loop ata ?p 0 ?s1 =
      Some (0 + int (length (used_entries ata (ds_pos (fs_streams ?s1 ?p)) n)), ?s1\<lparr>fs_streams := f\<rparr>) \<and>
    same_disks f (fs_streams ?s1)"
    by (rule count_items_loop_spec) (use assms in simp_all)
  then obtain f where "count_items_loop ata ?p 0 ?s1 =
      Some (int (length (used_entries ata (sec * 512) n)), s\<lparr>fs_streams := f\<rparr>)" "same_disks f (fs_streams ?s1)"
    by auto
  then show ?thesis unfolding run by (auto simp: same_disks_def intro!: exI [of _ f])
qed

subsection \<open>Allocation as record updates\<close>

text \<open>The heap and the memory after an allocation of \<open>n\<close> bytes at \<open>p\<close>.\<close>

definition new_page :: "u32 \<Rightarrow> heap \<Rightarrow> memory \<Rightarrow> u32 \<Rightarrow> heap \<Rightarrow> memory \<Rightarrow> bool" where
  "new_page n h m p h' m' \<longleftrightarrow> p \<noteq> 0 \<and> p \<notin> live h \<and> page p \<and> live h' = insert p (live h) \<and>
     Suc (avail h') = avail h \<and> grows h m h' m' \<and> (\<forall>k. 0 \<le> k \<and> k < uint n \<longrightarrow> m' (uint p + k) = 0)"

lemma kalloc_new:
  assumes "pool_ok (km_heap s)" and "one_block n" and "0 < avail (km_heap s)"
  shows "\<exists>p h m. kalloc n s = (p, s\<lparr>km_heap := h, km_mem := m\<rparr>) \<and> new_page n (km_heap s) (km_mem s) p h m"
proof -
  obtain p s' where 1: "kalloc n s = (p, s')" by (cases "kalloc n s")
  note new = kalloc_spec [OF assms 1]
  have "kalloc n s = (p, s\<lparr>km_heap := km_heap s', km_mem := km_mem s'\<rparr>)" using 1 new(11) by simp
  moreover have "new_page n (km_heap s) (km_mem s) p (km_heap s') (km_mem s')"
    using new(1-10) kalloc_extends [OF assms 1] by (simp add: new_page_def extends_def)
  ultimately show ?thesis by blast
qed

lemma memset_zero: "(\<And>k. 0 \<le> k \<Longrightarrow> k < int n \<Longrightarrow> m (p + k) = 0) \<Longrightarrow> memset m p 0 n = m"
proof
  fix a assume "\<And>k. 0 \<le> k \<Longrightarrow> k < int n \<Longrightarrow> m (p + k) = 0"
  from this [of "a - p"] show "memset m p 0 n a = m a" by (simp add: memset_apply)
qed

lemma page_offset: "0 \<le> k \<Longrightarrow> k < 4096 \<Longrightarrow> page p \<Longrightarrow> page q \<Longrightarrow> p \<noteq> q \<Longrightarrow> uint p + k \<notin> page_range q"
  using pages_disjoint [of p q] by (auto simp: page_range_def disjoint_iff)

subsection \<open>Mounting\<close>

text \<open>The boot sector of the disk, and where the root directory lies.\<close>

definition boot_header :: "ata \<Rightarrow> fat_h" where
  "boot_header ata = fat_h_at (disk_byte ata) 0"

definition root_sector :: "ata \<Rightarrow> int" where
  "root_sector ata = uint (fat_copies (boot_header ata)) * uint (sectors_per_fat (boot_header ata)) +
     uint (reserved_sectors (boot_header ata))"

definition root_size :: "ata \<Rightarrow> int" where
  "root_size ata = uint (root_dir_entries (boot_header ata)) * sizeof_item"

text \<open>A FAT16 boot sector, with a root directory of at most 128 entries, of which \<open>n\<close> are before the end mark.\<close>

definition fat16_disk :: "ata \<Rightarrow> nat \<Rightarrow> bool" where
  "fat16_disk ata n \<longleftrightarrow> signature (boot_header ata) = 0x29 \<and> sectors_per_cluster (boot_header ata) \<noteq> 0 \<and>
     0 < root_size ata \<and> root_size ata \<le> 4096 \<and> root_sector ata * 512 + 4096 < 2 ^ 31 \<and>
     ends_at ata (root_sector ata * 512) n \<and> n < 128"

lemma new_pageD:
  assumes "new_page n h m p h' m'"
  shows "p \<noteq> 0" "p \<notin> live h" "page p" "live h' = insert p (live h)" "Suc (avail h') = avail h" "grows h m h' m'" "pool_ok h'"
  using assms by (auto simp: new_page_def grows_def)

definition fresh_stream :: disk_stream where
  "fresh_stream = \<lparr>ds_pos = 0, ds_disk = The_disk\<rparr>"

lemma diskstreamer_new_eq:
  "kalloc 8 s = (p, s') \<Longrightarrow> diskstreamer_new 0 s = (p, s'\<lparr>fs_streams := (fs_streams s')(p := fresh_stream)\<rparr>)"
  by (simp add: diskstreamer_new_def disk_get_def fresh_stream_def)

lemma diskstreamer_new_spec:
  assumes "pool_ok (km_heap s)" and "0 < avail (km_heap s)"
  shows "\<exists>p h m. diskstreamer_new 0 s = (p, s\<lparr>km_heap := h, km_mem := m, fs_streams := (fs_streams s)(p := fresh_stream)\<rparr>) \<and>
    new_page 8 (km_heap s) (km_mem s) p h m"
  using kalloc_new [OF assms(1) _ assms(2), of 8] diskstreamer_new_eq [of s] by (force simp: one_block_def)

lemma init_private_spec:
  assumes "pool_ok (km_heap s)" and "2 < avail (km_heap s)" and "disk_id (fs_disk s) = 0"
    and zero: "\<And>k. 0 \<le> k \<Longrightarrow> k < sizeof_fat_private \<Longrightarrow> km_mem s (uint p + k) = 0"
  shows "\<exists>a b c h m. fat16_init_private p s = s\<lparr>km_heap := h, km_mem := m,
      fs_streams := (fs_streams s)(a := fresh_stream, b := fresh_stream, c := fresh_stream),
      fs_privates := (fs_privates s)(p := \<lparr>root_directory = zero_directory, cluster_read_stream = a,
        fat_read_stream = b, directory_stream = c\<rparr>)\<rparr> \<and>
    distinct [a, b, c] \<and> {a, b, c} \<inter> live (km_heap s) = {} \<and> 0 \<notin> {a, b, c} \<and>
    live h = live (km_heap s) \<union> {a, b, c} \<and> avail h + 3 = avail (km_heap s) \<and> grows (km_heap s) (km_mem s) h m"
proof -
  define s0 where "s0 = upd_private p (\<lambda>_. \<lparr>root_directory = zero_directory, cluster_read_stream = 0,
    fat_read_stream = 0, directory_stream = 0\<rparr>) s"
  have s0: "km_heap s0 = km_heap s" "km_mem s0 = km_mem s" "disk_id (fs_disk s0) = 0"
    by (simp_all add: s0_def upd_private_def assms(3))
  obtain a h1 m1 where 1: "diskstreamer_new 0 s0 = (a, s0\<lparr>km_heap := h1, km_mem := m1,
      fs_streams := (fs_streams s0)(a := fresh_stream)\<rparr>)" "new_page 8 (km_heap s0) (km_mem s0) a h1 m1"
    using diskstreamer_new_spec [of s0] assms(1,2) s0 by auto
  define s1 where "s1 = upd_private p (\<lambda>v. v\<lparr>cluster_read_stream := a\<rparr>) (s0\<lparr>km_heap := h1, km_mem := m1,
    fs_streams := (fs_streams s0)(a := fresh_stream)\<rparr>)"
  note n1 = new_pageD [OF 1(2), unfolded s0]
  have s1: "km_heap s1 = h1" "km_mem s1 = m1" "disk_id (fs_disk s1) = 0" by (simp_all add: s1_def upd_private_def s0)
  obtain b h2 m2 where 2: "diskstreamer_new 0 s1 = (b, s1\<lparr>km_heap := h2, km_mem := m2,
      fs_streams := (fs_streams s1)(b := fresh_stream)\<rparr>)" "new_page 8 (km_heap s1) (km_mem s1) b h2 m2"
    using diskstreamer_new_spec [of s1] assms(2) n1 s1 by auto
  define s2 where "s2 = upd_private p (\<lambda>v. v\<lparr>fat_read_stream := b\<rparr>) (s1\<lparr>km_heap := h2, km_mem := m2,
    fs_streams := (fs_streams s1)(b := fresh_stream)\<rparr>)"
  note n2 = new_pageD [OF 2(2), unfolded s1]
  have s2: "km_heap s2 = h2" "km_mem s2 = m2" "disk_id (fs_disk s2) = 0" by (simp_all add: s2_def upd_private_def s1)
  obtain c h3 m3 where 3: "diskstreamer_new 0 s2 = (c, s2\<lparr>km_heap := h3, km_mem := m3,
      fs_streams := (fs_streams s2)(c := fresh_stream)\<rparr>)" "new_page 8 (km_heap s2) (km_mem s2) c h3 m3"
    using diskstreamer_new_spec [of s2] assms(2) n1 n2 s2 by auto
  note n3 = new_pageD [OF 3(2), unfolded s2]
  have "memset (km_mem s) (uint p) 0 92 = km_mem s" by (rule memset_zero) (use zero in simp)
  then have clear: "upd_private p (\<lambda>_. \<lparr>root_directory = zero_directory, cluster_read_stream = 0,
      fat_read_stream = 0, directory_stream = 0\<rparr>) (s\<lparr>km_mem := memset (km_mem s) (uint p) 0 92\<rparr>) = s0"
    by (simp add: s0_def)
  have run: "fat16_init_private p s = upd_private p (\<lambda>v. v\<lparr>directory_stream := c\<rparr>) (s2\<lparr>km_heap := h3, km_mem := m3,
      fs_streams := (fs_streams s2)(c := fresh_stream)\<rparr>)"
    by (simp only: fat16_init_private_def Let_def clear s0(3) 1(1) prod.case s1_def [symmetric] s1(3) 2(1)
        s2_def [symmetric] s2(3) 3(1))
  have "fat16_init_private p s = s\<lparr>km_heap := h3, km_mem := m3,
      fs_streams := (fs_streams s)(a := fresh_stream, b := fresh_stream, c := fresh_stream),
      fs_privates := (fs_privates s)(p := \<lparr>root_directory = zero_directory, cluster_read_stream = a,
        fat_read_stream = b, directory_stream = c\<rparr>)\<rparr>"
    unfolding run by (simp add: s2_def s1_def s0_def upd_private_def)
  moreover have "grows (km_heap s) (km_mem s) h3 m3"
    using grows_trans [OF grows_trans [OF n1(6) n2(6)] n3(6)] .
  moreover have "distinct [a, b, c] \<and> {a, b, c} \<inter> live (km_heap s) = {} \<and> 0 \<notin> {a, b, c} \<and>
    live h3 = live (km_heap s) \<union> {a, b, c} \<and> avail h3 + 3 = avail (km_heap s)"
    using n1(1-5) n2(1-5) n3(1-5) by auto
  ultimately show ?thesis by blast
qed

text \<open>The first sector after the root directory.\<close>

definition root_end :: "ata \<Rightarrow> int" where
  "root_end ata = root_sector ata +
     (if root_size ata mod 512 \<noteq> 0 then root_size ata div 512 + 1 else root_size ata div 512)"

lemma streams_heap: "s\<lparr>fs_streams := f, km_heap := h, km_mem := m\<rparr> = s\<lparr>km_heap := h, km_mem := m, fs_streams := f\<rparr>"
  by (cases s) simp

lemma root_sector_nonneg: "0 \<le> root_sector ata"
  by (simp add: root_sector_def)

lemma get_root_directory_spec:
  assumes "pool_ok (km_heap s)" and "0 < avail (km_heap s)" and "sector_size s = 512" and "fat16_disk ata n"
    and "disk_fs_private (fs_disk s) = p" and "fat_h_at (km_mem s) (uint p) = boot_header ata"
    and "ds_disk (fs_streams s (directory_stream (fs_privates s p))) = The_disk"
  shows "\<exists>d h m f. fat16_get_root_directory ata p s = Some (0, set_root_directory p
      \<lparr>dir_item = d, dir_total = int (length (used_entries ata (root_sector ata * 512) n)),
       sector_pos = root_sector ata, ending_sector_pos = root_end ata\<rparr>
      (s\<lparr>km_heap := h, km_mem := overlay (\<lambda>i. disk_byte ata (root_sector ata * 512 + i)) (uint d) (root_size ata) m,
         fs_streams := f\<rparr>)) \<and>
    new_page (word_of_int (root_size ata)) (km_heap s) (km_mem s) d h m \<and> same_disks f (fs_streams s)"
proof -
  note disk = assms(4) [unfolded fat16_disk_def]
  let ?c = "directory_stream (fs_privates s p)" and ?pos = "root_sector ata * 512"
  let ?total = "int (length (used_entries ata ?pos n))"
  have priv: "directory_stream (the_private s) = ?c" by (simp add: the_private_def assms(5))
  have "\<exists>f. fat16_get_total_items_for_directory ata (word_of_int (root_sector ata)) s = Some (?total, s\<lparr>fs_streams := f\<rparr>) \<and>
      same_disks f (fs_streams s)"
    by (rule total_items_spec) (use disk assms priv root_sector_nonneg in auto)
  then obtain f where f: "fat16_get_total_items_for_directory ata (word_of_int (root_sector ata)) s =
      Some (?total, s\<lparr>fs_streams := f\<rparr>)" "same_disks f (fs_streams s)" by blast
  let ?n = "word_of_int (root_size ata) :: u32"
  have n: "one_block ?n" using disk by (simp add: one_block_def uint_of_int_id)
  obtain d h m where d: "kalloc ?n (s\<lparr>fs_streams := f\<rparr>) = (d, s\<lparr>km_heap := h, km_mem := m, fs_streams := f\<rparr>)"
    "new_page ?n (km_heap s) (km_mem s) d h m"
    using kalloc_new [of "s\<lparr>fs_streams := f\<rparr>", OF _ n] assms(1,2) by (auto simp: streams_heap)
  let ?s2 = "s\<lparr>km_heap := h, km_mem := m, fs_streams := f\<rparr>"
  let ?g = "f(?c := (f ?c)\<lparr>ds_pos := ?pos + root_size ata\<rparr>)"
  have dc: "ds_disk (fs_streams ?s2 ?c) = The_disk" using f(2) assms(7) by (simp add: same_disks_def)
  have read: "stream_read ata ?c (uint d) (root_size ata)
      (?s2\<lparr>fs_streams := (fs_streams ?s2)(?c := (fs_streams ?s2 ?c)\<lparr>ds_pos := ?pos\<rparr>)\<rparr>) =
    (0, s\<lparr>km_heap := h, km_mem := overlay (\<lambda>i. disk_byte ata (?pos + i)) (uint d) (root_size ata) m, fs_streams := ?g\<rparr>)"
    by (subst read_at [OF dc]) (use disk root_sector_nonneg [of ata] in simp_all)
  have sectors: "root_size ata sdiv 512 = root_size ata div 512" "root_size ata smod 512 = root_size ata mod 512"
    using disk by (simp_all add: sdiv_nonneg smod_nonneg)
  have "d \<noteq> 0" using new_pageD(1) [OF d(2)] .
  then have "fat16_get_root_directory ata p s = Some (0, set_root_directory p
      \<lparr>dir_item = d, dir_total = ?total, sector_pos = root_sector ata, ending_sector_pos = root_end ata\<rparr>
      (s\<lparr>km_heap := h, km_mem := overlay (\<lambda>i. disk_byte ata (?pos + i)) (uint d) (root_size ata) m, fs_streams := ?g\<rparr>))"
    unfolding fat16_get_root_directory_def Let_def assms(6) root_sector_def [symmetric] root_size_def [symmetric]
    using f(1) d(1) read assms(3)
    by (simp add: sectors stream_seek_eq PEACHOS_ALL_OK_def fat16_sector_to_absolute_def root_end_def)
  moreover have "same_disks ?g (fs_streams s)" using f(2) by (rule same_disks_move)
  ultimately show ?thesis using d(2) by blast
qed

lemma overlay_page: "n \<le> 4096 \<Longrightarrow> a \<notin> page_range p \<Longrightarrow> overlay f (uint p) n m a = m a"
  by (rule overlay_outside) (auto simp: page_range_def)

lemma fat_h_at_shift: "fat_h_at m p = fat_h_at (\<lambda>a. m (p + a)) 0"
  by (simp add: fat_h_at_def le16_def le32_def algebra_simps)

text \<open>What mounting leaves in memory: the blocks \<open>A\<close> are new.\<close>

definition mounts :: "ata \<Rightarrow> nat \<Rightarrow> fs_mem \<Rightarrow> fs_mem \<Rightarrow> u32 set \<Rightarrow> bool" where
  "mounts ata n s s' A \<longleftrightarrow> mounted s' \<and> the_header s' = boot_header ata \<and>
     root_directory (the_private s') = \<lparr>dir_item = root_items s',
       dir_total = int (length (used_entries ata (root_sector ata * 512) n)),
       sector_pos = root_sector ata, ending_sector_pos = root_end ata\<rparr> \<and>
     fs_disk s' = (fs_disk s)\<lparr>disk_filesystem := FAT16_FS, disk_fs_private := disk_fs_private (fs_disk s')\<rparr> \<and>
     disk_fs_private (fs_disk s') \<in> A \<and> root_items s' \<in> A \<and> extends s s' \<and> finite A \<and> card A = 5 \<and>
     A \<inter> live (km_heap s) = {} \<and> live (km_heap s') = live (km_heap s) \<union> A \<and>
     avail (km_heap s) \<le> avail (km_heap s') + 5 \<and>
     (\<forall>k. 0 \<le> k \<and> k < root_size ata \<longrightarrow>
        km_mem s' (uint (root_items s') + k) = disk_byte ata (root_sector ata * 512 + k)) \<and>
     fs_items s' = fs_items s \<and> fs_fds s' = fs_fds s \<and> fs_dirs s' = fs_dirs s \<and>
     pm_roots s' = pm_roots s \<and> pm_parts s' = pm_parts s \<and> km_term s' = km_term s"

text \<open>
  The state in which the boot sector has been read: \<open>p\<close> is the private data, \<open>t\<close> the stream of the call and
  \<open>abc\<close> the streams of the driver.
\<close>

definition probed :: "ata \<Rightarrow> fs_mem \<Rightarrow> u32 \<Rightarrow> u32 \<Rightarrow> u32 \<times> u32 \<times> u32 \<Rightarrow> fs_mem \<Rightarrow> bool" where
  "probed ata s p t abc s' \<longleftrightarrow> (case abc of (a, b, c) \<Rightarrow>
     distinct [p, a, b, c, t] \<and> {p, a, b, c, t} \<inter> live (km_heap s) = {} \<and> b \<noteq> 0 \<and> t \<noteq> 0 \<and> page p \<and>
     live (km_heap s') = live (km_heap s) \<union> {p, a, b, c, t} \<and> avail (km_heap s') + 5 = avail (km_heap s) \<and>
     grows (km_heap s) (km_mem s) (km_heap s') (km_mem s') \<and> fat_h_at (km_mem s') (uint p) = boot_header ata \<and>
     fs_disk s' = (fs_disk s)\<lparr>disk_filesystem := FAT16_FS, disk_fs_private := p\<rparr> \<and>
     fs_privates s' p = \<lparr>root_directory = zero_directory, cluster_read_stream = a, fat_read_stream = b, directory_stream = c\<rparr> \<and>
     (\<forall>q \<in> {a, b, c}. ds_disk (fs_streams s' q) = The_disk) \<and>
     fs_items s' = fs_items s \<and> fs_fds s' = fs_fds s \<and> fs_dirs s' = fs_dirs s \<and>
     pm_roots s' = pm_roots s \<and> pm_parts s' = pm_parts s \<and> km_term s' = km_term s)"

lemma resolve_probe:
  assumes "pool_ok (km_heap s)" and "4 < avail (km_heap s)" and "disk_id (fs_disk s) = 0"
  shows "\<exists>p t abc s'. probed ata s p t abc s' \<and> fat16_resolve ata s =
    (if signature (boot_header ata) \<noteq> 0x29 then Some (resolve_out p t (- EFSNOTUS) s')
     else do {
       (res, s) \<leftarrow> fat16_get_root_directory ata p s';
       Some (resolve_out p t (if res \<noteq> PEACHOS_ALL_OK then - EIO else 0) s) })"
proof -
  have "one_block 92" by (simp add: one_block_def)
  then obtain p h1 m1 where 1: "kalloc 92 s = (p, s\<lparr>km_heap := h1, km_mem := m1\<rparr>)" "new_page 92 (km_heap s) (km_mem s) p h1 m1"
    using kalloc_new [OF assms(1), of 92] assms(2) by auto
  note n1 = new_pageD [OF 1(2)]
  have zero: "m1 (uint p + k) = 0" if "0 \<le> k" "k < 92" for k using 1(2) that by (simp add: new_page_def)
  let ?s1 = "s\<lparr>km_heap := h1, km_mem := m1\<rparr>"
  obtain a b c h2 m2 where 2: "fat16_init_private p ?s1 = ?s1\<lparr>km_heap := h2, km_mem := m2,
      fs_streams := (fs_streams s)(a := fresh_stream, b := fresh_stream, c := fresh_stream),
      fs_privates := (fs_privates s)(p := \<lparr>root_directory = zero_directory, cluster_read_stream = a,
        fat_read_stream = b, directory_stream = c\<rparr>)\<rparr>"
    "distinct [a, b, c]" "{a, b, c} \<inter> live h1 = {}" "0 \<notin> {a, b, c}" "live h2 = live h1 \<union> {a, b, c}"
    "avail h2 + 3 = avail h1" "grows h1 m1 h2 m2"
    using init_private_spec [of ?s1 p] n1(5,7) assms(2,3) zero by auto
  define s3 where "s3 = upd_disk (\<lambda>d. d\<lparr>disk_fs_private := p, disk_filesystem := FAT16_FS\<rparr>) (fat16_init_private p ?s1)"
  have s3: "km_heap s3 = h2" "km_mem s3 = m2" "disk_id (fs_disk s3) = 0" by (simp_all add: s3_def upd_disk_def 2(1) assms(3))
  obtain t h4 m4 where 4: "diskstreamer_new 0 s3 = (t, s3\<lparr>km_heap := h4, km_mem := m4, fs_streams := (fs_streams s3)(t := fresh_stream)\<rparr>)"
    "new_page 8 h2 m2 t h4 m4"
    using diskstreamer_new_spec [of s3] s3 2(6,7) n1(5) assms(2) by (auto simp: grows_def)
  note n4 = new_pageD [OF 4(2)]
  let ?s4 = "s3\<lparr>km_heap := h4, km_mem := m4, fs_streams := (fs_streams s3)(t := fresh_stream)\<rparr>"
  let ?g = "(fs_streams s3)(t := fresh_stream\<lparr>ds_pos := 62\<rparr>)"
  define m5 where "m5 = overlay (\<lambda>i. disk_byte ata i) (uint p) 62 m4"
  have read: "stream_read ata t (uint p) 62 ?s4 = (0, s3\<lparr>km_heap := h4, km_mem := m5, fs_streams := ?g\<rparr>)"
    by (subst stream_read_spec) (simp_all add: fresh_stream_def m5_def)
  define s5 where "s5 = s3\<lparr>km_heap := h4, km_mem := m5, fs_streams := ?g\<rparr>"
  have m5: "m5 (uint p + i) = disk_byte ata i" if "0 \<le> i" "i < 62" for i using that by (simp add: m5_def overlay_def)
  have head5: "fat_h_at m5 (uint p) = boot_header ata"
    unfolding boot_header_def fat_h_at_shift [of m5] by (rule fat_h_at_cong) (simp add: m5)
  have pages: "page p" "p \<in> live h4" "p \<notin> live (km_heap s)" using n1 2 n4 by auto
  have "grows (km_heap s) (km_mem s) h4 m4" using grows_trans [OF grows_trans [OF n1(6) 2(7)] n4(6)] .
  then have "grows (km_heap s) (km_mem s) h4 m5"
    by (rule grows_write [OF _ pages(2,3)]) (simp add: m5_def overlay_page)
  moreover have "distinct [p, a, b, c, t]" "{p, a, b, c, t} \<inter> live (km_heap s) = {}"
    "live h4 = live (km_heap s) \<union> {p, a, b, c, t}"
    using n1(2,4) 2(2,3,5) n4(2,4) by auto
  moreover have "avail h4 + 5 = avail (km_heap s)" using n1(5) 2(6) n4(5) by simp
  ultimately have "probed ata s p t (a, b, c) s5"
    using pages(1) 2(4) n4(1) head5 by (simp add: probed_def s5_def s3_def 2(1) upd_disk_def fresh_stream_def)
  moreover have "fat16_resolve ata s =
    (if signature (boot_header ata) \<noteq> 0x29 then Some (resolve_out p t (- EFSNOTUS) s5)
     else do {
       (res, s) \<leftarrow> fat16_get_root_directory ata p s5;
       Some (resolve_out p t (if res \<noteq> PEACHOS_ALL_OK then - EIO else 0) s) })"
  proof -
    have "km_mem s5 = m5" by (simp add: s5_def)
    then show ?thesis
      using 1(1) 4(1) read s3(3) n4(1) head5
      by (simp add: fat16_resolve_def Let_def s3_def [symmetric] s5_def [symmetric] PEACHOS_ALL_OK_def)
  qed
  ultimately show ?thesis by blast
qed

lemma resolve_spec:
  assumes "pool_ok (km_heap s)" and "5 < avail (km_heap s)" and "disk_id (fs_disk s) = 0" and "sector_size s = 512"
    and "fat16_disk ata n"
  shows "\<exists>s' A. fat16_resolve ata s = Some (0, s') \<and> mounts ata n s s' A"
proof -
  note disk = assms(5) [unfolded fat16_disk_def]
  have "4 < avail (km_heap s)" using assms(2) by simp
  from resolve_probe [OF assms(1) this assms(3), of ata] disk obtain p t a b c s5 where
    pr: "probed ata s p t (a, b, c) s5" and run: "fat16_resolve ata s = do {
       (res, s) \<leftarrow> fat16_get_root_directory ata p s5;
       Some (resolve_out p t (if res \<noteq> PEACHOS_ALL_OK then - EIO else 0) s) }"
    by (auto split: if_splits)
  note q = pr [unfolded probed_def prod.case]
  have s5: "sector_size s5 = 512" "disk_fs_private (fs_disk s5) = p" "fat_h_at (km_mem s5) (uint p) = boot_header ata"
    "directory_stream (fs_privates s5 p) = c" "ds_disk (fs_streams s5 c) = The_disk" "pool_ok (km_heap s5)"
    using q assms(4) by (simp_all add: grows_def)
  have "0 < avail (km_heap s5)" using q assms(2) by linarith
  from get_root_directory_spec [of s5 ata n p, OF s5(6) this s5(1) assms(5) s5(2)] s5
  obtain d h6 m6 f where 6: "fat16_get_root_directory ata p s5 = Some (0, set_root_directory p
      \<lparr>dir_item = d, dir_total = int (length (used_entries ata (root_sector ata * 512) n)),
       sector_pos = root_sector ata, ending_sector_pos = root_end ata\<rparr>
      (s5\<lparr>km_heap := h6, km_mem := overlay (\<lambda>i. disk_byte ata (root_sector ata * 512 + i)) (uint d) (root_size ata) m6,
         fs_streams := f\<rparr>))" "new_page (word_of_int (root_size ata)) (km_heap s5) (km_mem s5) d h6 m6"
      "same_disks f (fs_streams s5)"
    by auto
  note n6 = new_pageD [OF 6(2)]
  define m7 where "m7 = overlay (\<lambda>i. disk_byte ata (root_sector ata * 512 + i)) (uint d) (root_size ata) m6"
  let ?D = "\<lparr>dir_item = d, dir_total = int (length (used_entries ata (root_sector ata * 512) n)),
       sector_pos = root_sector ata, ending_sector_pos = root_end ata\<rparr>"
  define s6 where "s6 = set_root_directory p ?D (s5\<lparr>km_heap := h6, km_mem := m7, fs_streams := f\<rparr>)"
  have run: "fat16_resolve ata s = Some (0, krelease t s6)"
    using 6(1) q by (simp add: run m7_def [symmetric] s6_def [symmetric] PEACHOS_ALL_OK_def resolve_out_def diskstreamer_close_def)
  have new: "distinct [p, a, b, c, t]" "{p, a, b, c, t} \<inter> live (km_heap s) = {}"
    "live (km_heap s5) = live (km_heap s) \<union> {p, a, b, c, t}" "avail (km_heap s5) + 5 = avail (km_heap s)"
    by (rule q [THEN conjunct1], rule q [THEN conjunct2, THEN conjunct1], (simp only: q)+)
  have pages: "page p" "page d" "d \<noteq> p" "p \<in> live (km_heap s5)" "p \<notin> live (km_heap s)" "d \<notin> live (km_heap s)" "t \<notin> live (km_heap s)"
    "t \<in> live h6" "d \<in> live h6" "t \<noteq> d"
    using q new n6(1-4) by auto
  have "grows (km_heap s) (km_mem s) (km_heap s5) (km_mem s5)" using q by blast
  from grows_trans [OF this n6(6)] have "grows (km_heap s) (km_mem s) h6 m7"
    by (rule grows_write [OF _ pages(9,6)]) (use disk in \<open>simp add: m7_def overlay_page\<close>)
  note rel = grows_release [OF this pages(8,7)]
  have m7: "m7 (uint p + k) = km_mem s5 (uint p + k)" if "0 \<le> k" "k < 4096" for k
    using grows_live [OF n6(6) pages(4), of "uint p + k"] page_offset [OF that pages(1,2)] pages(3) disk that
    by (simp add: m7_def overlay_page page_range_def)
  have head7: "fat_h_at m7 (uint p) = boot_header ata"
    unfolding s5(3) [symmetric]
  proof (rule fat_h_at_cong)
    fix x assume "uint p \<le> x" "x < uint p + 62"
    then show "m7 x = km_mem s5 x" using m7 [of "x - uint p"] by simp
  qed
  have s6: "km_heap s6 = h6" "km_mem s6 = m7" "disk_fs_private (fs_disk s6) = p" "fs_streams s6 = f"
    "fs_privates s6 p = \<lparr>root_directory = ?D, cluster_read_stream = a, fat_read_stream = b, directory_stream = c\<rparr>"
    "fs_disk s6 = (fs_disk s)\<lparr>disk_filesystem := FAT16_FS, disk_fs_private := p\<rparr>"
    using q by (simp_all add: s6_def set_root_directory_def)
  have streams: "ds_disk (f a) = The_disk" "ds_disk (f b) = The_disk" "ds_disk (f c) = The_disk"
    using 6(3) q by (simp_all add: same_disks_def)
  have "0 \<le> root_end ata" using root_sector_nonneg [of ata] disk pos_imp_zdiv_nonneg_iff [of 512 "root_size ata"]
    by (simp add: root_end_def)
  then have "mounted (krelease t s6)"
    using streams disk assms(4) q by (simp add: mounted_def the_private_def the_header_def krelease_def s6 head7)
  moreover have "root_items (krelease t s6) = d" by (simp add: root_items_def the_private_def krelease_def s6)
  moreover have "\<forall>k. 0 \<le> k \<and> k < root_size ata \<longrightarrow> m7 (uint d + k) = disk_byte ata (root_sector ata * 512 + k)"
    by (simp add: m7_def overlay_def)
  moreover have t: "t \<notin> live (km_heap s)" "t \<notin> {p, a, b, c, d}" and d: "d \<notin> live (km_heap s)" "d \<notin> {p, a, b, c}"
    using pages(6,7,10) new(1) n6(2) by (simp_all add: new(3) eq_commute [of t])
  moreover have "live (kfree h6 t) = live (km_heap s) \<union> {p, a, b, c, d}"
    using t unfolding rel(2) n6(4) new(3) by auto
  moreover have "{p, a, b, c, d} \<inter> live (km_heap s) = {}" using new(2) d(1) by simp
  moreover have "card {p, a, b, c, d} = 5" using new(1) d(2) by (simp add: card_insert_if) blast
  moreover have "avail (km_heap s) \<le> avail (kfree h6 t) + 5" using rel(3) new(4) n6(5) by linarith
  ultimately have "mounts ata n s (krelease t s6) {p, a, b, c, d}"
    using rel(1) by (simp add: mounts_def extends_def krelease_def s6 the_header_def head7 the_private_def)
      (use q in \<open>simp add: s6_def set_root_directory_def\<close>)
  with run show ?thesis by blast
qed

text \<open>
  A disk without a FAT16 boot sector: the private data is given back, but the three streams of the driver
  are not.
\<close>

lemma resolve_rejects:
  assumes "pool_ok (km_heap s)" and "4 < avail (km_heap s)" and "disk_id (fs_disk s) = 0"
    and "signature (boot_header ata) \<noteq> 0x29"
  shows "\<exists>s' L. fat16_resolve ata s = Some (- EFSNOTUS, s') \<and> pool_ok (km_heap s') \<and>
    live (km_heap s') = live (km_heap s) \<union> L \<and> L \<inter> live (km_heap s) = {} \<and> card L = 3 \<and>
    disk_fs_private (fs_disk s') = 0 \<and> disk_filesystem (fs_disk s') = FAT16_FS"
proof -
  obtain p t a b c s5 where pr: "probed ata s p t (a, b, c) s5"
    and run: "fat16_resolve ata s = Some (resolve_out p t (- EFSNOTUS) s5)"
    using resolve_probe [OF assms(1-3), of ata] assms(4) by (auto split: if_splits)
  note q = pr [unfolded probed_def prod.case]
  have "grows (km_heap s) (km_mem s) (km_heap s5) (km_mem s5)" using q by blast
  note 1 = grows_release [OF this, of t]
  note 2 = grows_release [OF 1(1), of p]
  have "resolve_out p t (- EFSNOTUS) s5 = (- EFSNOTUS, upd_disk (\<lambda>d. d\<lparr>disk_fs_private := 0\<rparr>) (krelease p (krelease t s5)))"
    using q by (simp add: resolve_out_def diskstreamer_close_def EFSNOTUS_def)
  moreover have "pool_ok (kfree (kfree (km_heap s5) t) p)" "live (kfree (kfree (km_heap s5) t) p) = live (km_heap s) \<union> {a, b, c}"
    using 1 2 q by (auto simp: grows_def)
  moreover have "{a, b, c} \<inter> live (km_heap s) = {}" "card {a, b, c} = 3" using q by auto
  ultimately show ?thesis
    using run q by (intro exI [of _ "upd_disk (\<lambda>d. d\<lparr>disk_fs_private := 0\<rparr>) (krelease p (krelease t s5))"] exI [of _ "{a, b, c}"])
      (simp add: krelease_def upd_disk_def)
qed

end
