(* ===== verification/File.thy ===== *)
theory File
  imports FatMount
begin

text \<open>
  The virtual file system of \<open>src/fs/file.c\<close>: the table of drivers, the table of open files, and the calls
  \<open>fopen\<close>, \<open>fread\<close>, \<open>fseek\<close>, \<open>fstat\<close> and \<open>fclose\<close> that go through a driver's function pointers.  A driver is
  a record of its functions on the memory \<open>fs_mem\<close>; the structures \<open>file_descriptor\<close> and \<open>filesystem\<close> are
  in stores indexed by their addresses.
\<close>

subsection \<open>The data\<close>

text \<open>A driver.  There is one disk, so that the functions do not take it.\<close>

(* src/src/fs/file.h 36-54 filesystem *)
record filesystem =
  fsd_resolve :: "int fs_prog"
  fsd_open :: "u32 \<Rightarrow> u32 \<Rightarrow> u32 fs_prog"
  fsd_read :: "u32 \<Rightarrow> u32 \<Rightarrow> u32 \<Rightarrow> int \<Rightarrow> int fs_prog"
  fsd_seek :: "u32 \<Rightarrow> u32 \<Rightarrow> u32 \<Rightarrow> fs_mem \<Rightarrow> int \<times> fs_mem"
  fsd_stat :: "u32 \<Rightarrow> file_stat \<Rightarrow> fs_mem \<Rightarrow> int \<times> file_stat"
  fsd_close :: "u32 \<Rightarrow> fs_mem \<Rightarrow> int \<times> fs_mem"
  fsd_name :: "u8 list"

(* src/src/fs/file.h 58-69 file_descriptor *)
record file_descriptor =
  fd_index :: int
  fd_filesystem :: u32
  fd_private :: u32
  fd_disk :: "disk_ptr option"

abbreviation PEACHOS_MAX_FILESYSTEMS :: nat where "PEACHOS_MAX_FILESYSTEMS \<equiv> 12"
abbreviation PEACHOS_MAX_FILE_DESCRIPTORS :: nat where "PEACHOS_MAX_FILE_DESCRIPTORS \<equiv> 512"

(* src/src/fs/file.c 12-13 filesystems, file_descriptors *)
record vfs =
  vf_mem :: fs_mem
  filesystems :: "u32 list"
  file_descriptors :: "u32 list"
  vf_files :: "u32 \<Rightarrow> file_descriptor"
  vf_drivers :: "u32 \<Rightarrow> filesystem"

definition vprint :: "string \<Rightarrow> vfs \<Rightarrow> vfs" where
  "vprint t v = v\<lparr>vf_mem := kprint t (vf_mem v)\<rparr>"

subsection \<open>Drivers\<close>

(* src/src/fs/fat/fat16.c 122-129 fat16_fs *)
definition fat16_fs :: "ata \<Rightarrow> filesystem" where
  "fat16_fs ata = \<lparr>fsd_resolve = fat16_resolve ata, fsd_open = fat16_open ata, fsd_read = fat16_read ata,
     fsd_seek = fat16_seek, fsd_stat = fat16_stat, fsd_close = fat16_close, fsd_name = []\<rparr>"

text \<open>The structure is static data: it is at its address before the call, which fills in the name.\<close>

(* src/src/fs/fat/fat16.c 131-135 fat16_init *)
definition fat16_init :: "vfs \<Rightarrow> u32 \<times> vfs" where
  "fat16_init v =
     (FAT16_FS, v\<lparr>vf_drivers := (vf_drivers v)(FAT16_FS := (vf_drivers v FAT16_FS)\<lparr>fsd_name := bytes ''FAT16''\<rparr>)\<rparr>)"

text \<open>\<open>None\<close> is the null pointer, \<open>Some i\<close> the address of entry \<open>i\<close>.\<close>

(* src/src/fs/file.c 17-26 fs_get_free_filesystem *)
definition fs_get_free_filesystem :: "vfs \<Rightarrow> nat option" where
  "fs_get_free_filesystem v = find (\<lambda>i. filesystems v ! i = 0) [0 ..< PEACHOS_MAX_FILESYSTEMS]"

text \<open>With a full table the code loops for ever: \<open>None\<close>.\<close>

(* src/src/fs/file.c 36-44 fs_insert_filesystem *)
definition fs_insert_filesystem :: "u32 \<Rightarrow> vfs \<Rightarrow> vfs option" where
  "fs_insert_filesystem filesystem v =
     (case fs_get_free_filesystem v of
        None \<Rightarrow> None
      | Some i \<Rightarrow> Some (v\<lparr>filesystems := (filesystems v)[i := filesystem]\<rparr>))"

(* src/src/fs/file.c 46-48 fs_static_load *)
definition fs_static_load :: "vfs \<Rightarrow> vfs option" where
  "fs_static_load v = (let (fs, v) = fat16_init v in fs_insert_filesystem fs v)"

(* src/src/fs/file.c 52-55 fs_load *)
definition fs_load :: "vfs \<Rightarrow> vfs option" where
  "fs_load v = fs_static_load (v\<lparr>filesystems := replicate PEACHOS_MAX_FILESYSTEMS 0\<rparr>)"

(* src/src/fs/file.c 57-60 fs_init *)
definition fs_init :: "vfs \<Rightarrow> vfs option" where
  "fs_init v = fs_load (v\<lparr>file_descriptors := replicate PEACHOS_MAX_FILE_DESCRIPTORS 0\<rparr>)"

(* src/src/fs/file.c 108-115 fs_resolve: loop *)
fun fs_resolve_loop :: "nat list \<Rightarrow> vfs \<Rightarrow> (u32 \<times> vfs) option" where
  "fs_resolve_loop [] v = Some (0, v)"
| "fs_resolve_loop (i # is) v =
     (if filesystems v ! i \<noteq> 0
      then do {
        (res, m) \<leftarrow> fsd_resolve (vf_drivers v (filesystems v ! i)) (vf_mem v);
        let v = v\<lparr>vf_mem := m\<rparr>;
        if res = 0 then Some (filesystems v ! i, v) else fs_resolve_loop is v }
      else fs_resolve_loop is v)"

(* src/src/fs/file.c 105-118 fs_resolve *)
definition fs_resolve :: "vfs \<Rightarrow> (u32 \<times> vfs) option" where
  "fs_resolve v = fs_resolve_loop [0 ..< PEACHOS_MAX_FILESYSTEMS] v"

(* src/src/disk/disk.c 39-45 disk_search_and_init *)
definition disk_search_and_init :: "vfs \<Rightarrow> vfs option" where
  "disk_search_and_init v = do {
     let v = v\<lparr>vf_mem := (vf_mem v)\<lparr>fs_disk := \<lparr>disk_type = 0, disk_sector_size = PEACHOS_SECTOR_SIZE, disk_id = 0,
                 disk_filesystem = 0, disk_fs_private = 0\<rparr>\<rparr>\<rparr>;
     (fs, v) \<leftarrow> fs_resolve v;
     Some (v\<lparr>vf_mem := upd_disk (\<lambda>d. d\<lparr>disk_filesystem := fs\<rparr>) (vf_mem v)\<rparr>) }"

subsection \<open>Descriptors\<close>

text \<open>
  The results are the status and the descriptor.  The allocation is not checked: the index is written
  through NULL when it fails.
\<close>

(* src/src/fs/file.c 65-81 file_new_descriptor *)
definition file_new_descriptor :: "vfs \<Rightarrow> int \<times> u32 \<times> vfs" where
  "file_new_descriptor v =
     (case find (\<lambda>i. file_descriptors v ! i = 0) [0 ..< PEACHOS_MAX_FILE_DESCRIPTORS] of
        None \<Rightarrow> (- ENOMEM, 0, v)
      | Some i \<Rightarrow>
          let (desc, m) = kalloc 16 (vf_mem v)
          in (0, desc, v\<lparr>vf_mem := m, file_descriptors := (file_descriptors v)[i := desc],
                vf_files := (vf_files v)(desc := \<lparr>fd_index = int i + 1, fd_filesystem = 0, fd_private = 0, fd_disk = None\<rparr>)\<rparr>))"

(* src/src/fs/file.c 91-99 file_get_descriptor *)
definition file_get_descriptor :: "int \<Rightarrow> vfs \<Rightarrow> u32" where
  "file_get_descriptor fd v =
     (if fd \<le> 0 \<or> fd \<ge> int PEACHOS_MAX_FILE_DESCRIPTORS then 0 else file_descriptors v ! nat (fd - 1))"

(* src/src/fs/file.c 238-241 file_free_descriptor *)
definition file_free_descriptor :: "u32 \<Rightarrow> vfs \<Rightarrow> vfs" where
  "file_free_descriptor desc v =
     v\<lparr>file_descriptors := (file_descriptors v)[nat (fd_index (vf_files v desc) - 1) := 0], vf_mem := krelease desc (vf_mem v)\<rparr>"

subsection \<open>The calls\<close>

(* src/src/fs/file.h 20-26 FILE_MODE *)
datatype file_mode = File_mode_read | File_mode_write | File_mode_append | File_mode_invalid

definition mode_value :: "file_mode \<Rightarrow> u32" where
  "mode_value m = (case m of File_mode_read \<Rightarrow> 0 | File_mode_write \<Rightarrow> 1 | File_mode_append \<Rightarrow> 2 | File_mode_invalid \<Rightarrow> 3)"

(* src/src/fs/file.c 120-133 file_get_mode_by_string *)
definition file_get_mode_by_string :: "memory \<Rightarrow> int \<Rightarrow> file_mode" where
  "file_get_mode_by_string m str =
     (if strncmp m str (literal 0 (bytes ''r'')) 0 1 = 0 then File_mode_read
      else if strncmp m str (literal 0 (bytes ''w'')) 0 1 = 0 then File_mode_write
      else if strncmp m str (literal 0 (bytes ''a'')) 0 1 = 0 then File_mode_append
      else File_mode_invalid)"

(* src/src/fs/file.c 186-191 fopen: out *)
definition fopen_out :: "int \<Rightarrow> int" where
  "fopen_out res = (if res < 0 then 0 else res)"

(* src/src/fs/file.c 176-184 fopen: descriptor *)
definition fopen_descriptor :: "u32 \<Rightarrow> disk_ptr \<Rightarrow> vfs \<Rightarrow> int \<times> vfs" where
  "fopen_descriptor descriptor_private_data disk v =
     (let (res, desc, v) = file_new_descriptor v
      in if res < 0 then (fopen_out res, v)
         else
           let d = (vf_files v desc)\<lparr>fd_filesystem := disk_filesystem (fs_disk (vf_mem v)),
                     fd_private := descriptor_private_data, fd_disk := Some disk\<rparr>
           in (fopen_out (fd_index d), v\<lparr>vf_files := (vf_files v)(desc := d)\<rparr>))"

text \<open>The parsed path is not released.\<close>

(* src/src/fs/file.c 135-192 fopen *)
definition fopen :: "int \<Rightarrow> int \<Rightarrow> vfs \<Rightarrow> (int \<times> vfs) option" where
  "fopen filename mode_str v = do {
     (root_path, m) \<leftarrow> pathparser_parse filename (vf_mem v);
     let v = v\<lparr>vf_mem := m\<rparr>;
     if root_path = 0 then Some (fopen_out (- EINVARG), v)
     else if first_part (pm_roots m root_path) = 0 then Some (fopen_out (- EINVARG), v)
     else
       case disk_get (drive_no (pm_roots m root_path)) of
         None \<Rightarrow> Some (fopen_out (- EIO), vprint ''no disk'' v)
       | Some disk \<Rightarrow>
           if disk_filesystem (fs_disk m) = 0 then Some (fopen_out (- EIO), vprint ''no filesystem'' v)
           else
             let mode = file_get_mode_by_string (km_mem m) mode_str
             in if mode = File_mode_invalid then Some (fopen_out (- EINVARG), vprint ''invalid file mode'' v)
                else do {
                  (descriptor_private_data, m) \<leftarrow>
                    fsd_open (vf_drivers v (disk_filesystem (fs_disk m))) (first_part (pm_roots m root_path))
                      (mode_value mode) m;
                  let v = v\<lparr>vf_mem := m\<rparr>;
                  if ISERR descriptor_private_data
                  then Some (fopen_out (sint descriptor_private_data), vprint ''err with descriptor private data'' v)
                  else Some (fopen_descriptor descriptor_private_data disk v) } }"

(* src/src/fs/file.c 194-211 fread *)
definition fread :: "int \<Rightarrow> u32 \<Rightarrow> u32 \<Rightarrow> int \<Rightarrow> vfs \<Rightarrow> (int \<times> vfs) option" where
  "fread ptr sz nmemb fd v =
     (if sz = 0 \<or> nmemb = 0 \<or> fd < 1 then Some (- EINVARG, v)
      else
        let desc = file_get_descriptor fd v
        in if desc = 0 then Some (- EINVARG, v)
           else do {
             (res, m) \<leftarrow> fsd_read (vf_drivers v (fd_filesystem (vf_files v desc))) (fd_private (vf_files v desc)) sz nmemb ptr
                          (vf_mem v);
             Some (res, v\<lparr>vf_mem := m\<rparr>) })"

(* src/src/fs/file.c 213-223 fseek *)
definition fseek :: "int \<Rightarrow> int \<Rightarrow> u32 \<Rightarrow> vfs \<Rightarrow> int \<times> vfs" where
  "fseek fd offset whence v =
     (let desc = file_get_descriptor fd v
      in if desc = 0 then (- EIO, v)
         else
           let (res, m) = fsd_seek (vf_drivers v (fd_filesystem (vf_files v desc))) (fd_private (vf_files v desc))
                            (word_of_int offset) whence (vf_mem v)
           in (res, v\<lparr>vf_mem := m\<rparr>))"

(* src/src/fs/file.c 225-236 fstat *)
definition fstat :: "int \<Rightarrow> file_stat \<Rightarrow> vfs \<Rightarrow> int \<times> file_stat" where
  "fstat fd stat v =
     (let desc = file_get_descriptor fd v
      in if desc = 0 then (- EIO, stat)
         else fsd_stat (vf_drivers v (fd_filesystem (vf_files v desc))) (fd_private (vf_files v desc)) stat (vf_mem v))"

(* src/src/fs/file.c 243-259 fclose *)
definition fclose :: "int \<Rightarrow> vfs \<Rightarrow> int \<times> vfs" where
  "fclose fd v =
     (let desc = file_get_descriptor fd v
      in if desc = 0 then (- EIO, v)
         else
           let (res, m) = fsd_close (vf_drivers v (fd_filesystem (vf_files v desc))) (fd_private (vf_files v desc)) (vf_mem v);
               v = v\<lparr>vf_mem := m\<rparr>
           in (res, if res = PEACHOS_ALL_OK then file_free_descriptor desc v else v))"

end
