(* ===== verification/Task.thy ===== *)
theory Task
  imports Paging File
begin

text \<open>
  Tasks: \<open>src/task/task.c\<close>.  A task is a structure on the kernel heap with a page directory of its own; the
  tasks are a doubly linked list.  The structures are in a store indexed by address, page tables in \<open>pmem\<close>
  as in \<open>Paging\<close>, and the heap is the one of the file system.  The code does not check for NULL before
  \<open>task_free\<close>; the model reads the store at address 0 as the code reads the memory there.
\<close>

subsection \<open>The data\<close>

(* src/src/task/task.h 7-20 registers *)
record task_regs =
  reg_edi :: u32
  reg_esi :: u32
  reg_ebp :: u32
  reg_ebx :: u32
  reg_edx :: u32
  reg_ecx :: u32
  reg_eax :: u32
  reg_ip :: u32
  reg_cs :: u32
  reg_flags :: u32
  reg_esp :: u32
  reg_ss :: u32

(* src/src/task/task.h 24-35 task *)
record task =
  page_directory :: u32
  task_registers :: task_regs
  task_process :: u32
  task_next :: u32
  task_prev :: u32

definition zero_task_regs :: task_regs where
  "zero_task_regs = \<lparr>reg_edi = 0, reg_esi = 0, reg_ebp = 0, reg_ebx = 0, reg_edx = 0, reg_ecx = 0, reg_eax = 0,
     reg_ip = 0, reg_cs = 0, reg_flags = 0, reg_esp = 0, reg_ss = 0\<rparr>"

definition zero_task :: task where
  "zero_task = \<lparr>page_directory = 0, task_registers = zero_task_regs, task_process = 0, task_next = 0, task_prev = 0\<rparr>"

text \<open>\<open>data_segment\<close> is the selector in DS, ES, FS and GS.\<close>

(* src/src/task/task.c 9-13 current_task, task_tail, task_head *)
record task_sys =
  ts_vfs :: vfs
  ts_tables :: pmem
  ts_mmu :: mmu
  data_segment :: u16
  ts_tasks :: "u32 \<Rightarrow> task"
  current_task :: u32
  task_tail :: u32
  task_head :: u32

abbreviation (input) PAGING_IS_PRESENT :: u8 where "PAGING_IS_PRESENT \<equiv> 1"
abbreviation (input) PAGING_IS_WRITEABLE :: u8 where "PAGING_IS_WRITEABLE \<equiv> 2"
abbreviation (input) PAGING_ACCESS_FROM_ALL :: u8 where "PAGING_ACCESS_FROM_ALL \<equiv> 4"
abbreviation (input) PEACHOS_PROGRAM_VIRTUAL_ADDRESS :: u32 where "PEACHOS_PROGRAM_VIRTUAL_ADDRESS \<equiv> 0x400000"
abbreviation (input) PEACHOS_PROGRAM_VIRTUAL_STACK_ADDRESS_START :: u32
  where "PEACHOS_PROGRAM_VIRTUAL_STACK_ADDRESS_START \<equiv> 0x3FF000"
abbreviation (input) USER_DATA_SEGMENT :: u32 where "USER_DATA_SEGMENT \<equiv> 0x23"

abbreviation sys_heap :: "'a task_sys_scheme \<Rightarrow> heap" where
  "sys_heap s \<equiv> km_heap (vf_mem (ts_vfs s))"

definition with_heap :: "heap \<Rightarrow> 'a task_sys_scheme \<Rightarrow> 'a task_sys_scheme" where
  "with_heap h s = s\<lparr>ts_vfs := (ts_vfs s)\<lparr>vf_mem := (vf_mem (ts_vfs s))\<lparr>km_heap := h\<rparr>\<rparr>\<rparr>"

definition sys_kzalloc :: "u32 \<Rightarrow> 'a task_sys_scheme \<Rightarrow> u32 \<times> 'a task_sys_scheme" where
  "sys_kzalloc n s =
     (let (p, m) = kalloc n (vf_mem (ts_vfs s)) in (p, s\<lparr>ts_vfs := (ts_vfs s)\<lparr>vf_mem := m\<rparr>\<rparr>))"

definition sys_kfree :: "u32 \<Rightarrow> 'a task_sys_scheme \<Rightarrow> 'a task_sys_scheme" where
  "sys_kfree p s = with_heap (kfree (sys_heap s) p) s"

definition upd_task :: "u32 \<Rightarrow> (task \<Rightarrow> task) \<Rightarrow> 'a task_sys_scheme \<Rightarrow> 'a task_sys_scheme" where
  "upd_task p f s = s\<lparr>ts_tasks := (ts_tasks s)(p := f (ts_tasks s p))\<rparr>"

subsection \<open>The list of tasks\<close>

text \<open>\<open>task_current()\<close> of the code is the field.\<close>

(* src/src/task/task.c 54-60 task_get_next *)
definition task_get_next :: "'a task_sys_scheme \<Rightarrow> u32" where
  "task_get_next s =
     (if task_next (ts_tasks s (current_task s)) = 0 then task_head s else task_next (ts_tasks s (current_task s)))"

(* src/src/task/task.c 62-78 task_list_remove *)
definition task_list_remove :: "u32 \<Rightarrow> 'a task_sys_scheme \<Rightarrow> 'a task_sys_scheme" where
  "task_list_remove task s =
     (let s = (if task_prev (ts_tasks s task) \<noteq> 0
               then upd_task (task_prev (ts_tasks s task)) (\<lambda>t. t\<lparr>task_next := task_next (ts_tasks s task)\<rparr>) s else s);
          s = (if task = task_head s then s\<lparr>task_head := task_next (ts_tasks s task)\<rparr> else s);
          s = (if task = task_tail s then s\<lparr>task_tail := task_prev (ts_tasks s task)\<rparr> else s)
      in if task = current_task s then s\<lparr>current_task := task_get_next s\<rparr> else s)"

(* src/src/task/task.c 80-87 task_free *)
definition task_free :: "u32 \<Rightarrow> 'a task_sys_scheme \<Rightarrow> int \<times> 'a task_sys_scheme" where
  "task_free task s =
     (let s = with_heap (paging_free_4gb (page_directory (ts_tasks s task)) (ts_tables s) (sys_heap s)) s;
          s = task_list_remove task s
      in (0, sys_kfree task s))"

(* src/src/task/task.c 89-104 task_init *)
definition task_init :: "u32 \<Rightarrow> u32 \<Rightarrow> 'a task_sys_scheme \<Rightarrow> int \<times> 'a task_sys_scheme" where
  "task_init task process s =
     (let s = upd_task task (\<lambda>_. zero_task) s;
          (chunk, h, m) = paging_new_4gb (PAGING_IS_PRESENT OR PAGING_ACCESS_FROM_ALL) (sys_heap s) (ts_tables s);
          s = (with_heap h s)\<lparr>ts_tables := m\<rparr>;
          s = upd_task task (\<lambda>t. t\<lparr>page_directory := chunk\<rparr>) s
      in if chunk = 0 then (- EIO, s)
         else (0, upd_task task (\<lambda>t. t\<lparr>task_registers := (task_registers t)\<lparr>reg_ip := PEACHOS_PROGRAM_VIRTUAL_ADDRESS,
                    reg_ss := USER_DATA_SEGMENT, reg_esp := PEACHOS_PROGRAM_VIRTUAL_STACK_ADDRESS_START\<rparr>,
                    task_process := process\<rparr>) s))"

text \<open>On an error the task is freed, which takes it out of the list although it is not in it.\<close>

(* src/src/task/task.c 45-51 task_new: out *)
definition task_new_out :: "u32 \<Rightarrow> int \<Rightarrow> 'a task_sys_scheme \<Rightarrow> u32 \<times> 'a task_sys_scheme" where
  "task_new_out task res s =
     (if res < 0 then let (_, s) = task_free task s in (ERROR res, s) else (task, s))"

(* src/src/task/task.c 21-52 task_new *)
definition task_new :: "u32 \<Rightarrow> 'a task_sys_scheme \<Rightarrow> u32 \<times> 'a task_sys_scheme" where
  "task_new process s =
     (let (task, s) = sys_kzalloc 64 s
      in if task = 0 then task_new_out task (- ENOMEM) s
         else
           let (res, s) = task_init task process s
           in if res \<noteq> PEACHOS_ALL_OK then task_new_out task res s
              else if task_head s = 0 then task_new_out task res (s\<lparr>task_head := task, task_tail := task\<rparr>)
              else
                let s = upd_task (task_tail s) (\<lambda>t. t\<lparr>task_next := task\<rparr>) s;
                    s = upd_task task (\<lambda>t. t\<lparr>task_prev := task_tail s\<rparr>) s
                in task_new_out task res (s\<lparr>task_tail := task\<rparr>))"

subsection \<open>Switching\<close>

(* src/src/task/task.c 106-110 task_switch *)
definition task_switch :: "u32 \<Rightarrow> 'a task_sys_scheme \<Rightarrow> int \<times> 'a task_sys_scheme" where
  "task_switch task s =
     (let s = s\<lparr>current_task := task\<rparr>
      in (0, s\<lparr>ts_mmu := paging_switch (paging_4gb_chunk_get_directory (ts_tables s) (page_directory (ts_tasks s task))) (ts_mmu s)\<rparr>))"

(* src/src/task/task.asm 8-14 user_registers *)
definition user_registers :: "'a task_sys_scheme \<Rightarrow> 'a task_sys_scheme" where
  "user_registers s = s\<lparr>data_segment := 0x23\<rparr>"

(* src/src/task/task.c 124-128 task_page *)
definition task_page :: "'a task_sys_scheme \<Rightarrow> int \<times> 'a task_sys_scheme" where
  "task_page s = (let s = user_registers s; (_, s) = task_switch (current_task s) s in (0, s))"

text \<open>
  Neither outcome returns: the kernel stops after a message, or \<open>task_return\<close> loads the processor from the
  registers.
\<close>

datatype transfer = Panic | User_mode task_regs

(* src/src/task/task.c 112-122 task_run_first_ever_task *)
definition task_run_first_ever_task :: "'a task_sys_scheme \<Rightarrow> transfer \<times> 'a task_sys_scheme" where
  "task_run_first_ever_task s =
     (if current_task s = 0
      then (Panic, s\<lparr>ts_vfs := vprint (''task_run_first_ever_task(): No current task exists!'' @ [CHR 0x5C] @ ''n'') (ts_vfs s)\<rparr>)
      else
        let (_, s) = task_switch (task_head s) s
        in (User_mode (task_registers (ts_tasks s (task_head s))), s))"

end
