(* ===== verification/FatDriver.thy ===== *)
theory FatDriver
  imports File
begin

text \<open>
  What the virtual file system relies on, as a contract of file drivers, and FAT16 as a driver that keeps
  it: opening a file gives a handle on its bytes, reading copies them and advances the handle, closing
  releases exactly the blocks of the handle, and none of this is disturbed by what others allocate.
\<close>

subsection \<open>States that agree on the file system\<close>

definition same_fs :: "fs_mem \<Rightarrow> fs_mem \<Rightarrow> bool" where
  "same_fs s s' \<longleftrightarrow> fs_disk s' = fs_disk s \<and> fs_streams s' = fs_streams s \<and> fs_privates s' = fs_privates s \<and>
     fs_dirs s' = fs_dirs s \<and> fs_items s' = fs_items s \<and> fs_fds s' = fs_fds s"

lemma same_fs_more: "path_mem.more s' = path_mem.more s \<Longrightarrow> same_fs s s'"
  by (cases s; cases s') (simp add: same_fs_def)

lemma same_fs_refl: "same_fs s s"
  by (simp add: same_fs_def)

lemma same_fs_trans: "same_fs s s1 \<Longrightarrow> same_fs s1 s2 \<Longrightarrow> same_fs s s2"
  by (simp add: same_fs_def)

text \<open>A buffer that does not touch the pages of \<open>R\<close>.\<close>

definition buffer_free :: "u32 set \<Rightarrow> int \<Rightarrow> int \<Rightarrow> bool" where
  "buffer_free R out n \<longleftrightarrow> (\<forall>q \<in> R. {out ..< out + n} \<inter> page_range q = {})"

subsection \<open>The contract\<close>

text \<open>
  \<open>file_named s cs data sz\<close>: the path with components \<open>cs\<close> names a file of size \<open>sz\<close> in clusters with the
  bytes \<open>data\<close>.
  \<open>handle s d A data pos\<close>: \<open>d\<close> is an open file at position \<open>pos\<close> that owns the blocks \<open>A\<close>.
  \<open>readable s pos n\<close>: \<open>n\<close> bytes can be read at \<open>pos\<close> in one piece.
\<close>

locale file_driver =
  fixes drv :: filesystem
    and file_named :: "fs_mem \<Rightarrow> u8 list list \<Rightarrow> u8 list \<Rightarrow> int \<Rightarrow> bool"
    and handle :: "fs_mem \<Rightarrow> u32 \<Rightarrow> u32 set \<Rightarrow> u8 list \<Rightarrow> int \<Rightarrow> bool"
    and readable :: "fs_mem \<Rightarrow> int \<Rightarrow> int \<Rightarrow> bool"
    and reserved :: "fs_mem \<Rightarrow> u32 set"
    and fsize :: "fs_mem \<Rightarrow> u32 \<Rightarrow> int"
  assumes named_grows: "file_named s cs data sz \<Longrightarrow> extends s s' \<Longrightarrow> same_fs s s' \<Longrightarrow> file_named s' cs data sz"
    and open_named: "file_named s cs data sz \<Longrightarrow> parts_at s path qs cs \<Longrightarrow> set (strs_of s qs) \<subseteq> live (km_heap s) \<Longrightarrow>
      2 < avail (km_heap s) \<Longrightarrow>
      \<exists>d s' A. fsd_open drv path 0 s = Some (d, s') \<and> \<not> ISERR d \<and> handle s' d A data 0 \<and> fsize s' d = sz \<and> extends s s' \<and>
        A \<inter> live (km_heap s) = {} \<and> live (km_heap s') = live (km_heap s) \<union> A \<and>
        avail (km_heap s) \<le> avail (km_heap s') + 3 \<and> fs_disk s' = fs_disk s"
    and handle_owns: "handle s d A data pos \<Longrightarrow> pool_ok (km_heap s) \<and> A \<subseteq> live (km_heap s)"
    and handle_grows: "handle s d A data pos \<Longrightarrow> extends s s' \<Longrightarrow> same_fs s s' \<Longrightarrow>
      handle s' d A data pos \<and> fsize s' d = fsize s d"
    and read_handle: "handle s d A data pos \<Longrightarrow> 0 < sint n \<Longrightarrow> readable s pos (sint n) \<Longrightarrow>
      pos + sint n \<le> int (length data) \<Longrightarrow> pos + sint n < 2 ^ 31 \<Longrightarrow> buffer_free (A \<union> reserved s) out (sint n) \<Longrightarrow>
      \<exists>s'. fsd_read drv d n 1 out s = Some (1, s') \<and> km_heap s' = km_heap s \<and> fs_disk s' = fs_disk s \<and>
        km_mem s' = overlay (\<lambda>i. data ! nat (pos + i)) out (sint n) (km_mem s) \<and>
        handle s' d A data (pos + sint n) \<and> fsize s' d = fsize s d \<and> reserved s' = reserved s \<and> readable s' = readable s"
    and seek_handle: "handle s d A data pos \<Longrightarrow> 0 \<le> off \<Longrightarrow> off < fsize s d \<Longrightarrow> off < 2 ^ 31 \<Longrightarrow>
      \<exists>s'. fsd_seek drv d (word_of_int off) 0 s = (0, s') \<and> km_heap s' = km_heap s \<and> km_mem s' = km_mem s \<and>
        fs_disk s' = fs_disk s \<and> handle s' d A data off \<and> fsize s' d = fsize s d \<and> reserved s' = reserved s \<and>
        readable s' = readable s"
    and close_handle: "handle s d A data pos \<Longrightarrow>
      \<exists>s'. fsd_close drv d s = (0, s') \<and> pool_ok (km_heap s') \<and> live (km_heap s') = live (km_heap s) - A \<and>
        fs_disk s' = fs_disk s \<and> km_mem s' = km_mem s \<and> avail (km_heap s) \<le> avail (km_heap s') \<and>
        (\<forall>h m. grows h m (km_heap s) (km_mem s) \<longrightarrow> A \<inter> live h = {} \<longrightarrow> grows h m (km_heap s') (km_mem s'))"
    and stat_handle: "handle s d A data pos \<Longrightarrow>
      \<exists>flags. fsd_stat drv d st s = (0, \<lparr>fst_flags = flags, fst_filesize = word_of_int (fsize s d)\<rparr>)"

subsection \<open>FAT16 handles\<close>

lemma geometry_cong:
  assumes "the_header s' = the_header s" and "the_private s' = the_private s"
  shows "fat_position s' = fat_position s" "cluster_start s' = cluster_start s"
  using assms by (simp_all add: fat_position_def cluster_start_def fun_eq_iff)

lemma volume_fds [simp]:
  "the_private (s\<lparr>fs_fds := g\<rparr>) = the_private s" "the_header (s\<lparr>fs_fds := g\<rparr>) = the_header s"
  "fat_position (s\<lparr>fs_fds := g\<rparr>) = fat_position s" "cluster_start (s\<lparr>fs_fds := g\<rparr>) = cluster_start s"
  "cluster_bytes (s\<lparr>fs_fds := g\<rparr>) = cluster_bytes s" "mounted (s\<lparr>fs_fds := g\<rparr>) = mounted s"
  "file_chain ata (s\<lparr>fs_fds := g\<rparr>) cs = file_chain ata s cs"
  by (simp_all add: the_private_def the_header_def fat_position_def cluster_start_def cluster_bytes_def mounted_def
      file_chain_def fun_eq_iff)

lemma file_data_cong:
  assumes "cluster_start s' = cluster_start s" and "cluster_bytes s' = cluster_bytes s"
  shows "file_data ata s' cs = file_data ata s cs"
proof -
  have "cluster_data ata s' = cluster_data ata s" by (intro ext) (simp add: cluster_data_def assms)
  then show ?thesis by (simp add: file_data_def)
qed

text \<open>The private data of the driver is in a live page.\<close>

definition private_live :: "fs_mem \<Rightarrow> bool" where
  "private_live s \<longleftrightarrow> disk_fs_private (fs_disk s) \<in> live (km_heap s)"

lemma header_extends:
  assumes "private_live s" and "extends s s'" and "fs_disk s' = fs_disk s"
  shows "the_header s' = the_header s"
proof -
  let ?p = "disk_fs_private (fs_disk s)"
  have "fat_h_at (km_mem s') (uint ?p) = fat_h_at (km_mem s) (uint ?p)"
    by (rule fat_h_at_cong, rule extends_memD [OF assms(2)])
      (use assms(1) in \<open>auto simp: private_live_def page_range_def intro!: bexI [of _ ?p]\<close>)
  then show ?thesis using assms(3) by (simp add: the_header_def)
qed

lemma volume_extends:
  assumes "private_live s" and "extends s s'" and "fs_disk s' = fs_disk s" and "fs_privates s' = fs_privates s"
    and "same_disks (fs_streams s') (fs_streams s)"
  shows "private_live s'" "the_private s' = the_private s" "fat_position s' = fat_position s"
    "cluster_start s' = cluster_start s" "cluster_bytes s' = cluster_bytes s" "mounted s' = mounted s"
    "file_chain ata s' cs = file_chain ata s cs" "file_data ata s' cs = file_data ata s cs"
    "header_bytes s' = header_bytes s" "root_items s' = root_items s"
proof -
  note head = header_extends [OF assms(1-3)]
  show "private_live s'" using assms(1-3) by (auto simp: private_live_def extends_def grows_def)
  show priv: "the_private s' = the_private s" using assms(3,4) by (simp add: the_private_def)
  show geo: "fat_position s' = fat_position s" "cluster_start s' = cluster_start s"
    by (rule geometry_cong [OF head priv])+
  show cb: "cluster_bytes s' = cluster_bytes s" using head assms(3) by (simp add: cluster_bytes_def)
  show "mounted s' = mounted s" using head priv assms(3,5) by (simp add: mounted_def same_disks_def)
  show "file_chain ata s' cs = file_chain ata s cs" by (simp add: file_chain_def geo)
  show "file_data ata s' cs = file_data ata s cs" by (rule file_data_cong [OF geo(2) cb])
  show "header_bytes s' = header_bytes s" "root_items s' = root_items s"
    using assms(3) priv by (simp_all add: header_bytes_def root_items_def)
qed

definition handle_blocks :: "fs_mem \<Rightarrow> u32 \<Rightarrow> u32 list" where
  "handle_blocks s d = [file_item s d, ffd_item (fs_fds s d), d]"

definition fat_handle :: "ata \<Rightarrow> fs_mem \<Rightarrow> u32 \<Rightarrow> u32 set \<Rightarrow> u8 list \<Rightarrow> int \<Rightarrow> bool" where
  "fat_handle ata s d A data pos \<longleftrightarrow> mounted s \<and> pool_ok (km_heap s) \<and> private_live s \<and>
     disk_fs_private (fs_disk s) \<notin> A \<and> A = set (handle_blocks s d) \<and> distinct (handle_blocks s d) \<and>
     A \<subseteq> live (km_heap s) \<and> (\<exists>cs. open_file ata s d cs \<and> file_data ata s cs = data) \<and>
     sint (ffd_pos (fs_fds s d)) = pos \<and> 0 \<le> pos"

definition fat_size :: "fs_mem \<Rightarrow> u32 \<Rightarrow> int" where
  "fat_size s d = uint (filesize (item_at (km_mem s) (uint (file_item s d))))"

lemma handle_item:
  assumes "fat_handle ata s d A data pos" and "extends s s'"
  shows "item_at (km_mem s') (uint (file_item s d)) = item_at (km_mem s) (uint (file_item s d))"
proof (rule item_at_cong, rule extends_memD [OF assms(2)])
  fix a assume "uint (file_item s d) \<le> a" "a < uint (file_item s d) + sizeof_item"
  moreover have "file_item s d \<in> live (km_heap s)"
    using assms(1) by (auto simp: fat_handle_def handle_blocks_def)
  ultimately show "a \<notin> pool (km_heap s) \<or> (\<exists>q \<in> live (km_heap s). a \<in> page_range q)"
    by (auto simp: page_range_def intro!: bexI [of _ "file_item s d"])
qed

lemma fat_handle_grows:
  assumes "fat_handle ata s d A data pos" and "extends s s'" and "same_fs s s'"
  shows "fat_handle ata s' d A data pos \<and> fat_size s' d = fat_size s d"
proof -
  note h = assms(1) [unfolded fat_handle_def] and same = assms(3) [unfolded same_fs_def]
  have disks: "same_disks (fs_streams s') (fs_streams s)" using same by simp
  have live: "private_live s" using h by blast
  have fs: "fs_disk s' = fs_disk s" "fs_privates s' = fs_privates s" using same by simp_all
  note vol = volume_extends [OF live assms(2) fs disks]
  have item: "file_item s' d = file_item s d" using same by (simp add: file_item_def)
  have "open_file ata s' d cs" if "open_file ata s d cs" for cs
    using that handle_item [OF assms(1,2)] vol(7) same item by (simp add: open_file_def)
  then show ?thesis
    using h vol(1,6,8) same item assms(2) handle_item [OF assms(1,2)]
    by (auto simp: fat_handle_def handle_blocks_def extends_def grows_def fat_size_def)
qed

lemma fat_handle_owns: "fat_handle ata s d A data pos \<Longrightarrow> pool_ok (km_heap s) \<and> A \<subseteq> live (km_heap s)"
  unfolding fat_handle_def by blast

lemma fat_handle_close:
  assumes "fat_handle ata s d A data pos"
  shows "\<exists>s'. fat16_close d s = (0, s') \<and> pool_ok (km_heap s') \<and> live (km_heap s') = live (km_heap s) - A \<and>
    fs_disk s' = fs_disk s \<and> km_mem s' = km_mem s \<and> avail (km_heap s) \<le> avail (km_heap s') \<and>
        (\<forall>h m. grows h m (km_heap s) (km_mem s) \<longrightarrow> A \<inter> live h = {} \<longrightarrow> grows h m (km_heap s') (km_mem s'))"
proof -
  note h = assms [unfolded fat_handle_def]
  have "pool_ok (km_heap s)" "set (handle_blocks s d) \<subseteq> live (km_heap s)" "distinct (handle_blocks s d)"
    using h by blast+
  note rel = kernel_pages.release_many [OF this] kernel_pages.release_many_left [OF this]
  have "grows h m (fold (\<lambda>p h. kfree h p) (handle_blocks s d) (km_heap s)) (km_mem s)"
    if "grows h m (km_heap s) (km_mem s)" "A \<inter> live h = {}" for h m
    using grows_release_many [OF that(1), of "handle_blocks s d"] that(2) h by blast
  moreover have "fi_type (fs_items s (ffd_item (fs_fds s d))) = FAT_ITEM_TYPE_FILE" using h by (auto simp: open_file_def)
  ultimately show ?thesis
    using rel h by (simp add: handle_blocks_def file_item_def fat16_close_def fat16_free_file_descriptor_def
        fat16_fat_item_free_def Let_def krelease_def)
qed


lemma fat_handle_stat:
  assumes "fat_handle ata s d A data pos"
  shows "\<exists>flags. fat16_stat d st s = (0, \<lparr>fst_flags = flags, fst_filesize = word_of_int (fat_size s d)\<rparr>)"
proof -
  have "fi_type (fs_items s (ffd_item (fs_fds s d))) = FAT_ITEM_TYPE_FILE"
    using assms by (auto simp: fat_handle_def open_file_def)
  then show ?thesis by (cases st) (simp add: fat16_stat_def Let_def fat_size_def file_item_def)
qed

definition fat_readable :: "fs_mem \<Rightarrow> int \<Rightarrow> int \<Rightarrow> bool" where
  "fat_readable s pos n \<longleftrightarrow> in_order (cluster_bytes s) pos n"

definition fat_reserved :: "fs_mem \<Rightarrow> u32 set" where
  "fat_reserved s = {disk_fs_private (fs_disk s)}"

lemma fat_handle_read:
  assumes "fat_handle ata s d A data pos" and "0 < sint n" and "fat_readable s pos (sint n)"
    and "pos + sint n \<le> int (length data)" and "pos + sint n < 2 ^ 31" and "buffer_free (A \<union> fat_reserved s) out (sint n)"
  shows "\<exists>s'. fat16_read ata d n 1 out s = Some (1, s') \<and> km_heap s' = km_heap s \<and> fs_disk s' = fs_disk s \<and>
    km_mem s' = overlay (\<lambda>i. data ! nat (pos + i)) out (sint n) (km_mem s) \<and>
    fat_handle ata s' d A data (pos + sint n) \<and> fat_size s' d = fat_size s d \<and> fat_reserved s' = fat_reserved s \<and>
    fat_readable s' = fat_readable s"
proof -
  note h = assms(1) [unfolded fat_handle_def]
  obtain cs where cs: "open_file ata s d cs" "file_data ata s cs = data" using h by blast
  have pos: "sint (ffd_pos (fs_fds s d)) = pos" "0 \<le> pos" using h by simp_all
  have mnt: "mounted s" using h by simp
  have pages: "{out ..< out + sint n} \<inter> page_range (disk_fs_private (fs_disk s)) = {}"
    "{out ..< out + sint n} \<inter> page_range (file_item s d) = {}"
    using assms(6) h by (auto simp: buffer_free_def fat_reserved_def handle_blocks_def)
  have "header_bytes s \<subseteq> page_range (disk_fs_private (fs_disk s))" "item_range (file_item s d) \<subseteq> page_range (file_item s d)"
    by (auto simp: header_bytes_def item_range_def page_range_def)
  then have apart: "{out ..< out + sint n} \<inter> header_bytes s = {}" "{out ..< out + sint n} \<inter> item_range (file_item s d) = {}"
    using pages by blast+
  have order: "reads_in_order (cluster_bytes s) (sint (ffd_pos (fs_fds s d))) (sint n) (unat 1)"
    using assms(3) by (simp add: reads_in_order_def fat_readable_def pos)
  have len: "sint (ffd_pos (fs_fds s d)) + uint (1 :: u32) * sint n \<le> int (length (file_data ata s cs))"
    "{out ..< out + uint (1 :: u32) * sint n} \<inter> (header_bytes s \<union> item_range (file_item s d)) = {}"
    using assms(4) apart by (auto simp: pos cs(2))
  obtain f where f: "fat16_read ata d n 1 out s = Some (1, s\<lparr>
      km_mem := overlay (\<lambda>i. data ! nat (pos + i)) out (sint n) (km_mem s), fs_streams := f,
      fs_fds := (fs_fds s)(d := (fs_fds s d)\<lparr>ffd_pos := ffd_pos (fs_fds s d) + n\<rparr>)\<rparr>)" "same_disks f (fs_streams s)"
    using read_spec [OF mnt cs(1) _ assms(2) order len] pos cs(2) by auto
  define m where "m = overlay (\<lambda>i. data ! nat (pos + i)) out (sint n) (km_mem s)"
  let ?s' = "s\<lparr>km_mem := m, fs_streams := f,
    fs_fds := (fs_fds s)(d := (fs_fds s d)\<lparr>ffd_pos := ffd_pos (fs_fds s d) + n\<rparr>)\<rparr>"
  note geo = geometry_overlay [OF apart(1), where f = "\<lambda>i. data ! nat (pos + i)", folded m_def]
  have item: "item_at m (uint (file_item s d)) = item_at (km_mem s) (uint (file_item s d))"
    unfolding m_def by (rule item_overlay [OF apart(2)])
  have same: "file_item ?s' d = file_item s d" "handle_blocks ?s' d = handle_blocks s d"
    by (simp_all add: file_item_def handle_blocks_def)
  have sum: "ffd_pos (fs_fds s d) + n = word_of_int (pos + sint n)"
    unfolding pos(1) [symmetric] by simp
  have newpos: "sint (ffd_pos (fs_fds s d) + n) = pos + sint n"
    unfolding sum by (rule sint_of_small) (use assms(2,5) pos(2) in simp_all)
  have vol: "mounted ?s'" "file_chain ata ?s' cs" "cluster_bytes ?s' = cluster_bytes s" "cluster_start ?s' = cluster_start s"
    using mnt cs(1) f(2) geo(2-5) by (simp_all add: open_file_def)
  have data: "file_data ata ?s' cs = data" using file_data_cong [OF vol(4,3)] cs(2) by simp
  have "open_file ata ?s' d cs" using cs(1) vol(2) item same by (simp add: open_file_def)
  moreover have "private_live ?s'" using h by (simp add: private_live_def)
  ultimately have "fat_handle ata ?s' d A data (pos + sint n)"
    using h vol(1) data newpos assms(2) pos(2) by (auto simp: fat_handle_def same(2))
  then show ?thesis
    using f(1) vol(3) same item by (auto simp: m_def fat_size_def fat_reserved_def fat_readable_def fun_eq_iff)
qed


lemma fat_handle_seek:
  assumes "fat_handle ata s d A data pos" and "0 \<le> off" and "off < fat_size s d" and "off < 2 ^ 31"
  shows "\<exists>s'. fat16_seek d (word_of_int off) 0 s = (0, s') \<and> km_heap s' = km_heap s \<and> km_mem s' = km_mem s \<and>
    fs_disk s' = fs_disk s \<and> fat_handle ata s' d A data off \<and> fat_size s' d = fat_size s d \<and>
    fat_reserved s' = fat_reserved s \<and> fat_readable s' = fat_readable s"
proof -
  note h = assms(1) [unfolded fat_handle_def]
  obtain cs where cs: "open_file ata s d cs" "file_data ata s cs = data" using h by blast
  let ?s' = "s\<lparr>fs_fds := (fs_fds s)(d := (fs_fds s d)\<lparr>ffd_pos := word_of_int off\<rparr>)\<rparr>"
  have off: "sint (word_of_int off :: u32) = off" "uint (word_of_int off :: u32) = off"
    using assms(2,4) by (simp_all add: sint_of_small uint_of_int_id)
  have "\<not> word_of_int off \<ge> filesize (item_at (km_mem s) (uint (file_item s d)))"
    using assms(3) by (simp add: word_le_def off(2) fat_size_def)
  then have run: "fat16_seek d (word_of_int off) 0 s = (0, ?s')"
    using cs(1) by (simp add: fat16_seek_def open_file_def file_item_def seek_mode_of_def upd_fd_def Let_def)
  have same: "file_item ?s' d = file_item s d" "handle_blocks ?s' d = handle_blocks s d"
    by (simp_all add: file_item_def handle_blocks_def)
  have "open_file ata ?s' d cs" using cs(1) same by (simp add: open_file_def)
  moreover have "file_data ata ?s' cs = data" using cs(2) file_data_cong [of ?s' s ata cs] by simp
  moreover have "private_live ?s'" using h by (simp add: private_live_def)
  ultimately have "fat_handle ata ?s' d A data off"
    using h off assms(2) by (auto simp: fat_handle_def same(2))
  with run show ?thesis
    using same by (auto simp: fat_size_def fat_reserved_def fat_readable_def fun_eq_iff)
qed

subsection \<open>FAT16 names\<close>

text \<open>
  One component that matches exactly one entry of the root directory, a file, whose clusters are a chain of
  the allocation table.  The pool of the heap is below 2 GiB, so that its addresses are not error codes.
\<close>

definition fat_named :: "ata \<Rightarrow> fs_mem \<Rightarrow> u8 list list \<Rightarrow> u8 list \<Rightarrow> int \<Rightarrow> bool" where
  "fat_named ata s cs data sz \<longleftrightarrow> mounted s \<and> pool_ok (km_heap s) \<and> private_live s \<and> pool (km_heap s) \<subseteq> {..< 2 ^ 31} \<and>
     root_items s \<in> live (km_heap s) \<and> dir_total (root_directory (the_private s)) \<le> 128 \<and>
     (\<exists>nm i chain. cs = [nm] \<and> length nm < 108 \<and> root_matches s nm = [i] \<and> is_file s (root_items s) i \<and>
        file_chain ata s chain \<and> data = file_data ata s chain \<and>
        sz = uint (filesize (item_at (km_mem s) (uint (entry_address (root_items s) i)))) \<and>
        sint (fat16_get_first_cluster (item_at (km_mem s) (uint (entry_address (root_items s) i)))) = hd chain)"

lemma root_matches_extends:
  assumes "pool_ok (km_heap s)" and "root_items s \<in> live (km_heap s)" and "dir_total (root_directory (the_private s)) \<le> 128"
    and "extends s s'" and "the_private s' = the_private s"
  shows "root_matches s' nm = root_matches s nm" and "i < 128 \<Longrightarrow> is_file s' (root_items s) i = is_file s (root_items s) i"
    and "i < 128 \<Longrightarrow> item_at (km_mem s') (uint (entry_address (root_items s) i)) =
      item_at (km_mem s) (uint (entry_address (root_items s) i))"
proof -
  have items: "root_items s' = root_items s" using assms(5) by (simp add: root_items_def)
  show item: "item_at (km_mem s') (uint (entry_address (root_items s) i)) =
      item_at (km_mem s) (uint (entry_address (root_items s) i))" if "i < 128" for i
    by (rule item_at_cong) (rule entry_bytes [OF assms(1,2) that assms(4)])
  show "is_file s' (root_items s) i = is_file s (root_items s) i" if "i < 128"
    using item [OF that] by (simp add: is_file_def)
  have "entry_matches s' (root_items s) nm i = entry_matches s (root_items s) nm i" if "i < 128" for i
    unfolding entry_matches_def
    by (subst dos_name_cong [of _ "km_mem s'" "km_mem s"]) (use entry_bytes [OF assms(1,2) that assms(4)] in simp_all)
  then show "root_matches s' nm = root_matches s nm"
    unfolding root_matches_def assms(5) items using assms(3) by (intro filter_cong) auto
qed

lemma root_matches_bound:
  "root_matches s nm = [i] \<Longrightarrow> dir_total (root_directory (the_private s)) \<le> 128 \<Longrightarrow> i < 128"
proof -
  assume *: "root_matches s nm = [i]" "dir_total (root_directory (the_private s)) \<le> 128"
  then have "i \<in> set (root_matches s nm)" by simp
  with *(2) show "i < 128" by (auto simp: root_matches_def)
qed

lemma fat_named_grows:
  assumes "fat_named ata s cs data sz" and "extends s s'" and "same_fs s s'"
  shows "fat_named ata s' cs data sz"
proof -
  note n = assms(1) [unfolded fat_named_def] and same = assms(3) [unfolded same_fs_def]
  obtain nm i chain where c: "cs = [nm]" "length nm < 108" "root_matches s nm = [i]" "is_file s (root_items s) i"
    "file_chain ata s chain" "data = file_data ata s chain"
    "sz = uint (filesize (item_at (km_mem s) (uint (entry_address (root_items s) i))))"
    "sint (fat16_get_first_cluster (item_at (km_mem s) (uint (entry_address (root_items s) i)))) = hd chain" using n by blast
  have live: "private_live s" and fs: "fs_disk s' = fs_disk s" "fs_privates s' = fs_privates s"
    and disks: "same_disks (fs_streams s') (fs_streams s)" using n same by simp_all
  note vol = volume_extends [OF live assms(2) fs disks]
  have ok: "pool_ok (km_heap s)" "root_items s \<in> live (km_heap s)" "dir_total (root_directory (the_private s)) \<le> 128"
    using n by simp_all
  note kept = root_matches_extends [OF ok assms(2) vol(2)]
  have i: "i < 128" by (rule root_matches_bound [OF c(3) ok(3)])
  have "pool_ok (km_heap s')" "pool (km_heap s') = pool (km_heap s)" "live (km_heap s) \<subseteq> live (km_heap s')"
    using assms(2) by (simp_all add: extends_def grows_def)
  then show ?thesis
    unfolding fat_named_def using n c vol kept(1) [of nm] kept(2,3) [OF i] by (auto simp: subset_iff)
qed


lemma item_at_shift: "item_at m p = item_at (\<lambda>a. m (p + a)) 0"
  by (simp add: item_at_def le16_def le32_def algebra_simps)

lemma low_address: "pool_ok h \<Longrightarrow> p \<in> live h \<Longrightarrow> pool h \<subseteq> {..< 2 ^ 31} \<Longrightarrow> \<not> ISERR p"
proof -
  assume "pool_ok h" "p \<in> live h" and low: "pool h \<subseteq> {..< 2 ^ 31}"
  then have "page_range p \<subseteq> pool h" by (intro page_in_pool) (simp_all add: pool_ok_def)
  moreover have "uint p \<in> page_range p" by (simp add: page_range_def)
  ultimately have "uint p < 2 ^ 31" using low by auto
  then have "sint p = uint p" by (intro sint_small) simp
  then show "\<not> ISERR p" by (simp add: ISERR_def)
qed

lemma fat_open_named:
  assumes "fat_named ata s cs data sz" and "parts_at s path qs cs" and "set (strs_of s qs) \<subseteq> live (km_heap s)"
    and "2 < avail (km_heap s)"
  shows "\<exists>d s' A. fat16_open ata path 0 s = Some (d, s') \<and> \<not> ISERR d \<and> fat_handle ata s' d A data 0 \<and>
    fat_size s' d = sz \<and> extends s s' \<and> A \<inter> live (km_heap s) = {} \<and> live (km_heap s') = live (km_heap s) \<union> A \<and>
    avail (km_heap s) \<le> avail (km_heap s') + 3 \<and> fs_disk s' = fs_disk s"
proof -
  note n = assms(1) [unfolded fat_named_def]
  obtain nm i chain where c: "cs = [nm]" "length nm < 108" "root_matches s nm = [i]" "is_file s (root_items s) i"
    "file_chain ata s chain" "data = file_data ata s chain"
    "sz = uint (filesize (item_at (km_mem s) (uint (entry_address (root_items s) i))))"
    "sint (fat16_get_first_cluster (item_at (km_mem s) (uint (entry_address (root_items s) i)))) = hd chain" using n by blast
  have "qs = [path]" "next_part (pm_parts s path) = 0" "cstr (km_mem s) (uint (part_str (pm_parts s path))) nm"
    using assms(2) unfolding c(1) by (cases qs; cases "tl qs"; simp)+
  then have "one_component s path nm"
    using n c assms(3) by (auto simp: one_component_def searchable_def strs_of_def)
  from open_spec [OF this, of ata] c(3) assms(4) obtain d s' A where
    op: "fat16_open ata path 0 s = Some (d, s')" "opened s s' d i A" "card A = 3" by auto
  note o = op(2) [unfolded opened_def]
  let ?r = "ffd_item (fs_fds s' d)" let ?q = "fi_ptr (fs_items s' ?r)"
  have sub: "{?q, ?r, d} \<subseteq> A" "distinct [?q, ?r, d]" using o by (auto simp: file_copy_def)
  then have "card {?q, ?r, d} = 3" by simp
  then have A: "A = {?q, ?r, d}" using sub(1) o op(3) card_subset_eq [of A "{?q, ?r, d}"] by metis
  have live: "private_live s" and ext: "extends s s'" and fs: "fs_disk s' = fs_disk s" "fs_privates s' = fs_privates s"
    and disks: "same_disks (fs_streams s') (fs_streams s)" using n o by simp_all
  note vol = volume_extends [OF live ext fs disks]
  have "km_mem s' (uint ?q + k) = km_mem s (uint (entry_address (root_items s) i) + k)" if "0 \<le> k" "k < 32" for k
    using o that by (auto simp: file_copy_def)
  then have item: "item_at (km_mem s') (uint ?q) = item_at (km_mem s) (uint (entry_address (root_items s) i))"
    unfolding item_at_shift [of "km_mem s'"] item_at_shift [of "km_mem s"] by (intro item_at_cong) simp
  have "fi_type (fs_items s' ?r) = FAT_ITEM_TYPE_FILE" using o by (auto simp: file_copy_def)
  then have "open_file ata s' d chain" using c(5,8) vol(7) item by (simp add: open_file_def file_item_def)
  moreover have "disk_fs_private (fs_disk s') \<notin> A" using live o fs(1) by (auto simp: private_live_def)
  moreover have "A = set (handle_blocks s' d)" "distinct (handle_blocks s' d)"
    using A sub(2) by (simp_all add: handle_blocks_def file_item_def)
  moreover have "pool_ok (km_heap s')" using ext by (simp add: extends_def grows_def)
  moreover have "mounted s'" using n vol(6) by simp
  moreover have "file_data ata s' chain = data" using vol(8) c(6) by simp
  moreover have "A \<subseteq> live (km_heap s')" "ffd_pos (fs_fds s' d) = 0" using o by auto
  ultimately have "fat_handle ata s' d A data 0" unfolding fat_handle_def using vol(1) by auto
  moreover have "\<not> ISERR d"
    by (rule low_address [of "km_heap s'"]) (use n o in \<open>auto simp: extends_def grows_def\<close>)
  moreover have "avail (km_heap s) \<le> avail (km_heap s') + 3" using o op(3) by simp
  moreover have "fat_size s' d = sz" using item c(7) by (simp add: fat_size_def file_item_def)
  ultimately show ?thesis using op(1) o by blast
qed

interpretation fat16: file_driver "fat16_fs ata" "fat_named ata" "fat_handle ata" fat_readable fat_reserved fat_size for ata
proof unfold_locales
  fix s s' :: fs_mem and cs data sz
  show "fat_named ata s cs data sz \<Longrightarrow> extends s s' \<Longrightarrow> same_fs s s' \<Longrightarrow> fat_named ata s' cs data sz" by (rule fat_named_grows)
next
  fix s :: fs_mem and cs data sz path qs
  show "fat_named ata s cs data sz \<Longrightarrow> parts_at s path qs cs \<Longrightarrow> set (strs_of s qs) \<subseteq> live (km_heap s) \<Longrightarrow>
      2 < avail (km_heap s) \<Longrightarrow>
      \<exists>d s' A. fsd_open (fat16_fs ata) path 0 s = Some (d, s') \<and> \<not> ISERR d \<and> fat_handle ata s' d A data 0 \<and>
        fat_size s' d = sz \<and> extends s s' \<and> A \<inter> live (km_heap s) = {} \<and> live (km_heap s') = live (km_heap s) \<union> A \<and>
        avail (km_heap s) \<le> avail (km_heap s') + 3 \<and> fs_disk s' = fs_disk s"
    unfolding fat16_fs_def filesystem.select_convs by (rule fat_open_named)
qed (simp_all add: fat16_fs_def fat_handle_owns fat_handle_grows fat_handle_read fat_handle_seek fat_handle_close fat_handle_stat)

end
