(* ===== verification/VfsProps.thy ===== *)
theory VfsProps
  imports FatDriver
begin

text \<open>
  The calls of the virtual file system on a disk whose driver keeps the contract \<open>file_driver\<close>: opening,
  reading, seeking and closing a file, and the table of descriptors.
\<close>

subsection \<open>The table of descriptors\<close>

text \<open>
  The descriptors in the table are live blocks that know their index, and no two entries share one.
\<close>

definition descriptors_ok :: "vfs \<Rightarrow> bool" where
  "descriptors_ok v \<longleftrightarrow> length (filesystems v) = PEACHOS_MAX_FILESYSTEMS \<and>
     length (file_descriptors v) = PEACHOS_MAX_FILE_DESCRIPTORS \<and>
     (\<forall>i < PEACHOS_MAX_FILE_DESCRIPTORS. file_descriptors v ! i \<noteq> 0 \<longrightarrow>
        file_descriptors v ! i \<in> live (km_heap (vf_mem v)) \<and> fd_index (vf_files v (file_descriptors v ! i)) = int i + 1)"

lemma descriptors_ok_distinct:
  "descriptors_ok v \<Longrightarrow> i < 512 \<Longrightarrow> j < 512 \<Longrightarrow> file_descriptors v ! i \<noteq> 0 \<Longrightarrow>
   file_descriptors v ! i = file_descriptors v ! j \<Longrightarrow> i = j"
  unfolding descriptors_ok_def by (metis of_nat_eq_iff add_right_cancel)

text \<open>The first free entry.\<close>

definition free_slot :: "vfs \<Rightarrow> nat \<Rightarrow> bool" where
  "free_slot v i \<longleftrightarrow> i < PEACHOS_MAX_FILE_DESCRIPTORS \<and> file_descriptors v ! i = 0 \<and>
     (\<forall>j < i. file_descriptors v ! j \<noteq> 0)"

lemma find_upt: "i < n \<Longrightarrow> P i \<Longrightarrow> \<forall>j < i. \<not> P j \<Longrightarrow> find P [0 ..< n] = Some i"
  by (auto simp: find_Some_iff intro!: exI [of _ i])

lemma new_descriptor_spec:
  assumes "free_slot v i" and "pool_ok (km_heap (vf_mem v))" and "0 < avail (km_heap (vf_mem v))"
  shows "\<exists>desc h m. file_new_descriptor v = (0, desc, v\<lparr>
      vf_mem := (vf_mem v)\<lparr>km_heap := h, km_mem := m\<rparr>, file_descriptors := (file_descriptors v)[i := desc],
      vf_files := (vf_files v)(desc := \<lparr>fd_index = int i + 1, fd_filesystem = 0, fd_private = 0, fd_disk = None\<rparr>)\<rparr>) \<and>
    new_page 16 (km_heap (vf_mem v)) (km_mem (vf_mem v)) desc h m"
proof -
  have "find (\<lambda>i. file_descriptors v ! i = 0) [0 ..< PEACHOS_MAX_FILE_DESCRIPTORS] = Some i"
    using assms(1) by (intro find_upt) (auto simp: free_slot_def)
  moreover have "one_block 16" by (simp add: one_block_def)
  ultimately show ?thesis
    using kalloc_new [OF assms(2) _ assms(3), of 16] by (force simp: file_new_descriptor_def)
qed

text \<open>Entering a new live descriptor keeps the table well formed, and so does clearing an entry.\<close>

lemma descriptors_ok_enter:
  assumes "descriptors_ok v" and "i < PEACHOS_MAX_FILE_DESCRIPTORS" and "live (km_heap (vf_mem v)) \<subseteq> live (km_heap m)"
    and "desc \<notin> live (km_heap (vf_mem v))" and "desc \<in> live (km_heap m)" and "fd_index d = int i + 1"
  shows "descriptors_ok (v\<lparr>vf_mem := m, file_descriptors := (file_descriptors v)[i := desc], vf_files := (vf_files v)(desc := d)\<rparr>)"
  using assms by (auto simp: descriptors_ok_def nth_list_update)

lemma descriptors_ok_clear:
  assumes "descriptors_ok v" and "i < PEACHOS_MAX_FILE_DESCRIPTORS"
    and "\<forall>q \<in> set (file_descriptors v) - {0, file_descriptors v ! i}. q \<in> live (km_heap m)"
    and "file_descriptors v ! i \<noteq> 0"
  shows "descriptors_ok (v\<lparr>vf_mem := m, file_descriptors := (file_descriptors v)[i := 0]\<rparr>)"
proof -
  note t = assms(1) [unfolded descriptors_ok_def]
  have "file_descriptors v ! j \<in> live (km_heap m)" if "j < 512" "j \<noteq> i" "file_descriptors v ! j \<noteq> 0" for j
    using that assms(3) t descriptors_ok_distinct [OF assms(1) that(1) _ that(3), of i] assms(2) by (auto simp: nth_mem)
  with t assms(2) show ?thesis by (auto simp: descriptors_ok_def nth_list_update)
qed

lemma parts_at_length: "parts_at s p qs cs \<Longrightarrow> length qs = length cs \<and> (cs \<noteq> [] \<longrightarrow> p \<noteq> 0)"
  by (induction s p qs cs rule: parts_at.induct) auto

lemma table_entries:
  "descriptors_ok v \<Longrightarrow> q \<in> set (file_descriptors v) \<Longrightarrow> q \<noteq> 0 \<Longrightarrow> q \<in> live (km_heap (vf_mem v))"
  by (auto simp: descriptors_ok_def in_set_conv_nth)

lemma mode_r: "km_mem m a = 0x72 \<Longrightarrow> file_get_mode_by_string (km_mem m) a = File_mode_read"
  by (simp add: file_get_mode_by_string_def strncmp.simps literal_def bytes_def)

subsection \<open>Files through a driver\<close>

text \<open>The file system at \<open>fs\<close> is the driver \<open>drv\<close>; its name does not matter.\<close>

definition in_use :: "filesystem \<Rightarrow> vfs \<Rightarrow> u32 \<Rightarrow> bool" where
  "in_use drv v fs \<longleftrightarrow> fs \<noteq> 0 \<and> (vf_drivers v fs)\<lparr>fsd_name := []\<rparr> = drv\<lparr>fsd_name := []\<rparr>"

lemma in_useD:
  assumes "in_use drv v fs"
  shows "fs \<noteq> 0" "fsd_open (vf_drivers v fs) = fsd_open drv" "fsd_read (vf_drivers v fs) = fsd_read drv"
    "fsd_seek (vf_drivers v fs) = fsd_seek drv" "fsd_close (vf_drivers v fs) = fsd_close drv"
  using assms unfolding in_use_def by (metis filesystem.select_convs filesystem.surjective filesystem.update_convs(7))+

lemma in_use_stat: "in_use drv v fs \<Longrightarrow> fsd_stat (vf_drivers v fs) = fsd_stat drv"
  unfolding in_use_def by (metis filesystem.select_convs(5) filesystem.surjective filesystem.update_convs(7))

text \<open>\<open>fd\<close> is open at \<open>pos\<close>; its driver's handle owns \<open>A\<close>, and \<open>desc\<close> is the descriptor.\<close>

definition file_open :: "filesystem \<Rightarrow> (fs_mem \<Rightarrow> u32 \<Rightarrow> u32 set \<Rightarrow> u8 list \<Rightarrow> int \<Rightarrow> bool) \<Rightarrow> vfs \<Rightarrow> int \<Rightarrow> u32 \<Rightarrow> u32 set \<Rightarrow> u8 list \<Rightarrow> int \<Rightarrow> bool" where
  "file_open drv handle v fd desc A data pos \<longleftrightarrow> descriptors_ok v \<and> 0 < fd \<and> fd < int PEACHOS_MAX_FILE_DESCRIPTORS \<and>
     file_descriptors v ! nat (fd - 1) = desc \<and> desc \<noteq> 0 \<and> in_use drv v (fd_filesystem (vf_files v desc)) \<and>
     A \<inter> (set (file_descriptors v) - {0}) = {} \<and>
     handle (vf_mem v) (fd_private (vf_files v desc)) A data pos"

context file_driver
begin

lemma fopen_named:
  assumes "descriptors_ok v" and "free_slot v i" and "i < 511" and "in_use drv v (disk_filesystem (fs_disk (vf_mem v)))"
    and "pool_ok (km_heap (vf_mem v))" and "path_ok (vf_mem v) filename 0x30 str" and "component str \<noteq> []"
    and "file_named (vf_mem v) (components str) data sz"
    and "km_mem (vf_mem v) mode_str = 0x72" and "mode_str \<notin> pool (km_heap (vf_mem v))"
    and "2 * length (components str) + 5 \<le> avail (km_heap (vf_mem v))"
  shows "\<exists>v' desc A P. fopen filename mode_str v = Some (int i + 1, v') \<and>
    file_open drv handle v' (int i + 1) desc A data 0 \<and> extends (vf_mem v) (vf_mem v') \<and>
    fs_disk (vf_mem v') = fs_disk (vf_mem v) \<and> vf_drivers v' = vf_drivers v \<and>
    fsize (vf_mem v') (fd_private (vf_files v' desc)) = sz \<and>
    insert desc A \<inter> live (km_heap (vf_mem v)) = {} \<and> finite P \<and> card P = 2 * length (components str) + 1 \<and>
    P \<inter> live (km_heap (vf_mem v)) = {} \<and> P \<inter> insert desc A = {} \<and>
    live (km_heap (vf_mem v')) = live (km_heap (vf_mem v)) \<union> P \<union> insert desc A \<and>
    avail (km_heap (vf_mem v)) \<le> avail (km_heap (vf_mem v')) + 2 * length (components str) + 5"
proof -
  let ?s = "vf_mem v"
  obtain root s1 qs where parse: "pathparser_parse filename ?s = Some (root, s1)" "parsed ?s s1 root qs (components str)"
    "drive_no (pm_roots s1 root) = tonumericdigit 0x30"
    using pathparser_parse_spec [OF assms(5,6)] assms(11) by auto
  note p = parse(2) [unfolded parsed_def]
  have drive: "disk_get (drive_no (pm_roots s1 root)) = Some The_disk"
    using parse(3) by (simp add: disk_get_def tonumericdigit_def)
  have same1: "same_fs ?s s1" using p by (intro same_fs_more) simp
  have ext1: "extends ?s s1" using p by simp
  have len: "length qs = length (components str)"
    and first: "first_part (pm_roots s1 root) \<noteq> 0"
    using parts_at_length [of s1 "first_part (pm_roots s1 root)" qs "components str"] p components_Cons [OF assms(7)]
    by auto
  have "file_named s1 (components str) data sz" by (rule named_grows [OF assms(8) ext1 same1])
  moreover have "set (strs_of s1 qs) \<subseteq> live (km_heap s1)" "2 < avail (km_heap s1)" using p assms(11) len by auto
  ultimately obtain d s2 A where op: "fsd_open drv (first_part (pm_roots s1 root)) 0 s1 = Some (d, s2)" "\<not> ISERR d" "handle s2 d A data 0"
    "extends s1 s2" "A \<inter> live (km_heap s1) = {}" "live (km_heap s2) = live (km_heap s1) \<union> A"
    "avail (km_heap s1) \<le> avail (km_heap s2) + 3" "fs_disk s2 = fs_disk s1" "fsize s2 d = sz"
    using open_named [of s1 "components str" data sz "first_part (pm_roots s1 root)" qs] p by blast
  have mode: "file_get_mode_by_string (km_mem s1) mode_str = File_mode_read"
    using assms(9,10) extends_memD [OF ext1, of mode_str] by (intro mode_r) simp
  have disk: "disk_filesystem (fs_disk s1) = disk_filesystem (fs_disk ?s)" using same1 by (simp add: same_fs_def)
  let ?fs = "disk_filesystem (fs_disk ?s)"
  let ?v2 = "v\<lparr>vf_mem := s2\<rparr>"
  have slot: "free_slot ?v2 i" using assms(2) by (simp add: free_slot_def)
  have ok2: "pool_ok (km_heap s2)" "0 < avail (km_heap s2)" using handle_owns [OF op(3)] op(7) p assms(11) len by auto
  obtain desc h m where nd: "file_new_descriptor ?v2 = (0, desc, ?v2\<lparr>
      vf_mem := s2\<lparr>km_heap := h, km_mem := m\<rparr>, file_descriptors := (file_descriptors v)[i := desc],
      vf_files := (vf_files v)(desc := \<lparr>fd_index = int i + 1, fd_filesystem = 0, fd_private = 0, fd_disk = None\<rparr>)\<rparr>)"
    "new_page 16 (km_heap s2) (km_mem s2) desc h m"
    using new_descriptor_spec [OF slot] ok2 by auto
  note new = new_pageD [OF nd(2)]
  let ?v3 = "v\<lparr>vf_mem := s2\<lparr>km_heap := h, km_mem := m\<rparr>, file_descriptors := (file_descriptors v)[i := desc],
      vf_files := (vf_files v)(desc := \<lparr>fd_index = int i + 1, fd_filesystem = ?fs, fd_private = d, fd_disk = Some The_disk\<rparr>)\<rparr>"
  have run: "fopen filename mode_str v = Some (int i + 1, ?v3)"
    using parse(1) p first drive in_useD(1,2) [OF assms(4)] op(1,2,8) mode disk nd(1)
    by (simp add: fopen_def mode_value_def fopen_descriptor_def fopen_out_def Let_def)
  let ?P = "set (root # qs @ strs_of s1 qs)"
  have live: "live (km_heap ?s) \<subseteq> live (km_heap s1)" "live (km_heap s1) \<subseteq> live (km_heap s2)" "live (km_heap s2) \<subseteq> live h"
    using ext1 op(4) new(4) by (auto simp: extends_def grows_def)
  have ext3: "extends s2 (s2\<lparr>km_heap := h, km_mem := m\<rparr>)" using new(6) by (simp add: extends_def)
  have "same_fs s2 (s2\<lparr>km_heap := h, km_mem := m\<rparr>)" by (simp add: same_fs_def)
  note kept = handle_grows [OF op(3) ext3 this]
  then have "handle (s2\<lparr>km_heap := h, km_mem := m\<rparr>) d A data 0" by blast
  moreover have "descriptors_ok ?v3"
    by (rule descriptors_ok_enter) (use assms(1,2) live new in \<open>auto simp: free_slot_def\<close>)
  moreover have "A \<inter> (set (file_descriptors v) - {0}) = {}" "desc \<notin> A"
    using table_entries [OF assms(1)] live(1) op(5,6) new(2) by blast+
  then have "A \<inter> (set ((file_descriptors v)[i := desc]) - {0}) = {}"
    using set_update_subset_insert [of "file_descriptors v" i desc] by blast
  moreover have "i < length (file_descriptors v)" using assms(1,3) by (simp add: descriptors_ok_def)
  ultimately have "file_open drv handle ?v3 (int i + 1) desc A data 0"
    using assms(3,4) new(1) by (simp add: file_open_def in_use_def)
  moreover have "extends ?s (s2\<lparr>km_heap := h, km_mem := m\<rparr>)"
    by (rule extends_trans [OF extends_trans [OF ext1 op(4)] ext3])
  moreover have "insert desc A \<inter> live (km_heap ?s) = {}" using live op(5) new(2) by auto
  moreover have "fs_disk s2 = fs_disk ?s" using op(8) same1 by (simp add: same_fs_def)
  moreover have "finite ?P \<and> card ?P = 2 * length (components str) + 1 \<and> ?P \<inter> live (km_heap ?s) = {} \<and>
      ?P \<inter> insert desc A = {} \<and> live h = live (km_heap ?s) \<union> ?P \<union> insert desc A"
  proof -
    have "distinct (root # qs @ strs_of s1 qs)" "length (strs_of s1 qs) = length qs" using p by (simp_all add: strs_of_def)
    then have "card ?P = 2 * length (components str) + 1" using len by (simp only: distinct_card) simp
    moreover have "?P \<inter> live (km_heap ?s) = {}" "live (km_heap s1) = live (km_heap ?s) \<union> ?P" using p by blast+
    ultimately show ?thesis using op(5,6) new(2,4) by auto
  qed
  moreover have "avail (km_heap ?s) \<le> avail h + 2 * length (components str) + 5" using p len op(7) new(5) by simp
  ultimately show ?thesis using run kept op(9) by (intro exI [of _ ?v3] exI [of _ desc] exI [of _ A] exI [of _ ?P]) simp
qed

lemma fread_open:
  assumes "file_open drv handle v fd desc A data pos" and "0 < sint n" and "readable (vf_mem v) pos (sint n)"
    and "pos + sint n \<le> int (length data)" and "pos + sint n < 2 ^ 31"
    and "buffer_free (A \<union> reserved (vf_mem v)) out (sint n)"
  shows "\<exists>v'. fread out n 1 fd v = Some (1, v') \<and> file_open drv handle v' fd desc A data (pos + sint n) \<and>
    km_mem (vf_mem v') = overlay (\<lambda>i. data ! nat (pos + i)) out (sint n) (km_mem (vf_mem v)) \<and>
    km_heap (vf_mem v') = km_heap (vf_mem v) \<and> reserved (vf_mem v') = reserved (vf_mem v) \<and>
    readable (vf_mem v') = readable (vf_mem v) \<and>
    fsize (vf_mem v') (fd_private (vf_files v desc)) = fsize (vf_mem v) (fd_private (vf_files v desc)) \<and>
    vf_files v' = vf_files v"
proof -
  note o = assms(1) [unfolded file_open_def]
  let ?d = "fd_private (vf_files v desc)"
  have h: "handle (vf_mem v) ?d A data pos" and use: "in_use drv v (fd_filesystem (vf_files v desc))" using o by simp_all
  obtain s' where s': "fsd_read drv ?d n 1 out (vf_mem v) = Some (1, s')" "km_heap s' = km_heap (vf_mem v)"
    "km_mem s' = overlay (\<lambda>i. data ! nat (pos + i)) out (sint n) (km_mem (vf_mem v))"
    "handle s' ?d A data (pos + sint n)" "fsize s' ?d = fsize (vf_mem v) ?d" "reserved s' = reserved (vf_mem v)"
    "readable s' = readable (vf_mem v)"
    using read_handle [OF h assms(2-6)] by blast
  have "n \<noteq> 0" using assms(2) by auto
  then have "fread out n 1 fd v = Some (1, v\<lparr>vf_mem := s'\<rparr>)"
    using o s'(1) in_useD(3) [OF use] by (simp add: fread_def file_get_descriptor_def Let_def)
  moreover have "file_open drv handle (v\<lparr>vf_mem := s'\<rparr>) fd desc A data (pos + sint n)"
    using o s'(2,4) by (simp add: file_open_def descriptors_ok_def in_use_def)
  ultimately show ?thesis using s' by auto
qed

lemma fseek_open:
  assumes "file_open drv handle v fd desc A data pos" and "0 \<le> off"
    and "off < fsize (vf_mem v) (fd_private (vf_files v desc))" and "off < 2 ^ 31"
  shows "\<exists>v'. fseek fd off 0 v = (0, v') \<and> file_open drv handle v' fd desc A data off \<and>
    km_mem (vf_mem v') = km_mem (vf_mem v) \<and> km_heap (vf_mem v') = km_heap (vf_mem v) \<and>
    reserved (vf_mem v') = reserved (vf_mem v) \<and> readable (vf_mem v') = readable (vf_mem v) \<and> vf_files v' = vf_files v"
proof -
  note o = assms(1) [unfolded file_open_def]
  let ?d = "fd_private (vf_files v desc)"
  have h: "handle (vf_mem v) ?d A data pos" and use: "in_use drv v (fd_filesystem (vf_files v desc))" using o by simp_all
  obtain s' where s': "fsd_seek drv ?d (word_of_int off) 0 (vf_mem v) = (0, s')" "km_heap s' = km_heap (vf_mem v)"
    "km_mem s' = km_mem (vf_mem v)" "handle s' ?d A data off" "reserved s' = reserved (vf_mem v)"
    "readable s' = readable (vf_mem v)"
    using seek_handle [OF h assms(2-4)] by blast
  have "fseek fd off 0 v = (0, v\<lparr>vf_mem := s'\<rparr>)"
    using o s'(1) in_useD(4) [OF use] by (simp add: fseek_def file_get_descriptor_def Let_def)
  moreover have "file_open drv handle (v\<lparr>vf_mem := s'\<rparr>) fd desc A data off"
    using o s'(2,4) by (simp add: file_open_def descriptors_ok_def in_use_def)
  ultimately show ?thesis using s' by auto
qed

lemma fclose_open:
  assumes "file_open drv handle v fd desc A data pos"
  shows "\<exists>v'. fclose fd v = (0, v') \<and> descriptors_ok v' \<and> file_descriptors v' = (file_descriptors v)[nat (fd - 1) := 0] \<and>
    pool_ok (km_heap (vf_mem v')) \<and> live (km_heap (vf_mem v')) = live (km_heap (vf_mem v)) - insert desc A \<and>
    km_mem (vf_mem v') = km_mem (vf_mem v) \<and> avail (km_heap (vf_mem v)) \<le> avail (km_heap (vf_mem v')) \<and>
    (\<forall>s. extends s (vf_mem v) \<longrightarrow> insert desc A \<inter> live (km_heap s) = {} \<longrightarrow> extends s (vf_mem v'))"
proof -
  note o = assms [unfolded file_open_def]
  let ?d = "fd_private (vf_files v desc)" and ?i = "nat (fd - 1)"
  have h: "handle (vf_mem v) ?d A data pos" and use: "in_use drv v (fd_filesystem (vf_files v desc))" using o by simp_all
  have i: "?i < 512" "file_descriptors v ! ?i = desc" "length (file_descriptors v) = 512" using o by (auto simp: descriptors_ok_def)
  have desc: "desc \<in> set (file_descriptors v)" using i nth_mem [of ?i "file_descriptors v"] by simp
  have index: "nat (fd_index (vf_files v desc) - 1) = ?i" using o i by (auto simp: descriptors_ok_def)
  obtain s' where s': "fsd_close drv ?d (vf_mem v) = (0, s')" "pool_ok (km_heap s')"
    "live (km_heap s') = live (km_heap (vf_mem v)) - A" "km_mem s' = km_mem (vf_mem v)"
    "avail (km_heap (vf_mem v)) \<le> avail (km_heap s')"
    "\<forall>h m. grows h m (km_heap (vf_mem v)) (km_mem (vf_mem v)) \<longrightarrow> A \<inter> live h = {} \<longrightarrow> grows h m (km_heap s') (km_mem s')"
    using close_handle [OF h] by blast
  have "desc \<in> live (km_heap s')" using desc o table_entries [of v desc] s'(3) by blast
  then have rel: "pool_ok (kfree (km_heap s') desc)" "live (kfree (km_heap s') desc) = live (km_heap s') - {desc}"
    "Suc (avail (km_heap s')) \<le> avail (kfree (km_heap s') desc)"
    using kernel_pages.release_ok [OF s'(2)] kernel_pages.release_owned [OF s'(2)] kernel_pages.release_left [OF s'(2)] by simp_all
  let ?v' = "v\<lparr>vf_mem := krelease desc s', file_descriptors := (file_descriptors v)[?i := 0]\<rparr>"
  have "fclose fd v = (0, ?v')"
    using o s'(1) in_useD(5) [OF use] index
    by (simp add: fclose_def file_get_descriptor_def Let_def file_free_descriptor_def PEACHOS_ALL_OK_def)
  moreover have "descriptors_ok ?v'"
    by (rule descriptors_ok_clear) (use o i rel(2) s'(3) table_entries [of v] in auto)
  moreover have "extends s (vf_mem ?v')" if "extends s (vf_mem v)" "insert desc A \<inter> live (km_heap s) = {}" for s :: fs_mem
  proof -
    have "grows (km_heap s) (km_mem s) (km_heap s') (km_mem s')" using s'(6) that by (simp add: extends_def)
    from grows_release(1) [OF this, of desc] show ?thesis
      using \<open>desc \<in> live (km_heap s')\<close> that(2) by (simp add: extends_def)
  qed
  moreover have "live (kfree (km_heap s') desc) = live (km_heap (vf_mem v)) - insert desc A" unfolding rel(2) s'(3) by blast
  ultimately show ?thesis using rel(1,3) s'(4,5) by (intro exI [of _ ?v']) simp
qed

lemma fstat_open:
  assumes "file_open drv handle v fd desc A data pos"
  shows "\<exists>flags. fstat fd st v = (0, \<lparr>fst_flags = flags, fst_filesize = word_of_int (fsize (vf_mem v) (fd_private (vf_files v desc)))\<rparr>)"
proof -
  note o = assms [unfolded file_open_def]
  have "handle (vf_mem v) (fd_private (vf_files v desc)) A data pos" and use: "in_use drv v (fd_filesystem (vf_files v desc))"
    using o by simp_all
  from stat_handle [OF this(1), of st] show ?thesis
    using o in_use_stat [OF use] by (simp add: fstat_def file_get_descriptor_def)
qed

text \<open>What others allocate does not disturb an open file.\<close>

lemma file_open_grows:
  assumes "file_open drv handle v fd desc A data pos" and "extends (vf_mem v) m" and "same_fs (vf_mem v) m"
  shows "file_open drv handle (v\<lparr>vf_mem := m\<rparr>) fd desc A data pos"
    and "fsize m (fd_private (vf_files v desc)) = fsize (vf_mem v) (fd_private (vf_files v desc))"
proof -
  note o = assms(1) [unfolded file_open_def]
  have "handle (vf_mem v) (fd_private (vf_files v desc)) A data pos" using o by simp
  note h = handle_grows [OF this assms(2,3)]
  then show "fsize m (fd_private (vf_files v desc)) = fsize (vf_mem v) (fd_private (vf_files v desc))" by simp
  have "live (km_heap (vf_mem v)) \<subseteq> live (km_heap m)" using assms(2) by (simp add: extends_def grows_def)
  then have "descriptors_ok (v\<lparr>vf_mem := m\<rparr>)" using o unfolding descriptors_ok_def by auto
  then show "file_open drv handle (v\<lparr>vf_mem := m\<rparr>) fd desc A data pos" using o h by (simp add: file_open_def in_use_def)
qed

end

end
