(* ===== verification/FsProps.thy ===== *)
theory FsProps
  imports VfsProps EmuRun
begin

text \<open>
  The file system as a whole: a file is described on the disk, by bytes of its sectors alone, and the calls
  from the mounting of the disk to the reading of the file are shown to deliver those bytes; then the faults
  of the driver, and the reading of a ROM by the emulator.
\<close>

subsection \<open>A file on the disk\<close>

definition disk_cluster_start :: "ata \<Rightarrow> int \<Rightarrow> int" where
  "disk_cluster_start ata c = (root_end ata + (c - 2) * uint (sectors_per_cluster (boot_header ata))) * 512"

definition disk_cluster_bytes :: "ata \<Rightarrow> int" where
  "disk_cluster_bytes ata = uint (sectors_per_cluster (boot_header ata)) * 512"

definition disk_chain :: "ata \<Rightarrow> int list \<Rightarrow> bool" where
  "disk_chain ata cs \<longleftrightarrow> cs \<noteq> [] \<and>
     (\<forall>i. Suc i < length cs \<longrightarrow>
        fat_entry ata (uint (reserved_sectors (boot_header ata)) * 512) (cs ! i) = cs ! Suc i) \<and>
     (\<forall>c \<in> set cs. \<not> chain_end c \<and> 2 \<le> c \<and> c < 65536 \<and> disk_cluster_start ata (c + 2) < 2 ^ 31)"

definition disk_data :: "ata \<Rightarrow> int list \<Rightarrow> u8 list" where
  "disk_data ata cs =
     concat (map (\<lambda>c. map (\<lambda>i. disk_byte ata (disk_cluster_start ata c + int i)) [0 ..< nat (disk_cluster_bytes ata)]) cs)"

text \<open>The byte of the disk at which entry \<open>i\<close> of the root directory starts.\<close>

definition root_entry :: "ata \<Rightarrow> nat \<Rightarrow> int" where
  "root_entry ata i = root_sector ata * 512 + 32 * int i"

text \<open>
  Among the first \<open>t\<close> entries of the root directory, where \<open>t\<close> is the number of entries in use, exactly entry
  \<open>i\<close> has the name \<open>nm\<close> up to case, and it is a file in the clusters \<open>cs\<close>.
\<close>

definition disk_file :: "ata \<Rightarrow> nat \<Rightarrow> u8 list \<Rightarrow> nat \<Rightarrow> int list \<Rightarrow> bool" where
  "disk_file ata t nm i cs \<longleftrightarrow>
     filter (\<lambda>k. map tolower (dos_name (disk_byte ata) (root_entry ata k)) = map tolower nm) [0 ..< t] = [i] \<and>
     di_attribute (item_at (disk_byte ata) (root_entry ata i)) AND FAT_FILE_SUBDIRECTORY = 0 \<and>
     sint (fat16_get_first_cluster (item_at (disk_byte ata) (root_entry ata i))) = hd cs \<and> disk_chain ata cs"

definition disk_file_size :: "ata \<Rightarrow> nat \<Rightarrow> int" where
  "disk_file_size ata i = uint (filesize (item_at (disk_byte ata) (root_entry ata i)))"

lemma mounts_geometry:
  assumes "mounts ata n s s' A"
  shows "cluster_start s' = disk_cluster_start ata" "cluster_bytes s' = disk_cluster_bytes ata"
    "file_chain ata s' cs = disk_chain ata cs" "file_data ata s' cs = disk_data ata cs"
proof -
  note m = assms [unfolded mounts_def]
  have head: "the_header s' = boot_header ata" and root: "ending_sector_pos (root_directory (the_private s')) = root_end ata"
    using m by simp_all
  show start: "cluster_start s' = disk_cluster_start ata"
    by (intro ext) (simp add: cluster_start_def disk_cluster_start_def head root)
  show cb: "cluster_bytes s' = disk_cluster_bytes ata"
    using m by (simp add: cluster_bytes_def disk_cluster_bytes_def head mounted_def)
  show "file_chain ata s' cs = disk_chain ata cs"
    by (simp add: file_chain_def disk_chain_def start fat_position_def head)
  have "cluster_data ata s' = (\<lambda>c. map (\<lambda>i. disk_byte ata (disk_cluster_start ata c + int i)) [0 ..< nat (disk_cluster_bytes ata)])"
    by (intro ext) (simp add: cluster_data_def start cb)
  then show "file_data ata s' cs = disk_data ata cs" by (simp add: file_data_def disk_data_def)
qed

lemma dos_name_shift: "dos_name m p = dos_name (\<lambda>a. m (p + a)) 0"
  by (simp add: dos_name_def field_text_def algebra_simps)

text \<open>What the disk describes is a named file of the mounted volume.\<close>

lemma mounts_named:
  assumes "mounts ata n s s' A" and "fat16_disk ata n" and "pool_ok (km_heap s)" and "pool (km_heap s) \<subseteq> {..< 2 ^ 31}"
    and "t = length (used_entries ata (root_sector ata * 512) n)" and "int t * 32 \<le> root_size ata"
    and "disk_file ata t nm i cs" and "length nm < 108"
  shows "fat_named ata s' [nm] (disk_data ata cs) (disk_file_size ata i)"
proof -
  note m = assms(1) [unfolded mounts_def] and f = assms(7) [unfolded disk_file_def]
  note geo = mounts_geometry [OF assms(1)]
  let ?items = "root_items s'"
  have "root_size ata \<le> 4096" using assms(2) by (simp add: fat16_disk_def)
  then have t: "t \<le> 128" using assms(6) by simp
  have ok: "pool_ok (km_heap s')" "pool (km_heap s') = pool (km_heap s)" "?items \<in> live (km_heap s')"
    using m by (auto simp: extends_def grows_def)
  have bytes: "km_mem s' (uint (entry_address ?items k) + a) = disk_byte ata (root_entry ata k + a)"
    if "k < t" "0 \<le> a" "a < 32" for k a
  proof -
    have k: "k < 128" using that(1) t by simp
    have "32 * int k + a < root_size ata" using that assms(6) by simp
    moreover have "uint (entry_address ?items k) = uint ?items + 32 * int k" by (rule entry_address_uint [OF ok(1,3) k])
    moreover have "\<forall>j. 0 \<le> j \<and> j < root_size ata \<longrightarrow>
        km_mem s' (uint ?items + j) = disk_byte ata (root_sector ata * 512 + j)" using m by blast
    ultimately show ?thesis
      using that(2) by (simp add: root_entry_def add.assoc)
  qed
  have item: "item_at (km_mem s') (uint (entry_address ?items k)) = item_at (disk_byte ata) (root_entry ata k)" if "k < t" for k
    unfolding item_at_shift [of "km_mem s'"] item_at_shift [of "disk_byte ata"] by (intro item_at_cong) (simp add: bytes that)
  have name: "dos_name (km_mem s') (uint (entry_address ?items k)) = dos_name (disk_byte ata) (root_entry ata k)" if "k < t" for k
    unfolding dos_name_shift [of "km_mem s'"] dos_name_shift [of "disk_byte ata"] by (intro dos_name_cong) (simp add: bytes that)
  have total: "nat (dir_total (root_directory (the_private s'))) = t" "dir_total (root_directory (the_private s')) \<le> 128"
    using m assms(5) t by simp_all
  have "root_matches s' nm = [i]"
    unfolding root_matches_def total(1) f [THEN conjunct1, symmetric]
    by (intro filter_cong) (simp_all add: entry_matches_def name)
  moreover have "i \<in> set [0 ..< t]" using f by (metis filter_is_subset insert_iff list.set(2) subsetD)
  then have "i < t" by simp
  then have "is_file s' ?items i" "sint (fat16_get_first_cluster (item_at (km_mem s') (uint (entry_address ?items i)))) = hd cs"
    "disk_file_size ata i = uint (filesize (item_at (km_mem s') (uint (entry_address ?items i))))"
    using f item by (simp_all add: is_file_def disk_file_size_def)
  moreover have "private_live s'" "mounted s'" using m by (auto simp: private_live_def)
  moreover have "file_chain ata s' cs" "disk_data ata cs = file_data ata s' cs" using f geo by simp_all
  ultimately show ?thesis
    unfolding fat_named_def using ok assms(4,8) total(2) by blast
qed

subsection \<open>Starting the file system\<close>

(* src/src/kernel.c 170-172 kernel_main: file system *)
definition boot_fs :: "vfs \<Rightarrow> vfs option" where
  "boot_fs v = do { v \<leftarrow> fs_init v; disk_search_and_init v }"

definition blank_disk :: disk where
  "blank_disk = \<lparr>disk_type = 0, disk_sector_size = PEACHOS_SECTOR_SIZE, disk_id = 0, disk_filesystem = 0, disk_fs_private = 0\<rparr>"

lemma fs_init_eq:
  "fs_init v = Some (v\<lparr>file_descriptors := replicate 512 0, filesystems := (replicate 12 0)[0 := FAT16_FS],
     vf_drivers := (vf_drivers v)(FAT16_FS := (vf_drivers v FAT16_FS)\<lparr>fsd_name := bytes ''FAT16''\<rparr>)\<rparr>)"
proof -
  have "find (\<lambda>i. replicate 12 (0 :: u32) ! i = 0) [0 ..< 12] = Some 0" by (rule find_upt) simp_all
  then show ?thesis
    by (simp add: fs_init_def fs_load_def fs_static_load_def fat16_init_def fs_insert_filesystem_def
        fs_get_free_filesystem_def)
qed

lemma boot_fs_spec:
  assumes "vf_drivers v FAT16_FS = fat16_fs ata" and "pool_ok (km_heap (vf_mem v))" and "5 < avail (km_heap (vf_mem v))"
    and "fat16_disk ata n"
  shows "\<exists>v' A. boot_fs v = Some v' \<and> mounts ata n ((vf_mem v)\<lparr>fs_disk := blank_disk\<rparr>) (vf_mem v') A \<and> descriptors_ok v' \<and>
    free_slot v' 0 \<and> in_use (fat16_fs ata) v' FAT16_FS \<and> disk_filesystem (fs_disk (vf_mem v')) = FAT16_FS"
proof -
  let ?s = "(vf_mem v)\<lparr>fs_disk := blank_disk\<rparr>"
  have "\<exists>s' A. fat16_resolve ata ?s = Some (0, s') \<and> mounts ata n ?s s' A"
    by (rule resolve_spec) (use assms in \<open>simp_all add: blank_disk_def PEACHOS_SECTOR_SIZE_def\<close>)
  then obtain s' A where r: "fat16_resolve ata ?s = Some (0, s')" "mounts ata n ?s s' A" by blast
  have eq: "fs_disk s' = (fs_disk ?s)\<lparr>disk_filesystem := FAT16_FS, disk_fs_private := disk_fs_private (fs_disk s')\<rparr>"
    using r(2) unfolding mounts_def by blast
  have fs: "disk_filesystem (fs_disk s') = FAT16_FS"
    by (subst eq) simp
  then have same: "upd_disk (\<lambda>d. d\<lparr>disk_filesystem := FAT16_FS\<rparr>) s' = s'"
    by (cases s'; cases "fs_disk s'") (simp add: upd_disk_def)
  let ?v' = "v\<lparr>file_descriptors := replicate 512 0, filesystems := (replicate 12 0)[0 := FAT16_FS],
     vf_drivers := (vf_drivers v)(FAT16_FS := (vf_drivers v FAT16_FS)\<lparr>fsd_name := bytes ''FAT16''\<rparr>), vf_mem := s'\<rparr>"
  have "[0 ..< 12] = 0 # [1 ..< 12]" by (simp add: upt_conv_Cons)
  then have "boot_fs v = Some ?v'"
    using r(1) assms(1) same
    by (simp add: boot_fs_def fs_init_eq disk_search_and_init_def fs_resolve_def fat16_fs_def blank_disk_def)
  moreover have "descriptors_ok ?v'" "free_slot ?v' 0" "in_use (fat16_fs ata) ?v' FAT16_FS"
    by (simp_all add: descriptors_ok_def free_slot_def in_use_def assms(1))
  ultimately show ?thesis using r(2) fs by (intro exI [of _ ?v'] exI [of _ A]) simp
qed

subsection \<open>From the disk to the buffer\<close>

lemma path_ok_extends:
  assumes "path_ok s p d str" and "extends s s'"
  shows "path_ok s' p d str"
proof -
  note p = assms(1) [unfolded path_ok_def]
  have "cstr (km_mem s') p (d # COLON # SLASH # str)" using p by (intro extends_outside [OF assms(2)]) blast+
  moreover have "pool (km_heap s') = pool (km_heap s)" using assms(2) by (simp add: extends_def grows_def)
  ultimately show ?thesis unfolding path_ok_def using p by auto
qed

lemma buffer_outside_pool:
  assumes "{out ..< out + n} \<inter> pool (km_heap s) = {}" and "pool_ok (km_heap s)" and "R \<subseteq> live (km_heap s)"
  shows "buffer_free R out n"
  using assms page_in_pool [of "km_heap s"] unfolding buffer_free_def pool_ok_def by blast

text \<open>
  The kernel before the start of the file system: a heap with room below 2 GiB.  \<open>on_disk\<close>: the disk has a
  FAT16 boot sector and describes the file.  \<open>named_at\<close>: the arguments of \<open>fopen\<close> in memory outside the heap,
  the path \<open>0:/nm\<close> and the mode \<open>r\<close>.
\<close>

definition kernel_ready :: "ata \<Rightarrow> vfs \<Rightarrow> bool" where
  "kernel_ready ata v \<longleftrightarrow> vf_drivers v FAT16_FS = fat16_fs ata \<and> pool_ok (km_heap (vf_mem v)) \<and>
     12 < avail (km_heap (vf_mem v)) \<and> pool (km_heap (vf_mem v)) \<subseteq> {..< 2 ^ 31}"

definition on_disk :: "ata \<Rightarrow> u8 list \<Rightarrow> int list \<Rightarrow> int \<Rightarrow> bool" where
  "on_disk ata nm cs sz \<longleftrightarrow> (\<exists>n i. fat16_disk ata n \<and>
     int (length (used_entries ata (root_sector ata * 512) n)) * 32 \<le> root_size ata \<and>
     disk_file ata (length (used_entries ata (root_sector ata * 512) n)) nm i cs \<and> sz = disk_file_size ata i)"

definition named_at :: "vfs \<Rightarrow> int \<Rightarrow> int \<Rightarrow> u8 list \<Rightarrow> bool" where
  "named_at v filename mode_str nm \<longleftrightarrow> path_ok (vf_mem v) filename 0x30 nm \<and> component_ok nm \<and>
     km_mem (vf_mem v) mode_str = 0x72 \<and> mode_str \<notin> pool (km_heap (vf_mem v))"

text \<open>A running file system on which \<open>fopen\<close> finds the file \<open>nm\<close>.\<close>

definition volume_ready :: "ata \<Rightarrow> vfs \<Rightarrow> u8 list \<Rightarrow> u8 list \<Rightarrow> int \<Rightarrow> bool" where
  "volume_ready ata v nm data sz \<longleftrightarrow> descriptors_ok v \<and> free_slot v 0 \<and>
     in_use (fat16_fs ata) v (disk_filesystem (fs_disk (vf_mem v))) \<and> pool_ok (km_heap (vf_mem v)) \<and>
     fat_named ata (vf_mem v) [nm] data sz"

lemma volume_ready_grows:
  assumes "volume_ready ata v nm data sz" and "extends (vf_mem v) m" and "same_fs (vf_mem v) m"
  shows "volume_ready ata (v\<lparr>vf_mem := m\<rparr>) nm data sz"
proof -
  note r = assms(1) [unfolded volume_ready_def]
  have "fat_named ata m [nm] data sz" using r by (intro fat_named_grows [OF _ assms(2,3)]) simp
  moreover have "live (km_heap (vf_mem v)) \<subseteq> live (km_heap m)" "pool_ok (km_heap m)" using assms(2) by (simp_all add: extends_def grows_def)
  ultimately show ?thesis
    using r assms(3) by (auto simp: volume_ready_def descriptors_ok_def free_slot_def in_use_def same_fs_def)
qed

lemma boot_volume:
  assumes "kernel_ready ata v" and "on_disk ata nm cs sz" and "length nm < 108"
  shows "\<exists>v1. boot_fs v = Some v1 \<and> volume_ready ata v1 nm (disk_data ata cs) sz \<and>
    extends ((vf_mem v)\<lparr>fs_disk := blank_disk\<rparr>) (vf_mem v1) \<and>
    avail (km_heap (vf_mem v)) \<le> avail (km_heap (vf_mem v1)) + 5 \<and> cluster_bytes (vf_mem v1) = disk_cluster_bytes ata \<and>
    private_live (vf_mem v1)"
proof -
  have driver: "vf_drivers v FAT16_FS = fat16_fs ata"
    and heap: "pool_ok (km_heap (vf_mem v))" "12 < avail (km_heap (vf_mem v))" "pool (km_heap (vf_mem v)) \<subseteq> {..< 2 ^ 31}"
    using assms(1) by (simp_all add: kernel_ready_def)
  obtain n t i where disk: "fat16_disk ata n" "t = length (used_entries ata (root_sector ata * 512) n)"
    "int t * 32 \<le> root_size ata" "disk_file ata t nm i cs" "sz = disk_file_size ata i"
    using assms(2) by (auto simp: on_disk_def)
  let ?s = "(vf_mem v)\<lparr>fs_disk := blank_disk\<rparr>"
  have "5 < avail (km_heap (vf_mem v))" using heap(2) by simp
  from boot_fs_spec [OF driver heap(1) this disk(1)] obtain v1 A1 where
    v1: "boot_fs v = Some v1" "mounts ata n ?s (vf_mem v1) A1" "descriptors_ok v1" "free_slot v1 0"
      "in_use (fat16_fs ata) v1 FAT16_FS" "disk_filesystem (fs_disk (vf_mem v1)) = FAT16_FS" by blast
  note m = v1(2) [unfolded mounts_def]
  have "fat_named ata (vf_mem v1) [nm] (disk_data ata cs) (disk_file_size ata i)"
    by (intro mounts_named [OF v1(2) disk(1) _ _ disk(2-4)]) (use heap assms(3) in simp_all)
  moreover have "pool_ok (km_heap (vf_mem v1))" "private_live (vf_mem v1)" using m by (auto simp: extends_def grows_def private_live_def)
  ultimately show ?thesis
    using v1 m mounts_geometry(2) [OF v1(2)] disk(5) by (intro exI [of _ v1]) (simp add: volume_ready_def)
qed

text \<open>Opening that file.\<close>

lemma volume_fopen:
  assumes "volume_ready ata v nm data sz" and "named_at v filename mode_str nm" and "7 \<le> avail (km_heap (vf_mem v))"
  shows "\<exists>v' desc A P. fopen filename mode_str v = Some (1, v') \<and>
    file_open (fat16_fs ata) (fat_handle ata) v' 1 desc A data 0 \<and> extends (vf_mem v) (vf_mem v') \<and>
    fs_disk (vf_mem v') = fs_disk (vf_mem v) \<and> fat_size (vf_mem v') (fd_private (vf_files v' desc)) = sz \<and>
    insert desc A \<inter> live (km_heap (vf_mem v)) = {} \<and> card P = 3 \<and> P \<inter> live (km_heap (vf_mem v)) = {} \<and> P \<inter> insert desc A = {} \<and>
    live (km_heap (vf_mem v')) = live (km_heap (vf_mem v)) \<union> P \<union> insert desc A \<and>
    avail (km_heap (vf_mem v)) \<le> avail (km_heap (vf_mem v')) + 7"
proof -
  note r = assms(1) [unfolded volume_ready_def] and n = assms(2) [unfolded named_at_def]
  have "components (render [nm]) = [nm]" by (rule components_render) (simp add: n)
  then have comps: "components nm = [nm]" by simp
  have comp: "component nm \<noteq> []" using n by (cases nm) (auto simp: component_ok_def)
  have named: "fat_named ata (vf_mem v) (components nm) data sz" and room: "2 * length (components nm) + 5 \<le> avail (km_heap (vf_mem v))"
    using r assms(3) by (simp_all add: comps)
  have "\<exists>v' desc A P. fopen filename mode_str v = Some (int 0 + 1, v') \<and>
    file_open (fat16_fs ata) (fat_handle ata) v' (int 0 + 1) desc A data 0 \<and> extends (vf_mem v) (vf_mem v') \<and>
    fs_disk (vf_mem v') = fs_disk (vf_mem v) \<and> vf_drivers v' = vf_drivers v \<and>
    fat_size (vf_mem v') (fd_private (vf_files v' desc)) = sz \<and>
    insert desc A \<inter> live (km_heap (vf_mem v)) = {} \<and> finite P \<and> card P = 2 * length (components nm) + 1 \<and>
    P \<inter> live (km_heap (vf_mem v)) = {} \<and> P \<inter> insert desc A = {} \<and>
    live (km_heap (vf_mem v')) = live (km_heap (vf_mem v)) \<union> P \<union> insert desc A \<and>
    avail (km_heap (vf_mem v)) \<le> avail (km_heap (vf_mem v')) + 2 * length (components nm) + 5"
    by (rule fat16.fopen_named [OF _ _ _ _ _ _ comp named _ _ room]) (use r n in simp_all)
  then obtain v' desc A P where "fopen filename mode_str v = Some (1, v')"
    "file_open (fat16_fs ata) (fat_handle ata) v' 1 desc A data 0" "extends (vf_mem v) (vf_mem v')"
    "fs_disk (vf_mem v') = fs_disk (vf_mem v)" "fat_size (vf_mem v') (fd_private (vf_files v' desc)) = sz"
    "insert desc A \<inter> live (km_heap (vf_mem v)) = {}" "card P = 3" "P \<inter> live (km_heap (vf_mem v)) = {}" "P \<inter> insert desc A = {}"
    "live (km_heap (vf_mem v')) = live (km_heap (vf_mem v)) \<union> P \<union> insert desc A"
    "avail (km_heap (vf_mem v)) \<le> avail (km_heap (vf_mem v')) + 7"
    by (auto simp: comps)
  then show ?thesis by blast
qed

lemma named_at_extends:
  assumes "named_at v filename mode_str nm" and "extends (vf_mem v) m"
  shows "named_at (w\<lparr>vf_mem := m\<rparr>) filename mode_str nm"
proof -
  note n = assms(1) [unfolded named_at_def]
  have "path_ok m filename 0x30 nm" using path_ok_extends [OF _ assms(2)] n by blast
  moreover have "pool (km_heap m) = pool (km_heap (vf_mem v))" using assms(2) by (simp add: extends_def grows_def)
  moreover have "km_mem m mode_str = 0x72" using n extends_memD [OF assms(2), of mode_str] by simp
  ultimately show ?thesis using n by (simp add: named_at_def)
qed

text \<open>The file that the disk describes can be opened after the start of the file system.\<close>

lemma boot_fopen:
  assumes "kernel_ready ata v" and "on_disk ata nm cs sz" and "named_at v filename mode_str nm"
  shows "\<exists>v1 v2 desc A P. boot_fs v = Some v1 \<and> fopen filename mode_str v1 = Some (1, v2) \<and> descriptors_ok v1 \<and>
    file_open (fat16_fs ata) (fat_handle ata) v2 1 desc A (disk_data ata cs) 0 \<and> pool (km_heap (vf_mem v2)) = pool (km_heap (vf_mem v)) \<and>
    insert desc A \<inter> live (km_heap (vf_mem v1)) = {} \<and> cluster_bytes (vf_mem v2) = disk_cluster_bytes ata \<and>
    fat_size (vf_mem v2) (fd_private (vf_files v2 desc)) = sz \<and>
    card P = 3 \<and> P \<inter> live (km_heap (vf_mem v1)) = {} \<and> P \<inter> insert desc A = {} \<and>
    live (km_heap (vf_mem v2)) = live (km_heap (vf_mem v1)) \<union> P \<union> insert desc A \<and>
    (\<forall>a. a \<notin> pool (km_heap (vf_mem v)) \<longrightarrow> km_mem (vf_mem v2) a = km_mem (vf_mem v) a)"
proof -
  have "length nm < 108" using assms(3) by (simp add: named_at_def path_ok_def)
  from boot_volume [OF assms(1,2) this] obtain v1 where v1: "boot_fs v = Some v1" "volume_ready ata v1 nm (disk_data ata cs) sz"
    "extends ((vf_mem v)\<lparr>fs_disk := blank_disk\<rparr>) (vf_mem v1)" "avail (km_heap (vf_mem v)) \<le> avail (km_heap (vf_mem v1)) + 5"
    "cluster_bytes (vf_mem v1) = disk_cluster_bytes ata" "private_live (vf_mem v1)" by blast
  have "12 < avail (km_heap (vf_mem v))" using assms(1) by (simp add: kernel_ready_def)
  then have room: "7 \<le> avail (km_heap (vf_mem v1))" using v1(4) by simp
  have "named_at (v\<lparr>vf_mem := (vf_mem v)\<lparr>fs_disk := blank_disk\<rparr>\<rparr>) filename mode_str nm"
    using assms(3) by (simp add: named_at_def path_ok_def)
  from named_at_extends [OF this, of "vf_mem v1" v1] v1(3) have "named_at v1 filename mode_str nm" by simp
  from volume_fopen [OF v1(2) this room] obtain v2 desc A P where
    v2: "fopen filename mode_str v1 = Some (1, v2)" "file_open (fat16_fs ata) (fat_handle ata) v2 1 desc A (disk_data ata cs) 0"
    "extends (vf_mem v1) (vf_mem v2)" "fs_disk (vf_mem v2) = fs_disk (vf_mem v1)" "fat_size (vf_mem v2) (fd_private (vf_files v2 desc)) = sz"
    "insert desc A \<inter> live (km_heap (vf_mem v1)) = {}" "card P = 3" "P \<inter> live (km_heap (vf_mem v1)) = {}" "P \<inter> insert desc A = {}"
    "live (km_heap (vf_mem v2)) = live (km_heap (vf_mem v1)) \<union> P \<union> insert desc A" by blast
  from header_extends [OF v1(6) v2(3,4)] have "cluster_bytes (vf_mem v2) = cluster_bytes (vf_mem v1)"
    by (simp add: cluster_bytes_def v2(4))
  moreover have "pool (km_heap (vf_mem v2)) = pool (km_heap (vf_mem v))" using v1(3) v2(3) by (simp add: extends_def grows_def)
  moreover have "descriptors_ok v1" using v1(2) by (simp add: volume_ready_def)
  moreover have "km_mem (vf_mem v2) a = km_mem (vf_mem v) a" if "a \<notin> pool (km_heap (vf_mem v))" for a
    using extends_heldD [OF extends_trans [OF v1(3) v2(3)], of a] that by simp
  ultimately show ?thesis using v1(1,5) v2 by auto
qed

subsection \<open>The ROM of the emulator\<close>

text \<open>
  The part of \<open>emu_reset\<close> that reads the file, on the memory of the kernel: \<open>header\<close> and \<open>rom\<close> are the addresses
  of the emulator's buffers, \<open>mode_r\<close> that of the literal \<open>r\<close>.  The results of the calls are not checked.
\<close>

definition memory_bytes :: "memory \<Rightarrow> int \<Rightarrow> nat \<Rightarrow> u8 list" where
  "memory_bytes m p n = map (\<lambda>k. m (p + int k)) [0 ..< n]"

(* src/src/emulator/CPU/emulator.c 726-733 emu_reset: file *)
definition emu_read_rom :: "int \<Rightarrow> int \<Rightarrow> int \<Rightarrow> int \<Rightarrow> vfs \<Rightarrow> (rom_file \<times> vfs) option" where
  "emu_read_rom filepath mode_r header rom v = do {
     (fd, v) \<leftarrow> fopen filepath mode_r v;
     if fd \<noteq> 0 then do {
       (_, v) \<leftarrow> fread header 0x10 1 fd v;
       let (_, v) = fseek fd 0x10 0 v;
       (_, v) \<leftarrow> fread rom 0x8000 1 fd v;
       Some (\<lparr>rf_fd = fd, rf_header = memory_bytes (km_mem (vf_mem v)) header 0x10,
               rf_body = memory_bytes (km_mem (vf_mem v)) rom 0x8000\<rparr>, v) }
     else Some (\<lparr>rf_fd = 0, rf_header = [], rf_body = []\<rparr>, v) }"

lemma memory_bytes_overlay:
  assumes "0 \<le> off" and "off + int n \<le> int (length data)"
  shows "memory_bytes (overlay (\<lambda>i. data ! nat (off + i)) p (int n) m) p n = take n (drop (nat off) data)"
  using assms by (intro nth_equalityI) (auto simp: memory_bytes_def overlay_def nat_add_distrib)

lemma memory_bytes_cong: "(\<And>a. p \<le> a \<Longrightarrow> a < p + int n \<Longrightarrow> m' a = m a) \<Longrightarrow> memory_bytes m' p n = memory_bytes m p n"
  by (simp add: memory_bytes_def)

text \<open>Buffers outside the pool of the heap do not touch the file system's pages.\<close>

lemma fat_buffer_outside:
  assumes "file_open (fat16_fs ata) (fat_handle ata) v fd desc A data pos"
    and "{out ..< out + n} \<inter> pool (km_heap (vf_mem v)) = {}"
  shows "buffer_free (A \<union> fat_reserved (vf_mem v)) out n"
proof (rule buffer_outside_pool [OF assms(2)])
  have "fat_handle ata (vf_mem v) (fd_private (vf_files v desc)) A data pos" using assms(1) by (simp add: file_open_def)
  then show "pool_ok (km_heap (vf_mem v))" "A \<union> fat_reserved (vf_mem v) \<subseteq> live (km_heap (vf_mem v))"
    by (auto simp: fat_handle_def fat_reserved_def private_live_def)
qed

text \<open>
  A buffer that the driver does not touch: its bytes are outside the pool or in blocks that are taken, and not
  in the page of the driver's private data.
\<close>

definition buffer_ok :: "vfs \<Rightarrow> int \<Rightarrow> int \<Rightarrow> bool" where
  "buffer_ok v out n \<longleftrightarrow> {out ..< out + n} \<subseteq> - pool (km_heap (vf_mem v)) \<union> held (km_heap (vf_mem v)) \<and>
     {out ..< out + n} \<inter> page_range (disk_fs_private (fs_disk (vf_mem v))) = {}"

lemma buffer_ok_outside:
  assumes "{out ..< out + n} \<inter> pool (km_heap (vf_mem v)) = {}" and "pool_ok (km_heap (vf_mem v))" and "private_live (vf_mem v)"
  shows "buffer_ok v out n"
  using assms page_in_pool [of "km_heap (vf_mem v)"] unfolding buffer_ok_def private_live_def pool_ok_def by blast

text \<open>The pages that \<open>fopen\<close> has taken since are apart from it.\<close>

lemma fat_buffer:
  assumes "file_open (fat16_fs ata) (fat_handle ata) v' fd desc A data pos" and "buffer_ok v out n"
    and "extends (vf_mem v) m" and "A \<inter> live (km_heap (vf_mem v)) = {}" and "km_heap m = km_heap (vf_mem v')"
    and "fat_reserved (vf_mem v') = fat_reserved (vf_mem v)"
  shows "buffer_free (A \<union> fat_reserved (vf_mem v')) out n"
proof -
  have own: "A \<subseteq> live (km_heap m)" using assms(1,5) by (auto simp: file_open_def fat_handle_def)
  have "{out ..< out + n} \<inter> page_range q = {}" if "q \<in> A" for q
  proof -
    have "page_range q \<subseteq> pool (km_heap (vf_mem v)) - held (km_heap (vf_mem v))"
      using grows_new_page [OF assms(3) [unfolded extends_def], of q] that own assms(4) by blast
    then show ?thesis using assms(2) unfolding buffer_ok_def by blast
  qed
  then show ?thesis using assms(2) unfolding buffer_free_def assms(6) by (auto simp: buffer_ok_def fat_reserved_def)
qed

text \<open>
  The two reads of the emulator and of the picture unit: from the start of the file into one buffer, then from
  position 0x10 into another.
\<close>

lemma volume_read_twice:
  fixes n1 n2 :: u32
  assumes "volume_ready ata v nm data sz" and "named_at v filename mode_str nm" and "7 \<le> avail (km_heap (vf_mem v))"
    and "0 < sint n1" and "sint n1 \<le> int (length data)" and "0x10 < sz"
    and "0 < sint n2" and "0x10 + sint n2 \<le> cluster_bytes (vf_mem v)" and "0x10 + sint n2 \<le> int (length data)"
    and "buffer_ok v out1 (sint n1)" and "buffer_ok v out2 (sint n2)"
    and "{out1 ..< out1 + sint n1} \<inter> {out2 ..< out2 + sint n2} = {}" and "0x10 + sint n2 < 2 ^ 31"
  shows "\<exists>v2 v3 v4 v5. fopen filename mode_str v = Some (1, v2) \<and>
    (\<forall>st. \<exists>flags. fstat 1 st v2 = (0, \<lparr>fst_flags = flags, fst_filesize = word_of_int sz\<rparr>)) \<and>
    fread out1 n1 1 1 v2 = Some (1, v3) \<and> fseek 1 0x10 0 v3 = (0, v4) \<and> fread out2 n2 1 1 v4 = Some (1, v5) \<and>
    memory_bytes (km_mem (vf_mem v5)) out1 (nat (sint n1)) = take (nat (sint n1)) data \<and>
    memory_bytes (km_mem (vf_mem v5)) out2 (nat (sint n2)) = take (nat (sint n2)) (drop 0x10 data) \<and>
    pool_ok (km_heap (vf_mem v5)) \<and> keeps (km_heap (vf_mem v)) (km_heap (vf_mem v5)) \<and>
    avail (km_heap (vf_mem v)) \<le> avail (km_heap (vf_mem v5)) + 7"
proof -
  let ?open = "file_open (fat16_fs ata) (fat_handle ata)"
  obtain v2 desc A where o: "fopen filename mode_str v = Some (1, v2)" "?open v2 1 desc A data 0"
    "extends (vf_mem v) (vf_mem v2)" "fs_disk (vf_mem v2) = fs_disk (vf_mem v)"
    "fat_size (vf_mem v2) (fd_private (vf_files v2 desc)) = sz" "insert desc A \<inter> live (km_heap (vf_mem v)) = {}"
    "avail (km_heap (vf_mem v)) \<le> avail (km_heap (vf_mem v2)) + 7"
    using volume_fopen [OF assms(1-3)] by blast
  have new: "A \<inter> live (km_heap (vf_mem v)) = {}" using o(6) by simp
  have live: "private_live (vf_mem v)" using assms(1) by (simp add: volume_ready_def fat_named_def)
  have cb: "cluster_bytes (vf_mem v2) = cluster_bytes (vf_mem v)"
    using header_extends [OF live o(3,4)] by (simp add: cluster_bytes_def o(4))
  have res: "fat_reserved (vf_mem v2) = fat_reserved (vf_mem v)" by (simp add: fat_reserved_def o(4))
  have small: "sint n < 2147483648" for n :: u32 using sint_lt [of n] by simp
  have stat: "\<exists>flags. fstat 1 st v2 = (0, \<lparr>fst_flags = flags, fst_filesize = word_of_int sz\<rparr>)" for st
    using fat16.fstat_open [OF o(2), of st] o(5) by metis
  have "\<exists>v'. fread out1 n1 1 1 v2 = Some (1, v') \<and> ?open v' 1 desc A data (0 + sint n1) \<and>
    km_mem (vf_mem v') = overlay (\<lambda>i. data ! nat (0 + i)) out1 (sint n1) (km_mem (vf_mem v2)) \<and>
    km_heap (vf_mem v') = km_heap (vf_mem v2) \<and> fat_reserved (vf_mem v') = fat_reserved (vf_mem v2) \<and>
    fat_readable (vf_mem v') = fat_readable (vf_mem v2) \<and>
    fat_size (vf_mem v') (fd_private (vf_files v2 desc)) = fat_size (vf_mem v2) (fd_private (vf_files v2 desc)) \<and>
    vf_files v' = vf_files v2"
    by (rule fat16.fread_open [OF o(2)])
      (use assms(4,5) small fat_buffer [OF o(2) assms(10) o(3) new refl res] in \<open>simp_all add: fat_readable_def in_order_def\<close>)
  then obtain v3 where v3: "fread out1 n1 1 1 v2 = Some (1, v3)" "?open v3 1 desc A data (sint n1)"
    "km_mem (vf_mem v3) = overlay (\<lambda>i. data ! nat (0 + i)) out1 (sint n1) (km_mem (vf_mem v2))"
    "km_heap (vf_mem v3) = km_heap (vf_mem v2)" "fat_readable (vf_mem v3) = fat_readable (vf_mem v2)"
    "fat_size (vf_mem v3) (fd_private (vf_files v3 desc)) = sz" "fat_reserved (vf_mem v3) = fat_reserved (vf_mem v2)"
    using o(5) by auto
  have "\<exists>v'. fseek 1 0x10 0 v3 = (0, v') \<and> ?open v' 1 desc A data 0x10 \<and>
    km_mem (vf_mem v') = km_mem (vf_mem v3) \<and> km_heap (vf_mem v') = km_heap (vf_mem v3) \<and>
    fat_reserved (vf_mem v') = fat_reserved (vf_mem v3) \<and> fat_readable (vf_mem v') = fat_readable (vf_mem v3) \<and>
    vf_files v' = vf_files v3"
    by (rule fat16.fseek_open [OF v3(2)]) (use v3(6) assms(6) in simp_all)
  then obtain v4 where v4: "fseek 1 0x10 0 v3 = (0, v4)" "?open v4 1 desc A data 0x10"
    "km_mem (vf_mem v4) = km_mem (vf_mem v3)" "km_heap (vf_mem v4) = km_heap (vf_mem v3)"
    "fat_readable (vf_mem v4) = fat_readable (vf_mem v2)" "fat_reserved (vf_mem v4) = fat_reserved (vf_mem v)"
    using v3(5,7) res by auto
  have "\<exists>v'. fread out2 n2 1 1 v4 = Some (1, v') \<and> ?open v' 1 desc A data (0x10 + sint n2) \<and>
    km_mem (vf_mem v') = overlay (\<lambda>i. data ! nat (0x10 + i)) out2 (sint n2) (km_mem (vf_mem v4)) \<and>
    km_heap (vf_mem v') = km_heap (vf_mem v4) \<and> fat_reserved (vf_mem v') = fat_reserved (vf_mem v4) \<and>
    fat_readable (vf_mem v') = fat_readable (vf_mem v4) \<and>
    fat_size (vf_mem v') (fd_private (vf_files v4 desc)) = fat_size (vf_mem v4) (fd_private (vf_files v4 desc)) \<and>
    vf_files v' = vf_files v4"
  proof (rule fat16.fread_open [OF v4(2)])
    have "0x10 mod cluster_bytes (vf_mem v) = 0x10" using assms(7,8) by (simp add: mod_pos_pos_trivial)
    then show "fat_readable (vf_mem v4) 0x10 (sint n2)"
      using assms(8) by (simp add: v4(5) fat_readable_def in_order_def cb)
  qed (use assms(7,9,13) fat_buffer [OF v4(2) assms(11) o(3) new _ v4(6)] v3(4) v4(4) in simp_all)
  then obtain v5 where v5: "fread out2 n2 1 1 v4 = Some (1, v5)"
    "km_mem (vf_mem v5) = overlay (\<lambda>i. data ! nat (0x10 + i)) out2 (sint n2) (km_mem (vf_mem v4))"
    "km_heap (vf_mem v5) = km_heap (vf_mem v4)"
    by auto
  have "memory_bytes (km_mem (vf_mem v5)) out2 (nat (sint n2)) = take (nat (sint n2)) (drop 0x10 data)"
    unfolding v5(2) using assms(7,9) memory_bytes_overlay [of "0x10" "nat (sint n2)" data out2] by simp
  moreover have "memory_bytes (km_mem (vf_mem v5)) out1 (nat (sint n1)) = memory_bytes (km_mem (vf_mem v3)) out1 (nat (sint n1))"
  proof (rule memory_bytes_cong)
    fix a assume "out1 \<le> a" "a < out1 + int (nat (sint n1))"
    then have "a < out2 \<or> out2 + sint n2 \<le> a"
      using apart_outside [of out2 "out2 + sint n2" "{out1 ..< out1 + sint n1}" a] assms(4,12) by (simp add: Int_commute)
    then show "km_mem (vf_mem v5) a = km_mem (vf_mem v3) a"
      unfolding v5(2) v4(3) [symmetric] by (rule overlay_outside)
  qed
  moreover have "memory_bytes (km_mem (vf_mem v3)) out1 (nat (sint n1)) = take (nat (sint n1)) data"
    unfolding v3(3) using assms(4,5) memory_bytes_overlay [of 0 "nat (sint n1)" data out1] by simp
  moreover have "km_heap (vf_mem v5) = km_heap (vf_mem v2)" using v5(3) v4(4) v3(4) by simp
  moreover have "pool_ok (km_heap (vf_mem v2))" "keeps (km_heap (vf_mem v)) (km_heap (vf_mem v2))"
    using o(3) by (simp_all add: extends_def grows_def)
  ultimately show ?thesis using o(1,7) stat v3(1) v4(1) v5(1) by (intro exI [of _ v2] exI [of _ v3] exI [of _ v4] exI [of _ v5]) simp
qed

lemma emu_read_rom_volume:
  assumes "volume_ready ata v nm data sz" and "named_at v filename mode_str nm" and "7 \<le> avail (km_heap (vf_mem v))"
    and "0x8010 \<le> cluster_bytes (vf_mem v)" and "0x10 < sz" and "0x8010 \<le> int (length data)"
    and "buffer_ok v header 0x10" and "buffer_ok v rom 0x8000"
    and "{header ..< header + 0x10} \<inter> {rom ..< rom + 0x8000} = {}"
  shows "\<exists>v'. emu_read_rom filename mode_str header rom v =
      Some (\<lparr>rf_fd = 1, rf_header = take 0x10 data, rf_body = take 0x8000 (drop 0x10 data)\<rparr>, v') \<and>
    pool_ok (km_heap (vf_mem v')) \<and> keeps (km_heap (vf_mem v)) (km_heap (vf_mem v')) \<and>
    avail (km_heap (vf_mem v)) \<le> avail (km_heap (vf_mem v')) + 7"
proof -
  have "sint (0x10 :: u32) = 0x10" "sint (0x8000 :: u32) = 0x8000" by simp_all
  then obtain v2 v3 v4 v5 where "fopen filename mode_str v = Some (1, v2)" "fread header 0x10 1 1 v2 = Some (1, v3)"
    "fseek 1 0x10 0 v3 = (0, v4)" "fread rom 0x8000 1 1 v4 = Some (1, v5)"
    "memory_bytes (km_mem (vf_mem v5)) header 0x10 = take 0x10 data"
    "memory_bytes (km_mem (vf_mem v5)) rom 0x8000 = take 0x8000 (drop 0x10 data)"
    "pool_ok (km_heap (vf_mem v5))" "keeps (km_heap (vf_mem v)) (km_heap (vf_mem v5))"
    "avail (km_heap (vf_mem v)) \<le> avail (km_heap (vf_mem v5)) + 7"
    using volume_read_twice [OF assms(1-3), of "0x10" "0x8000" header rom] assms(4-9) by auto
  then show ?thesis by (simp add: emu_read_rom_def)
qed

text \<open>After the start of the file system, with buffers outside the heap.\<close>

lemma emu_read_rom_spec:
  assumes "kernel_ready ata v" and "on_disk ata nm cs sz" and "named_at v filename mode_str nm"
    and "0x8010 \<le> disk_cluster_bytes ata" and "0x10 < sz" and "0x8010 \<le> int (length (disk_data ata cs))"
    and "{header ..< header + 0x10} \<inter> pool (km_heap (vf_mem v)) = {}"
    and "{rom ..< rom + 0x8000} \<inter> pool (km_heap (vf_mem v)) = {}"
    and "{header ..< header + 0x10} \<inter> {rom ..< rom + 0x8000} = {}"
  shows "\<exists>v1 v2. boot_fs v = Some v1 \<and> emu_read_rom filename mode_str header rom v1 =
    Some (\<lparr>rf_fd = 1, rf_header = take 0x10 (disk_data ata cs), rf_body = take 0x8000 (drop 0x10 (disk_data ata cs))\<rparr>, v2)"
proof -
  have "length nm < 108" using assms(3) by (simp add: named_at_def path_ok_def)
  from boot_volume [OF assms(1,2) this] obtain v1 where v1: "boot_fs v = Some v1" "volume_ready ata v1 nm (disk_data ata cs) sz"
    "extends ((vf_mem v)\<lparr>fs_disk := blank_disk\<rparr>) (vf_mem v1)" "avail (km_heap (vf_mem v)) \<le> avail (km_heap (vf_mem v1)) + 5"
    "cluster_bytes (vf_mem v1) = disk_cluster_bytes ata" "private_live (vf_mem v1)" by blast
  have "named_at (v\<lparr>vf_mem := (vf_mem v)\<lparr>fs_disk := blank_disk\<rparr>\<rparr>) filename mode_str nm"
    using assms(3) by (simp add: named_at_def path_ok_def)
  from named_at_extends [OF this, of "vf_mem v1" v1] v1(3) have name: "named_at v1 filename mode_str nm" by simp
  have pool: "pool_ok (km_heap (vf_mem v1))" "pool (km_heap (vf_mem v1)) = pool (km_heap (vf_mem v))"
    using extends_parts [OF v1(3)] by simp_all
  have room: "7 \<le> avail (km_heap (vf_mem v1))" using v1(4) assms(1) by (simp add: kernel_ready_def)
  have "buffer_ok v1 header 0x10" "buffer_ok v1 rom 0x8000"
    using buffer_ok_outside [OF _ pool(1) v1(6)] assms(7,8) by (simp_all add: pool(2))
  from emu_read_rom_volume [OF v1(2) name room _ assms(5,6) this assms(9)] v1(1,5) assms(4) show ?thesis by auto
qed

end
