(* ===== verification/FsClaims.thy ===== *)
theory FsClaims
  imports FsProps
begin

text \<open>
  The properties of the file system, on a demonstration disk: mounting, reading a file from its sectors,
  the descriptor table, and the faults of the FAT16 driver.
\<close>

subsection \<open>A demonstration disk\<close>

text \<open>
  One sector per cluster, one reserved sector, one allocation table of one sector, 16 root entries; the file
  \<open>A.NES\<close> lies in the clusters 2 and 4.
\<close>

definition pad :: "nat \<Rightarrow> u8 list \<Rightarrow> u8 list" where
  "pad n bs = bs @ replicate (n - length bs) 0"

definition demo_boot :: "u8 list" where
  "demo_boot = replicate 11 0 @ [0, 2, 1, 1, 0, 1, 16, 0, 0, 0, 0xF8, 1, 0] @ replicate 14 0 @ [0x29]"

definition demo_fat :: "u8 list" where
  "demo_fat = [0xF8, 0xFF, 0xFF, 0xFF, 4, 0, 0, 0, 0xFF, 0xFF]"

definition demo_entry :: "u8 list" where
  "demo_entry = bytes ''A       NES'' @ replicate 15 0 @ [2, 0, 0x00, 4, 0, 0]"

definition demo_ata :: ata where
  "demo_ata l = pad 512 (if l = 0 then demo_boot else if l = 1 then demo_fat else if l = 2 then demo_entry
     else if l = 3 then [0x4E, 0x45, 0x53, 0x1A] else if l = 4 then [0x11] else if l = 5 then [0x22] else [])"

lemma demo_boot_facts:
  "signature (boot_header demo_ata) = 0x29" "sectors_per_cluster (boot_header demo_ata) = 1"
  "root_size demo_ata = 512" "root_sector demo_ata = 2" "root_end demo_ata = 3"
  "reserved_sectors (boot_header demo_ata) = 1"
  by code_simp+

lemma demo_geometry: "disk_cluster_bytes demo_ata = 512" "disk_cluster_start demo_ata c = (c + 1) * 512"
  by (simp_all add: disk_cluster_bytes_def disk_cluster_start_def demo_boot_facts)

lemma demo_ends: "ends_at demo_ata 1024 1"
proof -
  have "disk_byte demo_ata 1056 = 0" "disk_byte demo_ata 1024 \<noteq> 0" by code_simp+
  then show ?thesis by (simp add: ends_at_def)
qed

lemma demo_disk: "fat16_disk demo_ata 1"
  using demo_ends by (simp add: fat16_disk_def demo_boot_facts)

lemma demo_used: "used_entries demo_ata 1024 1 = [0]"
  by code_simp

lemma demo_fat_entries: "fat_entry demo_ata 512 2 = 4" "fat_entry demo_ata 512 4 = 0xFFFF"
  by code_simp+

lemma demo_chain: "disk_chain demo_ata [2, 4]"
  using demo_fat_entries(1) by (simp add: disk_chain_def demo_boot_facts demo_geometry chain_end_def)

lemma demo_item:
  "filter (\<lambda>k. map tolower (dos_name (disk_byte demo_ata) (root_entry demo_ata k)) = map tolower (bytes ''a.nes'')) [0 ..< 1] = [0]"
  "di_attribute (item_at (disk_byte demo_ata) (root_entry demo_ata 0)) AND FAT_FILE_SUBDIRECTORY = 0"
  "sint (fat16_get_first_cluster (item_at (disk_byte demo_ata) (root_entry demo_ata 0))) = 2"
  "disk_file_size demo_ata 0 = 0x400"
  by code_simp+

lemma demo_on_disk: "on_disk demo_ata (bytes ''a.nes'') [2, 4] 0x400"
proof -
  have f: "disk_file demo_ata 1 (bytes ''a.nes'') 0 [2, 4]"
    using demo_item(1-3) demo_chain by (simp add: disk_file_def)
  have len: "length [0 :: nat] = 1" by simp
  have "fat16_disk demo_ata 1 \<and>
      int (length (used_entries demo_ata (root_sector demo_ata * 512) 1)) * 32 \<le> root_size demo_ata \<and>
      disk_file demo_ata (length (used_entries demo_ata (root_sector demo_ata * 512) 1)) (bytes ''a.nes'') 0 [2, 4] \<and>
      0x400 = disk_file_size demo_ata 0"
    unfolding demo_boot_facts demo_used len demo_item(4) using f
    by (simp add: demo_disk demo_boot_facts demo_used len del: One_nat_def list.size)
  then show ?thesis unfolding on_disk_def by blast
qed

lemma demo_length: "length (disk_data demo_ata cs) = length cs * 512"
  by (induction cs) (simp_all add: disk_data_def demo_geometry)

lemma disk_data_take:
  "int n \<le> disk_cluster_bytes ata \<Longrightarrow> take n (disk_data ata (c # cs)) =
     map (\<lambda>i. disk_byte ata (disk_cluster_start ata c + int i)) [0 ..< n]"
  by (simp add: disk_data_def take_map le_nat_iff)

text \<open>The kernel with a fresh heap, the path \<open>0:/a.nes\<close> at 0x5000 and the mode at 0x6000.\<close>

definition demo_kernel :: vfs where
  "demo_kernel = \<lparr>vf_mem = \<lparr>km_heap = snd (kheap_init demo_heap),
       km_mem = (literal 0x5000 (0x30 # COLON # SLASH # bytes ''a.nes''))(0x6000 := 0x72), km_term = blank_terminal,
       pm_roots = (\<lambda>_. \<lparr>drive_no = 0, first_part = 0\<rparr>), pm_parts = (\<lambda>_. \<lparr>part_str = 0, next_part = 0\<rparr>),
       fs_disk = blank_disk, fs_streams = (\<lambda>_. fresh_stream),
       fs_privates = (\<lambda>_. \<lparr>root_directory = zero_directory, cluster_read_stream = 0, fat_read_stream = 0, directory_stream = 0\<rparr>),
       fs_dirs = (\<lambda>_. zero_directory), fs_items = (\<lambda>_. \<lparr>fi_ptr = 0, fi_type = 0\<rparr>), fs_fds = (\<lambda>_. \<lparr>ffd_item = 0, ffd_pos = 0\<rparr>)\<rparr>,
     filesystems = [], file_descriptors = [],
     vf_files = (\<lambda>_. \<lparr>fd_index = 0, fd_filesystem = 0, fd_private = 0, fd_disk = None\<rparr>), vf_drivers = (\<lambda>_. fat16_fs demo_ata)\<rparr>"

lemma demo_pool: "pool (km_heap (vf_mem demo_kernel)) = {0x01000000 ..< 0x01000000 + 25600 * 4096}"
  by (simp add: demo_kernel_def pool_def kheap_init_eq)

lemma demo_ready: "kernel_ready demo_ata demo_kernel"
  unfolding kernel_ready_def demo_pool by (auto simp: demo_kernel_def kheap_init_pool kheap_init_avail)

lemma demo_named: "named_at demo_kernel 0x5000 0x6000 (bytes ''a.nes'')"
proof -
  have "cstr (literal 0x5000 (0x30 # COLON # SLASH # bytes ''a.nes'')) 0x5000 (0x30 # COLON # SLASH # bytes ''a.nes'')"
    by (rule cstr_literal) (simp add: bytes_def)
  then have "cstr (km_mem (vf_mem demo_kernel)) 0x5000 (0x30 # COLON # SLASH # bytes ''a.nes'')"
    by (rule cstr_frame) (simp add: demo_kernel_def bytes_def)
  then have "path_ok (vf_mem demo_kernel) 0x5000 0x30 (bytes ''a.nes'')"
    unfolding path_ok_def demo_pool by (auto simp: isdigit_def bytes_def)
  moreover have "component_ok (bytes ''a.nes'')" by (simp add: component_ok_def bytes_def)
  moreover have "km_mem (vf_mem demo_kernel) 0x6000 = 0x72" by (simp add: demo_kernel_def)
  ultimately show ?thesis unfolding named_at_def demo_pool by simp
qed

subsection \<open>Reading a file\<close>

text \<open>
  Claim C7.  From the disk to the buffer: on a kernel whose disk has a FAT16 boot sector and a file of the
  root directory with the name of the path up to case, with a well-formed heap below 2 GiB that has more than 12
  free blocks, and with the path, on drive 0, the mode and the buffer outside the heap, starting the file system, \<open>fopen\<close>, one \<open>fread\<close> of at most the file's clusters
  and \<open>fclose\<close> all succeed.  After \<open>fread\<close>, and still after \<open>fclose\<close>, the buffer holds exactly the first bytes
  of the file's cluster chain as they are on the disk; \<open>fread\<close> changes no byte but those of the buffer, and over
  the whole sequence, from before the start of the file system to after \<open>fclose\<close>, no byte outside the heap and
  the buffer has changed; the descriptor is 1 and its entry in the table is free again.
\<close>

theorem file_system_reads_disk:
  assumes "kernel_ready ata v" and "on_disk ata nm cs sz" and "named_at v filename mode_str nm"
    and "0 < sint n" and "sint n \<le> int (length (disk_data ata cs))"
    and "{out ..< out + sint n} \<inter> pool (km_heap (vf_mem v)) = {}"
  shows "\<exists>v1 v2 v3 v4. boot_fs v = Some v1 \<and> fopen filename mode_str v1 = Some (1, v2) \<and>
    fread out n 1 1 v2 = Some (1, v3) \<and> fclose 1 v3 = (0, v4) \<and>
    memory_bytes (km_mem (vf_mem v3)) out (nat (sint n)) = take (nat (sint n)) (disk_data ata cs) \<and>
    (\<forall>a. a < out \<or> out + sint n \<le> a \<longrightarrow> km_mem (vf_mem v3) a = km_mem (vf_mem v2) a) \<and>
    memory_bytes (km_mem (vf_mem v4)) out (nat (sint n)) = take (nat (sint n)) (disk_data ata cs) \<and>
    (\<forall>a. a \<notin> pool (km_heap (vf_mem v)) \<longrightarrow> a < out \<or> out + sint n \<le> a \<longrightarrow> km_mem (vf_mem v4) a = km_mem (vf_mem v) a) \<and>
    descriptors_ok v4 \<and> file_descriptors v4 ! 0 = 0"
proof -
  let ?data = "disk_data ata cs" and ?open = "file_open (fat16_fs ata) (fat_handle ata)"
  obtain v1 v2 desc A where o: "boot_fs v = Some v1" "fopen filename mode_str v1 = Some (1, v2)"
    "?open v2 1 desc A ?data 0" "pool (km_heap (vf_mem v2)) = pool (km_heap (vf_mem v))"
    "\<forall>a. a \<notin> pool (km_heap (vf_mem v)) \<longrightarrow> km_mem (vf_mem v2) a = km_mem (vf_mem v) a"
    using boot_fopen [OF assms(1-3)] by blast
  have "buffer_free (A \<union> fat_reserved (vf_mem v2)) out (sint n)" by (rule fat_buffer_outside [OF o(3)]) (simp add: o(4) assms(6))
  from fat16.fread_open [OF o(3) assms(4) _ _ _ this] assms(5) sint_lt [of n] obtain v3 where
    v3: "fread out n 1 1 v2 = Some (1, v3)" "?open v3 1 desc A ?data (0 + sint n)"
      "km_mem (vf_mem v3) = overlay (\<lambda>i. ?data ! nat (0 + i)) out (sint n) (km_mem (vf_mem v2))"
    by (auto simp: fat_readable_def in_order_def)
  obtain v4 where v4: "fclose 1 v3 = (0, v4)" "descriptors_ok v4" "file_descriptors v4 = (file_descriptors v3)[nat (1 - 1) := 0]"
    "km_mem (vf_mem v4) = km_mem (vf_mem v3)"
    using fat16.fclose_open [OF v3(2)] by blast
  have "length (file_descriptors v3) = 512" using v3(2) by (simp add: file_open_def descriptors_ok_def)
  then have free: "file_descriptors v4 ! 0 = 0" using v4(3) by simp
  have bytes: "memory_bytes (km_mem (vf_mem v3)) out (nat (sint n)) = take (nat (sint n)) ?data"
    unfolding v3(3) using assms(4,5) memory_bytes_overlay [of 0 "nat (sint n)" ?data out] by simp
  have frame: "\<forall>a. a < out \<or> out + sint n \<le> a \<longrightarrow> km_mem (vf_mem v3) a = km_mem (vf_mem v2) a"
    unfolding v3(3) by (simp add: overlay_outside)
  with o(5) have whole: "\<forall>a. a \<notin> pool (km_heap (vf_mem v)) \<longrightarrow> a < out \<or> out + sint n \<le> a \<longrightarrow>
      km_mem (vf_mem v3) a = km_mem (vf_mem v) a" by simp
  show ?thesis
    using o(1,2) v3(1) v4(1,2) free bytes frame bytes [folded v4(4)] whole [folded v4(4)] by (intro exI conjI)
qed

theorem file_system_reads_disk_witness:
  "\<exists>v1 v2 v3 v4. boot_fs demo_kernel = Some v1 \<and> fopen 0x5000 0x6000 v1 = Some (1, v2) \<and>
    fread 0x7000 4 1 1 v2 = Some (1, v3) \<and> fclose 1 v3 = (0, v4) \<and>
    memory_bytes (km_mem (vf_mem v4)) 0x7000 4 = [0x4E, 0x45, 0x53, 0x1A] \<and> km_mem (vf_mem v4) 0x6000 = 0x72"
proof -
  have four: "sint (4 :: u32) = 4" by simp
  have "map (\<lambda>i. disk_byte demo_ata (1536 + int i)) [0 ..< 4] = [0x4E, 0x45, 0x53, 0x1A]" by code_simp
  then have "take 4 (disk_data demo_ata [2, 4]) = [0x4E, 0x45, 0x53, 0x1A]"
    using disk_data_take [of 4 demo_ata 2 "[4]"] by (simp add: demo_geometry)
  then have take: "take (nat (sint (4 :: u32))) (disk_data demo_ata [2, 4]) = [0x4E, 0x45, 0x53, 0x1A]" by (simp add: four)
  have buffer: "{0x7000 ..< 0x7000 + sint (4 :: u32)} \<inter> pool (km_heap (vf_mem demo_kernel)) = {}"
    unfolding demo_pool four by auto
  have mode: "(0x6000 :: int) \<notin> pool (km_heap (vf_mem demo_kernel))" "(0x6000 :: int) < 0x7000" "km_mem (vf_mem demo_kernel) 0x6000 = 0x72"
    unfolding demo_pool by (simp_all add: demo_kernel_def)
  have "0 < sint (4 :: u32)" "sint (4 :: u32) \<le> int (length (disk_data demo_ata [2, 4]))" by (simp_all add: four demo_length)
  from file_system_reads_disk [OF demo_ready demo_on_disk demo_named this buffer] obtain v1 v2 v3 v4 where
    "boot_fs demo_kernel = Some v1" "fopen 0x5000 0x6000 v1 = Some (1, v2)" "fread 0x7000 4 1 1 v2 = Some (1, v3)" "fclose 1 v3 = (0, v4)"
    "memory_bytes (km_mem (vf_mem v4)) 0x7000 4 = [0x4E, 0x45, 0x53, 0x1A]" "km_mem (vf_mem v4) 0x6000 = 0x72"
    using mode unfolding take by (auto simp: four)
  then show ?thesis by blast
qed

subsection \<open>The mounted demonstration disk\<close>

definition demo_before :: fs_mem where
  "demo_before = (vf_mem demo_kernel)\<lparr>fs_disk := blank_disk\<rparr>"

lemma demo_heap: "pool_ok (km_heap (vf_mem demo_kernel))" "12 < avail (km_heap (vf_mem demo_kernel))"
  using demo_ready by (simp_all add: kernel_ready_def)

lemma demo_mounts: "\<exists>v1 A. boot_fs demo_kernel = Some v1 \<and> mounts demo_ata 1 demo_before (vf_mem v1) A"
proof -
  have "vf_drivers demo_kernel FAT16_FS = fat16_fs demo_ata" using demo_ready by (simp add: kernel_ready_def)
  from boot_fs_spec [OF this demo_heap(1) _ demo_disk] demo_heap(2) show ?thesis
    unfolding demo_before_def by auto
qed

lemma demo_volume: "\<exists>s A. mounts demo_ata 1 demo_before s A"
  using demo_mounts by (elim exE conjE) (intro exI)

lemma demo_mounted:
  assumes "mounts demo_ata 1 s s' A"
  shows "mounted s'" "cluster_bytes s' = 512" "cluster_start s' c = (c + 1) * 512" "file_chain demo_ata s' [2, 4]"
    "fat_entry demo_ata (fat_position s') 4 = 0xFFFF"
proof -
  note geo = mounts_geometry [OF assms] and m = assms [unfolded mounts_def]
  show "mounted s'" "cluster_bytes s' = 512" "cluster_start s' c = (c + 1) * 512" "file_chain demo_ata s' [2, 4]"
    using m by (simp_all add: geo demo_geometry demo_chain)
  have "fat_position s' = 512" using m by (simp add: fat_position_def demo_boot_facts)
  then show "fat_entry demo_ata (fat_position s') 4 = 0xFFFF" by (simp add: demo_fat_entries)
qed

lemma header_in_pool:
  assumes "mounts ata n s s' A" and "{out ..< out + k} \<inter> pool (km_heap s) = {}"
  shows "{out ..< out + k} \<inter> header_bytes s' = {}"
proof -
  note m = assms(1) [unfolded mounts_def]
  have live: "disk_fs_private (fs_disk s') \<in> live (km_heap s')" and ok: "pool_ok (km_heap s')"
    and pool: "pool (km_heap s') = pool (km_heap s)"
    using m by (auto simp: extends_def grows_def)
  have "header_bytes s' \<subseteq> page_range (disk_fs_private (fs_disk s'))" by (simp add: header_bytes_def page_range_def)
  also have "\<dots> \<subseteq> pool (km_heap s)" using page_in_pool [of "km_heap s'"] live ok pool by (auto simp: pool_ok_def)
  finally show ?thesis using assms(2) by blast
qed

subsection \<open>The chain of clusters\<close>

text \<open>
  Claim C35.  The walk along the allocation table is indexing into the cluster chain: on a mounted volume the
  cluster of byte \<open>offset\<close> of a file is entry \<open>offset div cluster size\<close> of its chain, and past the last
  cluster, whose table entry ends the chain, the walk returns \<open>-EIO\<close>; the volume is unchanged except for the
  positions of its streams.
\<close>

theorem cluster_of_offset:
  assumes "mounted s" and "file_chain ata s cs" and "0 \<le> offset"
    and "offset div cluster_bytes s < int (length cs) \<or> chain_end (fat_entry ata (fat_position s) (last cs))"
  shows "\<exists>f. fat16_get_cluster_for_offset ata (hd cs) offset s =
      Some (if offset div cluster_bytes s < int (length cs) then cs ! nat (offset div cluster_bytes s) else - EIO,
        s\<lparr>fs_streams := f\<rparr>) \<and> same_disks f (fs_streams s)"
proof -
  have "0 \<le> offset div cluster_bytes s" using assms(3) cluster_bytes_pos [OF assms(1)] by (simp add: pos_imp_zdiv_nonneg_iff)
  then show ?thesis
    using get_cluster_spec [OF assms(1-3)] assms(4) by (cases "offset div cluster_bytes s < int (length cs)") (auto simp: not_less nat_less_iff le_nat_iff)
qed

theorem cluster_of_offset_witness:
  "\<exists>s f g. fat16_get_cluster_for_offset demo_ata 2 600 s = Some (4, s\<lparr>fs_streams := f\<rparr>) \<and>
    fat16_get_cluster_for_offset demo_ata 2 0x400 s = Some (- EIO, s\<lparr>fs_streams := g\<rparr>)"
proof -
  obtain s A where "mounts demo_ata 1 demo_before s A" using demo_volume by blast
  note d = demo_mounted [OF this]
  have "\<exists>f. fat16_get_cluster_for_offset demo_ata 2 600 s = Some (4, s\<lparr>fs_streams := f\<rparr>)"
    "\<exists>f. fat16_get_cluster_for_offset demo_ata 2 0x400 s = Some (- EIO, s\<lparr>fs_streams := f\<rparr>)"
    using cluster_of_offset [OF d(1,4), of 600] cluster_of_offset [OF d(1,4), of "0x400"] d(2,5)
    by (auto simp: chain_end_def)
  then show ?thesis by blast
qed

text \<open>
  Claim C34.  Reading a file as a list of bytes: on a mounted volume \<open>fat16_read\<close> of \<open>n\<close> elements of \<open>sz\<close> bytes
  from an open file, each of which starts at a cluster or stays within one, returns \<open>n\<close>, lays the bytes of
  the file's clusters from the file position over the buffer, advances the position by \<open>n * sz\<close> and changes
  nothing else but stream positions.
\<close>

theorem fat16_read_equals_clusters:
  assumes "mounted s" and "open_file ata s fd cs" and "0 \<le> sint (ffd_pos (fs_fds s fd))" and "0 < sint sz"
    and "reads_in_order (cluster_bytes s) (sint (ffd_pos (fs_fds s fd))) (sint sz) (unat n)"
    and "sint (ffd_pos (fs_fds s fd)) + uint n * sint sz \<le> int (length (file_data ata s cs))"
    and "{out ..< out + uint n * sint sz} \<inter> (header_bytes s \<union> item_range (file_item s fd)) = {}"
  shows "\<exists>f. fat16_read ata fd sz n out s =
      Some (sint n, s\<lparr>
        km_mem := overlay (\<lambda>i. file_data ata s cs ! nat (sint (ffd_pos (fs_fds s fd)) + i)) out (uint n * sint sz) (km_mem s),
        fs_streams := f,
        fs_fds := (fs_fds s)(fd := (fs_fds s fd)\<lparr>ffd_pos := ffd_pos (fs_fds s fd) + n * sz\<rparr>)\<rparr>) \<and>
    same_disks f (fs_streams s)"
  by (rule read_spec [OF assms])

lemma demo_open:
  "\<exists>s d A. fat_handle demo_ata s d A (disk_data demo_ata [2, 4]) 0 \<and> cluster_bytes s = 512 \<and>
     pool (km_heap s) = {0x01000000 ..< 0x01000000 + 25600 * 4096}"
proof -
  obtain v2 desc A where "file_open (fat16_fs demo_ata) (fat_handle demo_ata) v2 1 desc A (disk_data demo_ata [2, 4]) 0"
    "pool (km_heap (vf_mem v2)) = pool (km_heap (vf_mem demo_kernel))" "cluster_bytes (vf_mem v2) = disk_cluster_bytes demo_ata"
    using boot_fopen [OF demo_ready demo_on_disk demo_named] by blast
  then have "fat_handle demo_ata (vf_mem v2) (fd_private (vf_files v2 desc)) A (disk_data demo_ata [2, 4]) 0 \<and>
      cluster_bytes (vf_mem v2) = 512 \<and> pool (km_heap (vf_mem v2)) = {0x01000000 ..< 0x01000000 + 25600 * 4096}"
    by (simp add: file_open_def demo_geometry demo_pool)
  then show ?thesis by (intro exI)
qed

lemma handle_outside_pool:
  assumes "fat_handle ata s d A data pos" and "{out ..< out + k} \<inter> pool (km_heap s) = {}"
  shows "{out ..< out + k} \<inter> (header_bytes s \<union> item_range (file_item s d)) = {}"
proof -
  note h = assms(1) [unfolded fat_handle_def]
  have "disk_fs_private (fs_disk s) \<in> live (km_heap s)" "file_item s d \<in> live (km_heap s)" "heap_ok (km_heap s)"
    using h by (auto simp: private_live_def handle_blocks_def pool_ok_def)
  then have "page_range (disk_fs_private (fs_disk s)) \<subseteq> pool (km_heap s)" "page_range (file_item s d) \<subseteq> pool (km_heap s)"
    by (simp_all add: page_in_pool)
  moreover have "header_bytes s \<subseteq> page_range (disk_fs_private (fs_disk s))" "item_range (file_item s d) \<subseteq> page_range (file_item s d)"
    by (simp_all add: header_bytes_def item_range_def page_range_def)
  ultimately show ?thesis using assms(2) by blast
qed

lemma demo_second_cluster: "disk_data demo_ata [2, 4] ! 512 = 0x22"
proof -
  have "disk_data demo_ata [2, 4] ! 512 = disk_data demo_ata [4] ! 0"
    using demo_length [of "[2]"] nth_append [of "disk_data demo_ata [2]" "disk_data demo_ata [4]" 512]
    by (simp add: disk_data_def)
  also have "\<dots> = disk_byte demo_ata 2560" by (simp add: disk_data_def demo_geometry)
  also have "\<dots> = 0x22" by code_simp
  finally show ?thesis .
qed

theorem fat16_read_equals_clusters_witness:
  "\<exists>s d s'. fat16_read demo_ata d 0x200 2 0x7000 s = Some (2, s') \<and> km_mem s' 0x7200 = 0x22"
proof -
  obtain s d A where h: "fat_handle demo_ata s d A (disk_data demo_ata [2, 4]) 0" and cb: "cluster_bytes s = 512"
    and pool: "pool (km_heap s) = {0x01000000 ..< 0x01000000 + 25600 * 4096}"
    using demo_open by blast
  obtain cs where cs: "mounted s" "open_file demo_ata s d cs" "file_data demo_ata s cs = disk_data demo_ata [2, 4]"
    "sint (ffd_pos (fs_fds s d)) = 0"
    using h by (auto simp: fat_handle_def)
  have s200: "sint (0x200 :: u32) = 0x200" by simp
  have ord: "reads_in_order (cluster_bytes s) (sint (ffd_pos (fs_fds s d))) (sint (0x200 :: u32)) (unat (2 :: u32))"
    by (simp add: reads_in_order_def cs(4) cb s200 in_order_def)
  have "{0x7000 ..< 0x7000 + (0x400 :: int)} \<inter> pool (km_heap s) = {}" unfolding pool by auto
  then have buf: "{0x7000 ..< 0x7000 + uint (2 :: u32) * sint (0x200 :: u32)} \<inter> (header_bytes s \<union> item_range (file_item s d)) = {}"
    using handle_outside_pool [OF h, of "0x7000" "0x400"] by simp
  have "sint (ffd_pos (fs_fds s d)) + uint (2 :: u32) * sint (0x200 :: u32) \<le> int (length (file_data demo_ata s cs))"
    by (simp add: cs(3,4) demo_length)
  from fat16_read_equals_clusters [OF cs(1,2) _ _ ord this buf] obtain f where
    "fat16_read demo_ata d 0x200 2 0x7000 s = Some (2, s\<lparr>
       km_mem := overlay (\<lambda>i. disk_data demo_ata [2, 4] ! nat i) 0x7000 0x400 (km_mem s), fs_streams := f,
       fs_fds := (fs_fds s)(d := (fs_fds s d)\<lparr>ffd_pos := ffd_pos (fs_fds s d) + 0x400\<rparr>)\<rparr>)"
    by (auto simp: cs(3,4))
  then show ?thesis by (intro exI conjI) (assumption, simp add: overlay_def demo_second_cluster)
qed

text \<open>
  Claim C36.  A read that starts inside a cluster and leaves it does not follow the chain: the rest of the
  request comes from the sectors that follow on the disk, those of cluster \<open>c + 1\<close>, whatever the next cluster
  of the file is.
\<close>

theorem unaligned_read_leaves_chain:
  assumes "mounted s" and "file_chain ata s (c # cs)" and "0 < offset" and "offset < cluster_bytes s"
    and "cluster_bytes s < offset + n" and "n \<le> cluster_bytes s" and "{out ..< out + n} \<inter> header_bytes s = {}"
  shows "\<exists>s'. fat16_read_internal ata c offset n out s = Some (0, s') \<and>
    (\<forall>i. 0 \<le> i \<and> i < cluster_bytes s - offset \<longrightarrow> km_mem s' (out + i) = disk_byte ata (cluster_start s c + offset + i)) \<and>
    (\<forall>i. cluster_bytes s - offset \<le> i \<and> i < n \<longrightarrow>
       km_mem s' (out + i) = disk_byte ata (cluster_start s (c + 1) + (offset + i - cluster_bytes s)))"
proof -
  let ?st = "cluster_read_stream (the_private s)"
  have "offset div cluster_bytes s + (n - 1) div cluster_bytes s < int (length (c # cs))"
    using assms(3-6) by (simp add: div_pos_pos_trivial)
  moreover have "0 < n" "0 \<le> offset" using assms(3-5) by linarith+
  moreover have "ds_disk (fs_streams s ?st) = The_disk" using assms(1) by (simp add: mounted_def)
  ultimately obtain f where "fat16_read_internal_from_stream ata ?st c offset n out s =
      Some (0, s\<lparr>km_mem := overlay (\<lambda>i. disk_byte ata (read_position s (c # cs) offset i)) out n (km_mem s), fs_streams := f\<rparr>)"
    using read_internal_from_stream_spec [OF assms(1,2) _ _ _ assms(7), of offset ?st] by auto
  moreover have "read_position s (c # cs) offset i = cluster_start s c + offset + i" if "0 \<le> i" "i < n" for i
    using that assms(3-6) by (simp add: read_position_first div_pos_pos_trivial mod_pos_pos_trivial)
  ultimately show ?thesis
    using assms(3-6) cluster_start_add [OF assms(1), of c 1]
    by (auto simp: fat16_read_internal_def overlay_def algebra_simps)
qed

theorem unaligned_read_leaves_chain_witness:
  "\<exists>s s'. fat16_get_cluster_for_offset demo_ata 2 512 s = Some (4, s') \<and>
    (\<exists>s'. fat16_read_internal demo_ata 2 511 2 0x7000 s = Some (0, s') \<and>
       km_mem s' 0x7001 = disk_byte demo_ata (cluster_start s 3) \<and> km_mem s' 0x7001 \<noteq> disk_byte demo_ata (cluster_start s 4))"
proof -
  obtain s A where m: "mounts demo_ata 1 demo_before s A" using demo_volume by blast
  note d = demo_mounted [OF m]
  have "{0x7000 ..< 0x7000 + (2 :: int)} \<inter> pool (km_heap demo_before) = {}"
    using demo_pool by (auto simp: demo_before_def)
  note buf = header_in_pool [OF m this]
  have "disk_byte demo_ata 2048 = 0x11" "disk_byte demo_ata 2560 = 0x22" by code_simp+
  then have "\<exists>s'. fat16_read_internal demo_ata 2 511 2 0x7000 s = Some (0, s') \<and>
       km_mem s' 0x7001 = disk_byte demo_ata (cluster_start s 3) \<and> km_mem s' 0x7001 \<noteq> disk_byte demo_ata (cluster_start s 4)"
    using unaligned_read_leaves_chain [OF d(1,4) _ _ _ _ buf, of 511] d(2,3) by auto
  moreover have "\<exists>s'. fat16_get_cluster_for_offset demo_ata 2 512 s = Some (4, s')"
    using get_cluster_spec(1) [OF d(1,4), of 512] d(2) by auto
  ultimately show ?thesis by blast
qed


text \<open>The file of the demonstration disk, open at \<open>pos\<close> through hand-made structures at address 1.\<close>

definition demo_fd :: "fs_mem \<Rightarrow> u32 \<Rightarrow> fs_mem" where
  "demo_fd s pos = s\<lparr>fs_items := (fs_items s)(1 := \<lparr>fi_ptr = root_items s, fi_type = FAT_ITEM_TYPE_FILE\<rparr>),
     fs_fds := (fs_fds s)(1 := \<lparr>ffd_item = 1, ffd_pos = pos\<rparr>)\<rparr>"

lemma demo_fd_volume:
  "the_private (demo_fd s pos) = the_private s" "the_header (demo_fd s pos) = the_header s"
  "fat_position (demo_fd s pos) = fat_position s" "cluster_start (demo_fd s pos) = cluster_start s"
  "cluster_bytes (demo_fd s pos) = cluster_bytes s" "mounted (demo_fd s pos) = mounted s"
  "file_chain ata (demo_fd s pos) cs = file_chain ata s cs"
  by (simp_all add: demo_fd_def the_private_def the_header_def fat_position_def cluster_start_def cluster_bytes_def mounted_def
      file_chain_def fun_eq_iff)

lemma demo_fd_open:
  assumes "mounts demo_ata 1 s0 s A"
  shows "open_file demo_ata (demo_fd s pos) 1 [2, 4]" "ffd_pos (fs_fds (demo_fd s pos) 1) = pos"
    "file_data demo_ata (demo_fd s pos) [2, 4] = disk_data demo_ata [2, 4]"
proof -
  note m = assms [unfolded mounts_def]
  have "km_mem s (uint (root_items s) + k) = disk_byte demo_ata (1024 + k)" if "0 \<le> k" "k < 32" for k
  proof -
    have "\<forall>k. 0 \<le> k \<and> k < 512 \<longrightarrow> km_mem s (uint (root_items s) + k) = disk_byte demo_ata (1024 + k)"
      using m by (simp add: demo_boot_facts)
    then show ?thesis using that by simp
  qed
  then have "item_at (km_mem s) (uint (root_items s)) = item_at (disk_byte demo_ata) (root_entry demo_ata 0)"
    unfolding item_at_shift [of "km_mem s"] item_at_shift [of "disk_byte demo_ata"]
    by (intro item_at_cong) (simp add: root_entry_def demo_boot_facts)
  then show "open_file demo_ata (demo_fd s pos) 1 [2, 4]"
    using demo_item(3) demo_mounted(4) [OF assms]
    by (simp add: open_file_def file_item_def demo_fd_volume) (simp add: demo_fd_def)
  show "ffd_pos (fs_fds (demo_fd s pos) 1) = pos" by (simp add: demo_fd_def)
  show "file_data demo_ata (demo_fd s pos) [2, 4] = disk_data demo_ata [2, 4]"
    using file_data_cong [of "demo_fd s pos" s demo_ata "[2, 4]"] by (simp add: demo_fd_volume mounts_geometry(4) [OF assms])
qed

text \<open>
  The end of a file is the end of its cluster chain: a read that starts at or past the last byte of
  the last cluster returns \<open>-EIO\<close> and changes neither the buffer nor the position of the file.
\<close>

theorem read_past_chain:
  assumes "mounted s" and "open_file ata s fd cs" and "chain_end (fat_entry ata (fat_position s) (last cs))"
    and "int (length (file_data ata s cs)) \<le> sint (ffd_pos (fs_fds s fd))" and "n \<noteq> 0"
  shows "\<exists>f. fat16_read ata fd sz n out s = Some (- EIO, s\<lparr>fs_streams := f\<rparr>) \<and> same_disks f (fs_streams s)"
proof -
  note o = assms(2) [unfolded open_file_def file_item_def]
  obtain k where "unat n = Suc k" using assms(5) by (metis not0_implies_Suc unat_eq_zero)
  moreover obtain f where "fat16_read_internal ata (hd cs) (sint (ffd_pos (fs_fds s fd))) (sint sz) out s = Some (- EIO, s\<lparr>fs_streams := f\<rparr>)"
    "same_disks f (fs_streams s)"
    using read_internal_end [OF assms(1) _ assms(3,4)] o by blast
  ultimately show ?thesis using o by (intro exI [of _ f]) (simp add: fat16_read_def Let_def EIO_def)
qed

theorem read_past_chain_witness:
  "\<exists>s s'. fat16_read demo_ata 1 1 1 0x7000 s = Some (- EIO, s')"
proof -
  obtain s A where m: "mounts demo_ata 1 demo_before s A" using demo_volume by blast
  note d = demo_mounted [OF m] and o = demo_fd_open [OF m, of "0x400"]
  have "mounted (demo_fd s 0x400)" "chain_end (fat_entry demo_ata (fat_position (demo_fd s 0x400)) (last [2, 4]))"
    "int (length (file_data demo_ata (demo_fd s 0x400) [2, 4])) \<le> sint (ffd_pos (fs_fds (demo_fd s 0x400) 1))"
    by (simp_all add: demo_fd_volume(3,6) d o(2,3) demo_length chain_end_def)
  from read_past_chain [OF this(1) o(1) this(2,3), of 1 1 "0x7000"] show ?thesis by auto
qed

subsection \<open>Searching the root directory\<close>

text \<open>
  Claim C38.  Names are compared as 8.3 names up to case: the text that the driver builds from the name and the
  extension of a directory item is equal to a NUL-terminated name, up to the case of letters, exactly when the
  fields up to their padding, joined by a dot, are; the text has at most 12 characters.
\<close>

theorem directory_name_comparison:
  assumes "cstr m p nm" and "length nm < 108"
  shows "(istrncmp (fat16_get_full_relative_filename mi item (\<lambda>_. 0) 0 PEACHOS_MAX_PATH) 0 m p PEACHOS_MAX_PATH = 0 \<longleftrightarrow>
      map tolower (dos_name mi item) = map tolower nm) \<and> length (dos_name mi item) \<le> 12"
proof -
  have "cstr (fat16_get_full_relative_filename mi item (\<lambda>_. 0) 0 PEACHOS_MAX_PATH) 0 (dos_name mi item)"
    unfolding full_relative_filename_spec by (rule cstr_write) (use dos_name_nonzero in blast)
  from istrncmp_cstr [OF this assms(1)] show ?thesis using dos_name_length [of mi item] by simp
qed

theorem directory_name_comparison_witness:
  "istrncmp (fat16_get_full_relative_filename (disk_byte demo_ata) 1024 (\<lambda>_. 0) 0 PEACHOS_MAX_PATH) 0
     (literal 0x5000 (bytes ''a.nes'')) 0x5000 PEACHOS_MAX_PATH = 0"
proof -
  have "cstr (literal 0x5000 (bytes ''a.nes'')) 0x5000 (bytes ''a.nes'')"
    by (rule cstr_literal) (simp add: bytes_def)
  moreover have "length (bytes ''a.nes'') < 108" by (simp add: bytes_def)
  moreover have "map tolower (dos_name (disk_byte demo_ata) 1024) = map tolower (bytes ''a.nes'')" by code_simp
  ultimately show ?thesis using directory_name_comparison by blast
qed

text \<open>
  Claim C37.  The search does not stop at a match: every entry of the directory with the name, all of them
  files, gets an item and a copy of its directory entry on the heap, the last one is returned, and the blocks
  of the others, two for each, stay allocated although nothing refers to them.
\<close>

theorem find_item_returns_last:
  assumes "searchable s (dir_item dir) name nm" and "dir_total dir \<le> 128"
    and "ms = filter (entry_matches s (dir_item dir) nm) [0 ..< nat (dir_total dir)]" and "ms \<noteq> []"
    and "\<forall>i \<in> set ms. is_file s (dir_item dir) i" and "2 * length ms \<le> avail (km_heap s)"
  shows "\<exists>r s' A. fat16_find_item_in_directory ata dir name s = Some (r, s') \<and>
    fi_type (fs_items s' r) = FAT_ITEM_TYPE_FILE \<and>
    (\<forall>k. 0 \<le> k \<and> k < sizeof_item \<longrightarrow>
       km_mem s' (uint (fi_ptr (fs_items s' r)) + k) = km_mem s (uint (entry_address (dir_item dir) (last ms)) + k)) \<and>
    live (km_heap s') = live (km_heap s) \<union> A \<and> A \<inter> live (km_heap s) = {} \<and> card A = 2 * length ms"
proof -
  have "\<forall>i \<in> set [0 ..< nat (dir_total dir)]. i < 128 \<and>
      (entry_matches s (dir_item dir) nm i \<longrightarrow> is_file s (dir_item dir) i)"
    using assms(2,3,5) by auto
  from find_item_loop_spec [OF assms(1) this, folded assms(3), OF assms(6), of ata 0] obtain r s' A where
    "find_item_loop ata (dir_item dir) name [0 ..< nat (dir_total dir)] 0 s = Some (r, s')"
    "search_result s (dir_item dir) ms 0 r s' A" by blast
  then show ?thesis
    using assms(4) by (auto simp: fat16_find_item_in_directory_def search_result_def adds_def file_copy_def)
qed

text \<open>A directory with two entries for the same name, and the name, in two blocks.\<close>

definition demo_two :: "u8 list" where
  "demo_two = demo_entry @ replicate (32 - length demo_entry) 0 @ bytes ''a       nes'' @ replicate 21 0"

lemma demo_two_facts:
  "length demo_two = 64"
  "map tolower (dos_name (literal 0 demo_two) 0) = map tolower (bytes ''a.nes'')"
  "map tolower (dos_name (literal 0 demo_two) 32) = map tolower (bytes ''a.nes'')"
  "di_attribute (item_at (literal 0 demo_two) 0) AND FAT_FILE_SUBDIRECTORY = 0"
  "di_attribute (item_at (literal 0 demo_two) 32) AND FAT_FILE_SUBDIRECTORY = 0"
  by code_simp+

text \<open>The state: \<open>p\<close> holds the two entries and \<open>q\<close> the name.\<close>

lemma demo_search:
  "\<exists>s p q. searchable s p q (bytes ''a.nes'') \<and> entry_matches s p (bytes ''a.nes'') 0 \<and> entry_matches s p (bytes ''a.nes'') 1 \<and>
     is_file s p 0 \<and> is_file s p 1 \<and> 4 \<le> avail (km_heap s)"
proof -
  have blk: "one_block 0x1000" by (simp add: one_block_def)
  obtain p h m where 1: "new_page 0x1000 (km_heap demo_before) (km_mem demo_before) p h m"
    using kalloc_new [of demo_before, OF _ blk] demo_heap by (auto simp: demo_before_def)
  note n1 = new_pageD [OF 1]
  have "avail h = avail (km_heap demo_before) - 1" "12 < avail (km_heap demo_before)" using n1(5) demo_heap(2) by (simp_all add: demo_before_def)
  then obtain q h' m' where 2: "new_page 0x1000 h m q h' m'"
    using kalloc_new [of "demo_before\<lparr>km_heap := h\<rparr>", OF _ blk] kalloc_new [of "demo_before\<lparr>km_heap := h, km_mem := m\<rparr>", OF _ blk] n1(7) by auto
  note n2 = new_pageD [OF 2]
  define mem where "mem = write_bytes (write_bytes m' (uint p) demo_two) (uint q) (bytes ''a.nes'' @ [0])"
  let ?s = "demo_before\<lparr>km_heap := h', km_mem := mem\<rparr>"
  have live: "p \<in> live h'" "q \<in> live h'" "p \<noteq> q" using n1(4) n2(2,4) by auto
  have two: "mem (uint p + k) = literal 0 demo_two k" if "0 \<le> k" "k < 64" for k
  proof -
    have "uint p + k \<notin> page_range q" using page_offset [OF that(1) _ n1(3) n2(3) live(3)] that(2) by simp
    then have "mem (uint p + k) = write_bytes m' (uint p) demo_two (uint p + k)"
      by (auto simp: mem_def write_bytes_def overlay_def page_range_def bytes_def)
    then show ?thesis using that by (simp add: write_bytes_def overlay_def literal_def demo_two_facts(1))
  qed
  have ok: "pool_ok (km_heap ?s)" "p \<in> live (km_heap ?s)" using n2(7) live by simp_all
  have addr: "uint (entry_address p 0) = uint p" "uint (entry_address p 1) = uint p + 32"
    using entry_address_uint [OF ok, of 0] entry_address_uint [OF ok, of 1] by simp_all
  have name: "dos_name mem (uint p) = dos_name (literal 0 demo_two) 0" "dos_name mem (uint p + 32) = dos_name (literal 0 demo_two) 32"
    unfolding dos_name_shift [of mem] dos_name_shift [of "literal 0 demo_two"] add.assoc
    by (intro dos_name_cong, simp add: two)+
  have item: "item_at mem (uint p) = item_at (literal 0 demo_two) 0" "item_at mem (uint p + 32) = item_at (literal 0 demo_two) 32"
    unfolding item_at_shift [of mem] item_at_shift [of "literal 0 demo_two"] add.assoc
    by (intro item_at_cong, simp add: two)+
  have "cstr mem (uint q) (bytes ''a.nes'')" unfolding mem_def by (rule cstr_write) (simp add: bytes_def)
  then have "searchable ?s p q (bytes ''a.nes'')"
    using n2(7) live by (simp add: searchable_def bytes_def del: cstr.simps)
  moreover have "entry_matches ?s p (bytes ''a.nes'') 0 \<and> entry_matches ?s p (bytes ''a.nes'') 1"
    unfolding entry_matches_def addr by (simp add: name demo_two_facts)
  moreover have "is_file ?s p 0 \<and> is_file ?s p 1" unfolding is_file_def addr by (simp add: item demo_two_facts)
  moreover have "4 \<le> avail (km_heap ?s)" using n1(5) n2(5) demo_heap(2) by (simp add: demo_before_def)
  ultimately show ?thesis by blast
qed

theorem find_item_returns_last_witness:
  "\<exists>s name dir r s' A. fat16_find_item_in_directory demo_ata dir name s = Some (r, s') \<and>
     live (km_heap s') = live (km_heap s) \<union> A \<and> A \<inter> live (km_heap s) = {} \<and> card A = 4"
proof -
  obtain s p q where s: "searchable s p q (bytes ''a.nes'')" "entry_matches s p (bytes ''a.nes'') 0" "entry_matches s p (bytes ''a.nes'') 1"
    "is_file s p 0" "is_file s p 1" "4 \<le> avail (km_heap s)" using demo_search by blast
  let ?dir = "\<lparr>dir_item = p, dir_total = 2, sector_pos = 2, ending_sector_pos = 3\<rparr>"
  have "[0, 1] = filter (entry_matches s (dir_item ?dir) (bytes ''a.nes'')) [0 ..< nat (dir_total ?dir)]"
    using s by (simp add: numeral_2_eq_2)
  from find_item_returns_last [of s ?dir q, OF _ _ this, of demo_ata] s obtain r s' A where
    "fat16_find_item_in_directory demo_ata ?dir q s = Some (r, s')"
    "live (km_heap s') = live (km_heap s) \<union> A" "A \<inter> live (km_heap s) = {}" "card A = 4"
    by auto
  then show ?thesis by blast
qed


end
