(* ===== verification/TaskProps.thy ===== *)
theory TaskProps
  imports Task FsClaims
begin

text \<open>
  The list of tasks: the invariant of a doubly linked list, what making, freeing and choosing tasks does to
  it, and the address space and registers of a new task.
\<close>

subsection \<open>The invariant\<close>

text \<open>Following \<open>f\<close> from \<open>p\<close> visits \<open>xs\<close> and arrives at \<open>q\<close>.\<close>

primrec links :: "(u32 \<Rightarrow> u32) \<Rightarrow> u32 \<Rightarrow> u32 list \<Rightarrow> u32 \<Rightarrow> bool" where
  "links f p [] q \<longleftrightarrow> p = q"
| "links f p (x # xs) q \<longleftrightarrow> p = x \<and> links f (f x) xs q"

lemma links_append [simp]: "links f p (xs @ ys) q \<longleftrightarrow> (\<exists>r. links f p xs r \<and> links f r ys q)"
  by (induction xs arbitrary: p) simp_all

lemma links_cong: "(\<And>x. x \<in> set xs \<Longrightarrow> f x = g x) \<Longrightarrow> links f p xs q = links g p xs q"
  by (induction xs arbitrary: p) auto

lemma links_hd: "links f p xs q \<Longrightarrow> xs \<noteq> [] \<Longrightarrow> p = hd xs"
  by (cases xs) simp_all

lemma links_zero: "links f p xs 0 \<Longrightarrow> 0 \<notin> set xs \<Longrightarrow> p = 0 \<longleftrightarrow> xs = []"
  by (cases xs) auto

abbreviation next_of :: "'a task_sys_scheme \<Rightarrow> u32 \<Rightarrow> u32" where
  "next_of s \<equiv> \<lambda>p. task_next (ts_tasks s p)"

abbreviation prev_of :: "'a task_sys_scheme \<Rightarrow> u32 \<Rightarrow> u32" where
  "prev_of s \<equiv> \<lambda>p. task_prev (ts_tasks s p)"

text \<open>The list of tasks, read forwards.\<close>

definition forward_list :: "'a task_sys_scheme \<Rightarrow> u32 list \<Rightarrow> bool" where
  "forward_list s xs \<longleftrightarrow> links (next_of s) (task_head s) xs 0 \<and>
     task_tail s = (if xs = [] then 0 else last xs) \<and> distinct xs \<and> 0 \<notin> set xs"

definition task_list :: "'a task_sys_scheme \<Rightarrow> u32 list \<Rightarrow> bool" where
  "task_list s xs \<longleftrightarrow> forward_list s xs \<and> links (prev_of s) (task_tail s) (rev xs) 0 \<and> set xs \<subseteq> live (sys_heap s)"

lemma task_list_ends:
  assumes "task_list s xs"
  shows "task_head s = (if xs = [] then 0 else hd xs)" "task_head s = 0 \<longleftrightarrow> xs = []" "xs \<noteq> [] \<Longrightarrow> task_tail s \<in> live (sys_heap s)"
  using assms links_hd [of "next_of s" "task_head s" xs 0] links_zero [of "next_of s" "task_head s" xs]
  by (auto simp: task_list_def forward_list_def)

subsection \<open>Making a task\<close>

text \<open>The state after a successful \<open>task_new\<close>: \<open>ps\<close> are the pages of the new address space.\<close>

definition adds_task :: "u32 \<Rightarrow> 'a task_sys_scheme \<Rightarrow> u32 \<Rightarrow> u32 \<Rightarrow> u32 list \<Rightarrow> 'a task_sys_scheme \<Rightarrow> bool" where
  "adds_task process s t chunk ps s' \<longleftrightarrow> fresh_pages (t # ps) (sys_heap s) (sys_heap s') \<and>
     (\<exists>d ts. length ts = 1024 \<and> ps = d # ts @ [chunk] \<and> ts_tables s' chunk = d \<and> identity_tables 5 (ts_tables s') d ts) \<and>
     (\<forall>a. page_of a \<notin> set ps \<longrightarrow> ts_tables s' a = ts_tables s a) \<and>
     ts_tasks s' t = \<lparr>page_directory = chunk,
       task_registers = zero_task_regs\<lparr>reg_ip := 0x400000, reg_ss := 0x23, reg_esp := 0x3FF000\<rparr>,
       task_process = process, task_next = 0, task_prev = (if task_head s = 0 then 0 else task_tail s)\<rparr> \<and>
     (\<forall>p. p \<noteq> t \<longrightarrow> ts_tasks s' p = (if task_head s \<noteq> 0 \<and> p = task_tail s then (ts_tasks s p)\<lparr>task_next := t\<rparr> else ts_tasks s p)) \<and>
     task_head s' = (if task_head s = 0 then t else task_head s) \<and> task_tail s' = t \<and> current_task s' = current_task s \<and>
     ts_mmu s' = ts_mmu s \<and> task_sys.more s' = task_sys.more s \<and>
     (\<forall>a. a \<notin> page_range t \<longrightarrow> km_mem (vf_mem (ts_vfs s')) a = km_mem (vf_mem (ts_vfs s)) a)"

lemma task_new_spec:
  assumes "pool_ok (sys_heap s)" and "1027 \<le> avail (sys_heap s)" and "task_tail s \<notin> live (sys_heap s) \<longrightarrow> task_head s = 0"
  shows "\<exists>t chunk ps s'. task_new process s = (t, s') \<and> adds_task process s t chunk ps s'"
proof -
  have small: "one_block 64" by (simp add: one_block_def)
  obtain t h1 m1 where 1: "kalloc 64 (vf_mem (ts_vfs s)) = (t, (vf_mem (ts_vfs s))\<lparr>km_heap := h1, km_mem := m1\<rparr>)"
    "new_page 64 (sys_heap s) (km_mem (vf_mem (ts_vfs s))) t h1 m1"
    using kalloc_new [OF assms(1) small] assms(2) by auto
  note n1 = new_pageD [OF 1(2)]
  have "0 < avail (sys_heap s)" using assms(2) by simp
  from kalloc_spec(9) [OF assms(1) small this 1(1)] have mem: "\<forall>a. a \<notin> page_range t \<longrightarrow> m1 a = km_mem (vf_mem (ts_vfs s)) a" by simp
  obtain chunk h2 m2 where 2: "paging_new_4gb 5 h1 (ts_tables s) = (chunk, h2, m2)" by (cases "paging_new_4gb 5 h1 (ts_tables s)")
  have "1026 \<le> avail h1" using n1(5) assms(2) by simp
  from paging_new_4gb_pages [OF n1(7) this 2] obtain d ts where p: "length ts = 1024" "fresh_pages (d # ts @ [chunk]) h1 h2"
    "identity_tables 5 m2 d ts" "m2 chunk = d" "\<forall>a. page_of a \<notin> set (d # ts @ [chunk]) \<longrightarrow> m2 a = ts_tables s a" by blast
  have c: "chunk \<noteq> 0" using p(2) by (auto simp: fresh_pages_def)
  have "fresh_pages [t] (sys_heap s) h1" using n1 by (simp add: fresh_pages_def grows_def)
  from fresh_pages_append [OF this p(2)] have fresh: "fresh_pages (t # d # ts @ [chunk]) (sys_heap s) h2" by simp
  have tail: "task_head s \<noteq> 0 \<Longrightarrow> task_tail s \<noteq> t" using assms(3) n1(2) by auto
  have or5: "(1 :: u8) OR 4 = 5" by simp
  let ?n = "\<lambda>q. \<lparr>page_directory = chunk, task_registers = zero_task_regs\<lparr>reg_ip := 0x400000, reg_ss := 0x23, reg_esp := 0x3FF000\<rparr>,
    task_process = process, task_next = 0, task_prev = q\<rparr>"
  let ?s = "s\<lparr>ts_vfs := (ts_vfs s)\<lparr>vf_mem := (vf_mem (ts_vfs s))\<lparr>km_mem := m1, km_heap := h2\<rparr>\<rparr>, ts_tables := m2\<rparr>"
  note run = task_new_def sys_kzalloc_def task_init_def with_heap_def upd_task_def task_new_out_def Let_def zero_task_def PEACHOS_ALL_OK_def
  show ?thesis
  proof (cases "task_head s = 0")
    case True
    let ?s' = "?s\<lparr>ts_tasks := (ts_tasks s)(t := ?n 0), task_head := t, task_tail := t\<rparr>"
    have "task_new process s = (t, ?s')"
      by (simp add: run 1(1) n1(1) 2 c or5 True)
    moreover have "adds_task process s t chunk (d # ts @ [chunk]) ?s'"
      using fresh p(1,3-5) mem by (simp add: adds_task_def True)
    ultimately show ?thesis by blast
  next
    case False
    let ?s' = "?s\<lparr>ts_tasks := (ts_tasks s)(task_tail s := (ts_tasks s (task_tail s))\<lparr>task_next := t\<rparr>, t := ?n (task_tail s)), task_tail := t\<rparr>"
    have "task_new process s = (t, ?s')"
      using tail by (simp add: run 1(1) n1(1) 2 c or5 False fun_upd_twist)
    moreover have "adds_task process s t chunk (d # ts @ [chunk]) ?s'"
      using fresh p(1,3-5) mem tail False by (simp add: adds_task_def)
    ultimately show ?thesis by blast
  qed
qed

lemma adds_task_list:
  assumes "task_list s xs" and "adds_task process s t chunk ps s'"
  shows "task_list s' (xs @ [t])" and "t \<notin> set xs"
proof -
  note l = assms(1) [unfolded task_list_def forward_list_def] and a = assms(2) [unfolded adds_task_def]
  have fresh: "t \<notin> live (sys_heap s)" "t \<noteq> 0" "t \<in> live (sys_heap s')" "live (sys_heap s) \<subseteq> live (sys_heap s')"
    using a by (auto simp: fresh_pages_def)
  show t: "t \<notin> set xs" using fresh(1) l by auto
  have nt: "next_of s' t = 0" "prev_of s' t = (if xs = [] then 0 else task_tail s)" "task_tail s' = t"
    "task_head s' = (if xs = [] then t else task_head s)"
    using a task_list_ends(2) [OF assms(1)] by (simp_all add: arg_cong [of "ts_tasks s' t", of _ task_next] arg_cong [of "ts_tasks s' t", of _ task_prev])
  have other: "ts_tasks s' p = (if xs \<noteq> [] \<and> p = last xs then (ts_tasks s p)\<lparr>task_next := t\<rparr> else ts_tasks s p)" if "p \<noteq> t" for p
    using a that l task_list_ends(2) [OF assms(1)] by auto
  have "links (next_of s') (task_head s') (xs @ [t]) 0"
  proof (cases xs rule: rev_cases)
    case (snoc ys y)
    have "next_of s' x = next_of s x" if "x \<in> set ys" for x
    proof -
      have "x \<noteq> t" "x \<noteq> last xs" using that t snoc l by auto
      then show ?thesis using other by simp
    qed
    then have "links (next_of s') p ys y = links (next_of s) p ys y" for p by (rule links_cong)
    then show ?thesis using snoc l nt t other [of y] by auto
  qed (use nt in simp)
  moreover have "links (prev_of s') (task_tail s) (rev xs) 0"
  proof -
    have "prev_of s' x = prev_of s x" if "x \<in> set (rev xs)" for x
    proof -
      have "x \<noteq> t" using that t by auto
      then show ?thesis using other [of x] by simp
    qed
    then have "links (prev_of s') (task_tail s) (rev xs) 0 = links (prev_of s) (task_tail s) (rev xs) 0" by (rule links_cong)
    with l show ?thesis by blast
  qed
  ultimately show "task_list s' (xs @ [t])"
    using l nt t fresh by (auto simp: task_list_def forward_list_def)
qed

subsection \<open>Removing a task\<close>

lemma prev_in_list: "task_list s (as @ x # bs) \<Longrightarrow> prev_of s x = (if as = [] then 0 else last as)"
  by (auto simp: task_list_def hd_rev dest: links_hd)

lemma task_list_remove_tasks:
  "ts_tasks (task_list_remove x s) = (if prev_of s x = 0 then ts_tasks s
     else (ts_tasks s)(prev_of s x := (ts_tasks s (prev_of s x))\<lparr>task_next := next_of s x\<rparr>))"
  by (simp add: task_list_remove_def upd_task_def Let_def)

lemma task_list_remove_ends:
  assumes "prev_of s x \<noteq> x"
  shows "task_head (task_list_remove x s) = (if x = task_head s then next_of s x else task_head s)"
    "task_tail (task_list_remove x s) = (if x = task_tail s then prev_of s x else task_tail s)"
    "sys_heap (task_list_remove x s) = sys_heap s" "ts_tables (task_list_remove x s) = ts_tables s"
  using assms by (auto simp: task_list_remove_def upd_task_def Let_def)

lemma remove_forward:
  assumes "forward_list s (as @ x # bs)" and "prev_of s x = (if as = [] then 0 else last as)"
  shows "forward_list (task_list_remove x s) (as @ bs)"
proof -
  note f = assms(1) [unfolded forward_list_def]
  have x: "x \<noteq> 0" "x \<notin> set as" "x \<notin> set bs" using f by auto
  have la: "last as \<noteq> x \<and> last as \<noteq> 0 \<and> last as \<notin> set bs" if "as \<noteq> []" using last_in_set [OF that] x(2) f by auto
  then have px: "prev_of s x \<noteq> x" "as \<noteq> [] \<Longrightarrow> prev_of s x \<noteq> 0"
    using assms(2) x(1) by (cases "as = []"; simp)+
  let ?s = "task_list_remove x s"
  have path: "links (next_of s) (task_head s) as x" "links (next_of s) (next_of s x) bs 0" using f by auto
  have tail: "x = task_tail s \<longleftrightarrow> bs = []" using f x(3) by auto
  have head: "x = task_head s \<longleftrightarrow> as = []" using path(1) x(2) links_hd [OF path(1)] by (cases as) auto
  have "links (next_of ?s) (next_of s x) bs 0 = links (next_of s) (next_of s x) bs 0"
    by (rule links_cong) (use assms(2) la in \<open>auto simp: task_list_remove_tasks\<close>)
  moreover have "links (next_of ?s) (task_head ?s) as (next_of s x)"
  proof (cases as rule: rev_cases)
    case Nil
    then show ?thesis using head task_list_remove_ends(1) [OF px(1)] by simp
  next
    case (snoc ys y)
    have "links (next_of ?s) (task_head s) ys y = links (next_of s) (task_head s) ys y"
      by (rule links_cong) (use assms(2) f snoc in \<open>auto simp: task_list_remove_tasks\<close>)
    then show ?thesis
      using path(1) snoc head assms(2) px by (simp add: task_list_remove_ends task_list_remove_tasks)
  qed
  moreover have "task_tail ?s = (if as @ bs = [] then 0 else last (as @ bs))"
    using f tail assms(2) task_list_remove_ends(2) [OF px(1)] by (cases "bs = []") simp_all
  ultimately show ?thesis using f path(2) by (auto simp: forward_list_def)
qed

text \<open>Removing the last task keeps the whole invariant.\<close>

lemma remove_last:
  assumes "task_list s (xs @ [x])" and "set xs \<subseteq> live (sys_heap (task_list_remove x s))"
  shows "task_list (task_list_remove x s) xs"
proof -
  note l = assms(1) [unfolded task_list_def]
  have p: "prev_of s x = (if xs = [] then 0 else last xs)" using prev_in_list [of s xs x "[]"] assms(1) by simp
  have f: "forward_list (task_list_remove x s) xs" using remove_forward [of s xs x "[]"] l p by simp
  have x: "x \<notin> set xs" "x \<noteq> 0" using l by (auto simp: forward_list_def)
  have "x = task_tail s" using l by (simp add: forward_list_def)
  moreover have "prev_of s x \<noteq> x" using p x last_in_set [of xs] by auto
  ultimately have "task_tail (task_list_remove x s) = prev_of s x" by (simp add: task_list_remove_ends)
  moreover have "links (prev_of (task_list_remove x s)) (prev_of s x) (rev xs) 0 = links (prev_of s) (prev_of s x) (rev xs) 0"
    by (rule links_cong) (simp add: task_list_remove_tasks)
  ultimately show ?thesis using l f assms(2) by (simp add: task_list_def)
qed

subsection \<open>Freeing a task\<close>

lemma with_heap_fields [simp]:
  "ts_tasks (with_heap h s) = ts_tasks s" "task_head (with_heap h s) = task_head s" "task_tail (with_heap h s) = task_tail s"
  "current_task (with_heap h s) = current_task s" "ts_tables (with_heap h s) = ts_tables s" "sys_heap (with_heap h s) = h"
  by (simp_all add: with_heap_def)

lemma with_heap_commute:
  "upd_task p f (with_heap h s) = with_heap h (upd_task p f s)"
  "(with_heap h s)\<lparr>task_head := t\<rparr> = with_heap h (s\<lparr>task_head := t\<rparr>)"
  "(with_heap h s)\<lparr>task_tail := t\<rparr> = with_heap h (s\<lparr>task_tail := t\<rparr>)"
  "(with_heap h s)\<lparr>current_task := t\<rparr> = with_heap h (s\<lparr>current_task := t\<rparr>)"
  "task_get_next (with_heap h s) = task_get_next s"
  by (simp_all add: upd_task_def with_heap_def task_get_next_def)

lemma if_with_heap: "(if b then with_heap h u else with_heap h v) = with_heap h (if b then u else v)"
  by simp

lemma remove_with_heap: "task_list_remove x (with_heap h s) = with_heap h (task_list_remove x s)"
  unfolding task_list_remove_def Let_def
  by (simp only: with_heap_fields with_heap_commute if_with_heap)

lemma with_heap_twice [simp]: "with_heap h (with_heap h' s) = with_heap h s"
  by (simp add: with_heap_def)

lemma task_free_eq:
  "task_free x s =
     (0, with_heap (kfree (paging_free_4gb (page_directory (ts_tasks s x)) (ts_tables s) (sys_heap s)) x) (task_list_remove x s))"
  by (simp add: task_free_def sys_kfree_def remove_with_heap)

lemma task_free_list:
  "ts_tasks (snd (task_free x s)) = ts_tasks (task_list_remove x s)"
  "task_head (snd (task_free x s)) = task_head (task_list_remove x s)"
  "task_tail (snd (task_free x s)) = task_tail (task_list_remove x s)"
  by (simp_all add: task_free_eq)

lemma remove_heap [simp]: "sys_heap (task_list_remove x s) = sys_heap s"
  by (simp add: task_list_remove_def upd_task_def Let_def)

lemma task_free_heap:
  assumes "page_directory (ts_tasks s x) = chunk"
  shows "sys_heap (snd (task_free x s)) = kfree (paging_free_4gb chunk (ts_tables s) (sys_heap s)) x"
  by (simp add: task_free_eq assms)

lemma forward_list_free: "forward_list (snd (task_free x s)) xs = forward_list (task_list_remove x s) xs"
  by (simp add: forward_list_def task_free_list)

text \<open>Freeing the pages of a new task.\<close>

lemma free_added:
  assumes "adds_task process s t chunk ps s'"
  shows "pool_ok (sys_heap (snd (task_free t s')))" "live (sys_heap (snd (task_free t s'))) = live (sys_heap s)"
proof -
  note a = assms [unfolded adds_task_def]
  obtain d ts where d: "length ts = 1024" "ps = d # ts @ [chunk]" "ts_tables s' chunk = d" "identity_tables 5 (ts_tables s') d ts"
    using a by blast
  have fresh: "fresh_pages (t # d # ts @ [chunk]) (sys_heap s) (sys_heap s')" using a d(2) by simp
  note f = fresh [unfolded fresh_pages_def]
  have pages: "\<forall>p \<in> set ts. page p" using f by simp
  have "page_directory (ts_tasks s' t) = chunk" using a by simp
  from task_free_heap [OF this]
  have heap: "sys_heap (snd (task_free t s')) = fold (\<lambda>p h. kfree h p) (ts @ [d, chunk, t]) (sys_heap s')"
    by (simp add: paging_free_tables [OF d(4,1) pages d(3)])
  have "set (ts @ [d, chunk, t]) \<subseteq> live (sys_heap s')" "distinct (ts @ [d, chunk, t])" "pool_ok (sys_heap s')"
    "live (sys_heap s') - set (ts @ [d, chunk, t]) = live (sys_heap s)"
    using f by auto
  then show "pool_ok (sys_heap (snd (task_free t s')))" "live (sys_heap (snd (task_free t s'))) = live (sys_heap s)"
    using kernel_pages.release_many [of "sys_heap s'" "ts @ [d, chunk, t]"] unfolding heap by simp_all
qed

subsection \<open>A system with tasks\<close>

definition demo_tasks :: task_sys where
  "demo_tasks = \<lparr>ts_vfs = demo_kernel, ts_tables = (\<lambda>_. 0), ts_mmu = \<lparr>cr3 = 0, current_directory = 0\<rparr>, data_segment = 0x10,
     ts_tasks = (\<lambda>_. zero_task), current_task = 0, task_tail = 0, task_head = 0\<rparr>"

lemma demo_tasks_start: "task_list demo_tasks []" "pool_ok (sys_heap demo_tasks)" "avail (sys_heap demo_tasks) = 25600"
  using demo_heap by (simp_all add: demo_tasks_def task_list_def forward_list_def) (simp add: demo_kernel_def kheap_init_avail)

lemma demo_tasks_many:
  "n \<le> 3 \<Longrightarrow> \<exists>(s :: task_sys) xs. task_list s xs \<and> length xs = n \<and> pool_ok (sys_heap s) \<and> avail (sys_heap s) + n * 1027 = 25600"
proof (induction n)
  case 0
  then show ?case using demo_tasks_start by fastforce
next
  case (Suc n)
  then obtain s :: task_sys and xs where s: "task_list s xs" "length xs = n" "pool_ok (sys_heap s)" "avail (sys_heap s) + n * 1027 = 25600"
    by auto
  have "1027 \<le> avail (sys_heap s)" using s(4) Suc.prems by simp
  moreover have "task_tail s \<notin> live (sys_heap s) \<longrightarrow> task_head s = 0" using task_list_ends [OF s(1)] by blast
  ultimately obtain t chunk ps s' where n: "adds_task 0 s t chunk ps s'" using task_new_spec [OF s(3)] by blast
  have "length (t # ps) = 1027" using n by (auto simp: adds_task_def)
  then have "pool_ok (sys_heap s')" "avail (sys_heap s') + 1027 = avail (sys_heap s)"
    using n by (auto simp: adds_task_def fresh_pages_def)
  then show ?case using adds_task_list(1) [OF s(1) n] s(2,4) by (intro exI [of _ s'] exI [of _ "xs @ [t]"]) simp
qed

lemma demo_three_tasks: "\<exists>(s :: task_sys) p x y. task_list s [p, x, y]"
proof -
  obtain s :: task_sys and xs where "task_list s xs" "length xs = 3" using demo_tasks_many [of 3] by auto
  moreover from this(2) obtain p x y where "xs = [p, x, y]" by (auto simp: length_Suc_conv numeral_3_eq_3)
  ultimately show ?thesis by blast
qed

subsection \<open>Properties\<close>

text \<open>
  Claim C11.  Making a task: with 1027 free blocks \<open>task_new\<close> succeeds, appends the task to the list, gives it an
  address space of its own that maps every page to itself with the flags for user access, and sets its
  entry point, stack and data segment.  The code segment stays 0, a null selector, with which the return to
  user mode in \<open>task_return\<close> cannot succeed.
\<close>

theorem task_new_appends:
  assumes "pool_ok (sys_heap s)" and "1027 \<le> avail (sys_heap s)" and "task_list s xs"
  shows "\<exists>t s'. task_new process s = (t, s') \<and> t \<notin> live (sys_heap s) \<and> task_list s' (xs @ [t]) \<and>
    (\<forall>va. walk (ts_tables s') (paging_4gb_chunk_get_directory (ts_tables s') (page_directory (ts_tasks s' t))) va =
       page_of va OR 5) \<and>
    task_process (ts_tasks s' t) = process \<and>
    task_registers (ts_tasks s' t) = zero_task_regs\<lparr>reg_ip := 0x400000, reg_ss := 0x23, reg_esp := 0x3FF000\<rparr> \<and>
    reg_cs (task_registers (ts_tasks s' t)) = 0"
proof -
  have "task_tail s \<notin> live (sys_heap s) \<longrightarrow> task_head s = 0" using task_list_ends [OF assms(3)] by blast
  from task_new_spec [OF assms(1,2) this] obtain t chunk ps s' where
    n: "task_new process s = (t, s')" "adds_task process s t chunk ps s'" by blast
  note a = n(2) [unfolded adds_task_def]
  obtain d ts where d: "length ts = 1024" "ps = d # ts @ [chunk]" "ts_tables s' chunk = d" "identity_tables 5 (ts_tables s') d ts"
    using a by blast
  have "\<forall>p \<in> set ts. page p" "t \<notin> live (sys_heap s)" using a d(2) by (auto simp: fresh_pages_def)
  moreover have "walk (ts_tables s') d va = page_of va OR 5" for va
    using identity_walk [OF d(4,1) calculation(1)] by simp
  ultimately show ?thesis
    using n adds_task_list [OF assms(3) n(2)] d(3) a
    by (intro exI [of _ t] exI [of _ s']) (simp add: paging_4gb_chunk_get_directory_def zero_task_regs_def)
qed

theorem task_new_appends_witness:
  "\<exists>t s'. task_new 0x77 demo_tasks = (t, s') \<and> task_list s' [t] \<and>
     walk (ts_tables s') (paging_4gb_chunk_get_directory (ts_tables s') (page_directory (ts_tasks s' t))) 0x400123 = 0x400005"
proof -
  have "page_of 0x400123 OR 5 = 0x400005" by (simp add: page_of_def)
  then show ?thesis using task_new_appends [OF demo_tasks_start(2) _ demo_tasks_start(1), of "0x77"] demo_tasks_start(3) by fastforce
qed

text \<open>
  Claim C12.  Freeing the task that was made last undoes \<open>task_new\<close>: the list of tasks is the one from before,
  and so are the allocated blocks, those of the 1026 pages of the address space among them.
\<close>

theorem task_new_free:
  assumes "pool_ok (sys_heap s)" and "1027 \<le> avail (sys_heap s)" and "task_list s xs"
  shows "task_list (snd (task_free (fst (task_new process s)) (snd (task_new process s)))) xs \<and>
    live (sys_heap (snd (task_free (fst (task_new process s)) (snd (task_new process s))))) = live (sys_heap s) \<and>
    pool_ok (sys_heap (snd (task_free (fst (task_new process s)) (snd (task_new process s)))))"
proof -
  have "task_tail s \<notin> live (sys_heap s) \<longrightarrow> task_head s = 0" using task_list_ends [OF assms(3)] by blast
  from task_new_spec [OF assms(1,2) this] obtain t chunk ps s' where
    n: "task_new process s = (t, s')" "adds_task process s t chunk ps s'" by blast
  note l = adds_task_list(1) [OF assms(3) n(2)] and h = free_added [OF n(2)]
  have "set (xs @ [t]) \<subseteq> live (sys_heap s')" using l by (simp add: task_list_def)
  then have "task_list (task_list_remove t s') xs" using remove_last [OF l] by simp
  then have "task_list (snd (task_free t s')) xs"
    using assms(3) unfolding task_list_def forward_list_def task_free_list h(2) by blast
  then show ?thesis using h by (simp add: n(1))
qed

theorem task_new_free_witness:
  "live (sys_heap (snd (task_free (fst (task_new 0 demo_tasks)) (snd (task_new 0 demo_tasks))))) = {}"
proof -
  have "live (sys_heap demo_tasks) = {}" by (simp add: demo_tasks_def demo_kernel_def kheap_init_live)
  then show ?thesis using task_new_free [OF demo_tasks_start(2) _ demo_tasks_start(1), of 0] demo_tasks_start(3) by simp
qed

text \<open>
  Tasks take turns: on a well-formed list \<open>task_get_next\<close> is the task after the current one, and
  after the last one the first.
\<close>

theorem task_get_next_cycles:
  assumes "task_list s (as @ x # bs)" and "current_task s = x"
  shows "task_get_next s = (as @ x # bs) ! (Suc (length as) mod length (as @ x # bs))"
proof -
  note f = assms(1) [unfolded task_list_def forward_list_def]
  have h: "links (next_of s) (task_head s) as x" "links (next_of s) (next_of s x) bs 0" using f by auto
  show ?thesis
  proof (cases bs)
    case Nil
    have "task_head s = hd (as @ [x])" using h(1) by (cases as) auto
    then show ?thesis using Nil h(2) assms(2) by (simp add: task_get_next_def hd_conv_nth)
  next
    case (Cons b bs')
    have "b \<noteq> 0" "next_of s x = b" using f h(2) Cons by auto
    then show ?thesis using Cons assms(2) by (simp add: task_get_next_def nth_append)
  qed
qed

theorem task_get_next_cycles_witness:
  "\<exists>(s :: task_sys) p x y. task_get_next (s\<lparr>current_task := x\<rparr>) = y \<and> task_get_next (s\<lparr>current_task := y\<rparr>) = p \<and> distinct [p, x, y]"
proof -
  obtain s :: task_sys and p x y where s: "task_list s [p, x, y]" using demo_three_tasks by blast
  then have "task_list (s\<lparr>current_task := x\<rparr>) ([p] @ x # [y])" "task_list (s\<lparr>current_task := y\<rparr>) ([p, x] @ y # [])"
    by (simp_all add: task_list_def forward_list_def)
  from task_get_next_cycles [OF this(1)] task_get_next_cycles [OF this(2)]
  have "task_get_next (s\<lparr>current_task := x\<rparr>) = y" "task_get_next (s\<lparr>current_task := y\<rparr>) = p" by simp_all
  moreover have "distinct [p, x, y]" using s by (simp add: task_list_def forward_list_def)
  ultimately show ?thesis by blast
qed

text \<open>
  Claim C28.  Freeing a task takes it out of the list read forwards, but the task after it keeps its pointer to
  the freed task.  Freeing that next task then writes through the freed one and leaves itself, freed, in the
  list: the task before the two still links to it.
\<close>

theorem freeing_neighbours_corrupts_list:
  assumes "task_list s (as @ [p, x, y] @ bs)"
  shows "forward_list (snd (task_free x s)) (as @ [p, y] @ bs) \<and>
    task_prev (ts_tasks (snd (task_free x s)) y) = x \<and>
    task_next (ts_tasks (snd (task_free y (snd (task_free x s)))) p) = y"
proof -
  note l = assms [unfolded task_list_def]
  have ne: "p \<noteq> x" "p \<noteq> y" "x \<noteq> y" "p \<noteq> 0" "x \<noteq> 0" using l by (auto simp: forward_list_def)
  have px: "prev_of s x = p" "prev_of s y = x" "next_of s x = y"
    using prev_in_list [of s "as @ [p]" x "y # bs"] prev_in_list [of s "as @ [p, x]" y bs] assms l by (auto simp: forward_list_def)
  have "forward_list (snd (task_free x s)) (as @ [p, y] @ bs)"
    unfolding forward_list_free using remove_forward [of s "as @ [p]" x "y # bs"] l px(1) by simp
  moreover have tasks: "ts_tasks (snd (task_free x s)) = (ts_tasks s)(p := (ts_tasks s p)\<lparr>task_next := y\<rparr>)"
    by (simp add: task_free_list task_list_remove_tasks px ne)
  moreover have "prev_of (snd (task_free x s)) y = x" using ne px by (simp add: tasks)
  ultimately show ?thesis using ne by (simp add: task_free_list(1) [of y] task_list_remove_tasks)
qed

theorem freeing_neighbours_corrupts_list_witness:
  "\<exists>(s :: task_sys) p x y. task_list s [p, x, y] \<and> task_next (ts_tasks (snd (task_free y (snd (task_free x s)))) p) = y"
proof -
  obtain s :: task_sys and p x y where "task_list s [p, x, y]" using demo_three_tasks by blast
  then show ?thesis using freeing_neighbours_corrupts_list [of s "[]" p x y "[]"] by auto
qed

end
