(* ===== verification/Process.thy ===== *)
theory Process
  imports TaskProps
begin

text \<open>
  Processes: \<open>src/task/process.c\<close>.  A process is a structure on the kernel heap whose file name is in the
  bytes of memory behind its first two bytes and whose other fields are in a store.  \<open>None\<close> is a call of the
  file system that does not return, the use of the uninitialised variable \<open>_process\<close>, or a write outside of
  the array of processes.  \<open>mode_r\<close> is the address of the literal \<open>r\<close>.
\<close>

(* src/src/task/process.h 7-28 process *)
record process =
  pr_id :: u16
  pr_task :: u32
  pr_allocations :: "u32 list"
  pr_ptr :: u32
  pr_stack :: u32
  pr_size :: u32

abbreviation PEACHOS_MAX_PROCESSES :: nat where "PEACHOS_MAX_PROCESSES \<equiv> 12"
abbreviation (input) PEACHOS_USER_PROGRAM_STACK_SIZE :: u32 where "PEACHOS_USER_PROGRAM_STACK_SIZE \<equiv> 1024 * 16"
abbreviation (input) sizeof_process :: u32 where "sizeof_process \<equiv> 4224"

definition zero_process :: process where
  "zero_process = \<lparr>pr_id = 0, pr_task = 0, pr_allocations = replicate 1024 0, pr_ptr = 0, pr_stack = 0, pr_size = 0\<rparr>"

(* src/src/task/process.c 14-17 current_process, processes *)
record system = task_sys +
  sy_procs :: "u32 \<Rightarrow> process"
  processes :: "u32 list"
  current_process :: u32

definition upd_proc :: "u32 \<Rightarrow> (process \<Rightarrow> process) \<Rightarrow> system \<Rightarrow> system" where
  "upd_proc p f s = s\<lparr>sy_procs := (sy_procs s)(p := f (sy_procs s p))\<rparr>"

definition with_mem :: "memory \<Rightarrow> system \<Rightarrow> system" where
  "with_mem m s = s\<lparr>ts_vfs := (ts_vfs s)\<lparr>vf_mem := (vf_mem (ts_vfs s))\<lparr>km_mem := m\<rparr>\<rparr>\<rparr>"

abbreviation sys_mem :: "'a task_sys_scheme \<Rightarrow> memory" where
  "sys_mem s \<equiv> km_mem (vf_mem (ts_vfs s))"

(* src/src/task/process.c 19-21 process_init *)
definition process_init :: "u32 \<Rightarrow> system \<Rightarrow> system" where
  "process_init p s = upd_proc p (\<lambda>_. zero_process) (with_mem (memset (sys_mem s) (uint p) 0 4224) s)"

(* src/src/task/process.c 27-33 process_get *)
definition process_get :: "int \<Rightarrow> system \<Rightarrow> u32" where
  "process_get process_id s =
     (if process_id < 0 \<or> process_id \<ge> int PEACHOS_MAX_PROCESSES then 0 else processes s ! nat process_id)"

subsection \<open>Loading a program\<close>

(* src/src/task/process.c 63-65 process_load_binary: out *)
definition load_binary_out :: "int \<Rightarrow> int \<Rightarrow> system \<Rightarrow> int \<times> system" where
  "load_binary_out fd res s = (let (_, v) = fclose fd (ts_vfs s) in (res, s\<lparr>ts_vfs := v\<rparr>))"

(* src/src/task/process.c 35-66 process_load_binary *)
definition process_load_binary :: "int \<Rightarrow> int \<Rightarrow> u32 \<Rightarrow> system \<Rightarrow> (int \<times> system) option" where
  "process_load_binary mode_r filename process s = do {
     (fd, v) \<leftarrow> fopen filename mode_r (ts_vfs s);
     let s = s\<lparr>ts_vfs := v\<rparr>;
     if fd = 0 then Some (load_binary_out fd (- EIO) s)
     else
       let (res, stat) = fstat fd \<lparr>fst_flags = 0, fst_filesize = 0\<rparr> (ts_vfs s)
       in if res \<noteq> PEACHOS_ALL_OK then Some (load_binary_out fd res s)
          else
            let (program_data_ptr, s) = sys_kzalloc (fst_filesize stat) s
            in if program_data_ptr = 0 then Some (load_binary_out fd (- ENOMEM) s)
               else do {
                 (n, v) \<leftarrow> fread (uint program_data_ptr) (fst_filesize stat) 1 fd (ts_vfs s);
                 let s = s\<lparr>ts_vfs := v\<rparr>;
                 if n \<noteq> 1 then Some (load_binary_out fd (- EIO) s)
                 else Some (load_binary_out fd res
                   (upd_proc process (\<lambda>p. p\<lparr>pr_ptr := program_data_ptr, pr_size := fst_filesize stat\<rparr>) s)) } }"

(* src/src/task/process.c 68-72 process_load_data *)
definition process_load_data :: "int \<Rightarrow> int \<Rightarrow> u32 \<Rightarrow> system \<Rightarrow> (int \<times> system) option" where
  "process_load_data mode_r filename process s = process_load_binary mode_r filename process s"

text \<open>The result of \<open>paging_map_to\<close> is not used.\<close>

(* src/src/task/process.c 74-78 process_map_binary *)
definition process_map_binary :: "u32 \<Rightarrow> system \<Rightarrow> int \<times> system" where
  "process_map_binary process s =
     (let p = sy_procs s process;
          directory = paging_4gb_chunk_get_directory (ts_tables s) (page_directory (ts_tasks s (pr_task p)));
          (_, m) = paging_map_to (ts_tables s) directory PEACHOS_PROGRAM_VIRTUAL_ADDRESS (pr_ptr p)
                     (paging_align_address (pr_ptr p + pr_size p))
                     (ucast (PAGING_IS_PRESENT OR PAGING_ACCESS_FROM_ALL OR PAGING_IS_WRITEABLE))
      in (0, s\<lparr>ts_tables := m\<rparr>))"

(* src/src/task/process.c 80-84 process_map_memory *)
definition process_map_memory :: "u32 \<Rightarrow> system \<Rightarrow> int \<times> system" where
  "process_map_memory process s = process_map_binary process s"

text \<open>
  The exit path.  The second component of the result is what the call wrote to \<open>*process\<close>.
\<close>

(* src/src/task/process.c 140-147 process_load_for_slot: out *)
definition load_for_slot_out :: "u32 \<Rightarrow> int \<Rightarrow> system \<Rightarrow> int \<times> u32 option \<times> system" where
  "load_for_slot_out proc res s =
     (if res < 0 \<and> proc \<noteq> 0 \<and> pr_task (sy_procs s proc) \<noteq> 0
      then let (_, s) = task_free (pr_task (sy_procs s proc)) s in (res, None, s)
      else (res, None, s))"

text \<open>
  A slot that is taken leads to the exit path before \<open>_process\<close> has a value: \<open>None\<close>.  The task's address is
  compared with 0 only, so that an error code of \<open>task_new\<close> is taken for a task.
\<close>

(* src/src/task/process.c 86-148 process_load_for_slot *)
definition process_load_for_slot :: "int \<Rightarrow> int \<Rightarrow> int \<Rightarrow> system \<Rightarrow> (int \<times> u32 option \<times> system) option" where
  "process_load_for_slot mode_r filename process_slot s =
     (if process_get process_slot s \<noteq> 0 then None
      else
        let (proc, s) = sys_kzalloc sizeof_process s
        in if proc = 0 then Some (load_for_slot_out proc (- ENOMEM) s)
           else do {
             let s = process_init proc s;
             (res, s) \<leftarrow> process_load_data mode_r filename proc s;
             if res < 0 then Some (load_for_slot_out proc res s)
             else
               let (program_stack_ptr, s) = sys_kzalloc PEACHOS_USER_PROGRAM_STACK_SIZE s
               in if program_stack_ptr = 0 then Some (load_for_slot_out proc (- ENOMEM) s)
                  else
                    let s = with_mem (strncpy (sys_mem s) (uint proc + 2) filename PEACHOS_MAX_PATH) s;
                        s = upd_proc proc (\<lambda>p. p\<lparr>pr_stack := program_stack_ptr, pr_id := word_of_int process_slot\<rparr>) s;
                        (task, s) = task_new proc s
                    in if task = 0 then Some (load_for_slot_out proc (sint task) s)
                       else
                         let s = upd_proc proc (\<lambda>p. p\<lparr>pr_task := task\<rparr>) s;
                             (res, s) = process_map_memory proc s
                         in if res < 0 then Some (load_for_slot_out proc res s)
                            else if 0 \<le> process_slot \<and> process_slot < int PEACHOS_MAX_PROCESSES
                            then Some (res, Some proc, s\<lparr>processes := (processes s)[nat process_slot := proc]\<rparr>)
                            else None })"

(* src/src/task/process.c 150-160 process_get_free_slot *)
definition process_get_free_slot :: "system \<Rightarrow> int" where
  "process_get_free_slot s =
     (case find (\<lambda>i. processes s ! i = 0) [0 ..< PEACHOS_MAX_PROCESSES] of
        None \<Rightarrow> - EISTKN
      | Some i \<Rightarrow> int i)"

(* src/src/task/process.c 162-178 process_load *)
definition process_load :: "int \<Rightarrow> int \<Rightarrow> system \<Rightarrow> (int \<times> u32 option \<times> system) option" where
  "process_load mode_r filename s =
     (let process_slot = process_get_free_slot s
      in if process_slot < 0 then Some (- EISTKN, None, s)
         else process_load_for_slot mode_r filename process_slot s)"

end
