(* ===== verification/KBlocks.thy ===== *)
theory KBlocks
  imports KMem
begin

text \<open>
  Allocations of several blocks.  A run of \<open>k\<close> free blocks exists as soon as fewer blocks are taken than
  there are disjoint windows of \<open>k\<close> blocks in the pool; the allocator then succeeds, and the blocks it
  hands out lie apart from the pages that are in use.
\<close>

definition taken :: "heap \<Rightarrow> int" where
  "taken h = total_of h - int (avail h)"

text \<open>A window without a taken block, by counting.\<close>

lemma window_fits:
  assumes "0 < k" and "taken h < total_of h div k" and "0 \<le> total_of h"
  shows "\<exists>s. fits (entries_of h) (total_of h) k s"
proof (rule ccontr)
  let ?T = "total_of h"
  let ?I = "{0 ..< ?T div k}" and ?B = "{b. 0 \<le> b \<and> b < ?T \<and> \<not> block_free (entries_of h) b}"
  assume none: "\<nexists>s. fits (entries_of h) ?T k s"
  have "\<exists>b. i * k \<le> b \<and> b < i * k + k \<and> \<not> block_free (entries_of h) b \<and> 0 \<le> b \<and> b < ?T" if i: "i \<in> ?I" for i
  proof -
    have "(i + 1) * k \<le> ?T div k * k" using i assms(1) by (intro mult_right_mono) auto
    moreover have "?T div k * k \<le> ?T" using assms(1) by (simp add: minus_mod_eq_div_mult [symmetric])
    ultimately have "i * k + k \<le> ?T" by (simp add: algebra_simps)
    moreover have "0 \<le> i * k" using i assms(1) by simp
    ultimately show ?thesis using none unfolding fits_def run_free_def by fastforce
  qed
  then obtain f where f: "\<And>i. i \<in> ?I \<Longrightarrow> i * k \<le> f i \<and> f i < i * k + k \<and> f i \<in> ?B" by simp metis
  have window: "f i div k = i" if "i \<in> ?I" for i
  proof -
    have "i * k \<le> f i" "f i < i * k + k" using f [OF that] by blast+
    then show ?thesis by (intro int_div_pos_eq [of _ _ _ "f i - i * k"]) (simp_all add: algebra_simps)
  qed
  have "inj_on f ?I" by (rule inj_onI) (metis window)
  moreover have "f ` ?I \<subseteq> ?B" using f by blast
  moreover have fin: "finite ?B" by (rule finite_subset [of _ "{0 ..< ?T}"]) auto
  ultimately have "card ?I \<le> card ?B" by (rule card_inj_on_le)
  moreover have "{0 ..< ?T} = ?B \<union> free_blocks h" "?B \<inter> free_blocks h = {}" by (auto simp: free_blocks_def)
  then have "card {0 ..< ?T} = card ?B + avail h"
    using card_Un_disjoint [OF fin finite_free_blocks, of h] by (simp only: avail_def)
  then have "nat ?T = card ?B + avail h" by (simp only: card_atLeastLessThan_int diff_zero)
  then have "int (card ?B) = taken h" using assms(3) unfolding taken_def by linarith
  ultimately show False using assms(2) by simp
qed

lemma first_fit_exists:
  assumes "fits e tot k s"
  shows "\<exists>s. first_fit e tot k s"
proof -
  define n where "n = (LEAST n. fits e tot k (int n))"
  have "fits e tot k (int (nat s))" using assms by (simp add: fits_def)
  then have "fits e tot k (int n)" unfolding n_def by (rule LeastI)
  moreover have "int n \<le> t" if "fits e tot k t" for t
  proof -
    have "fits e tot k (int (nat t))" using that by (simp add: fits_def)
    then have "n \<le> nat t" unfolding n_def by (rule Least_le)
    moreover have "0 \<le> t" using that unfolding fits_def by blast
    ultimately show ?thesis by linarith
  qed
  ultimately show ?thesis unfolding first_fit_def by blast
qed

lemma avail_taken_blocks:
  assumes "fits (entries_of h) (total_of h) n s" and "0 < n"
  shows "int (avail (heap_mark_blocks_taken h s n)) = int (avail h) - n"
proof -
  let ?h = "heap_mark_blocks_taken h s n"
  have "free_blocks ?h = free_blocks h - {s ..< s + n}"
    using assms by (auto simp: free_blocks_def block_free_def mark_blocks_taken_entries alloc_entry_def fits_def)
  moreover have "{s ..< s + n} \<subseteq> free_blocks h" using assms(1) by (auto simp: free_blocks_def fits_def run_free_def)
  moreover from this have "card {s ..< s + n} \<le> avail h" unfolding avail_def by (rule card_mono [OF finite_free_blocks])
  ultimately show ?thesis using assms(2) by (simp add: avail_def card_Diff_subset of_nat_diff)
qed

text \<open>The bytes of \<open>k\<close> blocks.\<close>

definition blocks_range :: "u32 \<Rightarrow> int \<Rightarrow> int set" where
  "blocks_range p k = {uint p ..< uint p + k * 4096}"

lemma live_block: "q \<in> live h \<Longrightarrow> \<exists>b. 0 \<le> b \<and> b < total_of h \<and> is_head (entries_of h b) \<and> q = heap_block_to_address h b"
  by (auto simp: live_def live_blocks_def)

text \<open>
  \<open>p\<close> is an allocation of \<open>k\<close> blocks: the heap agrees with one in which that is all.  It stays so whatever else is
  allocated or released.
\<close>

definition block_run :: "heap \<Rightarrow> u32 \<Rightarrow> int \<Rightarrow> bool" where
  "block_run h p k \<longleftrightarrow> (\<exists>h0. pool_ok h0 \<and> keeps h0 h \<and> live h0 = {p} \<and> blocks_range p k \<subseteq> held h0)"

lemma block_runD:
  assumes "block_run h p k"
  shows "p \<in> live h" "blocks_range p k \<subseteq> held h"
  using assms keeps_live keeps_held unfolding block_run_def by blast+

lemma block_run_keeps: "block_run h p k \<Longrightarrow> keeps h h' \<Longrightarrow> block_run h' p k"
  unfolding block_run_def using keeps_trans by blast

lemma block_run_extends: "block_run (km_heap s) p k \<Longrightarrow> extends s s' \<Longrightarrow> block_run (km_heap s') p k"
  by (auto simp: extends_def grows_def intro: block_run_keeps)

lemma block_run_closed:
  fixes s s' :: "'a kmem_scheme"
  assumes "block_run (km_heap s) p k" and "pool_ok (km_heap s)" and "p \<notin> A"
    and "\<And>r :: 'a kmem_scheme. extends r s \<Longrightarrow> A \<inter> live (km_heap r) = {} \<Longrightarrow> extends r s'"
  shows "block_run (km_heap s') p k"
proof -
  obtain h0 where h0: "pool_ok h0" "keeps h0 (km_heap s)" "live h0 = {p}" "blocks_range p k \<subseteq> held h0"
    using assms(1) by (auto simp: block_run_def)
  have "extends (s\<lparr>km_heap := h0\<rparr>) s" using h0(1,2) assms(2) by (simp add: extends_def grows_same)
  then have "extends (s\<lparr>km_heap := h0\<rparr>) s'" using assms(3) h0(3) by (intro assms(4)) auto
  then have "keeps h0 (km_heap s')" by (simp add: extends_def grows_def)
  then show ?thesis using h0 unfolding block_run_def by blast
qed

lemma block_run_taken:
  assumes "pool_ok h" and "fits (entries_of h) (total_of h) k s" and "0 < k"
    and "blocks_range (heap_block_to_address h s) k \<subseteq> pool h"
    and "\<And>g. hp_saddr g = hp_saddr h \<Longrightarrow> (\<And>b. s \<le> b \<Longrightarrow> b < s + k \<Longrightarrow> \<not> block_free (entries_of g) b) \<Longrightarrow> pool g = pool h \<Longrightarrow>
      blocks_range (heap_block_to_address h s) k \<subseteq> held g"
  shows "block_run (heap_mark_blocks_taken h s k) (heap_block_to_address h s) k"
proof -
  let ?g = "with_entries h (\<lambda>_. 0)"
  let ?h0 = "heap_mark_blocks_taken ?g s k" and ?p = "heap_block_to_address h s"
  have p: "heap_block_to_address ?g s = ?p" by (simp add: heap_block_to_address_def)
  have g: "heap_ok ?g" using assms(1) by (simp add: pool_ok_def heap_ok_def table_ok_def entry_ok_def is_head_def is_cont_def has_next_def)
  have fit: "fits (entries_of ?g) (total_of ?g) k s"
    using assms(2) by (simp add: fits_def run_free_def block_free_def heap_get_entry_type_def)
  have "pool_ok ?h0" using heap_ok_mark_taken [OF g fit assms(3)] assms(1) by (simp add: pool_ok_def)
  moreover have "live ?g = {}" by (simp add: live_def live_blocks_def is_head_def)
  then have "live ?h0 = {?p}" using live_mark_taken [OF assms(3) fit] p by simp
  moreover have "blocks_range ?p k \<subseteq> held ?h0"
    by (rule assms(5)) (use assms(2,3) in \<open>auto simp: pool_def block_free_def mark_blocks_taken_entries alloc_entry_def fits_def\<close>)
  moreover have "keeps ?h0 (heap_mark_blocks_taken h s k)"
    using assms(2,3) by (auto simp: keeps_def mark_blocks_taken_entries block_free_def heap_get_entry_type_def fits_def)
  ultimately show ?thesis unfolding block_run_def by blast
qed

lemma kmalloc_blocks:
  assumes ok: "pool_ok h" and sz: "sz \<noteq> 0" "uint sz \<le> 2 ^ 32 - 4096" and room: "taken h < total_of h div blocks_for sz"
  shows "\<exists>p h'. kmalloc h sz = (p, h') \<and> p \<noteq> 0 \<and> p \<notin> live h \<and> page p \<and> pool_ok h' \<and> live h' = insert p (live h) \<and>
    pool h' = pool h \<and> taken h' = taken h + blocks_for sz \<and> total_of h' = total_of h \<and>
    blocks_range p (blocks_for sz) \<subseteq> pool h - held h \<and> block_run h' p (blocks_for sz) \<and> keeps h h'"
proof -
  let ?k = "blocks_for sz"
  have k: "0 < ?k" using sz(1) by (rule blocks_for_pos)
  have hok: "heap_ok h" using ok by (simp add: pool_ok_def)
  have "0 \<le> total_of h" using hok by (simp add: heap_ok_def)
  from window_fits [OF k room this] first_fit_exists obtain s where s: "first_fit (entries_of h) (total_of h) ?k s" by blast
  let ?p = "heap_block_to_address h s" and ?h = "heap_mark_blocks_taken h s ?k"
  have run: "kmalloc h sz = (?p, ?h)" by (rule kmalloc_fit [OF hok sz s])
  have fit: "fits (entries_of h) (total_of h) ?k s" using s by (simp add: first_fit_def)
  then have range: "0 \<le> s" "s < total_of h" "s + ?k \<le> total_of h" using k by (auto simp: fits_def)
  have uint_p: "uint ?p = uint (hp_saddr h) + s * 4096" by (rule uint_block_address [OF hok range(1,2)])
  have ok': "pool_ok ?h" using heap_ok_mark_taken [OF hok fit k] ok by (simp add: pool_ok_def)
  have live': "live ?h = insert ?p (live h)" by (rule live_mark_taken [OF k fit])
  have tot: "total_of ?h = total_of h" by simp
  have taken': "taken ?h = taken h + ?k" using avail_taken_blocks [OF fit k] tot by (simp add: taken_def)
  have in_pool: "blocks_range ?p ?k \<subseteq> pool h"
  proof -
    have "(s + ?k) * 4096 \<le> total_of h * 4096" "0 \<le> s * 4096" using range by simp_all
    then show ?thesis by (auto simp: blocks_range_def pool_def uint_p algebra_simps)
  qed
  have block: "s \<le> (a - uint (hp_saddr h)) div 4096" "(a - uint (hp_saddr h)) div 4096 < s + ?k" if "a \<in> blocks_range ?p ?k" for a
  proof -
    have a: "s * 4096 \<le> a - uint (hp_saddr h)" "a - uint (hp_saddr h) < (s + ?k) * 4096"
      using that by (auto simp: blocks_range_def uint_p algebra_simps)
    show "s \<le> (a - uint (hp_saddr h)) div 4096" using zdiv_mono1 [OF a(1), of 4096] by simp
    show "(a - uint (hp_saddr h)) div 4096 < s + ?k" using a(2) by (simp add: div_less_iff_less_mult)
  qed
  have "blocks_range ?p ?k \<inter> held h = {}" using block fit by (auto simp: held_def fits_def run_free_def)
  with in_pool have "blocks_range ?p ?k \<subseteq> pool h - held h" by blast
  moreover have "block_run ?h ?p ?k"
    by (rule block_run_taken [OF ok fit k in_pool]) (use in_pool block in \<open>auto simp: held_def\<close>)
  moreover have "keeps h ?h" by (rule keeps_taken [OF fit k])
  moreover have "page ?p" using live_page [OF ok'] live' by simp
  moreover have "?p \<noteq> 0" by (rule block_address_nonzero [OF hok range(1,2)])
  moreover have "?p \<notin> live h" by (rule fits_not_live [OF hok k fit])
  moreover have "pool ?h = pool h" by (simp add: pool_def)
  ultimately show ?thesis using run ok' live' tot taken' by blast
qed

text \<open>On the memory: the blocks are zero up to the requested size, all else is as before.\<close>

lemma pool_total:
  assumes "pool_ok h" and "pool h' = pool h" and "pool_ok h'"
  shows "total_of h' = total_of h"
proof -
  have "card (pool h) = nat (total_of h * 4096)" for h by (simp add: pool_def)
  then have "nat (total_of h' * 4096) = nat (total_of h * 4096)" using assms(2) by metis
  moreover have "0 \<le> total_of h" "0 \<le> total_of h'" using assms by (simp_all add: pool_ok_def heap_ok_def)
  ultimately show ?thesis by (simp add: nat_eq_iff2 split: if_splits)
qed

lemma blocks_for_covers: "uint sz \<le> blocks_for sz * 4096"
proof -
  have "(uint sz + 4095) mod 4096 < 4096" by simp
  then show ?thesis unfolding blocks_for_def by (simp add: minus_mod_eq_div_mult [symmetric])
qed

lemma blocks_apart:
  assumes "R \<subseteq> pool h - held h" and "heap_ok h" and "q \<in> live h"
  shows "R \<inter> page_range q = {}"
  using assms page_held by blast

lemma kalloc_blocks:
  assumes "pool_ok (km_heap s)" and "sz \<noteq> 0" and "uint sz \<le> 2 ^ 32 - 4096"
    and "taken (km_heap s) < total_of (km_heap s) div blocks_for sz"
  shows "\<exists>p h m. kalloc sz s = (p, s\<lparr>km_heap := h, km_mem := m\<rparr>) \<and> p \<noteq> 0 \<and> p \<notin> live (km_heap s) \<and> page p \<and>
    pool_ok h \<and> live h = insert p (live (km_heap s)) \<and> taken h = taken (km_heap s) + blocks_for sz \<and>
    total_of h = total_of (km_heap s) \<and> grows (km_heap s) (km_mem s) h m \<and>
    blocks_range p (blocks_for sz) \<subseteq> pool (km_heap s) - held (km_heap s) \<and> block_run h p (blocks_for sz) \<and>
    (\<forall>k. 0 \<le> k \<and> k < uint sz \<longrightarrow> m (uint p + k) = 0)"
proof -
  obtain p h where 1: "kmalloc (km_heap s) sz = (p, h)" "p \<noteq> 0" "p \<notin> live (km_heap s)" "page p" "pool_ok h"
    "live h = insert p (live (km_heap s))" "pool h = pool (km_heap s)" "taken h = taken (km_heap s) + blocks_for sz"
    "total_of h = total_of (km_heap s)" "blocks_range p (blocks_for sz) \<subseteq> pool (km_heap s) - held (km_heap s)"
    "block_run h p (blocks_for sz)" "keeps (km_heap s) h"
    using kmalloc_blocks [OF assms] by blast
  let ?m = "memset (km_mem s) (uint p) 0 (unat sz)"
  have "uint sz \<le> blocks_for sz * 4096" by (rule blocks_for_covers)
  then have memset_out: "?m a = km_mem s a" if "a \<notin> blocks_range p (blocks_for sz)" for a
    using that by (auto simp: memset_apply blocks_range_def)
  have "grows (km_heap s) (km_mem s) h ?m"
    by (rule grows_update [OF grows_same [OF assms(1) 1(5,12)] 1(10)]) (rule memset_out)
  moreover have "?m (uint p + k) = 0" if "0 \<le> k" "k < uint sz" for k using that by (simp add: memset_apply)
  moreover have "kalloc sz s = (p, s\<lparr>km_heap := h, km_mem := ?m\<rparr>)" using 1(1,2) by (simp add: kalloc_def kzalloc_def)
  ultimately show ?thesis using 1 by blast
qed

end
