(* ===== verification/ProcessProps.thy ===== *)
theory ProcessProps
  imports Process KBlocks
begin

text \<open>
  Loading a program: from the file on the disk to a process in the table, whose task has an address space of
  its own with the first page of the program at its place.
\<close>

subsection \<open>Frames\<close>

lemma memset_same: "\<forall>k. 0 \<le> k \<and> k < int n \<longrightarrow> m (p + k) = 0 \<Longrightarrow> memset m p 0 n = m"
proof
  fix a assume z: "\<forall>k. 0 \<le> k \<and> k < int n \<longrightarrow> m (p + k) = 0"
  show "memset m p 0 n a = m a" using z [rule_format, of "a - p"] by (auto simp: memset_apply)
qed

lemma strncpy_loop_frame:
  "i < count \<Longrightarrow> 0 \<le> i \<Longrightarrow> a < dest + i \<or> dest + count \<le> a \<Longrightarrow> strncpy_loop m dest src count i a = m a"
proof (induction m dest src count i rule: strncpy_loop.induct)
  case (1 m dest src count i)
  have other: "(m(dest + i := x)) a = m a" for x using 1(2-4) by auto
  then show ?case using 1 by (subst strncpy_loop.simps) (auto simp del: fun_upd_apply)
qed

lemma strncpy_frame: "0 < count \<Longrightarrow> a < dest \<or> dest + count \<le> a \<Longrightarrow> strncpy m dest src count a = m a"
  by (simp add: strncpy_def strncpy_loop_frame)

text \<open>The copy of a string that fits.\<close>

lemma apart_mono: "A \<inter> B = {} \<Longrightarrow> C \<subseteq> A \<Longrightarrow> C \<inter> B = {}"
  by blast

lemma strncpy_loop_cstr:
  assumes "cstr m (src + i) str" and "int (length str) + i < count" and "0 \<le> i"
    and "{src + i .. src + i + int (length str)} \<inter> {dest ..< dest + count} = {}"
  shows "cstr (strncpy_loop m dest src count i) (dest + i) str"
  using assms
proof (induction str arbitrary: m i)
  case Nil
  then show ?case by (subst strncpy_loop.simps) simp
next
  case (Cons c str)
  let ?m = "m(dest + i := m (src + i))"
  have c: "c \<noteq> 0" "m (src + i) = c" "cstr m (src + i + 1) str" using Cons.prems(1) by simp_all
  have run: "strncpy_loop m dest src count i = strncpy_loop ?m dest src count (i + 1)"
    using c Cons.prems(2) by (subst strncpy_loop.simps) simp
  have sub: "{src + (i + 1) .. src + (i + 1) + int (length str)} \<inter> {dest ..< dest + count} = {}"
    using Cons.prems(4) by (rule apart_mono) auto
  moreover have "dest + i \<in> {dest ..< dest + count}" using Cons.prems(2,3) by simp
  ultimately have "dest + i \<notin> {src + i + 1 .. src + i + 1 + int (length str)}"
    unfolding add.assoc by blast
  then have "cstr ?m (src + i + 1) str" by (intro cstr_frame [OF c(3)]) auto
  then have "cstr ?m (src + (i + 1)) str" by (simp add: algebra_simps)
  from Cons.IH [OF this _ _ sub] Cons.prems(2,3) have tl: "cstr (strncpy_loop ?m dest src count (i + 1)) (dest + (i + 1)) str"
    by (simp del: fun_upd_apply)
  have "strncpy_loop ?m dest src count (i + 1) (dest + i) = ?m (dest + i)"
    using Cons.prems(2,3) by (intro strncpy_loop_frame) simp_all
  then have "strncpy_loop ?m dest src count (i + 1) (dest + i) = c"
    using Cons.prems(3) c by simp
  then show ?case using tl c(1) unfolding run by (simp add: algebra_simps)
qed

lemma extends_same_mem: "extends s s1 \<Longrightarrow> km_heap s2 = km_heap s1 \<Longrightarrow> km_mem s2 = km_mem s1 \<Longrightarrow> extends s s2"
  by (simp add: extends_def grows_def)

text \<open>\<open>extends\<close> with the accounts: no more than \<open>n\<close> further blocks are taken.\<close>

definition takes :: "int \<Rightarrow> fs_mem \<Rightarrow> fs_mem \<Rightarrow> bool" where
  "takes n s s' \<longleftrightarrow> extends s s' \<and> taken (km_heap s') \<le> taken (km_heap s) + n \<and> total_of (km_heap s') = total_of (km_heap s)"

lemma takes_trans: "takes a s s1 \<Longrightarrow> takes b s1 s2 \<Longrightarrow> takes (a + b) s s2"
  using extends_trans [of s s1 s2] by (auto simp: takes_def)

lemma takes_avail:
  assumes "extends s s'" and "pool_ok (km_heap s)" and "avail (km_heap s) \<le> avail (km_heap s') + n"
  shows "takes (int n) s s'"
proof -
  have "total_of (km_heap s') = total_of (km_heap s)"
    using assms by (intro pool_total) (simp_all add: extends_def grows_def)
  then show ?thesis using assms by (simp add: takes_def taken_def)
qed

lemma sys_kzalloc_blocks:
  assumes "pool_ok (sys_heap s)" and "sz \<noteq> 0" and "uint sz \<le> 2 ^ 32 - 4096"
    and "taken (sys_heap s) < total_of (sys_heap s) div blocks_for sz"
  shows "\<exists>p m. sys_kzalloc sz s = (p, s\<lparr>ts_vfs := (ts_vfs s)\<lparr>vf_mem := m\<rparr>\<rparr>) \<and> p \<noteq> 0 \<and> p \<notin> live (sys_heap s) \<and> page p \<and>
    pool_ok (km_heap m) \<and> live (km_heap m) = insert p (live (sys_heap s)) \<and> takes (blocks_for sz) (vf_mem (ts_vfs s)) m \<and>
    same_fs (vf_mem (ts_vfs s)) m \<and> blocks_range p (blocks_for sz) \<subseteq> pool (sys_heap s) - held (sys_heap s) \<and>
    block_run (km_heap m) p (blocks_for sz) \<and>
    (\<forall>k. 0 \<le> k \<and> k < uint sz \<longrightarrow> km_mem m (uint p + k) = 0)"
proof -
  let ?s = "vf_mem (ts_vfs s)"
  obtain p h m where 1: "kalloc sz ?s = (p, ?s\<lparr>km_heap := h, km_mem := m\<rparr>)" "p \<noteq> 0" "p \<notin> live (km_heap ?s)" "page p" "pool_ok h"
    "live h = insert p (live (km_heap ?s))" "taken h = taken (km_heap ?s) + blocks_for sz" "total_of h = total_of (km_heap ?s)"
    "grows (km_heap ?s) (km_mem ?s) h m" "blocks_range p (blocks_for sz) \<subseteq> pool (km_heap ?s) - held (km_heap ?s)"
    "block_run h p (blocks_for sz)"
    "\<forall>k. 0 \<le> k \<and> k < uint sz \<longrightarrow> m (uint p + k) = 0"
    using kalloc_blocks [OF assms] by blast
  then show ?thesis
    by (intro exI [of _ p] exI [of _ "?s\<lparr>km_heap := h, km_mem := m\<rparr>"]) (simp add: sys_kzalloc_def takes_def same_fs_def extends_def)
qed

subsection \<open>The binary\<close>

lemma page_range_blocks: "0 < k \<Longrightarrow> page_range p \<subseteq> blocks_range p k"
  by (auto simp: page_range_def blocks_range_def)

lemma buffer_not_held:
  assumes "R \<subseteq> live h" and "heap_ok h" and "{out ..< out + n} \<inter> held h = {}"
  shows "buffer_free R out n"
  unfolding buffer_free_def using assms page_held by blast

lemma extends_overlay:
  assumes "extends s s1" and "km_heap s2 = km_heap s1" and "km_mem s2 = overlay f p n (km_mem s1)"
    and "{p ..< p + n} \<subseteq> pool (km_heap s) - held (km_heap s)"
  shows "extends s s2"
proof -
  have "km_mem s2 a = km_mem s1 a" if "a \<notin> {p ..< p + n}" for a
    using that unfolding assms(3) by (intro overlay_outside) auto
  from grows_update [OF assms(1) [unfolded extends_def] assms(4) this] show ?thesis by (simp add: extends_def assms(2))
qed

definition load_room :: "int \<Rightarrow> heap \<Rightarrow> bool" where
  "load_room sz h \<longleftrightarrow> taken h + 7 < total_of h div blocks_for (word_of_int sz)"

lemma load_binary_spec:
  assumes "volume_ready ata (ts_vfs s) nm data sz" and "named_at (ts_vfs s) filename mode_r nm"
    and "0 < sz" and "sz \<le> int (length data)" and "sz < 2 ^ 31 - 4096"
    and "load_room sz (sys_heap s)" and "7 \<le> avail (sys_heap s)"
  shows "\<exists>ptr v. process_load_binary mode_r filename process s =
      Some (0, upd_proc process (\<lambda>p. p\<lparr>pr_ptr := ptr, pr_size := word_of_int sz\<rparr>) (s\<lparr>ts_vfs := v\<rparr>)) \<and>
    takes (7 + blocks_for (word_of_int sz)) (vf_mem (ts_vfs s)) (vf_mem v) \<and> page ptr \<and> ptr \<noteq> 0 \<and>
    blocks_range ptr (blocks_for (word_of_int sz)) \<subseteq> pool (sys_heap s) - held (sys_heap s) \<and>
    block_run (km_heap (vf_mem v)) ptr (blocks_for (word_of_int sz)) \<and>
    memory_bytes (km_mem (vf_mem v)) (uint ptr) (nat sz) = take (nat sz) data"
proof -
  let ?open = "file_open (fat16_fs ata) (fat_handle ata)" and ?sz = "word_of_int sz :: u32" and ?s = "vf_mem (ts_vfs s)"
  let ?k = "blocks_for ?sz"
  have pool_s: "pool_ok (km_heap ?s)" using assms(1) by (simp add: volume_ready_def)
  have usz: "uint ?sz = sz" "sint ?sz = sz" "?sz \<noteq> 0" using assms(3,5) by (simp_all add: sint_small uint_word_of_int word_uint_eq_iff)
  have k: "0 < ?k" "sz \<le> ?k * 4096" using blocks_for_pos [OF usz(3)] blocks_for_covers [of ?sz] usz(1) by simp_all
  obtain v2 desc A P where o: "fopen filename mode_r (ts_vfs s) = Some (1, v2)" "?open v2 1 desc A data 0" "extends ?s (vf_mem v2)"
    "fat_size (vf_mem v2) (fd_private (vf_files v2 desc)) = sz" "insert desc A \<inter> live (km_heap ?s) = {}"
    "avail (km_heap ?s) \<le> avail (km_heap (vf_mem v2)) + 7"
    using volume_fopen [OF assms(1,2,7)] by blast
  have t2: "takes 7 ?s (vf_mem v2)" using takes_avail [OF o(3) pool_s o(6)] by simp
  have ok2: "pool_ok (km_heap (vf_mem v2))" using o(3) by (simp add: extends_def grows_def)
  obtain flags where stat: "fstat 1 \<lparr>fst_flags = 0, fst_filesize = 0\<rparr> v2 = (0, \<lparr>fst_flags = flags, fst_filesize = ?sz\<rparr>)"
    using fat16.fstat_open [OF o(2)] o(4) by metis
  have room: "taken (km_heap (vf_mem v2)) < total_of (km_heap (vf_mem v2)) div ?k"
    using t2 assms(6) by (simp add: takes_def load_room_def)
  have lt: "uint ?sz \<le> 2 ^ 32 - 4096" using usz(1) assms(5) by simp
  let ?s2 = "s\<lparr>ts_vfs := v2\<rparr>"
  obtain ptr m where al: "sys_kzalloc ?sz ?s2 = (ptr, s\<lparr>ts_vfs := v2\<lparr>vf_mem := m\<rparr>\<rparr>)" "ptr \<noteq> 0" "ptr \<notin> live (km_heap (vf_mem v2))"
    "page ptr" "pool_ok (km_heap m)" "live (km_heap m) = insert ptr (live (km_heap (vf_mem v2)))" "takes ?k (vf_mem v2) m"
    "same_fs (vf_mem v2) m" "blocks_range ptr ?k \<subseteq> pool (km_heap (vf_mem v2)) - held (km_heap (vf_mem v2))" "block_run (km_heap m) ptr ?k"
    using sys_kzalloc_blocks [of ?s2 ?sz] ok2 usz(3) lt room by auto
  have ext3: "extends (vf_mem v2) m" using al(7) by (simp add: takes_def)
  note o3 = fat16.file_open_grows [OF o(2) ext3 al(8)]
  let ?v3 = "v2\<lparr>vf_mem := m\<rparr>"
  have reads: "{uint ptr ..< uint ptr + sz} \<subseteq> blocks_range ptr ?k" using k(2) by (auto simp: blocks_range_def)
  have own: "A \<union> fat_reserved m \<subseteq> live (km_heap (vf_mem v2))"
    using o(2) al(8) by (auto simp: file_open_def fat_handle_def fat_reserved_def private_live_def same_fs_def)
  have buf: "buffer_free (A \<union> fat_reserved (vf_mem ?v3)) (uint ptr) (sint ?sz)"
    by (rule buffer_not_held [of _ "km_heap (vf_mem v2)"]) (use own ok2 al(9) reads in \<open>auto simp: usz(2) pool_ok_def\<close>)
  obtain v4 where v4: "fread (uint ptr) ?sz 1 1 ?v3 = Some (1, v4)" "?open v4 1 desc A data (0 + sz)"
    "km_mem (vf_mem v4) = overlay (\<lambda>i. data ! nat (0 + i)) (uint ptr) sz (km_mem m)" "km_heap (vf_mem v4) = km_heap m"
    using fat16.fread_open [OF o3(1) _ _ _ _ buf] assms(3-5) unfolding usz(2) by (auto simp: fat_readable_def in_order_def)
  obtain v5 where v5: "fclose 1 v4 = (0, v5)" "pool_ok (km_heap (vf_mem v5))"
    "live (km_heap (vf_mem v5)) = live (km_heap (vf_mem v4)) - insert desc A" "km_mem (vf_mem v5) = km_mem (vf_mem v4)"
    "avail (km_heap (vf_mem v4)) \<le> avail (km_heap (vf_mem v5))"
    "\<And>r. extends r (vf_mem v4) \<Longrightarrow> insert desc A \<inter> live (km_heap r) = {} \<Longrightarrow> extends r (vf_mem v5)"
    using fat16.fclose_open [OF v4(2)] by blast
  have t3: "takes (7 + ?k) ?s m" by (rule takes_trans [OF t2 al(7)])
  have live2: "insert desc A \<subseteq> live (km_heap (vf_mem v2))"
  proof -
    have "A \<subseteq> live (km_heap (vf_mem v2))" using o(2) by (auto simp: file_open_def fat_handle_def)
    moreover have "desc \<in> live (km_heap (vf_mem v2))" using o(2) table_entries [of v2 desc] nth_mem [of 0 "file_descriptors v2"]
      by (auto simp: file_open_def descriptors_ok_def)
    ultimately show ?thesis by blast
  qed
  have fresh: "blocks_range ptr ?k \<subseteq> pool (km_heap ?s) - held (km_heap ?s)" using al(9) extends_parts(3,5) [OF o(3)] by blast
  have "extends ?s m" using t3 by (simp add: takes_def)
  from extends_overlay [OF this v4(4,3)] reads fresh have ext4: "extends ?s (vf_mem v4)" by blast
  have ext5: "extends ?s (vf_mem v5)" by (rule v5(6) [OF ext4 o(5)])
  have "total_of (km_heap (vf_mem v5)) = total_of (km_heap (vf_mem v4))"
    using ext4 ext5 by (simp add: extends_def grows_def keeps_def)
  then have "takes (7 + ?k) ?s (vf_mem v5)" using ext5 t3 v4(4) v5(5) by (simp add: takes_def taken_def)
  moreover have "block_run (km_heap (vf_mem v5)) ptr ?k"
    by (rule block_run_closed [of "vf_mem v4" _ _ "insert desc A"]) (use v4(4) al(3,5,10) live2 v5(6) in auto)
  moreover have "memory_bytes (km_mem (vf_mem v5)) (uint ptr) (nat sz) = take (nat sz) data"
    unfolding v5(4) v4(3) using assms(3,4) memory_bytes_overlay [of 0 "nat sz" data "uint ptr"] by simp
  moreover have "process_load_binary mode_r filename process s =
      Some (0, upd_proc process (\<lambda>p. p\<lparr>pr_ptr := ptr, pr_size := ?sz\<rparr>) (s\<lparr>ts_vfs := v5\<rparr>))"
    using o(1) stat al(1,2) v4(1) v5(1)
    by (simp add: process_load_binary_def Let_def load_binary_out_def PEACHOS_ALL_OK_def upd_proc_def)
  ultimately show ?thesis using al(2,4) fresh by blast
qed


subsection \<open>The address space\<close>

lemma align_address:
  assumes "uint p < 2 ^ 32 - 4096"
  shows "page (paging_align_address p)" "uint p \<le> uint (paging_align_address p)"
proof -
  have m: "uint (p mod 4096) = uint p mod 4096" by (simp add: uint_mod)
  have sum: "uint (p + 4096) = uint p + 4096" using assms by (simp add: uint_word_ariths)
  have r: "uint p mod 4096 < 4096" by simp
  then have "uint (p mod 4096) \<le> uint (p + 4096)" using m sum uint_ge_0 [of p] by linarith
  then have u: "uint (p + 4096 - p mod 4096) = uint p + 4096 - uint p mod 4096"
    by (simp only: uint_sub_if' if_True m sum)
  have "uint p + 4096 - uint p mod 4096 = 4096 * (uint p div 4096 + 1)"
    using minus_mod_eq_mult_div [of "uint p" 4096] by (simp add: distrib_left)
  then have a: "page (p + 4096 - p mod 4096)" unfolding page_def u by (metis mod_mult_self1_is_0)
  have le: "uint p \<le> uint (p + 4096 - p mod 4096)" unfolding u using r by linarith
  show "page (paging_align_address p)"
    unfolding paging_align_address_def using a by (simp add: page_aligned)
  show "uint p \<le> uint (paging_align_address p)"
    unfolding paging_align_address_def by (cases "p mod 4096 = 0") (simp, simp only: if_True not_False_eq_True le simp_thms)
qed

lemma map_to_first_page:
  assumes "page virt" and "page phys" and "uint phys + uint n \<le> 2 ^ 31" and "n \<noteq> 0"
  shows "paging_map_to m d virt phys (paging_align_address (phys + n)) flags = paging_map m d virt phys flags"
proof -
  let ?e = "paging_align_address (phys + n)"
  have s: "uint (phys + n) = uint phys + uint n" using assms(3) by (simp add: uint_word_ariths)
  have e: "page ?e" "uint phys + uint n \<le> uint ?e" using align_address [of "phys + n"] s assms(3) by simp_all
  have n: "0 < uint n" using assms(4) by (simp add: word_uint_eq_iff less_le)
  let ?n = "(?e - phys) div 4096"
  have d: "uint (?e - phys) = uint ?e - uint phys" using e(2) n by (subst uint_sub_if') simp
  have "(uint ?e - uint phys) mod 4096 = 0" using e(1) assms(2) by (simp add: page_def mod_diff_eq [symmetric])
  then have "4096 \<le> uint ?e - uint phys" using e(2) n by (intro zdvd_imp_le) (auto simp: mod_0_imp_dvd)
  then have "0 < uint ?n" by (simp add: uint_div d pos_imp_zdiv_pos_iff)
  moreover have "uint ?n < 2 ^ 31"
  proof -
    have "uint (?e - phys) div 4096 \<le> uint (?e - phys) div 2" by (rule zdiv_mono2) simp_all
    moreover have "uint (?e - phys) div 2 < 2 ^ 31" using uint_bounded [of "?e - phys"] by simp
    ultimately show ?thesis by (simp add: uint_div)
  qed
  ultimately have "0 < sint ?n" by (simp add: sint_small)
  moreover have "\<not> ?e < phys" using e(2) n by (simp add: word_less_def)
  ultimately show ?thesis
    using e(1) assms(1,2) by (simp add: paging_map_to_def page_aligned paging_map_range_def map_range_loop_eq Let_def)
qed


text \<open>The address space of a new task.\<close>

lemma added_space:
  assumes "adds_task process s t chunk ps s'"
  shows "directory_ok (ts_tables s') (ts_tables s' chunk)"
    and "walk (ts_tables s') (ts_tables s' chunk) va = page_of va OR 5"
    and "page chunk" and "i < 1024 \<Longrightarrow> page_of (ts_tables s' (dword (ts_tables s' chunk) i)) \<noteq> chunk"
proof -
  obtain d ts where d: "length ts = 1024" "ps = d # ts @ [chunk]" "ts_tables s' chunk = d" "identity_tables 5 (ts_tables s') d ts"
    and fresh: "fresh_pages (t # ps) (sys_heap s) (sys_heap s')"
    using assms unfolding adds_task_def by blast
  note f = fresh [unfolded fresh_pages_def d(2)]
  have p: "\<forall>q \<in> set ts. page q" "page d" "d \<notin> set ts" "distinct ts" "chunk \<notin> set ts" using f by auto
  show "page chunk" using f by simp
  show "directory_ok (ts_tables s') (ts_tables s' chunk)" unfolding d(3) by (rule identity_directory_ok [OF d(4,1) p(1-4)])
  show "walk (ts_tables s') (ts_tables s' chunk) va = page_of va OR 5" unfolding d(3) using identity_walk [OF d(4,1) p(1)] by simp
  assume i: "i < 1024"
  have "unat i < length ts" using i d(1) by (simp add: word_less_nat_alt)
  then have "ts ! unat i \<in> set ts" by (rule nth_mem)
  then show "page_of (ts_tables s' (dword (ts_tables s' chunk) i)) \<noteq> chunk"
    unfolding d(3) identity_entry [OF d(4,1) p(1) i] using p(5) by auto
qed

lemma map_program:
  fixes s :: system
  assumes "directory_ok (ts_tables s) (ts_tables s chunk)" and "\<And>i. i < 1024 \<Longrightarrow> page_of (ts_tables s (dword (ts_tables s chunk) i)) \<noteq> chunk"
    and "page chunk" and "page_directory (ts_tasks s (pr_task (sy_procs s proc))) = chunk"
    and "pr_ptr (sy_procs s proc) = ptr" and "page ptr" and "pr_size (sy_procs s proc) = n" and "n \<noteq> 0" and "uint ptr + uint n \<le> 2 ^ 31"
  shows "\<exists>m. process_map_memory proc s = (0, s\<lparr>ts_tables := m\<rparr>) \<and> m chunk = ts_tables s chunk \<and>
    (\<forall>va. walk m (ts_tables s chunk) va = (if page_of va = 0x400000 then ptr OR 7 else walk (ts_tables s) (ts_tables s chunk) va))"
proof -
  let ?d = "ts_tables s chunk" and ?m = "ts_tables s"
  have virt: "page 0x400000" by (simp add: page_def)
  have flags: "ucast ((1 :: u8) OR 4 OR 2) = (7 :: u32)" by simp
  let ?r = "paging_map ?m ?d 0x400000 ptr 7"
  have "process_map_memory proc s = (0, s\<lparr>ts_tables := snd ?r\<rparr>)"
    using map_to_first_page [OF virt assms(6,9,8), of ?m ?d 7]
    by (simp add: process_map_memory_def process_map_binary_def paging_4gb_chunk_get_directory_def assms(4,5,7) Let_def split_def)
  moreover have "snd ?r chunk = ?d"
  proof -
    let ?e = "dword (page_of (?m (dword ?d (0x400000 div 0x400000)))) (0x400000 div 4096 mod 1024)"
    have "page_of (dword (page_of (?m (dword ?d (0x400000 div 0x400000)))) (0x400000 div 4096 mod 1024)) \<noteq> page_of chunk"
      using assms(2) [OF index_bounds(1) [of "0x400000"]] index_bounds(2) [of "0x400000"] assms(3) by simp
    then have "?e \<noteq> chunk" by (rule contrapos_nn) (rule arg_cong [of _ _ page_of])
    then show ?thesis unfolding paging_map_eq [OF virt assms(6)] snd_conv by (rule fun_upd_other [OF not_sym])
  qed
  moreover have "walk (snd ?r) ?d va = (if page_of va = 0x400000 then ptr OR 7 else walk ?m ?d va)" for va
    using paging_map_walk [OF assms(1) virt assms(6), of 7 va] by blast
  ultimately show ?thesis by blast
qed


subsection \<open>Loading\<close>

definition process_directory :: "system \<Rightarrow> u32 \<Rightarrow> u32" where
  "process_directory s p = paging_4gb_chunk_get_directory (ts_tables s) (page_directory (ts_tasks s (pr_task (sy_procs s p))))"

text \<open>
  A process with its identifier, its name, its program in memory, and a task whose address space has the first
  page of the program at 4 MiB.
\<close>

definition holds_program :: "system \<Rightarrow> u32 \<Rightarrow> int \<Rightarrow> u8 list \<Rightarrow> u8 list \<Rightarrow> int \<Rightarrow> bool" where
  "holds_program s p slot path data sz \<longleftrightarrow> pr_id (sy_procs s p) = word_of_int slot \<and> pr_size (sy_procs s p) = word_of_int sz \<and>
     cstr (sys_mem s) (uint p + 2) path \<and> page (pr_ptr (sy_procs s p)) \<and>
     memory_bytes (sys_mem s) (uint (pr_ptr (sy_procs s p))) (nat sz) = take (nat sz) data \<and>
     task_process (ts_tasks s (pr_task (sy_procs s p))) = p \<and>
     (\<forall>va. walk (ts_tables s) (process_directory s p) va =
        (if page_of va = 0x400000 then pr_ptr (sy_procs s p) OR 7 else page_of va OR 5))"

text \<open>Room for the process (2 blocks), the open file (7), the program, the stack (4), and the task (1027).\<close>

definition program_room :: "int \<Rightarrow> heap \<Rightarrow> bool" where
  "program_room sz h \<longleftrightarrow> taken h + 9 < total_of h div blocks_for (word_of_int sz) \<and>
     taken h + blocks_for (word_of_int sz) + 9 < total_of h div 4 \<and>
     taken h + blocks_for (word_of_int sz) + 1040 \<le> total_of h"

text \<open>The end of the call, from the copying of the name on.\<close>

lemma task_sys_more: "task_sys.more s' = task_sys.more (s :: system) \<Longrightarrow> sy_procs s' = sy_procs s \<and> processes s' = processes s"
  by (cases s; cases s') simp

lemma task_list_cong:
  assumes "task_list s xs" and "ts_tasks s' = ts_tasks s" and "task_head s' = task_head s" and "task_tail s' = task_tail s"
    and "live (sys_heap s) \<subseteq> live (sys_heap s')"
  shows "task_list s' xs"
  using assms by (auto simp: task_list_def forward_list_def)

lemma load_data_run:
  assumes "volume_ready ata (ts_vfs s) nm data sz" and "named_at (ts_vfs s) filename mode_r nm"
    and "0 < sz" and "sz \<le> int (length data)" and "sz < 2 ^ 31 - 4096" and "program_room sz (sys_heap s)"
  shows "\<exists>p ptr s1 v. sys_kzalloc 4224 s = (p, s1) \<and> p \<noteq> 0 \<and> p \<notin> live (sys_heap s) \<and> page p \<and>
    page_range p \<subseteq> pool (sys_heap s) \<and> page ptr \<and> p \<in> live (km_heap (vf_mem v)) \<and>
    block_run (km_heap (vf_mem v)) ptr (blocks_for (word_of_int sz)) \<and> blocks_range ptr (blocks_for (word_of_int sz)) \<inter> page_range p = {} \<and>
    uint ptr + sz \<le> 2 ^ 31 \<and> takes (9 + blocks_for (word_of_int sz)) (vf_mem (ts_vfs s)) (vf_mem v) \<and>
    process_load_data mode_r filename p (process_init p s1) =
      Some (0, upd_proc p (\<lambda>_. zero_process\<lparr>pr_ptr := ptr, pr_size := word_of_int sz\<rparr>) (s\<lparr>ts_vfs := v\<rparr>)) \<and>
    memory_bytes (km_mem (vf_mem v)) (uint ptr) (nat sz) = take (nat sz) data"
proof -
  let ?s = "vf_mem (ts_vfs s)" and ?sz = "word_of_int sz :: u32"
  let ?k = "blocks_for ?sz"
  have pool_s: "pool_ok (km_heap ?s)" and low: "pool (km_heap ?s) \<subseteq> {..< 2 ^ 31}"
    using assms(1) by (simp_all add: volume_ready_def fat_named_def)
  have usz: "uint ?sz = sz" "?sz \<noteq> 0" using assms(3,5) by (simp_all add: uint_word_of_int word_uint_eq_iff)
  have k: "0 < ?k" "sz \<le> ?k * 4096" using blocks_for_pos [OF usz(2)] blocks_for_covers [of ?sz] usz(1) by simp_all
  have nonneg: "0 \<le> total_of (km_heap ?s)" using pool_s by (simp add: pool_ok_def heap_ok_def)
  note room = assms(6) [unfolded program_room_def]
  have b: "blocks_for 4224 = 2" by (simp add: blocks_for_def)
  have half: "total_of (km_heap ?s) div 4 \<le> total_of (km_heap ?s) div 2" using nonneg by (intro zdiv_mono2) simp_all
  obtain p m1 where p: "sys_kzalloc 4224 s = (p, s\<lparr>ts_vfs := (ts_vfs s)\<lparr>vf_mem := m1\<rparr>\<rparr>)" "p \<noteq> 0" "p \<notin> live (km_heap ?s)" "page p"
    "pool_ok (km_heap m1)" "live (km_heap m1) = insert p (live (km_heap ?s))" "takes 2 ?s m1" "same_fs ?s m1"
    "blocks_range p 2 \<subseteq> pool (km_heap ?s) - held (km_heap ?s)" "\<forall>k. 0 \<le> k \<and> k < 4224 \<longrightarrow> km_mem m1 (uint p + k) = 0"
    using sys_kzalloc_blocks [of s 4224] pool_s room half k(1) unfolding b by auto
  let ?v1 = "(ts_vfs s)\<lparr>vf_mem := m1\<rparr>"
  let ?s1 = "upd_proc p (\<lambda>_. zero_process) (s\<lparr>ts_vfs := ?v1\<rparr>)"
  have init: "process_init p (s\<lparr>ts_vfs := ?v1\<rparr>) = ?s1"
    using memset_same [of 4224 "km_mem m1" "uint p"] p(10) by (simp add: process_init_def with_mem_def upd_proc_def)
  have ext: "extends ?s m1" using p(7) by (simp add: takes_def)
  have 1: "volume_ready ata (ts_vfs ?s1) nm data sz" "named_at (ts_vfs ?s1) filename mode_r nm"
    using volume_ready_grows [OF assms(1) ext p(8)] named_at_extends [OF assms(2) ext] by (simp_all add: upd_proc_def)
  have "load_room sz (sys_heap ?s1)" "7 \<le> avail (sys_heap ?s1)"
    using p(7) room k(1) by (simp_all add: load_room_def takes_def upd_proc_def taken_def)
  note spec = load_binary_spec [OF 1 assms(3-5) this, of p]
  have fields: "vf_mem (ts_vfs ?s1) = m1" by (simp add: upd_proc_def)
  from spec obtain ptr v where
    v: "process_load_binary mode_r filename p ?s1 = Some (0, upd_proc p (\<lambda>q. q\<lparr>pr_ptr := ptr, pr_size := ?sz\<rparr>) (?s1\<lparr>ts_vfs := v\<rparr>))"
      "takes (7 + ?k) m1 (vf_mem v)" "page ptr" "ptr \<noteq> 0" "blocks_range ptr ?k \<subseteq> pool (km_heap m1) - held (km_heap m1)"
      "block_run (km_heap (vf_mem v)) ptr ?k" "memory_bytes (km_mem (vf_mem v)) (uint ptr) (nat sz) = take (nat sz) data"
    unfolding fields by blast
  have t: "takes (9 + ?k) ?s (vf_mem v)" using takes_trans [OF p(7) v(2)] by (simp add: algebra_simps)
  have "page_range p \<subseteq> pool (km_heap ?s)" using p(9) page_range_blocks [of 2 p] by auto
  moreover have "uint ptr + sz \<le> 2 ^ 31"
  proof -
    have "uint ptr + ?k * 4096 - 1 \<in> blocks_range ptr ?k" using k(1) by (simp add: blocks_range_def)
    then have "uint ptr + ?k * 4096 - 1 \<in> pool (km_heap ?s)" using v(5) ext by (auto simp: extends_def grows_def)
    then show ?thesis using low k(2) by auto
  qed
  moreover have "p \<in> live (km_heap (vf_mem v))" using p(6) v(2) by (auto simp: takes_def extends_def grows_def)
  moreover have "blocks_range ptr ?k \<inter> page_range p = {}" using blocks_apart [OF v(5)] p(5,6) by (simp add: pool_ok_def)
  moreover have "process_load_data mode_r filename p (process_init p (s\<lparr>ts_vfs := ?v1\<rparr>)) =
      Some (0, upd_proc p (\<lambda>_. zero_process\<lparr>pr_ptr := ptr, pr_size := ?sz\<rparr>) (s\<lparr>ts_vfs := v\<rparr>))"
    unfolding process_load_data_def init v(1) by (simp add: upd_proc_def)
  ultimately show ?thesis using p(1-4) v(3,6,7) t by blast
qed

text \<open>The task and its mapping.\<close>

lemma start_task_run:
  fixes s :: system
  assumes "pool_ok (sys_heap s)" and "1027 \<le> avail (sys_heap s)" and "task_list s xs"
    and "sy_procs s p = pr" and "page (pr_ptr pr)" and "pr_size pr \<noteq> 0" and "uint (pr_ptr pr) + uint (pr_size pr) \<le> 2 ^ 31"
  shows "\<exists>t s1 s2. task_new p s = (t, s1) \<and> t \<noteq> 0 \<and> page_range t \<inter> held (sys_heap s) = {} \<and>
    process_map_memory p (upd_proc p (\<lambda>q. q\<lparr>pr_task := t\<rparr>) s1) = (0, s2) \<and> sy_procs s2 p = pr\<lparr>pr_task := t\<rparr> \<and>
    processes s2 = processes s \<and> task_list s2 (xs @ [t]) \<and> task_process (ts_tasks s2 t) = p \<and>
    (\<forall>va. walk (ts_tables s2) (process_directory s2 p) va = (if page_of va = 0x400000 then pr_ptr pr OR 7 else page_of va OR 5)) \<and>
    (\<forall>a. a \<notin> page_range t \<longrightarrow> sys_mem s2 a = sys_mem s a)"
proof -
  have "task_tail s \<notin> live (sys_heap s) \<longrightarrow> task_head s = 0" using task_list_ends [OF assms(3)] by blast
  from task_new_spec [OF assms(1,2) this] obtain t chunk ps s1 where
    n: "task_new p s = (t, s1)" "adds_task p s t chunk ps s1" by blast
  note a = n(2) [unfolded adds_task_def] and space = added_space [OF n(2)]
  have t: "t \<noteq> 0" "page_range t \<inter> held (sys_heap s) = {}"
    using a page_not_held [of "sys_heap s" "sys_heap s1" t] by (auto simp: fresh_pages_def pool_ok_def)
  have td: "page_directory (ts_tasks s1 t) = chunk" "task_process (ts_tasks s1 t) = p" using a by simp_all
  have more: "sy_procs s1 = sy_procs s" "processes s1 = processes s" using task_sys_more [of s1 s] a by blast+
  have mem: "\<forall>a. a \<notin> page_range t \<longrightarrow> sys_mem s1 a = sys_mem s a" using a by blast
  let ?s1 = "upd_proc p (\<lambda>q. q\<lparr>pr_task := t\<rparr>) s1"
  have f: "ts_tables ?s1 = ts_tables s1" "ts_tasks ?s1 = ts_tasks s1" "sy_procs ?s1 p = pr\<lparr>pr_task := t\<rparr>"
    by (simp_all add: upd_proc_def more assms(4))
  have "\<exists>m. process_map_memory p ?s1 = (0, ?s1\<lparr>ts_tables := m\<rparr>) \<and> m chunk = ts_tables s1 chunk \<and>
    (\<forall>va. walk m (ts_tables s1 chunk) va = (if page_of va = 0x400000 then pr_ptr pr OR 7 else walk (ts_tables s1) (ts_tables s1 chunk) va))"
    by (rule map_program [of ?s1 chunk p "pr_ptr pr" "pr_size pr", unfolded f]) (use space td assms(5-7) in simp_all)
  then obtain m where m: "process_map_memory p ?s1 = (0, ?s1\<lparr>ts_tables := m\<rparr>)" "m chunk = ts_tables s1 chunk"
    "\<And>va. walk m (ts_tables s1 chunk) va = (if page_of va = 0x400000 then pr_ptr pr OR 7 else page_of va OR 5)"
    using space(2) by auto
  let ?s2 = "?s1\<lparr>ts_tables := m\<rparr>"
  have "task_list ?s2 (xs @ [t])" by (rule task_list_cong [OF adds_task_list(1) [OF assms(3) n(2)]]) (simp_all add: upd_proc_def)
  moreover have "process_directory ?s2 p = ts_tables s1 chunk"
    by (simp add: process_directory_def paging_4gb_chunk_get_directory_def upd_proc_def td m(2))
  ultimately show ?thesis
    using n(1) t m(1,3) td(2) more mem assms(4) by (intro exI [of _ t] exI [of _ s1] exI [of _ ?s2]) (simp add: upd_proc_def)
qed

text \<open>The rest of the call, on a state that holds the process.\<close>

lemma load_for_slot_run:
  assumes "volume_ready ata (ts_vfs s) nm data sz" and "named_at (ts_vfs s) filename mode_r nm" and "length nm < 105"
    and "0 < sz" and "sz \<le> int (length data)" and "sz < 2 ^ 31 - 4096" and "program_room sz (sys_heap s)"
    and "process_get slot s = 0" and "0 \<le> slot" and "slot < 12" and "task_list s xs"
  shows "\<exists>p s'. process_load_for_slot mode_r filename slot s = Some (0, Some p, s') \<and> p \<notin> live (sys_heap s) \<and>
    processes s' = (processes s)[nat slot := p] \<and> task_list s' (xs @ [pr_task (sy_procs s' p)]) \<and>
    holds_program s' p slot (0x30 # COLON # SLASH # nm) data sz"
proof -
  let ?s = "vf_mem (ts_vfs s)" and ?sz = "word_of_int sz :: u32" and ?path = "0x30 # COLON # SLASH # nm"
  note room = assms(7) [unfolded program_room_def]
  have usz: "uint ?sz = sz" "?sz \<noteq> 0" using assms(4,6) by (simp_all add: uint_word_of_int word_uint_eq_iff)
  obtain p ptr s1 v where p: "sys_kzalloc 4224 s = (p, s1)" "p \<noteq> 0" "p \<notin> live (sys_heap s)" "page p"
      "page_range p \<subseteq> pool (sys_heap s)" "page ptr" "p \<in> live (km_heap (vf_mem v))" "block_run (km_heap (vf_mem v)) ptr (blocks_for ?sz)"
      "blocks_range ptr (blocks_for ?sz) \<inter> page_range p = {}" "uint ptr + sz \<le> 2 ^ 31"
      "takes (9 + blocks_for ?sz) ?s (vf_mem v)"
      "process_load_data mode_r filename p (process_init p s1) =
        Some (0, upd_proc p (\<lambda>_. zero_process\<lparr>pr_ptr := ptr, pr_size := ?sz\<rparr>) (s\<lparr>ts_vfs := v\<rparr>))"
      "memory_bytes (km_mem (vf_mem v)) (uint ptr) (nat sz) = take (nat sz) data"
    using load_data_run [OF assms(1,2,4-7)] by blast
  have bytes_in: "{uint ptr ..< uint ptr + sz} \<subseteq> blocks_range ptr (blocks_for ?sz)"
    using blocks_for_covers [of ?sz] usz(1) by (auto simp: blocks_range_def)
  let ?s2 = "upd_proc p (\<lambda>_. zero_process\<lparr>pr_ptr := ptr, pr_size := ?sz\<rparr>) (s\<lparr>ts_vfs := v\<rparr>)"
  have fields2: "vf_mem (ts_vfs ?s2) = vf_mem v" by (simp add: upd_proc_def)
  have "pool_ok (sys_heap ?s2)" "taken (sys_heap ?s2) < total_of (sys_heap ?s2) div blocks_for 16384"
    using p(11) room unfolding fields2 by (simp_all add: takes_def extends_def grows_def blocks_for_def)
  from sys_kzalloc_blocks [OF this(1) _ _ this(2)] obtain st m where
    st: "sys_kzalloc 16384 ?s2 = (st, ?s2\<lparr>ts_vfs := (ts_vfs ?s2)\<lparr>vf_mem := m\<rparr>\<rparr>)" "st \<noteq> 0" "pool_ok (km_heap m)"
      "takes 4 (vf_mem v) m" "live (km_heap m) = insert st (live (km_heap (vf_mem v)))"
    unfolding fields2 by (auto simp: blocks_for_def)
  have t: "takes (13 + blocks_for ?sz) ?s m" using takes_trans [OF p(11) st(4)] by (simp add: algebra_simps)
  let ?m = "strncpy (km_mem m) (uint p + 2) filename 108"
  let ?s4 = "upd_proc p (\<lambda>q. q\<lparr>pr_stack := st, pr_id := word_of_int slot\<rparr>)
     (with_mem ?m (?s2\<lparr>ts_vfs := (ts_vfs ?s2)\<lparr>vf_mem := m\<rparr>\<rparr>))"
  let ?pr = "zero_process\<lparr>pr_ptr := ptr, pr_size := ?sz, pr_stack := st, pr_id := word_of_int slot\<rparr>"
  have fields4: "sys_heap ?s4 = km_heap m" "sy_procs ?s4 p = ?pr" "processes ?s4 = processes s" "sys_mem ?s4 = ?m"
    by (simp_all add: upd_proc_def with_mem_def)
  have pf: "pr_ptr ?pr = ptr" "pr_size ?pr = ?sz" by simp_all
  have list4: "task_list ?s4 xs"
    by (rule task_list_cong [OF assms(11)]) (use t in \<open>auto simp: upd_proc_def with_mem_def takes_def extends_def grows_def\<close>)
  have room4: "1027 \<le> avail (km_heap m)" using t room by (simp add: takes_def taken_def)
  have "uint ptr + uint ?sz \<le> 2 ^ 31" using p(10) usz(1) by simp
  from start_task_run [of ?s4 xs p ?pr, unfolded fields4 pf, OF st(3) room4 list4 refl p(6) usz(2) this]
  obtain t s5 s6 where n: "task_new p ?s4 = (t, s5)" "t \<noteq> 0" "page_range t \<inter> held (km_heap m) = {}"
    "process_map_memory p (upd_proc p (\<lambda>q. q\<lparr>pr_task := t\<rparr>) s5) = (0, s6)" "sy_procs s6 p = ?pr\<lparr>pr_task := t\<rparr>"
    "processes s6 = processes s" "task_list s6 (xs @ [t])" "task_process (ts_tasks s6 t) = p"
    "\<forall>va. walk (ts_tables s6) (process_directory s6 p) va = (if page_of va = 0x400000 then ptr OR 7 else page_of va OR 5)"
    "\<forall>a. a \<notin> page_range t \<longrightarrow> sys_mem s6 a = ?m a" by blast
  let ?s' = "s6\<lparr>processes := (processes s)[nat slot := p]\<rparr>"
  have run: "process_load_for_slot mode_r filename slot s = Some (0, Some p, ?s')"
    using assms(8-10) p(2) st(2) n(2) by (simp add: process_load_for_slot_def p(1,12) st(1) n(1,4,6))
  have ext: "extends ?s m" "extends (vf_mem v) m" using t st(4) by (simp_all add: takes_def)
  have "page_range p \<subseteq> held (km_heap m)" using page_held [of "km_heap m" p] p(7) st(3,5) by (simp add: pool_ok_def)
  moreover have "blocks_range ptr (blocks_for ?sz) \<subseteq> held (km_heap m)"
    by (rule block_runD(2)) (rule block_run_extends [OF p(8) ext(2)])
  ultimately have apart: "page_range t \<inter> page_range p = {}" "page_range t \<inter> blocks_range ptr (blocks_for ?sz) = {}"
    using n(3) by blast+
  have path: "cstr (sys_mem s6) (uint p + 2) ?path"
  proof -
    have nm: "cstr (km_mem m) filename ?path" "{filename .. filename + int (length ?path)} \<inter> pool (km_heap ?s) = {}"
      using named_at_extends [OF assms(2) ext(1), of "ts_vfs s"] assms(2) by (simp_all add: named_at_def path_ok_def)
    have in_p: "{uint p + 2 ..< uint p + 2 + 108} \<subseteq> page_range p" by (auto simp: page_range_def)
    then have "{filename .. filename + int (length ?path)} \<inter> {uint p + 2 ..< uint p + 2 + 108} = {}" using nm(2) p(5) by blast
    then have "cstr ?m (uint p + 2) ?path"
      unfolding strncpy_def using strncpy_loop_cstr [of "km_mem m" filename 0 ?path 108 "uint p + 2"] nm(1) assms(3) by simp
    moreover have "\<forall>a \<in> {uint p + 2 .. uint p + 2 + int (length ?path)}. sys_mem s6 a = ?m a"
      using n(10) apart(1) in_p assms(3) by (auto simp: page_range_def)
    ultimately show ?thesis by (rule cstr_frame)
  qed
  have bytes: "memory_bytes (sys_mem s6) (uint ptr) (nat sz) = take (nat sz) data"
    unfolding p(13) [symmetric]
  proof (rule memory_bytes_cong)
    fix a assume "uint ptr \<le> a" "a < uint ptr + int (nat sz)"
    then have a: "a \<in> blocks_range ptr (blocks_for ?sz)" using bytes_in assms(4) by auto
    then have "a \<notin> page_range t" "a \<notin> page_range p" using apart(2) p(9) by auto
    then have "sys_mem s6 a = ?m a" "?m a = km_mem m a"
      using n(10) by (blast, intro strncpy_frame) (auto simp: page_range_def)
    moreover have "km_mem m a = km_mem (vf_mem v) a"
      using extends_heldD [OF ext(2)] block_runD(2) [OF p(8)] a by blast
    ultimately show "sys_mem s6 a = km_mem (vf_mem v) a" by simp
  qed
  have "holds_program ?s' p slot ?path data sz"
    using path bytes n(5,8,9) p(6) by (simp add: holds_program_def process_directory_def)
  moreover have "task_list ?s' (xs @ [pr_task (sy_procs ?s' p)])" using n(5,7) by (simp add: task_list_def forward_list_def)
  ultimately show ?thesis using run p(3) by (intro exI [of _ p] exI [of _ ?s']) simp
qed


subsection \<open>What a call does to the table\<close>

lemma kept_processes [simp]:
  "processes (upd_proc p f s) = processes s" "processes (with_mem m s) = processes s" "processes (process_init p s) = processes s"
  by (simp_all add: upd_proc_def with_mem_def process_init_def)

lemma more_with_heap [simp]: "task_sys.more (with_heap h s) = task_sys.more s"
  by (simp add: with_heap_def)

lemma more_upd_task [simp]: "task_sys.more (upd_task p f s) = task_sys.more s"
  by (simp add: upd_task_def)

lemma more_remove [simp]: "task_sys.more (task_list_remove p s) = task_sys.more s"
  by (simp add: task_list_remove_def Let_def)

lemma more_free [simp]: "task_sys.more (snd (task_free p s)) = task_sys.more s"
  by (simp add: task_free_eq)

lemma more_kzalloc [simp]: "task_sys.more (snd (sys_kzalloc n s)) = task_sys.more s"
  by (simp add: sys_kzalloc_def Let_def split_def)

lemma more_out [simp]: "task_sys.more (snd (task_new_out p res s)) = task_sys.more s"
  by (simp add: task_new_out_def split_def)

lemma more_init [simp]: "task_sys.more (snd (task_init p q s)) = task_sys.more s"
  by (simp add: task_init_def Let_def split_def)

lemma more_new [simp]: "task_sys.more (snd (task_new p s)) = task_sys.more s"
  by (simp add: task_new_def Let_def split_def)

lemma task_new_nonzero: "fst (task_new p s) \<noteq> 0"
  by (simp add: task_new_def task_new_out_def task_init_def ENOMEM_def EIO_def PEACHOS_ALL_OK_def ERROR_def Let_def split_def)

lemma processes_more: "task_sys.more s' = task_sys.more (s :: system) \<Longrightarrow> processes s' = processes s"
  using task_sys_more by blast

lemma table_kzalloc: "sys_kzalloc n s = (p, s') \<Longrightarrow> processes s' = processes (s :: system)"
  by (rule processes_more) (metis more_kzalloc snd_conv)

lemma table_new: "task_new p s = (t, s') \<Longrightarrow> t \<noteq> 0 \<and> processes s' = processes (s :: system)"
  by (intro conjI processes_more) (metis task_new_nonzero fst_conv, metis more_new snd_conv)

lemma table_free: "task_free p s = (r, s') \<Longrightarrow> processes s' = processes (s :: system)"
  by (rule processes_more) (metis more_free snd_conv)

lemma table_binary: "process_load_data mode_r filename p s = Some (res, s') \<Longrightarrow> processes s' = processes s"
  by (auto simp: process_load_data_def process_load_binary_def load_binary_out_def Let_def dest!: table_kzalloc
      split: Option.bind_splits prod.splits if_splits)

lemma table_out: "load_for_slot_out p res s = (r, x, s') \<Longrightarrow> r = res \<and> x = None \<and> processes s' = processes s"
  by (auto simp: load_for_slot_out_def dest!: table_free split: if_splits prod.splits)

lemma table_map: "process_map_memory p s = (r, s') \<Longrightarrow> r = 0 \<and> processes s' = processes s"
  by (auto simp: process_map_memory_def process_map_binary_def Let_def split: prod.splits)

lemma load_for_slot_table:
  assumes "process_load_for_slot mode_r filename slot s = Some (res, x, s')"
  shows "process_get slot s = 0 \<and>
    (res < 0 \<and> x = None \<and> processes s' = processes s \<or>
     res = 0 \<and> 0 \<le> slot \<and> slot < 12 \<and> (\<exists>p. p \<noteq> 0 \<and> x = Some p \<and> processes s' = (processes s)[nat slot := p]))"
  using assms
  by (auto simp: process_load_for_slot_def ENOMEM_def Let_def dest!: table_kzalloc table_binary table_out table_new table_map
      split: Option.bind_splits prod.splits if_splits)


subsection \<open>Properties\<close>

lemma free_slot_found:
  assumes "process_get_free_slot s = slot" and "0 \<le> slot"
  shows "slot < 12" "process_get slot s = 0"
proof -
  obtain i where "find (\<lambda>i. processes s ! i = 0) [0 ..< 12] = Some i" "slot = int i"
    using assms by (auto simp: process_get_free_slot_def EISTKN_def split: option.splits)
  then show "slot < 12" "process_get slot s = 0" by (auto simp: find_Some_iff process_get_def)
qed

text \<open>
  Claim C9.  Loading a program: on a mounted volume with the file, with room on the heap and a free entry in the
  table, \<open>process_load\<close> succeeds.  The new process is in the first free entry; its structure holds the
  path; all the bytes of the file are in a buffer of its own; its task is appended to the list of tasks; and the
  task's address space has the first page of that buffer at 4 MiB, writable for the program.  Every other page
  is mapped to itself for reading only: the rest of a file of more than 4096 bytes is not at its place, and the
  stack at 0x3FF000 is not the memory that was allocated for it and cannot be written.
\<close>

theorem process_load_program:
  assumes "volume_ready ata (ts_vfs s) nm data sz" and "named_at (ts_vfs s) filename mode_r nm" and "length nm < 105"
    and "0 < sz" and "sz \<le> int (length data)" and "sz < 2 ^ 31 - 4096" and "program_room sz (sys_heap s)"
    and "process_get_free_slot s = slot" and "0 \<le> slot" and "task_list s xs"
  shows "\<exists>p s'. process_load mode_r filename s = Some (0, Some p, s') \<and> p \<notin> live (sys_heap s) \<and>
    processes s' = (processes s)[nat slot := p] \<and> task_list s' (xs @ [pr_task (sy_procs s' p)]) \<and>
    holds_program s' p slot (0x30 # COLON # SLASH # nm) data sz \<and>
    walk (ts_tables s') (process_directory s' p) 0x401000 = 0x401005 \<and>
    walk (ts_tables s') (process_directory s' p) 0x3FEFFC = 0x3FE005"
proof -
  note slot = free_slot_found [OF assms(8,9)]
  from load_for_slot_run [OF assms(1-7) slot(2) assms(9) slot(1) assms(10)] obtain p s' where
    run: "process_load_for_slot mode_r filename slot s = Some (0, Some p, s')" "p \<notin> live (sys_heap s)"
      "processes s' = (processes s)[nat slot := p]" "task_list s' (xs @ [pr_task (sy_procs s' p)])"
      "holds_program s' p slot (0x30 # COLON # SLASH # nm) data sz" by blast
  have "process_load mode_r filename s = Some (0, Some p, s')"
    using run(1) assms(8,9) by (simp add: process_load_def)
  moreover have "page_of 0x401000 = 0x401000" "page_of 0x3FEFFC = 0x3FE000" by (simp_all add: page_of_def)
  then have "walk (ts_tables s') (process_directory s' p) 0x401000 = 0x401005"
    "walk (ts_tables s') (process_directory s' p) 0x3FEFFC = 0x3FE005"
    using run(5) unfolding holds_program_def by simp_all
  ultimately show ?thesis using run by blast
qed

text \<open>The system after the start of the file system, without tasks.\<close>

definition started :: "vfs \<Rightarrow> system" where
  "started v = \<lparr>ts_vfs = v, ts_tables = (\<lambda>_. 0), ts_mmu = \<lparr>cr3 = 0, current_directory = 0\<rparr>, data_segment = 0x10,
     ts_tasks = (\<lambda>_. zero_task), current_task = 0, task_tail = 0, task_head = 0, sy_procs = (\<lambda>_. zero_process),
     processes = replicate 12 0, current_process = 0\<rparr>"

lemma demo_booted:
  "\<exists>v. boot_fs demo_kernel = Some v \<and> volume_ready demo_ata v (bytes ''a.nes'') (disk_data demo_ata [2, 4]) 0x400 \<and>
     named_at v 0x5000 0x6000 (bytes ''a.nes'') \<and> taken (km_heap (vf_mem v)) \<le> 5 \<and> total_of (km_heap (vf_mem v)) = 25600"
proof -
  have "length (bytes ''a.nes'') < 108" by (simp add: bytes_def)
  from boot_volume [OF demo_ready demo_on_disk this] obtain v where v: "boot_fs demo_kernel = Some v"
    "volume_ready demo_ata v (bytes ''a.nes'') (disk_data demo_ata [2, 4]) 0x400"
    "extends ((vf_mem demo_kernel)\<lparr>fs_disk := blank_disk\<rparr>) (vf_mem v)"
    "avail (km_heap (vf_mem demo_kernel)) \<le> avail (km_heap (vf_mem v)) + 5" by blast
  have "named_at (demo_kernel\<lparr>vf_mem := (vf_mem demo_kernel)\<lparr>fs_disk := blank_disk\<rparr>\<rparr>) 0x5000 0x6000 (bytes ''a.nes'')"
    using demo_named by (simp add: named_at_def path_ok_def)
  from named_at_extends [OF this, of "vf_mem v" v] v(3) have "named_at v 0x5000 0x6000 (bytes ''a.nes'')" by simp
  moreover have tot: "total_of (km_heap (vf_mem demo_kernel)) = 25600" by (simp add: demo_kernel_def kheap_init_eq)
  moreover have "avail (km_heap (vf_mem demo_kernel)) = 25600" by (simp add: demo_kernel_def kheap_init_avail)
  moreover have "total_of (km_heap (vf_mem v)) = total_of (km_heap (vf_mem demo_kernel))"
    using v(3) demo_ready by (intro pool_total) (simp_all add: extends_def grows_def kernel_ready_def)
  ultimately show ?thesis using v(1,2,4) by (intro exI [of _ v]) (simp add: taken_def)
qed

lemma demo_started:
  "\<exists>v. boot_fs demo_kernel = Some v \<and> volume_ready demo_ata (ts_vfs (started v)) (bytes ''a.nes'') (disk_data demo_ata [2, 4]) 0x400 \<and>
     named_at (ts_vfs (started v)) 0x5000 0x6000 (bytes ''a.nes'') \<and> program_room 0x400 (sys_heap (started v)) \<and>
     process_get_free_slot (started v) = 0 \<and> task_list (started v) [] \<and> length (bytes ''a.nes'') < 105 \<and>
     (0x400 :: int) \<le> int (length (disk_data demo_ata [2, 4]))"
proof -
  obtain v where v: "boot_fs demo_kernel = Some v" "volume_ready demo_ata v (bytes ''a.nes'') (disk_data demo_ata [2, 4]) 0x400"
    "named_at v 0x5000 0x6000 (bytes ''a.nes'')" "taken (km_heap (vf_mem v)) \<le> 5" "total_of (km_heap (vf_mem v)) = 25600"
    using demo_booted by blast
  have vfs: "ts_vfs (started v) = v" by (simp add: started_def)
  have "process_get_free_slot (started v) = 0" "task_list (started v) []"
    by (simp_all add: process_get_free_slot_def started_def upt_conv_Cons task_list_def forward_list_def)
  moreover have "program_room 0x400 (km_heap (vf_mem v))" using v(4,5) by (simp add: program_room_def blocks_for_def)
  moreover have "length (bytes ''a.nes'') < 105" "(0x400 :: int) \<le> int (length (disk_data demo_ata [2, 4]))"
    by (simp_all add: bytes_def demo_length)
  ultimately show ?thesis using v(1-3) by (intro exI [of _ v]) (simp only: vfs simp_thms)
qed

theorem process_load_program_witness:
  "\<exists>v p s'. boot_fs demo_kernel = Some v \<and> process_load 0x6000 0x5000 (started v) = Some (0, Some p, s') \<and>
     processes s' = p # replicate 11 0 \<and> task_list s' [pr_task (sy_procs s' p)] \<and>
     walk (ts_tables s') (process_directory s' p) 0x400123 = pr_ptr (sy_procs s' p) OR 7 \<and>
     memory_bytes (sys_mem s') (uint (pr_ptr (sy_procs s' p))) 1024 = take 1024 (disk_data demo_ata [2, 4])"
proof -
  obtain v where v: "boot_fs demo_kernel = Some v" "volume_ready demo_ata (ts_vfs (started v)) (bytes ''a.nes'') (disk_data demo_ata [2, 4]) 0x400"
    "named_at (ts_vfs (started v)) 0x5000 0x6000 (bytes ''a.nes'')" "program_room 0x400 (sys_heap (started v))"
    "process_get_free_slot (started v) = 0" "task_list (started v) []" "length (bytes ''a.nes'') < 105"
    "(0x400 :: int) \<le> int (length (disk_data demo_ata [2, 4]))"
    using demo_started by blast
  obtain p s' where "process_load 0x6000 0x5000 (started v) = Some (0, Some p, s')"
    "processes s' = (processes (started v))[0 := p]" "task_list s' [pr_task (sy_procs s' p)]"
    "holds_program s' p 0 (0x30 # COLON # SLASH # bytes ''a.nes'') (disk_data demo_ata [2, 4]) 0x400"
    using process_load_program [OF v(2,3,7) _ v(8) _ v(4,5) _ v(6)] by auto
  moreover have "page_of 0x400123 = 0x400000" by (simp add: page_of_def)
  ultimately show ?thesis
    using v(1) by (intro exI [of _ v] exI [of _ p] exI [of _ s']) (simp add: holds_program_def started_def numeral_nat)
qed

text \<open>
  Claim C10.  The table of processes: whatever happens on the way, a call of \<open>process_load\<close> that returns either
  reports an error, and then the table is as before and no process is handed out, or it returns 0, and then
  exactly one entry has changed, one that was free, and holds the process that is handed out.
\<close>

theorem process_load_table:
  assumes "process_load mode_r filename s = Some (res, x, s')"
  shows "res < 0 \<and> x = None \<and> processes s' = processes s \<or>
    res = 0 \<and> (\<exists>p i. p \<noteq> 0 \<and> x = Some p \<and> i < 12 \<and> processes s ! i = 0 \<and> processes s' = (processes s)[i := p])"
proof (cases "process_get_free_slot s < 0")
  case True
  then show ?thesis using assms by (auto simp: process_load_def EISTKN_def)
next
  case False
  let ?slot = "process_get_free_slot s"
  have "process_load_for_slot mode_r filename ?slot s = Some (res, x, s')" using assms False by (simp add: process_load_def Let_def)
  from load_for_slot_table [OF this] have
    t: "res < 0 \<and> x = None \<and> processes s' = processes s \<or>
      res = 0 \<and> ?slot < 12 \<and> (\<exists>p. p \<noteq> 0 \<and> x = Some p \<and> processes s' = (processes s)[nat ?slot := p])" by blast
  have "processes s ! nat ?slot = 0" "nat ?slot < 12" using free_slot_found [of s ?slot] False by (auto simp: process_get_def)
  then show ?thesis using t by blast
qed

theorem process_load_table_witness:
  "\<exists>v p s'. boot_fs demo_kernel = Some v \<and> process_load 0x6000 0x5000 (started v) = Some (0, Some p, s') \<and>
     (\<exists>i < 12. processes s' = (replicate 12 0)[i := p])"
proof -
  obtain v where v: "boot_fs demo_kernel = Some v" "volume_ready demo_ata (ts_vfs (started v)) (bytes ''a.nes'') (disk_data demo_ata [2, 4]) 0x400"
    "named_at (ts_vfs (started v)) 0x5000 0x6000 (bytes ''a.nes'')" "program_room 0x400 (sys_heap (started v))"
    "process_get_free_slot (started v) = 0" "task_list (started v) []" "length (bytes ''a.nes'') < 105"
    "(0x400 :: int) \<le> int (length (disk_data demo_ata [2, 4]))"
    using demo_started by blast
  have "process_get 0 (started v) = 0" using free_slot_found [OF v(5)] by simp
  then obtain p s' where "process_load 0x6000 0x5000 (started v) = Some (0, Some p, s')"
    using load_for_slot_run [OF v(2,3,7) _ v(8) _ v(4) _ _ _ v(6), of 0] by (auto simp: process_load_def v(5))
  moreover from process_load_table [OF this] have "\<exists>i < 12. processes s' = (processes (started v))[i := p]" by auto
  ultimately show ?thesis using v(1) by (auto simp: started_def)
qed


end
