(* ===== verification/Descriptors.thy ===== *)
theory Descriptors
  imports Prelude
begin

text \<open>
  The descriptor tables: \<open>src/gdt/gdt.c\<close> with the segments that \<open>src/kernel.c\<close> gives it, and
  \<open>src/idt/idt.c\<close>.  A descriptor is read back the way the processor reads it, and shown to describe
  what the code was asked to encode.
\<close>

subsection \<open>The global descriptor table\<close>

(* src/src/gdt/gdt.h 14-18 gdt_structured *)
record gdt_structured =
  gs_base :: u32
  gs_limit :: u32
  gs_type :: u8

text \<open>The eight bytes of a \<open>struct gdt\<close>; \<open>None\<close> is \<open>panic\<close>, which does not return.\<close>

(* src/src/gdt/gdt.c 4-28 encodeGdtEntry *)
definition encodeGdtEntry :: "gdt_structured \<Rightarrow> u8 list option" where
  "encodeGdtEntry source =
     (if 65536 < gs_limit source \<and> gs_limit source AND 0xFFF \<noteq> 0xFFF then None
      else
        let big = 65536 < gs_limit source;
            limit = (if big then drop_bit 12 (gs_limit source) else gs_limit source);
            target6 = (if big then 0xC0 else 0x40 :: u8);
            base = gs_base source
        in Some [ucast (limit AND 0xFF), ucast (drop_bit 8 limit AND 0xFF),
                 ucast (base AND 0xFF), ucast (drop_bit 8 base AND 0xFF), ucast (drop_bit 16 base AND 0xFF),
                 gs_type source, target6 OR ucast (drop_bit 16 limit AND 0x0F),
                 ucast (drop_bit 24 base AND 0xFF)])"

text \<open>\<open>those\<close> is \<open>None\<close> as soon as one entry panics.\<close>

(* src/src/gdt/gdt.c 30-34 gdt_structured_to_gdt *)
definition gdt_structured_to_gdt :: "gdt_structured list \<Rightarrow> u8 list list option" where
  "gdt_structured_to_gdt structured_gdt = those (map encodeGdtEntry structured_gdt)"

text \<open>The three segments of the initialiser, and the zero entries up to \<open>PEACHOS_TOTAL_GDT_SEGMENTS\<close>.\<close>

(* src/src/kernel.c 22-29 gdt_structured *)
definition gdt_structured_table :: "gdt_structured list" where
  "gdt_structured_table =
     [\<lparr>gs_base = 0, gs_limit = 0, gs_type = 0\<rparr>,
      \<lparr>gs_base = 0, gs_limit = 0xffffffff, gs_type = 0x9a\<rparr>,
      \<lparr>gs_base = 0, gs_limit = 0xffffffff, gs_type = 0x92\<rparr>] @
     replicate 3 \<lparr>gs_base = 0, gs_limit = 0, gs_type = 0\<rparr>"

text \<open>
  How the processor reads a descriptor: the 20-bit limit, in bytes or, with the granularity bit, in pages
  of which the last is included; the base; the access byte.
\<close>

definition descriptor_limit :: "u8 list \<Rightarrow> u32" where
  "descriptor_limit d =
     (let limit = push_bit 16 (ucast (d ! 6 AND 0x0F)) OR push_bit 8 (ucast (d ! 1)) OR ucast (d ! 0)
      in if d ! 6 AND 0x80 \<noteq> 0 then push_bit 12 limit OR 0xFFF else limit)"

definition descriptor_base :: "u8 list \<Rightarrow> u32" where
  "descriptor_base d =
     push_bit 24 (ucast (d ! 7)) OR push_bit 16 (ucast (d ! 4)) OR push_bit 8 (ucast (d ! 3)) OR ucast (d ! 2)"

text \<open>The bytes of an encoded descriptor, read through \<open>take_bit\<close>.\<close>

lemmas encode_simps = encodeGdtEntry_def and_low_byte and_low_nibble

lemma join_bytes:
  "push_bit 24 (ucast (ucast (take_bit 8 (drop_bit 24 w)) :: u8)) OR push_bit 16 (ucast (ucast (take_bit 8 (drop_bit 16 w)) :: u8)) OR
     push_bit 8 (ucast (ucast (take_bit 8 (drop_bit 8 w)) :: u8)) OR ucast (ucast (take_bit 8 w) :: u8) = (w :: u32)"
proof (rule bit_word_eqI, goal_cases)
  case (1 n)
  consider "n < 8" | "8 \<le> n" "n < 16" | "16 \<le> n" "n < 24" | "24 \<le> n" by linarith
  then show ?case using 1 by cases (simp_all add: bit_simps, linarith+)
qed

lemma join_limit:
  assumes "w < 2 ^ 20"
  shows "push_bit 16 (ucast (ucast (take_bit 4 (drop_bit 16 w)) :: u8)) OR
     push_bit 8 (ucast (ucast (take_bit 8 (drop_bit 8 w)) :: u8)) OR ucast (ucast (take_bit 8 w) :: u8) = (w :: u32)"
proof (rule bit_word_eqI, goal_cases)
  case (1 n)
  have "uint w < 2 ^ 20" using assms by (simp add: word_less_def)
  then have low: "take_bit 20 w = w"
    by (simp add: word_uint_eq_iff unsigned_take_bit_eq take_bit_int_eq_self)
  have high: "\<not> bit w n" if "20 \<le> n" using that low by (metis bit_take_bit_iff not_less)
  consider "n < 8" | "8 \<le> n" "n < 16" | "16 \<le> n" "n < 20" | "20 \<le> n" by linarith
  then show ?case using 1 high by cases (simp_all add: bit_simps, linarith+)
qed

text \<open>The flags above the high nibble of the limit.\<close>

lemma flag_nibble:
  "take_bit 4 (0x40 OR ucast (take_bit 4 w) :: u8) = ucast (take_bit 4 (w :: u32))"
  "take_bit 4 (0xC0 OR ucast (take_bit 4 w) :: u8) = ucast (take_bit 4 (w :: u32))"
  "take_bit 4 (ucast (take_bit 4 w) :: u8) = ucast (take_bit 4 (w :: u32))"
  "(0x40 OR ucast (take_bit 4 w) :: u8) AND 0x80 = 0"
  "(0xC0 OR ucast (take_bit 4 w) :: u8) AND 0x80 = 0x80"
  "(0x40 OR ucast (take_bit 4 w) :: u8) AND 0x70 = 0x40"
  "(0xC0 OR ucast (take_bit 4 w) :: u8) AND 0x70 = 0x40"
proof -
  have n: "n = 0 \<or> n = 1 \<or> n = 2 \<or> n = 3 \<or> n = 4 \<or> n = 5 \<or> n = 6 \<or> n = 7" if "n < LENGTH(8)" for n
    using that by auto
  show "take_bit 4 (0x40 OR ucast (take_bit 4 w) :: u8) = ucast (take_bit 4 w)"
    by (rule bit_word_eqI, drule n) (elim disjE; simp add: bit_simps)
  show "take_bit 4 (0xC0 OR ucast (take_bit 4 w) :: u8) = ucast (take_bit 4 w)"
    by (rule bit_word_eqI, drule n) (elim disjE; simp add: bit_simps)
  show "take_bit 4 (ucast (take_bit 4 w) :: u8) = ucast (take_bit 4 w)"
    by (rule bit_word_eqI, drule n) (elim disjE; simp add: bit_simps)
  show "(0x40 OR ucast (take_bit 4 w) :: u8) AND 0x80 = 0"
    by (rule bit_word_eqI, drule n) (elim disjE; simp add: bit_simps)
  show "(0xC0 OR ucast (take_bit 4 w) :: u8) AND 0x80 = 0x80"
    by (rule bit_word_eqI, drule n) (elim disjE; simp add: bit_simps)
  show "(0x40 OR ucast (take_bit 4 w) :: u8) AND 0x70 = 0x40"
    by (rule bit_word_eqI, drule n) (elim disjE; simp add: bit_simps)
  show "(0xC0 OR ucast (take_bit 4 w) :: u8) AND 0x70 = 0x40"
    by (rule bit_word_eqI, drule n) (elim disjE; simp add: bit_simps)
qed

lemma page_limit:
  assumes "w AND 0xFFF = (0xFFF :: u32)"
  shows "push_bit 12 (drop_bit 12 w) OR 0xFFF = w"
proof -
  have m: "(0xFFF :: u32) = mask 12" by (simp add: mask_eq_exp_minus_1)
  have low: "bit w n" if "n < 12" for n
  proof -
    have "bit (w AND 0xFFF) n" unfolding assms unfolding m using that by (simp only: bit_mask_iff possible_bit_word) simp
    then show ?thesis by (simp add: bit_and_iff)
  qed
  show ?thesis
    unfolding m by (rule bit_word_eqI) (auto simp: bit_simps low)
qed

text \<open>
  Claim C29.  \<open>encodeGdtEntry\<close> panics exactly for a limit above 64 KiB that is not the last byte of a
  page: for such a limit always, and for no other.  Every other segment is encoded into eight bytes from which
  the processor reads back the very base, limit and access byte; the segment is a 32-bit one, and its limit is
  counted in pages exactly when it is above 64 KiB.
\<close>

theorem encodeGdtEntry_roundtrip:
  "(encodeGdtEntry s = None \<longleftrightarrow> 65536 < gs_limit s \<and> gs_limit s AND 0xFFF \<noteq> 0xFFF) \<and>
   (case encodeGdtEntry s of
      None \<Rightarrow> True
    | Some d \<Rightarrow> length d = 8 \<and> descriptor_base d = gs_base s \<and> descriptor_limit d = gs_limit s \<and> d ! 5 = gs_type s \<and>
        d ! 6 AND 0x70 = 0x40 \<and> (d ! 6 AND 0x80 \<noteq> 0 \<longleftrightarrow> 65536 < gs_limit s))"
proof (cases "65536 < gs_limit s")
  case False
  then have "uint (gs_limit s) \<le> 65536" by (simp add: word_less_def not_less)
  then have "gs_limit s < 2 ^ 20" by (simp add: word_less_def)
  with False show ?thesis
    by (simp add: encode_simps Let_def page_limit descriptor_base_def descriptor_limit_def flag_nibble join_bytes join_limit)
next
  case True
  have "uint (gs_limit s) < 2 ^ 32" using uint_bounded [of "gs_limit s"] by simp
  then have "drop_bit 12 (gs_limit s) < 2 ^ 20"
    by (simp add: word_less_def drop_bit_eq_div uint_div div_less_iff_less_mult)
  note limit = join_limit [OF this]
  from True show ?thesis
    by (simp add: encode_simps Let_def page_limit descriptor_base_def descriptor_limit_def flag_nibble
        join_bytes limit del: push_bit_or drop_bit_drop_bit)
qed

text \<open>
  The table that \<open>kernel_main\<close> loads is encoded without a panic: a null segment, a code and
  a data segment that cover the whole address space, and three more null segments.
\<close>

theorem kernel_gdt_segments:
  "\<exists>t. gdt_structured_to_gdt gdt_structured_table = Some t \<and>
     map (\<lambda>d. (descriptor_base d, descriptor_limit d, d ! 5)) t =
       [(0, 0, 0), (0, 0xffffffff, 0x9a), (0, 0xffffffff, 0x92), (0, 0, 0), (0, 0, 0), (0, 0, 0)]"
  by (simp add: gdt_structured_to_gdt_def gdt_structured_table_def encodeGdtEntry_def descriptor_base_def
      descriptor_limit_def numeral_3_eq_3)

subsection \<open>The interrupt descriptor table\<close>

(* src/src/idt/idt.h 7-13 idt_desc *)
record idt_desc =
  offset_1 :: u16
  selector :: u16
  zero :: u8
  type_attr :: u8
  offset_2 :: u16

(* src/src/idt/idt.h 16-19 idtr_desc *)
record idtr_desc =
  idtr_limit :: u16
  idtr_base :: u32

text \<open>
  The globals, and the addresses of the assembly entry points and of the table, which the linker
  chooses.  An index outside the table is the memory around it.
\<close>

record idt_state =
  idt_descriptors :: "int \<Rightarrow> idt_desc"
  idtr_descriptor :: idtr_desc

record idt_symbols =
  sym_idt_descriptors :: u32
  sym_no_interrupt :: u32
  sym_idt_zero :: u32
  sym_int21h :: u32
  sym_pit_irq :: u32

abbreviation PEACHOS_TOTAL_INTERRUPTS :: int where "PEACHOS_TOTAL_INTERRUPTS \<equiv> 512"
abbreviation KERNEL_CODE_SELECTOR :: u16 where "KERNEL_CODE_SELECTOR \<equiv> 0x08"

(* src/src/idt/idt.c 38-45 idt_set *)
definition idt_set :: "int \<Rightarrow> u32 \<Rightarrow> idt_state \<Rightarrow> idt_state" where
  "idt_set interrupt_no address s =
     s\<lparr>idt_descriptors := (idt_descriptors s)(interrupt_no :=
         \<lparr>offset_1 = ucast (address AND 0x0000ffff), selector = KERNEL_CODE_SELECTOR, zero = 0x00,
          type_attr = 0x8E, offset_2 = ucast (drop_bit 16 address)\<rparr>)\<rparr>"

(* src/src/idt/idt.c 47-72 idt_init *)
definition idt_init :: "idt_symbols \<Rightarrow> idt_state \<Rightarrow> idt_state" where
  "idt_init syms s =
     (let zero_desc = \<lparr>offset_1 = 0, selector = 0, zero = 0, type_attr = 0, offset_2 = 0\<rparr>;
          s = s\<lparr>idt_descriptors := (\<lambda>i. if 0 \<le> i \<and> i < PEACHOS_TOTAL_INTERRUPTS then zero_desc
                                       else idt_descriptors s i)\<rparr>;
          s = s\<lparr>idtr_descriptor := \<lparr>idtr_limit = word_of_int (PEACHOS_TOTAL_INTERRUPTS * 8 - 1),
                                     idtr_base = sym_idt_descriptors syms\<rparr>\<rparr>;
          s = fold (\<lambda>i. idt_set i (sym_no_interrupt syms)) [0 .. PEACHOS_TOTAL_INTERRUPTS - 1] s;
          s = idt_set 0 (sym_idt_zero syms) s;
          s = idt_set 0x21 (sym_int21h syms) s
      in idt_set 0x20 (sym_pit_irq syms) s)"

text \<open>Where the processor jumps for an interrupt, and how it reads the attributes of the gate.\<close>

definition gate_target :: "idt_desc \<Rightarrow> u32" where
  "gate_target d = push_bit 16 (ucast (offset_2 d)) OR ucast (offset_1 d)"

definition interrupt_gate :: "idt_desc \<Rightarrow> bool" where
  "interrupt_gate d \<longleftrightarrow> type_attr d AND 0x80 \<noteq> 0 \<and> type_attr d AND 0x0F = 0xE \<and> type_attr d AND 0x60 = 0 \<and>
     zero d = 0 \<and> selector d = KERNEL_CODE_SELECTOR"

lemma gate_target_set:
  "push_bit 16 (ucast (ucast (drop_bit 16 a) :: u16)) OR ucast (ucast (a AND 0x0000ffff) :: u16) = (a :: u32)"
proof (rule bit_word_eqI, goal_cases)
  case (1 n)
  have m: "a AND 0x0000ffff = take_bit 16 a" by (simp add: take_bit_eq_mask mask_eq_exp_minus_1)
  consider "n < 16" | "16 \<le> n" by linarith
  then show ?case unfolding m using 1 by cases (simp_all add: bit_simps, linarith+)
qed

lemma idt_set_apply:
  "idt_descriptors (idt_set n a s) i = (if i = n then
     \<lparr>offset_1 = ucast (a AND 0x0000ffff), selector = KERNEL_CODE_SELECTOR, zero = 0x00,
      type_attr = 0x8E, offset_2 = ucast (drop_bit 16 a)\<rparr> else idt_descriptors s i)"
  "idtr_descriptor (idt_set n a s) = idtr_descriptor s"
  by (simp_all add: idt_set_def)

lemma idt_set_all:
  "idt_descriptors (fold (\<lambda>i. idt_set i a) is s) j =
     (if j \<in> set is then idt_descriptors (idt_set j a s) j else idt_descriptors s j)"
  "idtr_descriptor (fold (\<lambda>i. idt_set i a) is s) = idtr_descriptor s"
  by (induction "is" arbitrary: s) (auto simp: idt_set_apply)

text \<open>
  After \<open>idt_init\<close> every one of the 512 entries is a present ring-0 interrupt gate in the
  kernel's code segment; vector 0 leads to the division handler, 0x20 to the timer, 0x21 to the
  keyboard and every other to \<open>no_interrupt\<close>; the table register describes the table, and memory
  outside the table is left alone.
\<close>

theorem idt_init_gates:
  "(if 0 \<le> i \<and> i < PEACHOS_TOTAL_INTERRUPTS
    then interrupt_gate (idt_descriptors (idt_init syms s) i) \<and>
      gate_target (idt_descriptors (idt_init syms s) i) =
        (if i = 0 then sym_idt_zero syms else if i = 0x20 then sym_pit_irq syms
         else if i = 0x21 then sym_int21h syms else sym_no_interrupt syms)
    else idt_descriptors (idt_init syms s) i = idt_descriptors s i) \<and>
   uint (idtr_limit (idtr_descriptor (idt_init syms s))) = PEACHOS_TOTAL_INTERRUPTS * 8 - 1 \<and>
   idtr_base (idtr_descriptor (idt_init syms s)) = sym_idt_descriptors syms"
  by (auto simp: idt_init_def Let_def idt_set_apply idt_set_all gate_target_def gate_target_set interrupt_gate_def)

end
