(* ===== verification/KernelMain.thy ===== *)
theory KernelMain
  imports Menu ProcessProps Descriptors
begin

text \<open>
  The start of the kernel: \<open>kernel_main\<close> of \<open>src/kernel.c\<close> up to the enabling of the interrupts; \<open>Menu\<close> has the
  rest.  The components are started one after the other on one state: segments, heap, file system,
  interrupt table, address space.  \<open>None\<close> is a panic, or a loop that does not end.

  The memory is the physical one throughout, after paging is enabled too: by the address space of
  \<open>kernel_boots\<close> a virtual address is its own physical one everywhere but in the page 0x1000, and nothing that
  is modelled after that has an object in that page.
\<close>

subsection \<open>The globals\<close>

text \<open>
  \<open>gdtr\<close> is the table that \<open>gdt_load\<close> has given to the processor; the two flags are what \<open>enable_paging\<close> and
  \<open>enable_interrupts\<close> set in it.
\<close>

(* src/src/kernel.c 158-158 kernel_chunk *)
record kernel_sys =
  k_sys :: system
  gdt_real :: "u8 list list"
  gdtr :: "u8 list list option"
  k_idt :: idt_state
  kernel_chunk :: u32
  paging_enabled :: bool
  interrupts_enabled :: bool

definition on_vfs :: "(vfs \<Rightarrow> vfs) \<Rightarrow> system \<Rightarrow> system" where
  "on_vfs f s = s\<lparr>ts_vfs := f (ts_vfs s)\<rparr>"

definition on_console :: "(terminal \<Rightarrow> terminal) \<Rightarrow> system \<Rightarrow> system" where
  "on_console f = on_vfs (\<lambda>v. v\<lparr>vf_mem := (vf_mem v)\<lparr>km_term := f (km_term (vf_mem v))\<rparr>\<rparr>)"

subsection \<open>Operations\<close>

(* src/src/memory/heap/kheap.c 19-22 kheap_init: result *)
definition start_heap :: "system \<Rightarrow> system" where
  "start_heap s =
     (let (res, h) = kheap_init (sys_heap s);
          s = with_heap h s
      in if res < 0 then on_console (print (''Failed to create heap'' @ [nl])) s else s)"

(* src/src/kernel.c 183-190 kernel_main: paging *)
definition start_paging :: "system \<Rightarrow> u32 \<times> system" where
  "start_paging s =
     (let (chunk, h, m) = paging_new_4gb (PAGING_IS_WRITEABLE OR PAGING_IS_PRESENT OR PAGING_ACCESS_FROM_ALL) (sys_heap s) (ts_tables s);
          s = (with_heap h s)\<lparr>ts_tables := m\<rparr>;
          s = s\<lparr>ts_mmu := paging_switch (paging_4gb_chunk_get_directory (ts_tables s) chunk) (ts_mmu s)\<rparr>;
          (ptr, s) = sys_kzalloc 4096 s;
          (_, m) = paging_set (ts_tables s) (paging_4gb_chunk_get_directory (ts_tables s) chunk) 0x1000
                     (ptr OR ucast PAGING_ACCESS_FROM_ALL OR ucast PAGING_IS_PRESENT OR ucast PAGING_IS_WRITEABLE)
      in (chunk, s\<lparr>ts_tables := m\<rparr>))"

(* src/src/kernel.c 160-195 kernel_main: up to the menu *)
definition kernel_boot :: "idt_symbols \<Rightarrow> kernel_sys \<Rightarrow> kernel_sys option" where
  "kernel_boot syms k = do {
     let k = k\<lparr>k_sys := on_console terminal_initialize (k_sys k)\<rparr>;
     gdt \<leftarrow> gdt_structured_to_gdt gdt_structured_table;
     let k = k\<lparr>gdt_real := gdt, gdtr := Some gdt\<rparr>;
     let s = start_heap (k_sys k);
     v \<leftarrow> boot_fs (ts_vfs s);
     let s = s\<lparr>ts_vfs := v\<rparr>;
     let k = k\<lparr>k_idt := idt_init syms (k_idt k)\<rparr>;
     let (chunk, s) = start_paging s;
     Some (k\<lparr>k_sys := s, kernel_chunk := chunk, paging_enabled := True, interrupts_enabled := True\<rparr>) }"

subsection \<open>The steps\<close>

lemma start_heap_eq: "start_heap s = with_heap (snd (kheap_init (sys_heap s))) s"
  by (simp add: start_heap_def kheap_init_eq)

lemma kheap_init_pool_range: "pool (snd (kheap_init h)) = {0x01000000 ..< 0x01000000 + 25600 * 4096}"
  by (simp add: pool_def kheap_init_eq)

text \<open>Paging on a system with a mounted volume.\<close>

lemma start_paging_spec:
  assumes "pool_ok (sys_heap s)" and "1027 \<le> avail (sys_heap s)"
  shows "\<exists>chunk ptr m t. start_paging s = (chunk, s\<lparr>ts_vfs := (ts_vfs s)\<lparr>vf_mem := m\<rparr>, ts_tables := t,
      ts_mmu := \<lparr>cr3 = paging_4gb_chunk_get_directory t chunk, current_directory = paging_4gb_chunk_get_directory t chunk\<rparr>\<rparr>) \<and>
    takes 1027 (vf_mem (ts_vfs s)) m \<and> same_fs (vf_mem (ts_vfs s)) m \<and>
    ptr \<notin> live (sys_heap s) \<and> ptr \<in> live (km_heap m) \<and> (\<forall>a \<in> page_range ptr. km_mem m a = 0) \<and>
    (\<forall>va. walk t (paging_4gb_chunk_get_directory t chunk) va = (if page_of va = 0x1000 then ptr OR 7 else page_of va OR 7))"
proof -
  let ?s = "vf_mem (ts_vfs s)"
  obtain chunk h2 m2 where 2: "paging_new_4gb 7 (sys_heap s) (ts_tables s) = (chunk, h2, m2)"
    by (cases "paging_new_4gb 7 (sys_heap s) (ts_tables s)")
  have "1026 \<le> avail (sys_heap s)" using assms(2) by simp
  from paging_new_4gb_pages [OF assms(1) this 2] obtain d ts where p: "length ts = 1024" "fresh_pages (d # ts @ [chunk]) (sys_heap s) h2"
    "identity_tables 7 m2 d ts" "m2 chunk = d" by blast
  note f = p(2) [unfolded fresh_pages_def]
  have pages: "\<forall>q \<in> set ts. page q" "page d" "d \<notin> set ts" "distinct ts" "chunk \<notin> set ts" "page chunk" using f by auto
  have ok: "directory_ok m2 d" by (rule identity_directory_ok [OF p(3,1) pages(1-4)])
  let ?s2 = "?s\<lparr>km_heap := h2\<rparr>"
  have ext2: "extends ?s ?s2" using f assms(1) by (simp add: extends_def grows_same)
  have room: "pool_ok (km_heap ?s2)" "0 < avail (km_heap ?s2)" and av: "avail h2 + 1026 = avail (sys_heap s)"
    using f assms(2) p(1) by auto
  have one: "one_block 4096" by (simp add: one_block_def)
  obtain ptr s3 where al: "kalloc 4096 ?s2 = (ptr, s3)" by (cases "kalloc 4096 ?s2")
  note k = kalloc_spec [OF room(1) one room(2) al]
  have "page ptr" by (rule k(3))
  have virt: "page 0x1000" by (simp add: page_def)
  let ?t = "snd (paging_map m2 d 0x1000 ptr 7)"
  have set: "paging_set m2 d 0x1000 (ptr OR 4 OR 1 OR 2) = (fst (paging_map m2 d 0x1000 ptr 7), ?t)"
    using virt \<open>page ptr\<close> by (simp add: paging_map_def page_aligned [symmetric] or.assoc)
  have d: "?t chunk = d"
  proof -
    let ?e = "dword (page_of (m2 (dword d (0x1000 div 0x400000)))) (0x1000 div 4096 mod 1024)"
    have i: "0x1000 div 0x400000 < (1024 :: u32)" by (rule index_bounds)
    have "page_of (m2 (dword d (0x1000 div 0x400000))) = ts ! unat (0x1000 div 0x400000 :: u32)" by (rule identity_entry [OF p(3,1) pages(1) i])
    moreover have "ts ! unat (0x1000 div 0x400000 :: u32) \<in> set ts" using i p(1) by (intro nth_mem) (simp add: word_less_nat_alt)
    ultimately have e: "page_of (m2 (dword d (0x1000 div 0x400000))) \<in> set ts" by simp
    then have "page_of ?e = page_of (m2 (dword d (0x1000 div 0x400000)))" using pages(1) index_bounds(2) [of "0x1000"] by (intro page_of_dword) blast+
    then have "?e \<noteq> chunk" using e pages(5,6) by (metis page_of_page)
    then show ?thesis unfolding paging_map_eq [OF virt \<open>page ptr\<close>] snd_conv using p(4) by (metis fun_upd_other)
  qed
  have w: "walk ?t d va = (if page_of va = 0x1000 then ptr OR 7 else page_of va OR 7)" for va
    using paging_map_walk [OF ok virt \<open>page ptr\<close>, of 7 va] identity_walk [OF p(3,1) pages(1), of va] by simp
  have ext3: "extends ?s s3" by (rule extends_trans [OF ext2 kalloc_extends [OF room(1) one room(2) al]])
  have t: "takes 1027 ?s s3"
    using takes_avail [OF ext3 assms(1), of 1027] k(6) av by simp
  have mmu: "x\<lparr>cr3 := d, current_directory := d\<rparr> = \<lparr>cr3 = d, current_directory = d\<rparr>" for x :: mmu by (cases x) simp
  have "(2 :: u8) OR 1 OR 4 = 7" by simp
  then have "start_paging s = (chunk, s\<lparr>ts_vfs := (ts_vfs s)\<lparr>vf_mem := s3\<rparr>, ts_tables := ?t,
      ts_mmu := \<lparr>cr3 = d, current_directory = d\<rparr>\<rparr>)"
    using 2 al set by (simp add: start_paging_def with_heap_def sys_kzalloc_def paging_4gb_chunk_get_directory_def p(4) paging_switch_def mmu Let_def split_def)
  moreover have "same_fs ?s s3" by (subst k(11)) (simp add: same_fs_def)
  moreover have "\<forall>a \<in> page_range ptr. km_mem s3 a = 0"
  proof
    fix a assume "a \<in> page_range ptr"
    then show "km_mem s3 a = 0" using k(10) [of "a - uint ptr"] by (simp add: page_range_def)
  qed
  moreover have "ptr \<notin> live (sys_heap s)" "ptr \<in> live (km_heap s3)" using k(2,5) f by auto
  ultimately show ?thesis using t w d
    by (intro exI [of _ chunk] exI [of _ ptr] exI [of _ s3] exI [of _ ?t]) (simp add: paging_4gb_chunk_get_directory_def)
qed

subsection \<open>The whole start\<close>

abbreviation kernel_pool :: "int set" where
  "kernel_pool \<equiv> {0x01000000 ..< 0x01000000 + 25600 * 4096}"

lemma kernel_boot_run:
  assumes "vf_drivers (ts_vfs (k_sys k)) FAT16_FS = fat16_fs ata" and "on_disk ata nm cs sz" and "length nm < 108"
  shows "\<exists>k' ptr. kernel_boot syms k = Some k' \<and> volume_ready ata (ts_vfs (k_sys k')) nm (disk_data ata cs) sz \<and>
    pool_ok (sys_heap (k_sys k')) \<and> taken (sys_heap (k_sys k')) \<le> 1032 \<and> total_of (sys_heap (k_sys k')) = 25600 \<and>
    ptr \<in> live (sys_heap (k_sys k')) \<and> (\<forall>a \<in> page_range ptr. sys_mem (k_sys k') a = 0) \<and>
    paging_enabled k' \<and> interrupts_enabled k' \<and>
    pool (sys_heap (k_sys k')) = kernel_pool \<and> (\<forall>a. a \<notin> kernel_pool \<longrightarrow> sys_mem (k_sys k') a = sys_mem (k_sys k) a) \<and>
    cluster_bytes (vf_mem (ts_vfs (k_sys k'))) = disk_cluster_bytes ata \<and>
    (\<forall>va. walk (ts_tables (k_sys k')) (cr3 (ts_mmu (k_sys k'))) va = (if page_of va = 0x1000 then ptr OR 7 else page_of va OR 7)) \<and>
    map (\<lambda>d. (descriptor_base d, descriptor_limit d, d ! 5)) (the (gdtr k')) =
      [(0, 0, 0), (0, 0xffffffff, 0x9a), (0, 0xffffffff, 0x92), (0, 0, 0), (0, 0, 0), (0, 0, 0)] \<and>
    k_idt k' = idt_init syms (k_idt k)"
proof -
  let ?s0 = "on_console terminal_initialize (k_sys k)"
  let ?h = "snd (kheap_init (sys_heap ?s0))"
  let ?v0 = "ts_vfs (with_heap ?h ?s0)"
  have heap0: "km_heap (vf_mem ?v0) = ?h" and drivers: "vf_drivers ?v0 = vf_drivers (ts_vfs (k_sys k))"
    by (simp_all add: with_heap_def on_console_def on_vfs_def)
  have ready: "kernel_ready ata ?v0"
    unfolding kernel_ready_def heap0 drivers by (auto simp: assms(1) kheap_init_pool kheap_init_avail kheap_init_pool_range)
  from boot_volume [OF this assms(2,3)] obtain v1 where v1: "boot_fs ?v0 = Some v1" "volume_ready ata v1 nm (disk_data ata cs) sz"
    "extends ((vf_mem ?v0)\<lparr>fs_disk := blank_disk\<rparr>) (vf_mem v1)" "avail ?h \<le> avail (km_heap (vf_mem v1)) + 5"
    "cluster_bytes (vf_mem v1) = disk_cluster_bytes ata" "private_live (vf_mem v1)"
    unfolding heap0 by blast
  have tot: "total_of (km_heap (vf_mem v1)) = 25600"
  proof -
    have "total_of (km_heap (vf_mem v1)) = total_of ?h"
      using v1(3) ready heap0 by (intro pool_total) (simp_all add: extends_def grows_def kernel_ready_def)
    then show ?thesis by (simp add: kheap_init_eq)
  qed
  let ?s1 = "(with_heap ?h ?s0)\<lparr>ts_vfs := v1\<rparr>"
  have ok1: "pool_ok (sys_heap ?s1)" "1027 \<le> avail (sys_heap ?s1)" and t1: "taken (sys_heap ?s1) \<le> 5"
    using v1(2,4) tot by (simp_all add: volume_ready_def kheap_init_avail taken_def)
  from start_paging_spec [OF ok1] obtain chunk ptr m t where
    p: "start_paging ?s1 = (chunk, ?s1\<lparr>ts_vfs := (ts_vfs ?s1)\<lparr>vf_mem := m\<rparr>, ts_tables := t,
      ts_mmu := \<lparr>cr3 = paging_4gb_chunk_get_directory t chunk, current_directory = paging_4gb_chunk_get_directory t chunk\<rparr>\<rparr>)"
    "takes 1027 (vf_mem v1) m" "same_fs (vf_mem v1) m" "ptr \<in> live (km_heap m)" "\<forall>a \<in> page_range ptr. km_mem m a = 0"
    "\<forall>va. walk t (paging_4gb_chunk_get_directory t chunk) va = (if page_of va = 0x1000 then ptr OR 7 else page_of va OR 7)"
    by auto
  have ext: "extends (vf_mem v1) m" using p(2) by (simp add: takes_def)
  note vol = volume_ready_grows [OF v1(2) ext p(3)]
  have disk: "fs_disk m = fs_disk (vf_mem v1)" using p(3) by (simp add: same_fs_def)
  have cb: "cluster_bytes m = disk_cluster_bytes ata"
    using header_extends [OF v1(6) ext disk] v1(5) by (simp add: cluster_bytes_def disk)
  have both: "extends ((vf_mem ?v0)\<lparr>fs_disk := blank_disk\<rparr>) m" by (rule extends_trans [OF v1(3) ext])
  have pool0: "pool (km_heap m) = kernel_pool" using extends_parts(3) [OF both] heap0 by (simp add: kheap_init_pool_range)
  have outside: "km_mem m a = sys_mem (k_sys k) a" if "a \<notin> kernel_pool" for a
    using extends_heldD [OF both, of a] that heap0
    by (simp add: kheap_init_pool_range with_heap_def on_console_def on_vfs_def)
  have heap: "taken (km_heap m) \<le> 1032" "total_of (km_heap m) = 25600" using p(2) t1 tot by (simp_all add: takes_def)
  obtain g where g: "gdt_structured_to_gdt gdt_structured_table = Some g" "map (\<lambda>d. (descriptor_base d, descriptor_limit d, d ! 5)) g =
      [(0, 0, 0), (0, 0xffffffff, 0x9a), (0, 0xffffffff, 0x92), (0, 0, 0), (0, 0, 0), (0, 0, 0)]"
    using kernel_gdt_segments by (elim exE conjE) (rule that)
  let ?k = "k\<lparr>k_sys := ?s1\<lparr>ts_vfs := v1\<lparr>vf_mem := m\<rparr>, ts_tables := t,
      ts_mmu := \<lparr>cr3 = paging_4gb_chunk_get_directory t chunk, current_directory = paging_4gb_chunk_get_directory t chunk\<rparr>\<rparr>,
      gdt_real := g, gdtr := Some g, k_idt := idt_init syms (k_idt k), kernel_chunk := chunk, paging_enabled := True, interrupts_enabled := True\<rparr>"
  have run: "kernel_boot syms k = Some ?k"
    using g(1) v1(1) p(1) by (simp add: kernel_boot_def start_heap_eq Let_def)
  have "pool_ok (km_heap m)" using vol by (simp add: volume_ready_def)
  then show ?thesis
    using run vol outside heap p(4-6) g(2) cb pool0 by (intro exI [of _ ?k] exI [of _ ptr]) simp
qed

subsection \<open>Properties\<close>


text \<open>
  Claim C6.  The kernel starts: from any state of the heap and the tables, with a FAT16 disk that has the file
  \<open>nm\<close> of fewer than 108 characters, \<open>kernel_main\<close> comes to its menu without a panic.  Then the segments are
  flat; the table register describes the 512 interrupt vectors, all of them present ring-0 interrupt gates, of
  which 0 leads to the division handler, 0x20 to the timer, 0x21 to the keyboard and every other to
  \<open>no_interrupt\<close>; the heap is well formed with at most 1032 of its 25600 blocks taken, and the
  file system is mounted and finds the file; the processor runs in an address space that maps every page to
  itself, except the page 0x1000, which is an allocated block of zeros.
\<close>

theorem kernel_boots:
  assumes "vf_drivers (ts_vfs (k_sys k)) FAT16_FS = fat16_fs ata" and "on_disk ata nm cs sz" and "length nm < 108"
  shows "\<exists>k' ptr. kernel_boot syms k = Some k' \<and> volume_ready ata (ts_vfs (k_sys k')) nm (disk_data ata cs) sz \<and>
    pool_ok (sys_heap (k_sys k')) \<and> taken (sys_heap (k_sys k')) \<le> 1032 \<and> total_of (sys_heap (k_sys k')) = 25600 \<and>
    ptr \<in> live (sys_heap (k_sys k')) \<and> (\<forall>a \<in> page_range ptr. sys_mem (k_sys k') a = 0) \<and>
    paging_enabled k' \<and> interrupts_enabled k' \<and>
    (\<forall>va. walk (ts_tables (k_sys k')) (cr3 (ts_mmu (k_sys k'))) va = (if page_of va = 0x1000 then ptr OR 7 else page_of va OR 7)) \<and>
    map (\<lambda>d. (descriptor_base d, descriptor_limit d, d ! 5)) (the (gdtr k')) =
      [(0, 0, 0), (0, 0xffffffff, 0x9a), (0, 0xffffffff, 0x92), (0, 0, 0), (0, 0, 0), (0, 0, 0)] \<and>
    (\<forall>i. 0 \<le> i \<and> i < PEACHOS_TOTAL_INTERRUPTS \<longrightarrow> interrupt_gate (idt_descriptors (k_idt k') i) \<and>
       gate_target (idt_descriptors (k_idt k') i) =
         (if i = 0 then sym_idt_zero syms else if i = 0x20 then sym_pit_irq syms
          else if i = 0x21 then sym_int21h syms else sym_no_interrupt syms)) \<and>
    uint (idtr_limit (idtr_descriptor (k_idt k'))) = PEACHOS_TOTAL_INTERRUPTS * 8 - 1 \<and>
    idtr_base (idtr_descriptor (k_idt k')) = sym_idt_descriptors syms"
proof -
  note gates = idt_init_gates [of _ syms "k_idt k"]
  show ?thesis
    using kernel_boot_run [OF assms, of syms]
  proof (elim exE conjE, intro exI conjI)
    fix k' assume idt: "k_idt k' = idt_init syms (k_idt k)"
    show "\<forall>i. 0 \<le> i \<and> i < PEACHOS_TOTAL_INTERRUPTS \<longrightarrow> interrupt_gate (idt_descriptors (k_idt k') i) \<and>
       gate_target (idt_descriptors (k_idt k') i) =
         (if i = 0 then sym_idt_zero syms else if i = 0x20 then sym_pit_irq syms
          else if i = 0x21 then sym_int21h syms else sym_no_interrupt syms)"
      "uint (idtr_limit (idtr_descriptor (k_idt k'))) = PEACHOS_TOTAL_INTERRUPTS * 8 - 1"
      "idtr_base (idtr_descriptor (k_idt k')) = sym_idt_descriptors syms"
      using gates unfolding idt by simp_all
  qed assumption+
qed

text \<open>A kernel before its start, with the demonstration disk.\<close>

definition cold :: kernel_sys where
  "cold = \<lparr>k_sys = started FsClaims.demo_kernel, gdt_real = [], gdtr = None,
     k_idt = \<lparr>idt_descriptors = (\<lambda>_. \<lparr>offset_1 = 0, selector = 0, zero = 0, type_attr = 0, offset_2 = 0\<rparr>),
       idtr_descriptor = \<lparr>idtr_limit = 0, idtr_base = 0\<rparr>\<rparr>, kernel_chunk = 0, paging_enabled = False, interrupts_enabled = False\<rparr>"

theorem kernel_boots_witness:
  "\<exists>k'. kernel_boot \<lparr>sym_idt_descriptors = 0, sym_no_interrupt = 1, sym_idt_zero = 2, sym_int21h = 3, sym_pit_irq = 4\<rparr> cold = Some k' \<and>
     volume_ready demo_ata (ts_vfs (k_sys k')) (bytes ''a.nes'') (disk_data demo_ata [2, 4]) 0x400 \<and>
     walk (ts_tables (k_sys k')) (cr3 (ts_mmu (k_sys k'))) 0x12345678 = 0x12345007 \<and>
     map (\<lambda>i. gate_target (idt_descriptors (k_idt k') i)) [0, 0x1F, 0x20, 0x21, 0x80] = [2, 1, 4, 3, 1]"
proof -
  have "vf_drivers (ts_vfs (k_sys cold)) FAT16_FS = fat16_fs demo_ata" by (simp add: cold_def started_def FsClaims.demo_kernel_def)
  moreover have "length (bytes ''a.nes'') < 108" by (simp add: bytes_def)
  moreover have "page_of 0x12345678 = 0x12345000" by (simp add: page_of_def)
  ultimately show ?thesis
    using kernel_boots [OF _ demo_on_disk, of cold "\<lparr>sym_idt_descriptors = 0, sym_no_interrupt = 1, sym_idt_zero = 2, sym_int21h = 3, sym_pit_irq = 4\<rparr>"]
    by fastforce
qed


end
