(* ===== verification/EmuHeap.thy ===== *)
theory EmuHeap
  imports EmuRun Pages
begin

text \<open>
  The heap under a run of the emulator: every instruction takes a block for its log entry, and gives one back
  once the log is full.  With 257 blocks to spare no allocation fails, the log takes no more than these, and
  what others have allocated stays as it is.
\<close>

subsection \<open>One entry\<close>

text \<open>
  \<open>spare h ps n\<close>: with the blocks of the log \<open>ps\<close>, \<open>n\<close> blocks of the heap are free.  \<open>g\<close> is a part of the
  heap that the log does not use.
\<close>

definition spare :: "heap \<Rightarrow> u32 list \<Rightarrow> nat \<Rightarrow> bool" where
  "spare h ps n \<longleftrightarrow> n \<le> avail h + length ps"

definition others_keep :: "heap \<Rightarrow> u32 list \<Rightarrow> heap \<Rightarrow> bool" where
  "others_keep h ps g \<longleftrightarrow> pool_ok g \<and> keeps g h \<and> live g \<inter> set ps = {}"

lemma page_not_error:
  assumes "page p"
  shows "p \<noteq> word_of_int (- ENOMEM)"
proof
  assume "p = word_of_int (- ENOMEM)"
  then have "uint p = 4294967293" by (simp add: ENOMEM_def)
  with assms show False by (simp add: page_def)
qed

text \<open>The allocation of an entry, on a log that is not full.\<close>

lemma append_entry_heap:
  assumes "pool_ok h" and "log_list lg h ps" and "length ps \<le> 256" and "spare h ps n" and "257 \<le> n"
    and "add_tracelog_entry emu lg h = (r, lg', h')"
  shows "r \<noteq> word_of_int (- ENOMEM)" "pool_ok h'" "spare h' (ps @ [r]) n"
    "others_keep h ps g \<Longrightarrow> others_keep h' (ps @ [r]) g"
proof -
  obtain e h1 where km: "kmalloc h TRACELOG_ENTRY_SIZE = (e, h1)" by fastforce
  have room: "0 < avail h" using assms(3-5) by (simp add: spare_def)
  note one = kernel_pages.alloc_one [OF assms(1) entry_size_one_block room km]
  have keep: "\<not> current_length lg + 1 > TRACELOG_MAX_LENGTH"
    using assms(2,3) by (auto simp: log_list_def)
  have new: "r = e" "h' = h1"
    using assms(6) keep km one(1) by (auto simp: add_tracelog_entry_def Let_def split: if_splits)
  show "r \<noteq> word_of_int (- ENOMEM)" unfolding new(1) by (rule page_not_error [OF one(3)])
  show "pool_ok h'" unfolding new(2) by (rule one(4))
  show "spare h' (ps @ [r]) n" using assms(4) one(6) by (simp add: spare_def new(2))
  have "keeps h h1" using kmalloc_keeps [of h TRACELOG_ENTRY_SIZE] assms(1) km entry_size_one_block by (simp add: pool_ok_def)
  moreover assume g: "others_keep h ps g"
  then have "live g \<subseteq> live h" using keeps_live by (auto simp: others_keep_def)
  ultimately show "others_keep h' (ps @ [r]) g"
    using g one(2) keeps_trans [of g h h1] by (auto simp: others_keep_def new)
qed

lemma remove_first_heap:
  assumes "pool_ok h" and "log_list lg h (p # q # ps)" and "remove_first_entry lg h = (lg1, h1)" and "spare h (p # q # ps) n"
  shows "pool_ok h1" "spare h1 (q # ps) n" "others_keep h (p # q # ps) g \<Longrightarrow> others_keep h1 (q # ps) g"
proof -
  note l = assms(2) [unfolded log_list_def]
  have p: "p \<noteq> 0" "p \<in> live h" "log_head lg = p" using l by (auto simp: first_or_null_def)
  have h1: "h1 = kfree h p" using assms(3) p by (auto simp: remove_first_entry_def Let_def)
  show "pool_ok h1" unfolding h1 by (rule kernel_pages.release_ok [OF assms(1) p(2)])
  show "spare h1 (q # ps) n"
    using kernel_pages.release_left [OF assms(1) p(2)] assms(4) by (simp add: spare_def h1)
  assume g: "others_keep h (p # q # ps) g"
  then have "keeps g (kfree h p)"
    using keeps_free [of g h p] assms(1) p(2) by (auto simp: others_keep_def pool_ok_def)
  then show "others_keep h1 (q # ps) g" using g by (auto simp: others_keep_def h1)
qed

lemma add_entry_heap:
  assumes "pool_ok h" and "log_list lg h ps" and "spare h ps n" and "257 \<le> n"
    and "add_tracelog_entry emu lg h = (r, lg', h')"
  defines "qs \<equiv> drop (length ps - 256) ps @ [r]"
  shows "r \<noteq> word_of_int (- ENOMEM)" "pool_ok h'" "spare h' qs n" "others_keep h ps g \<Longrightarrow> others_keep h' qs g"
proof -
  have len: "length ps \<le> 257" using assms(2) by (simp add: log_list_def)
  have "r \<noteq> word_of_int (- ENOMEM) \<and> pool_ok h' \<and> spare h' qs n \<and> (others_keep h ps g \<longrightarrow> others_keep h' qs g)"
  proof (cases "length ps \<le> 256")
    case True
    then show ?thesis using append_entry_heap [OF assms(1,2) True assms(3-5)] by (simp add: qs_def)
  next
    case False
    then obtain p q rs where ps: "ps = p # q # rs" by (cases ps; cases "tl ps") auto
    have ok: "heap_ok h" using assms(1) by (simp add: pool_ok_def)
    obtain lg1 h1 where rem: "remove_first_entry lg h = (lg1, h1)" "log_list lg1 h1 (q # rs)" "heap_ok h1"
      using remove_first_entry_list [OF ok assms(2) [unfolded ps]] by blast
    note one = remove_first_heap [OF assms(1) assms(2) [unfolded ps] rem(1) assms(3) [unfolded ps]]
    have full: "current_length lg + 1 > TRACELOG_MAX_LENGTH" "current_length lg1 + 1 \<le> TRACELOG_MAX_LENGTH"
      using assms(2) rem(2) False len by (simp_all add: log_list_def ps)
    have short: "length (q # rs) \<le> 256" using len ps by simp
    have "add_tracelog_entry emu lg1 h1 = (r, lg', h')"
      using add_full_entry [OF full(1) rem(1) full(2)] assms(5) by simp
    note two = append_entry_heap [OF one(1) rem(2) short one(2) assms(4) this]
    have "length rs = 255" using False len by (simp add: ps)
    then have "qs = (q # rs) @ [r]" by (simp add: qs_def ps)
    then show ?thesis using two one(3) [of g] by (simp add: ps)
  qed
  then show "r \<noteq> word_of_int (- ENOMEM)" "pool_ok h'" "spare h' qs n" "others_keep h ps g \<Longrightarrow> others_keep h' qs g"
    by blast+
qed

subsection \<open>A run\<close>

text \<open>The log of a machine is \<open>ps\<close>, on a heap with \<open>n\<close> blocks for it and for what is free.\<close>

definition log_room :: "nat \<Rightarrow> machine \<Rightarrow> u32 list \<Rightarrow> bool" where
  "log_room n s ps \<longleftrightarrow> pool_ok (m_heap s) \<and> log_list (m_log s) (m_heap s) ps \<and> spare (m_heap s) ps n"

lemma log_room_step:
  assumes "log_room n s ps" and "257 \<le> n"
  shows "\<exists>r. log_room n (state_of (emulate_CPU ord) s) (drop (length ps - 256) ps @ [r]) \<and>
    (\<forall>g. others_keep (m_heap s) ps g \<longrightarrow>
      others_keep (m_heap (state_of (emulate_CPU ord) s)) (drop (length ps - 256) ps @ [r]) g)"
proof -
  note l = assms(1) [unfolded log_room_def]
  obtain r lg' h' where add: "add_tracelog_entry (m_emu s) (m_log s) (m_heap s) = (r, lg', h')"
    by (cases "add_tracelog_entry (m_emu s) (m_log s) (m_heap s)")
  have ok: "pool_ok (m_heap s)" and lst: "log_list (m_log s) (m_heap s) ps" and sp: "spare (m_heap s) ps n" using l by blast+
  note heap = add_entry_heap [OF ok lst sp assms(2) add]
  have "heap_ok (m_heap s)" using ok by (simp add: pool_ok_def)
  note entry = add_entry_list(2) [OF this lst add heap(1)]
  have lg: "m_log (logged s) = lg'" "m_heap (logged s) = h'" using logged_log [OF add] by simp_all
  note step = emulate_CPU_log [of ord s]
  have "log_list (m_log (state_of (emulate_CPU ord) s)) h' (drop (length ps - 256) ps @ [r])"
    using log_list_links [OF step(1)] entry lg by metis
  then have "log_room n (state_of (emulate_CPU ord) s) (drop (length ps - 256) ps @ [r])"
    using heap(2,3) step(3) lg by (simp add: log_room_def)
  then show ?thesis using heap(4) step(3) lg by (intro exI [of _ r]) simp
qed

lemma log_room_run:
  assumes "cpu_reaches ord s t" and "log_room n s ps" and "257 \<le> n"
  shows "\<exists>qs. log_room n t qs \<and> (\<forall>g. others_keep (m_heap s) ps g \<longrightarrow> others_keep (m_heap t) qs g)"
  using assms
proof (induction rule: cpu_reaches.induct)
  case start
  then show ?case by blast
next
  case (more t u)
  then obtain qs where qs: "log_room n t qs" "\<forall>g. others_keep (m_heap s) ps g \<longrightarrow> others_keep (m_heap t) qs g" by blast
  have "u = state_of (emulate_CPU ord) t" using more.hyps(2) by (auto elim: cpu_turnE)
  with log_room_step [OF qs(1) assms(3), of ord] qs(2) show ?case by blast
qed

text \<open>
  Claim C5.  A run of the emulator stays within bounds of memory: when the log and the free blocks together
  are \<open>n\<close> blocks, at least 257, then at every point of every run, whatever the program does, the log is well formed
  with at most 257 entries, the free blocks and the log still are \<open>n\<close> blocks, so that no allocation of an entry has
  failed, the heap is well formed, and every block that is not the log's is allocated as before.
\<close>

theorem trace_log_bounded:
  assumes "cpu_reaches ord s t" and "pool_ok (m_heap s)" and "log_list (m_log s) (m_heap s) ps"
    and "n \<le> avail (m_heap s) + length ps" and "257 \<le> n"
  shows "\<exists>qs. log_list (m_log t) (m_heap t) qs \<and> length qs \<le> 257 \<and> n \<le> avail (m_heap t) + length qs \<and>
    pool_ok (m_heap t) \<and> (\<forall>p \<in> live (m_heap s) - set ps. p \<in> live (m_heap t) - set qs)"
proof -
  have "log_room n s ps" using assms(2-4) by (simp add: log_room_def spare_def)
  from log_room_run [OF assms(1) this assms(5)] obtain qs where
    qs: "log_room n t qs" "\<forall>g. others_keep (m_heap s) ps g \<longrightarrow> others_keep (m_heap t) qs g" by blast
  have "p \<in> live (m_heap t) - set qs" if p: "p \<in> live (m_heap s)" "p \<notin> set ps" for p
  proof -
    obtain g where g: "pool_ok g" "keeps g (m_heap s)" "live g = {p}" using live_alone [OF assms(2) p(1)] by blast
    then have "others_keep (m_heap s) ps g" using p(2) by (simp add: others_keep_def)
    then have t: "keeps g (m_heap t)" "live g \<inter> set qs = {}" using qs(2) by (auto simp: others_keep_def)
    then show ?thesis using g(3) keeps_live [OF t(1)] by auto
  qed
  then show ?thesis using qs(1) by (auto simp: log_room_def spare_def log_list_def)
qed

theorem trace_log_bounded_witness:
  "\<exists>qs. let t = emu_run_loop Left_first ((machine_with [0xEA])\<lparr>m_heap := snd (kheap_init demo_heap)\<rparr>) in
     log_list (m_log t) (m_heap t) qs \<and> length qs \<le> 257 \<and> 25343 \<le> avail (m_heap t)"
proof -
  let ?s = "(machine_with [0xEA])\<lparr>m_heap := snd (kheap_init demo_heap)\<rparr>"
  have run: "cpu_reaches Left_first ?s (emu_run_loop Left_first ?s)" using emu_run_loop_reaches by blast
  have s: "m_heap ?s = snd (kheap_init demo_heap)" "m_log ?s = empty_log" by (simp_all add: machine_with_def)
  from trace_log_bounded [OF run, of "[]" 25600] show ?thesis
    unfolding s by (auto simp: kheap_init_pool kheap_init_avail empty_log_list Let_def)
qed

end
