(* ===== verification/VfsClaims.thy ===== *)
theory VfsClaims
  imports FsClaims
begin

text \<open>
  The properties of the virtual file system as its callers see it: disks that are not FAT16, descriptors
  that are not open, the blocks that calls leave behind, and the reading of a ROM by the emulator.
\<close>

subsection \<open>Mounting other disks\<close>

lemma leak_visible: "L \<inter> X = {} \<Longrightarrow> card L = 3 \<Longrightarrow> X \<union> L \<noteq> X"
  by (metis Int_commute Un_absorb1 card.empty inf.absorb1 numeral_eq_Suc sup.absorb_iff1 sup_commute zero_neq_numeral)

lemma fs_resolve_loop_empty: "\<forall>i \<in> set is. filesystems v ! i = 0 \<Longrightarrow> fs_resolve_loop is v = Some (0, v)"
  by (induction "is") simp_all

text \<open>
  A disk without a FAT16 boot sector: starting the file system returns, the disk has no file system
  and no private data, and three blocks, the streams that the driver made before it looked at the boot
  sector, stay allocated with nothing that refers to them.
\<close>

theorem other_disk_not_mounted:
  assumes "vf_drivers v FAT16_FS = fat16_fs ata" and "pool_ok (km_heap (vf_mem v))" and "4 < avail (km_heap (vf_mem v))"
    and "signature (boot_header ata) \<noteq> 0x29"
  shows "\<exists>v' L. boot_fs v = Some v' \<and> disk_filesystem (fs_disk (vf_mem v')) = 0 \<and> disk_fs_private (fs_disk (vf_mem v')) = 0 \<and>
    descriptors_ok v' \<and> live (km_heap (vf_mem v')) = live (km_heap (vf_mem v)) \<union> L \<and> L \<inter> live (km_heap (vf_mem v)) = {} \<and> card L = 3"
proof -
  let ?s = "(vf_mem v)\<lparr>fs_disk := blank_disk\<rparr>"
  obtain s' L where r: "fat16_resolve ata ?s = Some (- EFSNOTUS, s')" "live (km_heap s') = live (km_heap (vf_mem v)) \<union> L"
    "L \<inter> live (km_heap (vf_mem v)) = {}" "card L = 3" "disk_fs_private (fs_disk s') = 0"
    using resolve_rejects [of ?s ata] assms(2-4) by (auto simp: blank_disk_def)
  let ?v = "v\<lparr>file_descriptors := replicate 512 0, filesystems := (replicate 12 0)[0 := FAT16_FS],
     vf_drivers := (vf_drivers v)(FAT16_FS := (vf_drivers v FAT16_FS)\<lparr>fsd_name := bytes ''FAT16''\<rparr>), vf_mem := s'\<rparr>"
  have "fs_resolve_loop [1 ..< 12] ?v = Some (0, ?v)" by (rule fs_resolve_loop_empty) auto
  moreover have "[0 ..< 12] = 0 # [1 ..< 12]" by (simp add: upt_conv_Cons)
  ultimately have "boot_fs v = Some (?v\<lparr>vf_mem := upd_disk (\<lambda>d. d\<lparr>disk_filesystem := 0\<rparr>) s'\<rparr>)"
    using r(1) assms(1)
    by (simp add: boot_fs_def fs_init_eq disk_search_and_init_def fs_resolve_def fat16_fs_def blank_disk_def EFSNOTUS_def)
  then show ?thesis
    using r(2-5) by (intro exI [of _ "?v\<lparr>vf_mem := upd_disk (\<lambda>d. d\<lparr>disk_filesystem := 0\<rparr>) s'\<rparr>"] exI [of _ L])
      (simp add: upd_disk_def descriptors_ok_def)
qed

theorem other_disk_not_mounted_witness:
  "\<exists>v v'. boot_fs v = Some v' \<and> disk_filesystem (fs_disk (vf_mem v')) = 0 \<and>
     live (km_heap (vf_mem v')) \<noteq> live (km_heap (vf_mem v))"
proof -
  let ?ata = "\<lambda>_. replicate 512 0 :: u8 list" and ?v = "demo_kernel\<lparr>vf_drivers := \<lambda>_. fat16_fs (\<lambda>_. replicate 512 0)\<rparr>"
  have "signature (boot_header ?ata) \<noteq> 0x29" by code_simp
  from other_disk_not_mounted [of ?v, OF _ _ _ this] demo_heap obtain v' L where
    "boot_fs ?v = Some v'" "disk_filesystem (fs_disk (vf_mem v')) = 0"
    "live (km_heap (vf_mem v')) = live (km_heap (vf_mem ?v)) \<union> L" "L \<inter> live (km_heap (vf_mem ?v)) = {}" "card L = 3"
    by auto
  moreover from this have "live (km_heap (vf_mem v')) \<noteq> live (km_heap (vf_mem ?v))" by (metis leak_visible)
  ultimately show ?thesis by blast
qed

subsection \<open>Descriptors\<close>

text \<open>
  A number that is not an open file is refused: for a descriptor below 1, from 512 on, or whose entry
  in the table is free, the four calls return their error code and change neither memory nor the heap, the
  table, the driver or the caller's \<open>file_stat\<close>.
\<close>

theorem bad_descriptor_refused:
  assumes "fd \<le> 0 \<or> 512 \<le> fd \<or> file_descriptors v ! nat (fd - 1) = 0"
  shows "fread ptr sz n fd v = Some (- EINVARG, v) \<and> fseek fd offset whence v = (- EIO, v) \<and>
    fstat fd stat v = (- EIO, stat) \<and> fclose fd v = (- EIO, v)"
proof -
  have "file_get_descriptor fd v = 0" using assms by (auto simp: file_get_descriptor_def)
  then show ?thesis by (simp add: fread_def fseek_def fstat_def fclose_def)
qed

theorem bad_descriptor_refused_witness:
  "fread 0x7000 4 1 0 demo_kernel = Some (- EINVARG, demo_kernel) \<and> fclose 512 demo_kernel = (- EIO, demo_kernel)"
  using bad_descriptor_refused [of 0 demo_kernel "0x7000" 4 1] bad_descriptor_refused [of 512 demo_kernel] by simp

text \<open>
  The last entry of the table is lost: when only entry 511 is free, opening a file takes it and
  returns the number 512, which every call refuses, so that the file can be neither read nor closed.
\<close>

theorem last_descriptor_unusable:
  assumes "free_slot v 511" and "pool_ok (km_heap (vf_mem v))" and "0 < avail (km_heap (vf_mem v))"
    and "length (file_descriptors v) = 512"
  shows "\<exists>v'. fopen_descriptor data disk v = (512, v') \<and> file_descriptors v' ! 511 \<noteq> 0 \<and>
    fread ptr sz n 512 v' = Some (- EINVARG, v') \<and> fclose 512 v' = (- EIO, v')"
proof -
  from new_descriptor_spec [OF assms(1-3)] obtain desc h m where d: "file_new_descriptor v = (0, desc, v\<lparr>
      vf_mem := (vf_mem v)\<lparr>km_heap := h, km_mem := m\<rparr>, file_descriptors := (file_descriptors v)[511 := desc],
      vf_files := (vf_files v)(desc := \<lparr>fd_index = 512, fd_filesystem = 0, fd_private = 0, fd_disk = None\<rparr>)\<rparr>)"
    "new_page 16 (km_heap (vf_mem v)) (km_mem (vf_mem v)) desc h m" by auto
  then obtain v' where "fopen_descriptor data disk v = (512, v')" "file_descriptors v' = (file_descriptors v)[511 := desc]"
    by (simp add: fopen_descriptor_def fopen_out_def)
  moreover have "desc \<noteq> 0" using d(2) by (simp add: new_page_def)
  moreover have "file_get_descriptor 512 v' = 0" by (simp add: file_get_descriptor_def)
  ultimately show ?thesis using assms(4) by (simp add: fread_def fclose_def)
qed

theorem last_descriptor_unusable_witness:
  "\<exists>v v'. fopen_descriptor 0 The_disk v = (512, v') \<and> fclose 512 v' = (- EIO, v')"
proof -
  let ?v = "demo_kernel\<lparr>file_descriptors := replicate 511 1 @ [0]\<rparr>"
  have "free_slot ?v 511" by (auto simp: free_slot_def nth_append)
  from last_descriptor_unusable [OF this, of 0 The_disk "0x7000" 1 1] demo_heap show ?thesis by auto
qed

text \<open>
  Claim C40.  Opening and closing a file is not neutral for the heap: after the start of the file system,
  \<open>fopen\<close> of a file of the disk and \<open>fclose\<close>, three blocks that were free before are allocated, the root, the
  part and the string of the parsed path; the table of descriptors is well formed and the descriptor is free,
  so that a second \<open>fclose\<close> is refused.
\<close>

theorem fopen_fclose_leaks_path:
  assumes "kernel_ready ata v" and "on_disk ata nm cs sz" and "named_at v filename mode_str nm"
  shows "\<exists>v1 v2 v3 P. boot_fs v = Some v1 \<and> fopen filename mode_str v1 = Some (1, v2) \<and> fclose 1 v2 = (0, v3) \<and>
    descriptors_ok v1 \<and> descriptors_ok v3 \<and> live (km_heap (vf_mem v3)) = live (km_heap (vf_mem v1)) \<union> P \<and>
    P \<inter> live (km_heap (vf_mem v1)) = {} \<and> card P = 3 \<and> fclose 1 v3 = (- EIO, v3)"
proof -
  obtain v1 v2 desc A P where o: "boot_fs v = Some v1" "fopen filename mode_str v1 = Some (1, v2)" "descriptors_ok v1"
    "file_open (fat16_fs ata) (fat_handle ata) v2 1 desc A (disk_data ata cs) 0"
    "insert desc A \<inter> live (km_heap (vf_mem v1)) = {}" "card P = 3" "P \<inter> live (km_heap (vf_mem v1)) = {}"
    "P \<inter> insert desc A = {}" "live (km_heap (vf_mem v2)) = live (km_heap (vf_mem v1)) \<union> P \<union> insert desc A"
    using boot_fopen [OF assms] by (elim exE conjE) (rule that, assumption+)
  obtain v3 where v3: "fclose 1 v2 = (0, v3)" "descriptors_ok v3" "file_descriptors v3 = (file_descriptors v2)[0 := 0]"
    "live (km_heap (vf_mem v3)) = live (km_heap (vf_mem v2)) - insert desc A"
    using fat16.fclose_open [OF o(4)] by auto
  have "length (file_descriptors v2) = 512" using o(4) by (simp add: file_open_def descriptors_ok_def)
  then have "file_get_descriptor 1 v3 = 0" using v3(3) by (simp add: file_get_descriptor_def)
  then have "fclose 1 v3 = (- EIO, v3)" by (simp add: fclose_def)
  moreover have "live (km_heap (vf_mem v3)) = live (km_heap (vf_mem v1)) \<union> P" using v3(4) o(5,8,9) by blast
  ultimately show ?thesis using o(1-3,6,7) v3(1,2) by blast
qed

theorem fopen_fclose_leaks_path_witness:
  "\<exists>v1 v2 v3. boot_fs demo_kernel = Some v1 \<and> fopen 0x5000 0x6000 v1 = Some (1, v2) \<and> fclose 1 v2 = (0, v3) \<and>
     live (km_heap (vf_mem v3)) \<noteq> live (km_heap (vf_mem v1))"
proof -
  obtain v1 v2 v3 P where "boot_fs demo_kernel = Some v1" "fopen 0x5000 0x6000 v1 = Some (1, v2)" "fclose 1 v2 = (0, v3)"
    "live (km_heap (vf_mem v3)) = live (km_heap (vf_mem v1)) \<union> P" "P \<inter> live (km_heap (vf_mem v1)) = {}" "card P = 3"
    using fopen_fclose_leaks_path [OF demo_ready demo_on_disk demo_named] by blast
  moreover from this have "live (km_heap (vf_mem v3)) \<noteq> live (km_heap (vf_mem v1))" by (metis leak_visible)
  ultimately show ?thesis by blast
qed


subsection \<open>A ROM on the disk\<close>

text \<open>
  Disks with clusters of 64 KiB and one file, in cluster 2: \<open>entry\<close> is its entry in the directory.  Its header is
  in the first bytes, and its first instruction byte is the seventeenth.
\<close>

definition file_ata :: "u8 list \<Rightarrow> ata" where
  "file_ata entry l = pad 512 (if l = 0 then demo_boot[13 := 128] else if l = 1 then [0xF8, 0xFF, 0xFF, 0xFF, 0xFF, 0xFF]
     else if l = 2 then entry
     else if l = 3 then [0x4E, 0x45, 0x53, 0x1A] @ replicate 12 0 @ [0xA9] else [])"

lemma file_boot_facts:
  "signature (boot_header (file_ata entry)) = 0x29" "sectors_per_cluster (boot_header (file_ata entry)) = 128"
  "root_size (file_ata entry) = 512" "root_sector (file_ata entry) = 2" "root_end (file_ata entry) = 3"
  "reserved_sectors (boot_header (file_ata entry)) = 1"
  by code_simp+

lemma file_geometry:
  "disk_cluster_bytes (file_ata entry) = 0x10000" "disk_cluster_start (file_ata entry) 2 = 1536"
  "disk_cluster_start (file_ata entry) 4 = 132608"
  by (simp_all add: disk_cluster_bytes_def disk_cluster_start_def file_boot_facts)

lemma file_length: "length (disk_data (file_ata entry) [2]) = 0x10000"
  by (simp add: disk_data_def file_geometry)

lemma file_on_disk:
  assumes "disk_byte (file_ata entry) 1056 = 0" and "disk_byte (file_ata entry) 1024 \<noteq> 0"
    and "used_entries (file_ata entry) 1024 1 = [0]"
    and "filter (\<lambda>k. map tolower (dos_name (disk_byte (file_ata entry)) (root_entry (file_ata entry) k)) = map tolower nm) [0 ..< 1] = [0]"
    and "di_attribute (item_at (disk_byte (file_ata entry)) (root_entry (file_ata entry) 0)) AND FAT_FILE_SUBDIRECTORY = 0"
    and "sint (fat16_get_first_cluster (item_at (disk_byte (file_ata entry)) (root_entry (file_ata entry) 0))) = 2"
    and "disk_file_size (file_ata entry) 0 = sz"
  shows "on_disk (file_ata entry) nm [2] sz"
proof -
  have d: "fat16_disk (file_ata entry) 1" using assms(1,2) by (simp add: fat16_disk_def ends_at_def file_boot_facts)
  have f: "disk_file (file_ata entry) 1 nm 0 [2]"
    using assms(4-6) by (simp add: disk_file_def disk_chain_def chain_end_def file_geometry)
  have len: "length [0 :: nat] = 1" by simp
  have "fat16_disk (file_ata entry) 1 \<and>
      int (length (used_entries (file_ata entry) (root_sector (file_ata entry) * 512) 1)) * 32 \<le> root_size (file_ata entry) \<and>
      disk_file (file_ata entry) (length (used_entries (file_ata entry) (root_sector (file_ata entry) * 512) 1)) nm 0 [2] \<and>
      sz = disk_file_size (file_ata entry) 0"
    unfolding file_boot_facts assms(7) using f d assms(3) len by (simp del: One_nat_def list.size)
  then show ?thesis unfolding on_disk_def by blast
qed

text \<open>The file \<open>TEST1.NES\<close> of 0x8010 bytes.\<close>

abbreviation rom_ata :: ata where
  "rom_ata \<equiv> file_ata (bytes ''TEST1   NES'' @ replicate 15 0 @ [2, 0, 0x10, 0x80, 0, 0])"

lemma rom_on_disk: "on_disk rom_ata (bytes ''test1.nes'') [2] 0x8010"
  by (rule file_on_disk; code_simp)

text \<open>The kernel of the demonstration with such a disk, and the path of the file \<open>nm\<close> in memory.\<close>

definition file_kernel :: "u8 list \<Rightarrow> u8 list \<Rightarrow> vfs" where
  "file_kernel entry nm = demo_kernel\<lparr>vf_drivers := (\<lambda>_. fat16_fs (file_ata entry)), vf_mem := (vf_mem demo_kernel)\<lparr>
     km_mem := (literal 0x5000 (0x30 # COLON # SLASH # nm))(0x6000 := 0x72)\<rparr>\<rparr>"

lemma file_pool: "pool (km_heap (vf_mem (file_kernel entry nm))) = {0x01000000 ..< 0x01000000 + 25600 * 4096}"
  by (simp add: file_kernel_def demo_pool)

lemma file_ready: "kernel_ready (file_ata entry) (file_kernel entry nm)"
  using demo_ready by (simp add: kernel_ready_def file_kernel_def)

lemma file_named:
  assumes "component_ok nm" and "length nm < 100"
  shows "named_at (file_kernel entry nm) 0x5000 0x6000 nm"
proof -
  have "cstr (literal 0x5000 (0x30 # COLON # SLASH # nm)) 0x5000 (0x30 # COLON # SLASH # nm)"
    by (rule cstr_literal) (use assms(1) in \<open>auto simp: component_ok_def\<close>)
  then have "cstr (km_mem (vf_mem (file_kernel entry nm))) 0x5000 (0x30 # COLON # SLASH # nm)"
    by (rule cstr_frame) (use assms(2) in \<open>simp add: file_kernel_def\<close>)
  then have "path_ok (vf_mem (file_kernel entry nm)) 0x5000 0x30 nm"
    using assms(2) unfolding path_ok_def file_pool by (auto simp: isdigit_def)
  moreover have "km_mem (vf_mem (file_kernel entry nm)) 0x6000 = 0x72" by (simp add: file_kernel_def)
  ultimately show ?thesis using assms(1) unfolding named_at_def file_pool by simp
qed

abbreviation rom_kernel :: vfs where
  "rom_kernel \<equiv> file_kernel (bytes ''TEST1   NES'' @ replicate 15 0 @ [2, 0, 0x10, 0x80, 0, 0]) (bytes ''test1.nes'')"

lemma rom_named: "named_at rom_kernel 0x5000 0x6000 (bytes ''test1.nes'')"
  by (rule file_named) (simp_all add: component_ok_def bytes_def)

text \<open>
  The ROM that the emulator runs is the file's: on a disk whose clusters hold at least 0x8010 bytes,
  for a file of that many bytes in its clusters and more than 0x10 bytes by its directory entry, \<open>emu_reset\<close>
  opens it as descriptor 1, its header buffer gets the first 16 bytes and its ROM buffer the 0x8000 bytes
  after them, whatever the memory held before.
\<close>

theorem emu_reads_rom_file:
  assumes "kernel_ready ata v" and "on_disk ata nm cs sz" and "named_at v filename mode_str nm"
    and "0x8010 \<le> disk_cluster_bytes ata" and "0x10 < sz" and "0x8010 \<le> int (length (disk_data ata cs))"
    and "{header ..< header + 0x10} \<inter> pool (km_heap (vf_mem v)) = {}"
    and "{rom ..< rom + 0x8000} \<inter> pool (km_heap (vf_mem v)) = {}"
    and "{header ..< header + 0x10} \<inter> {rom ..< rom + 0x8000} = {}"
  shows "\<exists>v1 v2. boot_fs v = Some v1 \<and> emu_read_rom filename mode_str header rom v1 =
    Some (\<lparr>rf_fd = 1, rf_header = take 0x10 (disk_data ata cs), rf_body = take 0x8000 (drop 0x10 (disk_data ata cs))\<rparr>, v2)"
  by (rule emu_read_rom_spec [OF assms])

lemma file_head: "take 0x11 (disk_data (file_ata entry) [2]) = [0x4E, 0x45, 0x53, 0x1A] @ replicate 12 0 @ [0xA9]"
proof -
  have "take 0x11 (disk_data (file_ata entry) [2]) = map (\<lambda>i. disk_byte (file_ata entry) (1536 + int i)) [0 ..< 0x11]"
    using disk_data_take [of "0x11" "file_ata entry" 2 "[]"] by (simp only: file_geometry)
  also have "\<dots> = [0x4E, 0x45, 0x53, 0x1A] @ replicate 12 0 @ [0xA9]" by code_simp
  finally show ?thesis .
qed

lemma rom_first_bytes:
  "take 4 (take 0x10 (disk_data rom_ata [2])) = [0x4E, 0x45, 0x53, 0x1A]"
  "hd (take 0x8000 (drop 0x10 (disk_data rom_ata [2]))) = 0xA9"
proof -
  let ?d = "disk_data rom_ata [2]"
  have "take 4 (take 0x10 ?d) = take 4 (take 0x11 ?d)" by simp
  then show "take 4 (take 0x10 ?d) = [0x4E, 0x45, 0x53, 0x1A]" unfolding file_head by simp
  have "hd (take 0x8000 (drop 0x10 ?d)) = take 0x11 ?d ! 0x10" using file_length by (simp add: hd_drop_conv_nth)
  then show "hd (take 0x8000 (drop 0x10 ?d)) = 0xA9" unfolding file_head by (simp add: nth_append)
qed

theorem emu_reads_rom_file_witness:
  "\<exists>v1 v2 r. boot_fs rom_kernel = Some v1 \<and> emu_read_rom 0x5000 0x6000 0x7000 0x8000 v1 = Some (r, v2) \<and>
     rf_fd r = 1 \<and> take 4 (rf_header r) = [0x4E, 0x45, 0x53, 0x1A] \<and> hd (rf_body r) = 0xA9"
proof -
  have "{0x7000 ..< 0x7000 + (0x10 :: int)} \<inter> pool (km_heap (vf_mem rom_kernel)) = {}"
    "{0x8000 ..< 0x8000 + (0x8000 :: int)} \<inter> pool (km_heap (vf_mem rom_kernel)) = {}"
    "{0x7000 ..< 0x7000 + (0x10 :: int)} \<inter> {0x8000 ..< 0x8000 + (0x8000 :: int)} = {}"
    unfolding file_pool by auto
  note bufs = this
  let ?d = "disk_data rom_ata [2]"
  obtain v1 v2 where r: "boot_fs rom_kernel = Some v1" "emu_read_rom 0x5000 0x6000 0x7000 0x8000 v1 =
      Some (\<lparr>rf_fd = 1, rf_header = take 0x10 ?d, rf_body = take 0x8000 (drop 0x10 ?d)\<rparr>, v2)"
    using emu_reads_rom_file [OF file_ready rom_on_disk rom_named _ _ _ bufs] by (auto simp: file_geometry file_length)
  show ?thesis using r rom_first_bytes by fastforce
qed


end
