(* ===== verification/EmuDisk.thy ===== *)
theory EmuDisk
  imports ProcessProps EmuHeap VfsClaims
begin

text \<open>
  The emulator on the kernel's file system: \<open>emu_init\<close> and \<open>emu_reset\<close> of \<open>src/emulator/CPU/emulator.c\<close> with their
  three buffers in the kernel's heap and the ROM read from the disk.  \<open>EmuRun\<close> has the same functions for a
  file that is given.
\<close>

subsection \<open>Start from the disk\<close>

text \<open>
  \<open>filepath\<close> is the address of the path and \<open>path\<close> its characters, which are printed; \<open>mode_r\<close> is the address of
  the literal \<open>r\<close>.  \<open>None\<close> is a buffer that could not be allocated, with which the code goes on as NULL, a call
  of the file system that does not return, or an overrun of the digit buffer of the listing.
\<close>

(* src/src/emulator/CPU/emulator.c 17-25 emu_init *)
definition emu_init_disk :: "eval_order \<Rightarrow> int \<Rightarrow> int \<Rightarrow> string \<Rightarrow> vfs \<Rightarrow> machine \<Rightarrow> machine option" where
  "emu_init_disk ord mode_r filepath path v s =
     (let (ram, m) = kalloc 0x800 (vf_mem v);
          (rom, m) = kalloc 0x8000 m;
          (header, m) = kalloc 0x10 m
      in if ram = 0 \<or> rom = 0 \<or> header = 0 then None
         else do {
           (file, v) \<leftarrow> emu_read_rom filepath mode_r (uint header) (uint rom) (v\<lparr>vf_mem := m\<rparr>);
           emu_reset ord file
             (s\<lparr>m_heap := km_heap (vf_mem v), m_term := km_term (vf_mem v), CPU_halted := False,
                m_emu := (m_emu s)\<lparr>e_RAM := replicate 0x800 0, e_ROM := replicate 0x8000 0,
                  e_header := replicate 0x10 0, e_filepath := path, e_total_CPU_cycles := 8\<rparr>\<rparr>) })"

subsection \<open>The buffers\<close>

lemma kalloc_buffer:
  fixes s :: fs_mem
  assumes "pool_ok (km_heap s)" and "sz \<noteq> 0" and "uint sz \<le> 2 ^ 32 - 4096"
    and "taken (km_heap s) < total_of (km_heap s) div blocks_for sz"
  shows "\<exists>p m. kalloc sz s = (p, m) \<and> p \<noteq> 0 \<and> pool_ok (km_heap m) \<and> takes (blocks_for sz) s m \<and> same_fs s m \<and>
    blocks_range p (blocks_for sz) \<inter> held (km_heap s) = {} \<and> block_run (km_heap m) p (blocks_for sz)"
proof -
  obtain p h m where 1: "kalloc sz s = (p, s\<lparr>km_heap := h, km_mem := m\<rparr>)" "p \<noteq> 0" "pool_ok h"
    "taken h = taken (km_heap s) + blocks_for sz" "total_of h = total_of (km_heap s)" "grows (km_heap s) (km_mem s) h m"
    "blocks_range p (blocks_for sz) \<subseteq> pool (km_heap s) - held (km_heap s)" "block_run h p (blocks_for sz)"
    using kalloc_blocks [OF assms] by blast
  then show ?thesis
    by (intro exI [of _ p] exI [of _ "s\<lparr>km_heap := h, km_mem := m\<rparr>"]) (auto simp: takes_def same_fs_def extends_def)
qed

text \<open>
  \<open>buffers s bs m\<close>: from \<open>s\<close> the memory has grown to \<open>m\<close> by the buffers \<open>bs\<close>, the last one first, each with its
  number of blocks.
\<close>

definition buffers :: "fs_mem \<Rightarrow> (u32 \<times> int) list \<Rightarrow> fs_mem \<Rightarrow> bool" where
  "buffers s bs m \<longleftrightarrow> takes (sum_list (map snd bs)) s m \<and> same_fs s m \<and>
     (\<forall>(p, k) \<in> set bs. block_run (km_heap m) p k \<and> blocks_range p k \<inter> held (km_heap s) = {}) \<and>
     sorted_wrt (\<lambda>(p, k) (q, n). blocks_range p k \<inter> blocks_range q n = {}) bs"

lemma buffers_none: "pool_ok (km_heap s) \<Longrightarrow> buffers s [] s"
  by (simp add: buffers_def takes_def extends_refl same_fs_def)

lemma buffers_step:
  assumes "buffers s bs m" and "sz \<noteq> 0" and "uint sz \<le> 2 ^ 32 - 4096"
    and "taken (km_heap s) + sum_list (map snd bs) < total_of (km_heap s) div blocks_for sz"
  shows "\<exists>p m'. kalloc sz m = (p, m') \<and> p \<noteq> 0 \<and> buffers s ((p, blocks_for sz) # bs) m'"
proof -
  have t: "takes (sum_list (map snd bs)) s m" and same: "same_fs s m"
    and runs: "\<And>q n. (q, n) \<in> set bs \<Longrightarrow> block_run (km_heap m) q n \<and> blocks_range q n \<inter> held (km_heap s) = {}"
    using assms(1) by (auto simp: buffers_def)
  have ext: "extends s m" using t by (simp add: takes_def)
  have "taken (km_heap m) < total_of (km_heap m) div blocks_for sz" using t assms(4) by (simp add: takes_def)
  from kalloc_buffer [OF extends_parts(2) [OF ext] assms(2,3) this] obtain p m' where
    p: "kalloc sz m = (p, m')" "p \<noteq> 0" "takes (blocks_for sz) m m'" "same_fs m m'"
      "blocks_range p (blocks_for sz) \<inter> held (km_heap m) = {}" "block_run (km_heap m') p (blocks_for sz)" by blast
  have ext2: "extends m m'" using p(3) by (simp add: takes_def)
  have "takes (blocks_for sz + sum_list (map snd bs)) s m'" using takes_trans [OF t p(3)] by (simp add: add.commute)
  moreover have "blocks_range p (blocks_for sz) \<inter> held (km_heap s) = {}" using p(5) extends_parts(5) [OF ext] by blast
  moreover have old: "block_run (km_heap m') q n" "blocks_range p (blocks_for sz) \<inter> blocks_range q n = {}" if "(q, n) \<in> set bs" for q n
    using runs [OF that] block_runD(2) [of "km_heap m" q n] block_run_extends [of m q n m'] ext2 p(5)
    by blast+
  moreover have "sorted_wrt (\<lambda>(p, k) (q, n). blocks_range p k \<inter> blocks_range q n = {}) bs" using assms(1) by (simp add: buffers_def)
  ultimately have "buffers s ((p, blocks_for sz) # bs) m'"
    unfolding buffers_def using p(6) same_fs_trans [OF same p(4)] runs by (simp add: split_beta)
  then show ?thesis using p(1,2) by blast
qed

text \<open>What the buffers are good for: reading files of a mounted volume into them.\<close>

lemma buffers_ok:
  assumes "buffers (vf_mem v) bs m" and "private_live (vf_mem v)" and "(p, k) \<in> set bs" and "n \<le> k * 4096"
  shows "buffer_ok (v\<lparr>vf_mem := m\<rparr>) (uint p) n"
proof -
  have b: "blocks_range p k \<inter> held (km_heap (vf_mem v)) = {}" "block_run (km_heap m) p k"
    and ext: "extends (vf_mem v) m" and disk: "fs_disk m = fs_disk (vf_mem v)"
    using assms(1,3) by (auto simp: buffers_def takes_def same_fs_def)
  have sub: "{uint p ..< uint p + n} \<subseteq> blocks_range p k" using assms(4) by (auto simp: blocks_range_def)
  have "page_range (disk_fs_private (fs_disk (vf_mem v))) \<subseteq> held (km_heap (vf_mem v))"
    using page_held assms(2) extends_parts(1) [OF ext] by (simp add: private_live_def pool_ok_def)
  then show ?thesis using sub b block_runD(2) [OF b(2)] unfolding buffer_ok_def by (simp add: disk) blast
qed

lemma buffers_volume:
  assumes "buffers (vf_mem v) bs m" and "volume_ready ata v nm data sz" and "named_at v filepath mode_r nm"
  shows "volume_ready ata (v\<lparr>vf_mem := m\<rparr>) nm data sz" "named_at (v\<lparr>vf_mem := m\<rparr>) filepath mode_r nm"
    "cluster_bytes m = cluster_bytes (vf_mem v)" "pool_ok (km_heap m)" "keeps (km_heap (vf_mem v)) (km_heap m)"
proof -
  have ext: "extends (vf_mem v) m" and same: "same_fs (vf_mem v) m" using assms(1) by (simp_all add: buffers_def takes_def)
  have disk: "fs_disk m = fs_disk (vf_mem v)" using same by (simp add: same_fs_def)
  have live: "private_live (vf_mem v)" using assms(2) by (simp add: volume_ready_def fat_named_def)
  show "volume_ready ata (v\<lparr>vf_mem := m\<rparr>) nm data sz" by (rule volume_ready_grows [OF assms(2) ext same])
  show "named_at (v\<lparr>vf_mem := m\<rparr>) filepath mode_r nm" by (rule named_at_extends [OF assms(3) ext])
  show "cluster_bytes m = cluster_bytes (vf_mem v)"
    using header_extends [OF live ext disk] by (simp add: cluster_bytes_def disk)
  show "pool_ok (km_heap m)" "keeps (km_heap (vf_mem v)) (km_heap m)" using ext by (simp_all add: extends_def grows_def)
qed

text \<open>Room for a buffer of eight blocks and a few small ones.\<close>

definition emu_room :: "heap \<Rightarrow> bool" where
  "emu_room h \<longleftrightarrow> taken h + 17 < total_of h div 8"

lemma pool_room: "pool_ok h \<Longrightarrow> total_of h div 8 \<le> total_of h"
  using zdiv_mono2 [of "total_of h" 1 8] by (simp add: pool_ok_def heap_ok_def)

text \<open>The machine as \<open>emu_reset\<close> leaves it after the file: the globals are set and the buffers are fresh.\<close>

definition with_buffers :: "string \<Rightarrow> fs_mem \<Rightarrow> machine \<Rightarrow> machine" where
  "with_buffers path m s = s\<lparr>m_heap := km_heap m, m_term := km_term m, CPU_halted := False,
     m_emu := (m_emu s)\<lparr>e_RAM := replicate 0x800 0, e_ROM := replicate 0x8000 0,
       e_header := replicate 0x10 0, e_filepath := path, e_total_CPU_cycles := 8\<rparr>\<rparr>"

definition rom_of :: "u8 list \<Rightarrow> rom_file" where
  "rom_of data = \<lparr>rf_fd = 1, rf_header = take 0x10 data, rf_body = take 0x8000 (drop 0x10 data)\<rparr>"

lemma emu_init_disk_run:
  assumes "volume_ready ata v nm data sz" and "named_at v filepath mode_r nm" and "emu_room (km_heap (vf_mem v))"
    and "0x8010 \<le> cluster_bytes (vf_mem v)" and "0x10 < sz" and "0x8010 \<le> int (length data)"
  shows "\<exists>m. emu_init_disk ord mode_r filepath path v s = emu_run ord (emu_start (rom_of data) (with_buffers path m s)) \<and>
    pool_ok (km_heap m) \<and> keeps (km_heap (vf_mem v)) (km_heap m) \<and> avail (km_heap (vf_mem v)) \<le> avail (km_heap m) + 17"
proof -
  let ?s = "vf_mem v"
  have ok: "pool_ok (km_heap ?s)" and live: "private_live ?s"
    using assms(1) by (simp_all add: volume_ready_def fat_named_def)
  note room = assms(3) [unfolded emu_room_def] and le = pool_room [OF ok]
  have b: "blocks_for 0x800 = 1" "blocks_for 0x8000 = 8" "blocks_for 0x10 = 1" by (simp_all add: blocks_for_def)
  obtain ram m1 where 1: "kalloc 0x800 ?s = (ram, m1)" "ram \<noteq> 0" "buffers ?s [(ram, 1)] m1"
    using buffers_step [OF buffers_none [OF ok], of "0x800"] room le unfolding b by auto
  obtain rom m2 where 2: "kalloc 0x8000 m1 = (rom, m2)" "rom \<noteq> 0" "buffers ?s [(rom, 8), (ram, 1)] m2"
    using buffers_step [OF 1(3), of "0x8000"] room unfolding b by auto
  obtain header m where 3: "kalloc 0x10 m2 = (header, m)" "header \<noteq> 0" "buffers ?s [(header, 1), (rom, 8), (ram, 1)] m"
    using buffers_step [OF 2(3), of "0x10"] room le unfolding b by auto
  let ?v = "v\<lparr>vf_mem := m\<rparr>"
  note vol = buffers_volume [OF 3(3) assms(1,2)]
  have t: "takes 10 ?s m" using 3(3) by (simp add: buffers_def)
  then have av: "7 \<le> avail (km_heap (vf_mem ?v))" using room le by (simp add: takes_def taken_def)
  have bufs: "buffer_ok ?v (uint header) 0x10" "buffer_ok ?v (uint rom) 0x8000"
    using buffers_ok [OF 3(3) live, of header 1 "0x10"] buffers_ok [OF 3(3) live, of rom 8 "0x8000"] by simp_all
  have cb: "0x8010 \<le> cluster_bytes (vf_mem ?v)" using vol(3) assms(4) by simp
  have "blocks_range header 1 \<inter> blocks_range rom 8 = {}" using 3(3) by (simp add: buffers_def)
  then have apart: "{uint header ..< uint header + 0x10} \<inter> {uint rom ..< uint rom + 0x8000} = {}"
    by (auto simp: blocks_range_def)
  obtain v' where v': "emu_read_rom filepath mode_r (uint header) (uint rom) ?v =
      Some (\<lparr>rf_fd = 1, rf_header = take 0x10 data, rf_body = take 0x8000 (drop 0x10 data)\<rparr>, v')"
    "pool_ok (km_heap (vf_mem v'))" "keeps (km_heap m) (km_heap (vf_mem v'))" "avail (km_heap m) \<le> avail (km_heap (vf_mem v')) + 7"
    using emu_read_rom_volume [OF vol(1,2) av cb assms(5,6) bufs apart] by auto
  have "avail (km_heap ?s) \<le> avail (km_heap (vf_mem v')) + 17" using t v'(4) by (simp add: takes_def taken_def)
  then show ?thesis
    using 1(1,2) 2(1,2) 3(1,2) v'(1,2) keeps_trans [OF vol(5) v'(3)]
    by (intro exI [of _ "vf_mem v'"]) (simp add: emu_init_disk_def emu_reset_def emu_start_def with_buffers_def rom_of_def)
qed

subsection \<open>The machine that runs\<close>

lemma emu_start_rom:
  assumes "0x8010 \<le> int (length data)"
  defines "t path m s \<equiv> emu_start (rom_of data) (with_buffers path m s)"
  shows "machine_ok (t path m s)" "\<not> CPU_halted (t path m s)" "cycles_of (t path m s) = 8"
    "e_ROM (m_emu (t path m s)) = take 0x8000 (drop 0x10 data)" "e_header (m_emu (t path m s)) = take 0x10 data"
    "e_RAM (m_emu (t path m s)) = replicate 0x800 0"
    "ar_PC (arch_of (t path m s)) = word_of_bytes (data ! 0x800D) (data ! 0x800C)" "ar_S (arch_of (t path m s)) = 0xFD"
    "flag_set (arch_of (t path m s)) FLAG_INTERRUPT_DISABLE"
    "m_heap (t path m s) = km_heap m" "log_links (t path m s) = log_links s" "log_snapshots (t path m s) = log_snapshots s"
proof -
  have len: "length (rf_body (rom_of data)) = 0x8000" "length (take 0x10 data) = 0x10" using assms(1) by (simp_all add: rom_of_def)
  have buffers: "length (e_ROM (m_emu (with_buffers path m s))) = 0x8000" by (simp add: with_buffers_def)
  have fd: "rf_fd (rom_of data) \<noteq> 0" by (simp add: rom_of_def)
  note start = emu_start_state [OF fd len(1) buffers, folded t_def]
  have vector: "rf_body (rom_of data) ! 0x7FFD = data ! 0x800D" "rf_body (rom_of data) ! 0x7FFC = data ! 0x800C"
    using assms(1) by (simp_all add: rom_of_def)
  have emu: "m_emu (with_buffers path m s) = (m_emu s)\<lparr>e_RAM := replicate 0x800 0, e_ROM := replicate 0x8000 0,
      e_header := replicate 0x10 0, e_filepath := path, e_total_CPU_cycles := 8\<rparr>"
    by (simp add: with_buffers_def)
  note facts = start(1) emu vector
  show "machine_ok (t path m s)" using len(1) by (simp add: machine_ok_def facts)
  show "\<not> CPU_halted (t path m s)" "m_heap (t path m s) = km_heap m" by (simp_all add: start with_buffers_def)
  show "cycles_of (t path m s) = 8" "e_RAM (m_emu (t path m s)) = replicate 0x800 0" "ar_S (arch_of (t path m s)) = 0xFD"
    "ar_PC (arch_of (t path m s)) = word_of_bytes (data ! 0x800D) (data ! 0x800C)"
    by (simp_all add: facts cycles_of_def arch_of_def regs_def)
  show "flag_set (arch_of (t path m s)) FLAG_INTERRUPT_DISABLE"
    by (simp add: flag_set_def arch_of_def regs_def facts flag_update_def bit_and_or_self)
  show "e_ROM (m_emu (t path m s)) = take 0x8000 (drop 0x10 data)" by (simp add: facts rom_of_def)
  have "rf_header (rom_of data) = take 0x10 data" by (simp add: rom_of_def)
  then show "e_header (m_emu (t path m s)) = take 0x10 data" using len(2) by (simp add: facts read_into_def)
  show "log_links (t path m s) = log_links s" "log_snapshots (t path m s) = log_snapshots s"
    unfolding start by (simp_all add: with_buffers_def log_links_def log_snapshots_def fun_eq_iff)
qed

text \<open>
  Claim C8.  The emulator starts on the file: when the file system is mounted and finds it, the path, on drive 0,
  and the mode are outside the heap, on clusters of at
  least 0x8010 bytes and with that many in its clusters, its directory entry gives it more than 0x10 bytes, and,
  with 17 blocks more, fewer than an eighth of the heap's blocks are taken (17 are needed, eight of them in a
  row), \<open>emu_init\<close> returns what the run
  returns from a state that has bytes 0x10 to 0x8010 of the file as its ROM and the first 0x10 as its header,
  RAM cleared, the program counter from the last words of the ROM, the stack pointer 0xFD, interrupts disabled
  and 8 cycles counted; the heap is well formed, and everything allocated before still is.
\<close>

theorem emu_starts_rom_from_disk:
  assumes "volume_ready ata v nm data sz" and "named_at v filepath mode_r nm" and "emu_room (km_heap (vf_mem v))"
    and "0x8010 \<le> cluster_bytes (vf_mem v)" and "0x10 < sz" and "0x8010 \<le> int (length data)"
  shows "\<exists>t. emu_init_disk ord mode_r filepath path v s = emu_run ord t \<and> machine_ok t \<and> \<not> CPU_halted t \<and>
    e_ROM (m_emu t) = take 0x8000 (drop 0x10 data) \<and> e_header (m_emu t) = take 0x10 data \<and> e_RAM (m_emu t) = replicate 0x800 0 \<and>
    ar_PC (arch_of t) = word_of_bytes (data ! 0x800D) (data ! 0x800C) \<and> ar_S (arch_of t) = 0xFD \<and>
    flag_set (arch_of t) FLAG_INTERRUPT_DISABLE \<and> cycles_of t = 8 \<and>
    pool_ok (m_heap t) \<and> live (km_heap (vf_mem v)) \<subseteq> live (m_heap t)"
proof -
  from emu_init_disk_run [OF assms, of ord path s] obtain m where
    m: "emu_init_disk ord mode_r filepath path v s = emu_run ord (emu_start (rom_of data) (with_buffers path m s))"
    "pool_ok (km_heap m)" "keeps (km_heap (vf_mem v)) (km_heap m)" by blast
  show ?thesis
    by (intro exI [of _ "emu_start (rom_of data) (with_buffers path m s)"])
      (simp add: m(1,2) keeps_live [OF m(3)] emu_start_rom [OF assms(6)])
qed

text \<open>A mounted disk with one file, for the demonstrations.\<close>

lemma file_mounted:
  assumes "on_disk (file_ata entry) nm [2] sz" and "component_ok nm" and "length nm < 100"
  shows "\<exists>v. boot_fs (file_kernel entry nm) = Some v \<and> volume_ready (file_ata entry) v nm (disk_data (file_ata entry) [2]) sz \<and>
    named_at v 0x5000 0x6000 nm \<and> emu_room (km_heap (vf_mem v)) \<and> cluster_bytes (vf_mem v) = 0x10000"
proof -
  let ?k = "file_kernel entry nm"
  have "length nm < 108" using assms(3) by simp
  from boot_volume [OF file_ready assms(1) this] obtain v where v: "boot_fs ?k = Some v"
    "volume_ready (file_ata entry) v nm (disk_data (file_ata entry) [2]) sz" "extends ((vf_mem ?k)\<lparr>fs_disk := blank_disk\<rparr>) (vf_mem v)"
    "avail (km_heap (vf_mem ?k)) \<le> avail (km_heap (vf_mem v)) + 5" "cluster_bytes (vf_mem v) = disk_cluster_bytes (file_ata entry)"
    by blast
  have "named_at (?k\<lparr>vf_mem := (vf_mem ?k)\<lparr>fs_disk := blank_disk\<rparr>\<rparr>) 0x5000 0x6000 nm"
    using file_named [OF assms(2,3)] by (simp add: named_at_def path_ok_def)
  from named_at_extends [OF this, of "vf_mem v" v] v(3) have name: "named_at v 0x5000 0x6000 nm" by simp
  have "total_of (km_heap (vf_mem v)) = total_of (km_heap (vf_mem ?k))"
    using v(3) file_ready by (intro pool_total) (simp_all add: extends_def grows_def kernel_ready_def)
  moreover have "total_of (km_heap (vf_mem ?k)) = 25600" "avail (km_heap (vf_mem ?k)) = 25600"
    by (simp_all add: file_kernel_def FsClaims.demo_kernel_def kheap_init_avail) (simp add: kheap_init_eq)
  ultimately have "emu_room (km_heap (vf_mem v))" using v(4) by (simp add: emu_room_def taken_def)
  then show ?thesis using v(1,2,5) name by (intro exI [of _ v]) (simp add: file_geometry)
qed

theorem emu_starts_rom_from_disk_witness:
  "\<exists>v t. boot_fs rom_kernel = Some v \<and>
     emu_init_disk Left_first 0x6000 0x5000 ''0:/test1.nes'' v (machine_with []) = emu_run Left_first t \<and>
     take 4 (e_header (m_emu t)) = [0x4E, 0x45, 0x53, 0x1A] \<and> hd (e_ROM (m_emu t)) = 0xA9 \<and> cycles_of t = 8"
proof -
  let ?d = "disk_data rom_ata [2]"
  obtain v where v: "boot_fs rom_kernel = Some v" "volume_ready rom_ata v (bytes ''test1.nes'') ?d 0x8010"
    "named_at v 0x5000 0x6000 (bytes ''test1.nes'')" "emu_room (km_heap (vf_mem v))" "cluster_bytes (vf_mem v) = 0x10000"
    using file_mounted [OF rom_on_disk] by (auto simp: component_ok_def bytes_def)
  from emu_starts_rom_from_disk [OF v(2-4), of Left_first "''0:/test1.nes''" "machine_with []"] obtain t where
    t: "emu_init_disk Left_first 0x6000 0x5000 ''0:/test1.nes'' v (machine_with []) = emu_run Left_first t"
    "e_ROM (m_emu t) = take 0x8000 (drop 0x10 ?d)" "e_header (m_emu t) = take 0x10 ?d" "cycles_of t = 8"
    using v(5) by (auto simp: file_length)
  show ?thesis using v(1) t rom_first_bytes by (intro exI [of _ v] exI [of _ t]) simp
qed

end
