(* ===== verification/KernelRun.thy ===== *)
theory KernelRun
  imports KernelMain EmuDisk
begin

text \<open>
  The whole of \<open>kernel_main\<close>: the start of the kernel (\<open>KernelMain\<close>), the menu (\<open>Menu\<close>) and the emulator on the
  file that the keys choose (\<open>EmuDisk\<close>), one after the other on one heap, one console and one file system.
\<close>

subsection \<open>The kernel\<close>

text \<open>
  The globals of the menu and the emulator are \<open>g\<close>; the heap and the console of its machine are the kernel's.
  \<open>codes\<close> are the scancodes that arrive while the menu waits.  The literals of the program are given by their
  addresses, \<open>lit i\<close> for the \<open>i\<close>-th path of the menu and \<open>mode_r\<close> for the mode of \<open>fopen\<close>.
\<close>

(* src/src/kernel.c 160-226 kernel_main *)
definition kernel_main :: "idt_symbols \<Rightarrow> eval_order \<Rightarrow> (nat \<Rightarrow> u8) \<Rightarrow> (nat \<Rightarrow> int) \<Rightarrow> int \<Rightarrow> kernel_sys \<Rightarrow> kernel \<Rightarrow> machine option" where
  "kernel_main syms ord codes lit mode_r k g = do {
     k \<leftarrow> kernel_boot syms k;
     let v = ts_vfs (k_sys k);
     g \<leftarrow> kernel_menu codes (g\<lparr>k_machine := (k_machine g)\<lparr>m_heap := km_heap (vf_mem v), m_term := km_term (vf_mem v)\<rparr>\<rparr>);
     let v = v\<lparr>vf_mem := (vf_mem v)\<lparr>km_term := m_term (k_machine g)\<rparr>\<rparr>;
     let i = nat (cursor_index g);
     emu_init_disk ord mode_r (lit i) (test_roms g ! i) v (k_machine g) }"

subsection \<open>The menu on the way\<close>

lemma kernel_menu_run:
  assumes "codes j = 0x1C" and "\<forall>i < j. codes i \<noteq> 0x1C" and "\<not> rom_selected g" and "cursor_index g = 0"
  shows "\<exists>g'. kernel_menu codes g = Some g' \<and> test_roms g' = rom_paths \<and> cursor_index g' = fold move (map codes [0 ..< j]) 0 \<and>
    m_log (k_machine g') = m_log (k_machine g) \<and> 0 \<le> cursor_index g' \<and> cursor_index g' \<le> 5"
proof -
  let ?g = "draw_menu (g\<lparr>kernel_initialized := True, test_roms := rom_paths\<rparr>)"
  obtain g' where g': "menu_loop codes 0 ?g = Some g'" "test_roms g' = test_roms ?g" "but_console g' = but_console ?g"
    "cursor_index g' = fold move (map codes [0 ..< j]) 0" "0 \<le> cursor_index g'" "cursor_index g' \<le> 5"
    using menu_loop_returns [of codes 0 j ?g] assms by auto
  have "m_log (but_console g') = m_log (but_console ?g)" by (simp only: g'(3))
  then have "m_log (k_machine g') = m_log (k_machine g)" by (simp add: draw_menu_def on_terminal_def)
  then show ?thesis using g' by (simp add: kernel_menu_def Let_def emu_enable_logger_def run_simps)
qed

text \<open>A change of the console alone.\<close>

lemma with_console:
  fixes v :: vfs
  defines "w t \<equiv> v\<lparr>vf_mem := (vf_mem v)\<lparr>km_term := t\<rparr>\<rparr>"
  shows "pool_ok (km_heap (vf_mem v)) \<Longrightarrow> volume_ready ata v nm data sz \<Longrightarrow> volume_ready ata (w t) nm data sz"
    "named_at (w t) filename mode nm = named_at v filename mode nm"
    "cluster_bytes (vf_mem (w t)) = cluster_bytes (vf_mem v)"
proof -
  assume "pool_ok (km_heap (vf_mem v))" "volume_ready ata v nm data sz"
  moreover from this have "extends (vf_mem v) ((vf_mem v)\<lparr>km_term := t\<rparr>)" by (simp add: extends_def grows_same keeps_refl)
  ultimately show "volume_ready ata (w t) nm data sz"
    unfolding w_def by (intro volume_ready_grows) (simp_all add: same_fs_def)
qed (simp_all add: w_def named_at_def path_ok_def cluster_bytes_def the_header_def)

subsection \<open>The run\<close>

text \<open>The literals of the program are in memory that the heap does not use.\<close>

definition literals_ok :: "memory \<Rightarrow> (nat \<Rightarrow> int) \<Rightarrow> int \<Rightarrow> bool" where
  "literals_ok m lit mode_r \<longleftrightarrow> m mode_r = 0x72 \<and> mode_r \<notin> kernel_pool \<and>
     (\<forall>i < 6. cstr m (lit i) (bytes (rom_paths ! i)) \<and> {lit i .. lit i + 12} \<inter> kernel_pool = {})"

text \<open>The name of the file that the menu's path \<open>i\<close> leads to.\<close>

abbreviation rom_name :: "nat \<Rightarrow> u8 list" where
  "rom_name i \<equiv> drop 3 (bytes (rom_paths ! i))"

lemma rom_path_parts:
  assumes "i < 6"
  shows "bytes (rom_paths ! i) = 0x30 # COLON # SLASH # rom_name i" "length (bytes (rom_paths ! i)) = 12" "component_ok (rom_name i)"
proof -
  have "\<forall>p \<in> set rom_paths. bytes p = 0x30 # COLON # SLASH # drop 3 (bytes p) \<and> length (bytes p) = 12 \<and> component_ok (drop 3 (bytes p))"
    by (simp add: bytes_def component_ok_def)
  moreover have "rom_paths ! i \<in> set rom_paths" using assms by (intro nth_mem) simp
  ultimately show "bytes (rom_paths ! i) = 0x30 # COLON # SLASH # rom_name i" "length (bytes (rom_paths ! i)) = 12" "component_ok (rom_name i)"
    by blast+
qed

lemma literal_named:
  assumes "literals_ok m lit mode_r" and "i < 6" and "pool (km_heap (vf_mem v)) = kernel_pool"
    and "\<forall>a. a \<notin> kernel_pool \<longrightarrow> km_mem (vf_mem v) a = m a"
  shows "named_at v (lit i) mode_r (rom_name i)"
proof -
  note l = assms(1) [unfolded literals_ok_def] and p = rom_path_parts [OF assms(2)]
  have str: "cstr m (lit i) (bytes (rom_paths ! i))" and off: "{lit i .. lit i + 12} \<inter> kernel_pool = {}"
    using l assms(2) by blast+
  have len: "int (length (bytes (rom_paths ! i))) = 12" by (simp add: p(2))
  have "cstr (km_mem (vf_mem v)) (lit i) (bytes (rom_paths ! i))"
  proof (rule cstr_frame [OF str], rule ballI)
    fix a assume "a \<in> {lit i .. lit i + int (length (bytes (rom_paths ! i)))}"
    then have "a \<notin> kernel_pool" using off unfolding len by blast
    then show "km_mem (vf_mem v) a = m a" using assms(4) by blast
  qed
  then have "path_ok (vf_mem v) (lit i) 0x30 (rom_name i)"
    using off len unfolding path_ok_def p(1) [symmetric] assms(3) by (simp add: isdigit_def)
  then show ?thesis using l p(3) assms(3,4) by (simp add: named_at_def)
qed

text \<open>A run from the start, on an empty log and a heap with room for the log.\<close>

lemma started_runs:
  fixes t :: machine
  assumes "cycles_of t < 1000" and "log_list (m_log t) (m_heap t) []" and "counts_printable (m_log t)"
    and "pool_ok (m_heap t)" and "257 \<le> avail (m_heap t)"
  shows "\<exists>s qs. emu_run ord t = Some s \<and> cpu_reaches ord t (s\<lparr>m_term := m_term t\<rparr>) \<and> (CPU_halted s \<or> 1000 \<le> cycles_of s) \<and>
    cycles_of s < 1008 \<and> log_list (m_log s) (m_heap s) qs \<and> length qs \<le> 257 \<and> pool_ok (m_heap s)"
proof -
  let ?u = "emu_run_loop ord t"
  have run: "cpu_reaches ord t ?u" "run_over ?u" using emu_run_loop_reaches by blast+
  have "cycles_of t < 10 ^ 8" using assms(1) by simp
  from emu_run_total [OF this assms(3)] obtain c where c: "emu_run ord t = Some (?u\<lparr>m_term := c\<rparr>)" by blast
  have "log_room (avail (m_heap t)) t []" using assms(2,4) by (simp add: log_room_def spare_def)
  from log_room_run [OF run(1) this assms(5)] obtain qs where qs: "log_room (avail (m_heap t)) ?u qs" by blast
  have "m_term ?u = m_term t" "cycles_of ?u < 1008" using cpu_reaches_invariant [OF run(1)] assms(1) by simp_all
  moreover have "?u\<lparr>m_term := m_term ?u\<rparr> = ?u" by (cases ?u) simp
  then have "?u\<lparr>m_term := m_term t\<rparr> = ?u" unfolding calculation(1) .
  then have "cpu_reaches ord t (?u\<lparr>m_term := m_term t\<rparr>)" using run(1) by simp
  moreover have "cycles_of (?u\<lparr>m_term := c\<rparr>) = cycles_of ?u" by (simp add: cycles_of_def)
  ultimately show ?thesis
    using c run qs by (intro exI [of _ "?u\<lparr>m_term := c\<rparr>"] exI [of _ qs]) (simp add: run_over_def log_room_def log_list_def)
qed

text \<open>
  Claim C2.  The kernel runs the ROM that is chosen.  From a cold start, with a FAT16 disk whose clusters hold
  0x8010 bytes: when the keys W, S and others move the cursor to the entry \<open>i\<close> and Enter is pressed, and the file
  of that entry is on the disk with 0x8010 bytes, \<open>kernel_main\<close> returns; it has run the processor
  from a state \<open>t\<close> with bytes 0x10 to 0x8010 of that file as ROM, RAM cleared and the program counter from the
  vector at their end, until it is halted or 1000 cycles are over, at most 1007; then the log is well formed with at
  most 257 entries, and the heap is well formed.
\<close>

theorem kernel_runs_chosen_rom:
  assumes "vf_drivers (ts_vfs (k_sys k)) FAT16_FS = fat16_fs ata" and "0x8010 \<le> disk_cluster_bytes ata"
    and "literals_ok (sys_mem (k_sys k)) lit mode_r"
    and "\<not> rom_selected g" and "cursor_index g = 0" and "m_log (k_machine g) = empty_log"
    and "codes j = 0x1C" and "\<forall>i < j. codes i \<noteq> 0x1C" and "i = nat (fold move (map codes [0 ..< j]) 0)"
    and "on_disk ata (rom_name i) cs sz" and "0x10 < sz" and "0x8010 \<le> int (length (disk_data ata cs))"
  shows "\<exists>t s qs. kernel_main syms ord codes lit mode_r k g = Some s \<and>
    e_ROM (m_emu t) = take 0x8000 (drop 0x10 (disk_data ata cs)) \<and> e_RAM (m_emu t) = replicate 0x800 0 \<and>
    ar_PC (arch_of t) = word_of_bytes (disk_data ata cs ! 0x800D) (disk_data ata cs ! 0x800C) \<and> cycles_of t = 8 \<and> \<not> CPU_halted t \<and>
    cpu_reaches ord t (s\<lparr>m_term := m_term t\<rparr>) \<and> (CPU_halted s \<or> 1000 \<le> cycles_of s) \<and> cycles_of s < 1008 \<and>
    log_list (m_log s) (m_heap s) qs \<and> length qs \<le> 257 \<and> pool_ok (m_heap s)"
proof -
  let ?d = "disk_data ata cs" and ?p = "rom_paths ! i"
  from kernel_menu_run [OF assms(7,8,4,5)] have i: "i < 6" by (auto simp: assms(9))
  obtain k' where k': "kernel_boot syms k = Some k'" "volume_ready ata (ts_vfs (k_sys k')) (rom_name i) ?d sz"
    "pool_ok (sys_heap (k_sys k'))" "taken (sys_heap (k_sys k')) \<le> 1032" "total_of (sys_heap (k_sys k')) = 25600"
    "pool (sys_heap (k_sys k')) = kernel_pool" "\<forall>a. a \<notin> kernel_pool \<longrightarrow> sys_mem (k_sys k') a = sys_mem (k_sys k) a"
    "cluster_bytes (vf_mem (ts_vfs (k_sys k'))) = disk_cluster_bytes ata"
    using kernel_boot_run [OF assms(1,10), of syms] rom_path_parts(2) [OF i] by auto
  let ?v = "ts_vfs (k_sys k')"
  let ?g = "g\<lparr>k_machine := (k_machine g)\<lparr>m_heap := km_heap (vf_mem ?v), m_term := km_term (vf_mem ?v)\<rparr>\<rparr>"
  obtain g' where g': "kernel_menu codes ?g = Some g'" "test_roms g' = rom_paths" "cursor_index g' = fold move (map codes [0 ..< j]) 0"
    "m_log (k_machine g') = empty_log" "0 \<le> cursor_index g'" "cursor_index g' \<le> 5"
    using kernel_menu_run [of codes j ?g] assms(4-8) by auto
  let ?w = "?v\<lparr>vf_mem := (vf_mem ?v)\<lparr>km_term := m_term (k_machine g')\<rparr>\<rparr>"
  have ready: "volume_ready ata ?w (rom_name i) ?d sz" by (rule with_console(1) [OF k'(3,2)])
  have name: "named_at ?w (lit i) mode_r (rom_name i)"
    unfolding with_console(2) by (rule literal_named [OF assms(3) i k'(6,7)])
  have room: "emu_room (km_heap (vf_mem ?w))" and av: "257 + 17 \<le> avail (km_heap (vf_mem ?w))"
    using k'(4,5) by (simp_all add: emu_room_def taken_def)
  have cb: "0x8010 \<le> cluster_bytes (vf_mem ?w)" unfolding with_console(3) using k'(8) assms(2) by simp
  obtain m where m: "emu_init_disk ord mode_r (lit i) ?p ?w (k_machine g') =
      emu_run ord (emu_start (rom_of ?d) (with_buffers ?p m (k_machine g')))"
    "pool_ok (km_heap m)" "avail (km_heap (vf_mem ?w)) \<le> avail (km_heap m) + 17"
    using emu_init_disk_run [OF ready name room cb assms(11,12)] by blast
  let ?t = "emu_start (rom_of ?d) (with_buffers ?p m (k_machine g'))"
  note t = emu_start_rom [OF assms(12), of ?p m "k_machine g'"]
  have counts: "counts_printable (m_log ?t)"
    using t(12) by (simp add: counts_printable_def log_snapshots_def fun_eq_iff g'(4) empty_log_def zero_entry_def)
  have lst: "log_list (m_log ?t) (m_heap ?t) []"
    using log_list_links [OF t(11)] empty_log_list g'(4) by simp
  obtain s qs where s: "emu_run ord ?t = Some s" "cpu_reaches ord ?t (s\<lparr>m_term := m_term ?t\<rparr>)" "CPU_halted s \<or> 1000 \<le> cycles_of s"
    "cycles_of s < 1008" "log_list (m_log s) (m_heap s) qs" "length qs \<le> 257" "pool_ok (m_heap s)"
    using started_runs [OF _ lst counts, of ord] t(3,10) m(2,3) av by auto
  have "kernel_main syms ord codes lit mode_r k g = Some s"
    using k'(1) g'(1-3) m(1) s(1) by (simp add: kernel_main_def assms(9))
  then show ?thesis using t(2-4,6,7) s(2-7) by blast
qed

text \<open>A kernel before its start, with its literals in memory and the disk that holds \<open>TEST1.NES\<close>.\<close>

definition demo_literals :: memory where
  "demo_literals = (literal 0x5000 (concat (map (\<lambda>p. bytes p @ replicate 4 0) rom_paths)))(0x6000 := 0x72)"

definition demo_system :: kernel_sys where
  "demo_system = cold\<lparr>k_sys := started (rom_kernel\<lparr>vf_mem := (vf_mem rom_kernel)\<lparr>km_mem := demo_literals\<rparr>\<rparr>)\<rparr>"

lemma demo_literals_ok: "literals_ok demo_literals (\<lambda>i. 0x5000 + 16 * int i) 0x6000"
proof -
  have "list_all (\<lambda>i. cstr demo_literals (0x5000 + 16 * int i) (bytes (rom_paths ! i))) [0 ..< 6]" by code_simp
  then have "cstr demo_literals (0x5000 + 16 * int i) (bytes (rom_paths ! i))" if "i < 6" for i
    using that by (simp add: list_all_iff)
  then show ?thesis by (auto simp: literals_ok_def) (simp add: demo_literals_def)
qed

theorem kernel_runs_chosen_rom_witness:
  "\<exists>s t. kernel_main \<lparr>sym_idt_descriptors = 0, sym_no_interrupt = 1, sym_idt_zero = 2, sym_int21h = 3, sym_pit_irq = 4\<rparr>
       Left_first (\<lambda>_. 0x1C) (\<lambda>i. 0x5000 + 16 * int i) 0x6000 demo_system Menu.demo_kernel = Some s \<and>
     hd (e_ROM (m_emu t)) = 0xA9 \<and> cpu_reaches Left_first t (s\<lparr>m_term := m_term t\<rparr>) \<and> cycles_of s < 1008"
proof -
  let ?syms = "\<lparr>sym_idt_descriptors = 0, sym_no_interrupt = 1, sym_idt_zero = 2, sym_int21h = 3, sym_pit_irq = 4\<rparr>"
  have drv: "vf_drivers (ts_vfs (k_sys demo_system)) FAT16_FS = fat16_fs rom_ata"
    and mem: "sys_mem (k_sys demo_system) = demo_literals"
    by (simp_all add: demo_system_def started_def file_kernel_def)
  have g: "\<not> rom_selected Menu.demo_kernel" "cursor_index Menu.demo_kernel = 0" "m_log (k_machine Menu.demo_kernel) = empty_log"
    by (simp_all add: Menu.demo_kernel_def machine_with_def)
  have "rom_name 0 = bytes ''test1.nes''" by (simp add: bytes_def)
  then have on: "on_disk rom_ata (rom_name 0) [2] 0x8010" using rom_on_disk by simp
  have lits: "literals_ok (sys_mem (k_sys demo_system)) (\<lambda>i. 0x5000 + 16 * int i) 0x6000" unfolding mem by (rule demo_literals_ok)
  from kernel_runs_chosen_rom [OF drv _ lits g, of "\<lambda>_. 0x1C" 0 0, OF _ _ _ _ on, of ?syms Left_first]
  obtain t s where "kernel_main ?syms Left_first (\<lambda>_. 0x1C) (\<lambda>i. 0x5000 + 16 * int i) 0x6000 demo_system Menu.demo_kernel = Some s"
    "e_ROM (m_emu t) = take 0x8000 (drop 0x10 (disk_data rom_ata [2]))" "cpu_reaches Left_first t (s\<lparr>m_term := m_term t\<rparr>)"
    "cycles_of s < 1008"
    by (auto simp: file_geometry file_length)
  then show ?thesis using rom_first_bytes(2) by (intro exI [of _ s] exI [of _ t]) simp
qed

end
