(* ===== verification/Ppu.thy ===== *)
theory Ppu
  imports EmuDisk
begin

text \<open>
  The picture unit of \<open>src/emulator/PPU/ppu.c\<close> and \<open>ppu.h\<close>: its globals and \<open>ppu_init\<close>, which loads a fixed file
  of the disk into two buffers.
\<close>

subsection \<open>The globals\<close>

(* src/src/emulator/PPU/ppu.h 4-8 struct PPU_registers *)
record PPU_registers =
  write_latch :: bool
  transfer_address :: u16
  VRAM_address :: u16

text \<open>The buffers are addresses; the path is given by its characters, since it is only printed.\<close>

(* src/src/emulator/PPU/ppu.h 10-18 struct PPU *)
record PPU =
  pp_filepath :: string
  pp_registers :: PPU_registers
  pp_RAM :: u32
  pp_ROM :: u32
  pp_CHROM :: u32

subsection \<open>Start\<close>

text \<open>
  \<open>filepath\<close> and \<open>mode_r\<close> are the addresses of the literals \<open>0:/test7.nes\<close> and \<open>r\<close>, \<open>stat\<close> is what the stack holds
  before \<open>fstat\<close>.  A buffer that could not be allocated is the address 0, and the file is read to there.
\<close>

(* src/src/emulator/PPU/ppu.c 12-32 ppu_init *)
definition ppu_init :: "int \<Rightarrow> int \<Rightarrow> file_stat \<Rightarrow> PPU \<Rightarrow> vfs \<Rightarrow> (PPU \<times> vfs) option" where
  "ppu_init filepath mode_r stat ppu v =
     (let (ram, m) = kalloc 0x800 (vf_mem v);
          (rom, m) = kalloc 0x8000 m;
          (chrom, m) = kalloc 0x2000 m;
          ppu = ppu\<lparr>pp_RAM := ram, pp_ROM := rom, pp_CHROM := chrom, pp_filepath := ''0:/test7.nes'',
            pp_registers := (pp_registers ppu)\<lparr>write_latch := False, transfer_address := 0, VRAM_address := 0\<rparr>\<rparr>
      in do {
        (fd, v) \<leftarrow> fopen filepath mode_r (v\<lparr>vf_mem := m\<rparr>);
        if fd \<noteq> 0 then do {
          let (_, stat) = fstat fd stat v;
          (_, v) \<leftarrow> fread (uint (pp_ROM ppu)) (fst_filesize stat) 1 fd v;
          let (_, v) = fseek fd 0x10 0 v;
          (_, v) \<leftarrow> fread (uint (pp_CHROM ppu)) 0x2000 1 fd v;
          Some (ppu, vprint [CHR 0x0A] (vprint (pp_filepath ppu) (vprint ''Opened '' v))) }
        else Some (ppu, v) })"

subsection \<open>What it loads\<close>

text \<open>
  The second read is in order only on clusters that hold it: on smaller ones it goes on in the next cluster on the
  disk, whatever the file's chain says.
\<close>

text \<open>
  Claim C39.  \<open>ppu_init\<close> loads its file under these conditions: the file system is mounted and finds the file; its
  path, on drive 0, and the mode are outside the heap; a cluster holds at least 0x2010 bytes, so that the read of 0x2000 bytes from position 0x10 stays in the first
  one; by its directory entry the file has more than 0x10 bytes, and no more than the 0x8000 of the ROM
  buffer; its clusters hold that many bytes and at least 0x2010; and, with 17 blocks more, fewer than an
  eighth of the heap's blocks are taken.  The ROM buffer
  then begins with the whole file, its header included, the buffer for the characters holds the 0x2000 bytes that
  follow the header, the registers are cleared, the heap is well formed, and everything allocated before still is.
\<close>

theorem ppu_init_loads_file:
  assumes "volume_ready ata v nm data sz" and "named_at v filepath mode_r nm" and "emu_room (km_heap (vf_mem v))"
    and "0x10 < sz" and "sz \<le> 0x8000" and "0x2010 \<le> cluster_bytes (vf_mem v)" and "0x2010 \<le> int (length data)" and "sz \<le> int (length data)"
  shows "\<exists>ppu' v'. ppu_init filepath mode_r stat ppu v = Some (ppu', v') \<and>
    memory_bytes (km_mem (vf_mem v')) (uint (pp_ROM ppu')) (nat sz) = take (nat sz) data \<and>
    memory_bytes (km_mem (vf_mem v')) (uint (pp_CHROM ppu')) 0x2000 = take 0x2000 (drop 0x10 data) \<and>
    \<not> write_latch (pp_registers ppu') \<and> transfer_address (pp_registers ppu') = 0 \<and> VRAM_address (pp_registers ppu') = 0 \<and>
    pool_ok (km_heap (vf_mem v')) \<and> live (km_heap (vf_mem v)) \<subseteq> live (km_heap (vf_mem v'))"
proof -
  let ?s = "vf_mem v" and ?sz = "word_of_int sz :: u32"
  have ok: "pool_ok (km_heap ?s)" and live: "private_live ?s"
    using assms(1) by (simp_all add: volume_ready_def fat_named_def)
  note room = assms(3) [unfolded emu_room_def] and le = pool_room [OF ok]
  have half: "total_of (km_heap ?s) div 8 \<le> total_of (km_heap ?s) div 2"
    using ok by (intro zdiv_mono2) (simp_all add: pool_ok_def heap_ok_def)
  have b: "blocks_for 0x800 = 1" "blocks_for 0x8000 = 8" "blocks_for 0x2000 = 2" by (simp_all add: blocks_for_def)
  obtain ram m1 where 1: "kalloc 0x800 ?s = (ram, m1)" "buffers ?s [(ram, 1)] m1"
    using buffers_step [OF buffers_none [OF ok], of "0x800"] room le unfolding b by auto
  obtain rom m2 where 2: "kalloc 0x8000 m1 = (rom, m2)" "buffers ?s [(rom, 8), (ram, 1)] m2"
    using buffers_step [OF 1(2), of "0x8000"] room unfolding b by auto
  obtain chrom m where 3: "kalloc 0x2000 m2 = (chrom, m)" "buffers ?s [(chrom, 2), (rom, 8), (ram, 1)] m"
    using buffers_step [OF 2(2), of "0x2000"] room half unfolding b by auto
  let ?v = "v\<lparr>vf_mem := m\<rparr>"
  note vol = buffers_volume [OF 3(2) assms(1,2)]
  have "takes 11 ?s m" using 3(2) by (simp add: buffers_def)
  then have av: "7 \<le> avail (km_heap (vf_mem ?v))" using room le by (simp add: takes_def taken_def)
  have usz: "sint ?sz = sz" "sint (0x2000 :: u32) = 0x2000" using assms(4,5) by (simp_all add: sint_small uint_word_of_int)
  have bufs: "buffer_ok ?v (uint rom) sz" "buffer_ok ?v (uint chrom) 0x2000"
    using buffers_ok [OF 3(2) live, of rom 8 sz] buffers_ok [OF 3(2) live, of chrom 2 "0x2000"] assms(5) by simp_all
  have "blocks_range chrom 2 \<inter> blocks_range rom 8 = {}" using 3(2) by (simp add: buffers_def)
  then have apart: "{uint rom ..< uint rom + sz} \<inter> {uint chrom ..< uint chrom + 0x2000} = {}"
    using assms(5) by (force simp: blocks_range_def)
  obtain v2 v3 v4 v5 where r: "fopen filepath mode_r ?v = Some (1, v2)"
    "\<forall>st. \<exists>flags. fstat 1 st v2 = (0, \<lparr>fst_flags = flags, fst_filesize = ?sz\<rparr>)"
    "fread (uint rom) ?sz 1 1 v2 = Some (1, v3)" "fseek 1 0x10 0 v3 = (0, v4)" "fread (uint chrom) 0x2000 1 1 v4 = Some (1, v5)"
    "memory_bytes (km_mem (vf_mem v5)) (uint rom) (nat sz) = take (nat sz) data"
    "memory_bytes (km_mem (vf_mem v5)) (uint chrom) 0x2000 = take 0x2000 (drop 0x10 data)"
    "pool_ok (km_heap (vf_mem v5))" "keeps (km_heap m) (km_heap (vf_mem v5))"
    using volume_read_twice [OF vol(1,2) av, of ?sz "0x2000" "uint rom" "uint chrom"] assms(4-8) bufs apart vol(3)
    unfolding usz by auto
  obtain flags where stat: "fstat 1 stat v2 = (0, \<lparr>fst_flags = flags, fst_filesize = ?sz\<rparr>)" using r(2) by blast
  have grown: "live (km_heap ?s) \<subseteq> live (km_heap (vf_mem v5))" using keeps_live [OF keeps_trans [OF vol(5) r(9)]] .
  have out: "vf_mem (vprint t w) = kprint t (vf_mem w)" for t w by (simp add: vprint_def)
  show ?thesis
    using 1(1) 2(1) 3(1) r(1,3-8) stat grown by (simp add: ppu_init_def out kprint_def)
qed

text \<open>The file \<open>TEST7.NES\<close> of 0x4010 bytes.\<close>

abbreviation small_ata :: ata where
  "small_ata \<equiv> file_ata (bytes ''TEST7   NES'' @ replicate 15 0 @ [2, 0, 0x10, 0x40, 0, 0])"

lemma small_on_disk: "on_disk small_ata (bytes ''test7.nes'') [2] 0x4010"
  by (rule file_on_disk; code_simp)

theorem ppu_init_loads_file_witness:
  "\<exists>v v' ppu'. boot_fs (file_kernel (bytes ''TEST7   NES'' @ replicate 15 0 @ [2, 0, 0x10, 0x40, 0, 0]) (bytes ''test7.nes'')) = Some v \<and>
     ppu_init 0x5000 0x6000 \<lparr>fst_flags = 0, fst_filesize = 0\<rparr>
       \<lparr>pp_filepath = [], pp_registers = \<lparr>write_latch = True, transfer_address = 1, VRAM_address = 1\<rparr>, pp_RAM = 0, pp_ROM = 0, pp_CHROM = 0\<rparr> v
       = Some (ppu', v') \<and>
     km_mem (vf_mem v') (uint (pp_ROM ppu')) = 0x4E \<and> km_mem (vf_mem v') (uint (pp_CHROM ppu')) = 0xA9"
proof -
  let ?d = "disk_data small_ata [2]"
  let ?k = "file_kernel (bytes ''TEST7   NES'' @ replicate 15 0 @ [2, 0, 0x10, 0x40, 0, 0]) (bytes ''test7.nes'')"
  obtain v where v: "boot_fs ?k = Some v" "volume_ready small_ata v (bytes ''test7.nes'') ?d 0x4010"
    "named_at v 0x5000 0x6000 (bytes ''test7.nes'')" "emu_room (km_heap (vf_mem v))" "cluster_bytes (vf_mem v) = 0x10000"
    using file_mounted [OF small_on_disk] by (auto simp: component_ok_def bytes_def)
  have len: "length ?d = 0x10000" by (rule file_length)
  have r: "0x10 < (0x4010 :: int)" "(0x4010 :: int) \<le> 0x8000" "0x2010 \<le> cluster_bytes (vf_mem v)" "0x2010 \<le> int (length ?d)"
    "0x4010 \<le> int (length ?d)" using v(5) len by simp_all
  let ?st = "\<lparr>fst_flags = 0, fst_filesize = 0\<rparr>"
    and ?p = "\<lparr>pp_filepath = [], pp_registers = \<lparr>write_latch = True, transfer_address = 1, VRAM_address = 1\<rparr>, pp_RAM = 0, pp_ROM = 0, pp_CHROM = 0\<rparr>"
  obtain ppu' v' where p: "ppu_init 0x5000 0x6000 ?st ?p v = Some (ppu', v')"
    "memory_bytes (km_mem (vf_mem v')) (uint (pp_ROM ppu')) (nat 0x4010) = take (nat 0x4010) ?d"
    "memory_bytes (km_mem (vf_mem v')) (uint (pp_CHROM ppu')) 0x2000 = take 0x2000 (drop 0x10 ?d)"
    using ppu_init_loads_file [OF v(2-4) r, of ?st ?p] by blast
  have first: "m q = hd bs" if "memory_bytes m q n = bs" "0 < n" for m q n and bs :: "u8 list"
    using that by (auto simp: memory_bytes_def hd_map)
  have "km_mem (vf_mem v') (uint (pp_ROM ppu')) = hd (take (nat 0x4010) ?d)" by (rule first [OF p(2)]) simp
  moreover have "hd (take (nat 0x4010) ?d) = hd (take 0x11 ?d)" by (simp add: hd_take)
  moreover have "km_mem (vf_mem v') (uint (pp_CHROM ppu')) = hd (take 0x2000 (drop 0x10 ?d))" by (rule first [OF p(3)]) simp
  moreover have "hd (take 0x2000 (drop 0x10 ?d)) = take 0x11 ?d ! 0x10" using len by (simp add: hd_drop_conv_nth)
  ultimately have "km_mem (vf_mem v') (uint (pp_ROM ppu')) = 0x4E" "km_mem (vf_mem v') (uint (pp_CHROM ppu')) = 0xA9"
    unfolding file_head by (simp_all add: nth_append)
  then show ?thesis using v(1) p(1) by blast
qed

end
