(* ===== verification/LogView.thy ===== *)
theory LogView
  imports Menu EmuHeap
begin

text \<open>
  The listing of the trace log and the keys that move it (\<open>src/emulator/CPU/tracelogger.c\<close>, with the handlers of
  \<open>Menu\<close>): what is on the screen for a log that is well formed, what becomes of the selected entry when the log
  drops its first one, and that keys which arrive while the emulator runs do not change the run.
\<close>

subsection \<open>The window\<close>

text \<open>\<open>window lg ps k\<close>: of the entries \<open>ps\<close>, the one at \<open>k\<close> is selected, and 25 lines from there are full unless it is the first.\<close>

definition window :: "logger \<Rightarrow> u32 list \<Rightarrow> nat \<Rightarrow> bool" where
  "window lg ps k \<longleftrightarrow> k < length ps \<and> (k = 0 \<or> k + 25 \<le> length ps) \<and>
     cur_selected_entry lg = ps ! k \<and> cur_selected_index lg = int k"

definition lines_of :: "logger \<Rightarrow> u32 list \<Rightarrow> string list" where
  "lines_of lg ps = map (\<lambda>p. entry_text (log_mem lg p) @ [CHR 0x0A]) ps"

lemma dll_next: "dll m q ps \<Longrightarrow> Suc i < length ps \<Longrightarrow> te_next (m (ps ! i)) = ps ! Suc i"
proof (induction ps arbitrary: q i)
  case (Cons p ps)
  then show ?case by (cases i) (auto simp: nth_Cons' split: list.splits)
qed simp

lemma dll_prev: "dll m q ps \<Longrightarrow> Suc i < length ps \<Longrightarrow> te_prev (m (ps ! Suc i)) = ps ! i"
proof (induction ps arbitrary: q i)
  case (Cons p ps)
  then show ?case by (cases i; cases ps) auto
qed simp

text \<open>What the well-formedness of the log gives about the entry at a position.\<close>

lemma log_list_nth:
  assumes "log_list lg h ps" and "Suc j < length ps"
  shows "ps ! j \<noteq> log_tail lg" "te_next (log_mem lg (ps ! j)) = ps ! Suc j" "te_prev (log_mem lg (ps ! Suc j)) = ps ! j"
    "ps ! Suc j \<noteq> log_head lg"
proof -
  have l: "dll (log_mem lg) 0 ps" "distinct ps" "log_tail lg = last ps" "log_head lg = hd ps" "ps \<noteq> []"
    using assms by (auto simp: log_list_def last_or_null_def first_or_null_def split: list.splits)
  show "ps ! j \<noteq> log_tail lg"
    using l(2,5) assms(2) by (simp add: l(3) last_conv_nth nth_eq_iff_index_eq)
  show "ps ! Suc j \<noteq> log_head lg"
    using l(2,5) assms(2) by (simp add: l(4) hd_conv_nth nth_eq_iff_index_eq)
  show "te_next (log_mem lg (ps ! j)) = ps ! Suc j" by (rule dll_next [OF l(1) assms(2)])
  show "te_prev (log_mem lg (ps ! Suc j)) = ps ! j" by (rule dll_prev [OF l(1) assms(2)])
qed

text \<open>The loop prints the rest of the window.\<close>

lemma print_entries_window:
  assumes "log_list lg h ps" and "counts_printable lg" and "ps \<noteq> []" and "k + n \<le> length ps" and "n = min 25 (length ps)"
    and "i \<le> n" and "i < n \<Longrightarrow> p = ps ! (k + i)"
  shows "print_entries_loop lg (int i) p t = Some (fold print (drop i (lines_of lg (take n (drop k ps)))) t)"
  using assms(6,7)
proof (induction "n - i" arbitrary: i p t)
  case 0
  have "current_length lg = int (length ps) - 1" using assms(1,3) by (simp add: log_list_def)
  with 0 assms(5) have "\<not> (int i \<le> NUM_PRINT_ENTRIES \<and> int i \<le> current_length lg)" by auto
  moreover have "drop i (lines_of lg (take n (drop k ps))) = []" using 0 by (simp add: lines_of_def)
  ultimately show ?case by (subst print_entries_loop.simps) (simp only: if_False fold_simps)
next
  case (Suc d)
  let ?e = "log_mem lg (ps ! (k + i))" and ?q = "if p \<noteq> log_tail lg then te_next (log_mem lg p) else p"
  let ?ls = "lines_of lg (take n (drop k ps))"
  have i: "i < n" "p = ps ! (k + i)" using Suc.hyps(2) Suc.prems by simp_all
  have len: "length ?ls = n" using assms(4) by (simp add: lines_of_def)
  have "?ls ! i = entry_text ?e @ [CHR 0x0A]" using i(1) assms(4) by (simp add: lines_of_def)
  then have first: "drop i ?ls = (entry_text ?e @ [CHR 0x0A]) # drop (Suc i) ?ls"
    using Cons_nth_drop_Suc [of i ?ls] i(1) len by simp
  have line: "print_tracelog_entry (log_mem lg p) t = Some (print (entry_text ?e @ [CHR 0x0A]) t)"
    using assms(2) unfolding i(2) by (intro print_tracelog_entry_text) (simp add: counts_printable_def)
  have "?q = ps ! (k + Suc i)" if "Suc i < n"
    using that log_list_nth(1,2) [OF assms(1), of "k + i"] assms(4) by (simp add: i(2))
  from Suc.hyps(1) [of "Suc i" ?q, OF _ _ this] i(1) Suc.hyps(2)
  have rest: "print_entries_loop lg (int i + 1) ?q t' = Some (fold print (drop (Suc i) ?ls) t')" for t'
    by (simp add: add.commute)
  have "int i \<le> NUM_PRINT_ENTRIES" "int i \<le> current_length lg"
    using i(1) assms(1,3,5) by (simp_all add: log_list_def)
  then show ?case using line rest by (subst print_entries_loop.simps) (simp add: first)
qed

lemma listing_window:
  assumes "log_list lg h ps" and "counts_printable lg" and "window lg ps k"
  shows "tracelog_print_entries lg t = Some (fold print (lines_of lg (take 25 (drop k ps))) (reset_terminal t))"
proof -
  let ?n = "min 25 (length ps)"
  have w: "k < length ps" "k + ?n \<le> length ps" "cur_selected_entry lg = ps ! (k + 0)" using assms(3) by (auto simp: window_def)
  then have "ps \<noteq> []" by auto
  from print_entries_window [OF assms(1,2) this w(2) refl, of 0 "cur_selected_entry lg"] w(3)
  have "tracelog_print_entries lg t = Some (fold print (lines_of lg (take ?n (drop k ps))) (reset_terminal t))"
    by (simp add: tracelog_print_entries_def)
  moreover have "take ?n (drop k ps) = take 25 (drop k ps)" by (simp add: min_def)
  ultimately show ?thesis by simp
qed

subsection \<open>Scrolling\<close>

text \<open>The selection is not part of the links.\<close>

lemma select_keeps [simp]:
  "log_list (lg\<lparr>cur_selected_entry := e, cur_selected_index := i\<rparr>) h ps = log_list lg h ps"
  "counts_printable (lg\<lparr>cur_selected_entry := e, cur_selected_index := i\<rparr>) = counts_printable lg"
  "lines_of (lg\<lparr>cur_selected_entry := e, cur_selected_index := i\<rparr>) ps = lines_of lg ps"
  by (simp_all add: log_list_def counts_printable_def lines_of_def)

text \<open>
  Claim C31.  The scroll keys show a window of 25 lines that moves over the log and stays inside it: on a well-formed
  log whose entry \<open>k\<close> is selected, S moves to \<open>k + 1\<close> unless the last line is on the screen, W to \<open>k - 1\<close> unless the
  first one is, and then the screen has the entries from there on in order, a line each, at most 25; the log itself
  does not change.
\<close>

theorem scroll_shows_window:
  assumes "log_list lg h ps" and "counts_printable lg" and "window lg ps k"
  shows "\<exists>down up. let d = (if k + 25 < length ps then k + 1 else k); u = k - 1 in
    scroll_down lg t = (down, Some (fold print (lines_of lg (take 25 (drop d ps))) (reset_terminal t))) \<and>
    window down ps d \<and> log_list down h ps \<and>
    scroll_up lg t = (up, Some (fold print (lines_of lg (take 25 (drop u ps))) (reset_terminal t))) \<and>
    window up ps u \<and> log_list up h ps"
proof -
  have w: "k < length ps" "k = 0 \<or> k + 25 \<le> length ps" "cur_selected_entry lg = ps ! k" "cur_selected_index lg = int k"
    using assms(3) by (auto simp: window_def)
  then have ne: "ps \<noteq> []" by auto
  have len: "current_length lg = int (length ps) - 1" and hd: "log_head lg = ps ! 0"
    using assms(1) ne by (auto simp: log_list_def first_or_null_def hd_conv_nth split: list.splits)
  define d where "d = (if k + 25 < length ps then k + 1 else k)"
  define down where "down = lg\<lparr>cur_selected_entry := ps ! d, cur_selected_index := int d\<rparr>"
  define up where "up = lg\<lparr>cur_selected_entry := ps ! (k - 1), cur_selected_index := int (k - 1)\<rparr>"
  have same: "lg\<lparr>cur_selected_entry := ps ! k, cur_selected_index := int k\<rparr> = lg" using w(3,4) by simp
  have 1: "window down ps d" "window up ps (k - 1)" using w(1,2) by (auto simp: window_def down_def up_def d_def)
  have 2: "log_list down h ps" "log_list up h ps" "counts_printable down" "counts_printable up" using assms(1,2) by (simp_all add: down_def up_def)
  have "scroll_down lg t = (down, tracelog_print_entries down t)"
  proof (cases "k + 25 < length ps")
    case True
    then have "cur_selected_index lg + NUM_PRINT_ENTRIES < current_length lg" "te_next (log_mem lg (ps ! k)) = ps ! d"
      "d = k + 1" using log_list_nth(2) [OF assms(1), of k] w(4) len by (simp_all add: d_def)
    then show ?thesis unfolding scroll_down_def by (simp add: w(3,4) down_def Let_def add.commute)
  next
    case False
    then have "\<not> cur_selected_index lg + NUM_PRINT_ENTRIES < current_length lg" "down = lg"
      using w(4) len same by (simp_all add: down_def d_def)
    then show ?thesis unfolding scroll_down_def by simp
  qed
  moreover have "scroll_up lg t = (up, tracelog_print_entries up t)"
  proof (cases k)
    case 0
    then have "up = lg" using same by (simp add: up_def)
    then show ?thesis using 0 w(3) hd by (simp add: scroll_up_def)
  next
    case (Suc j)
    then show ?thesis using w log_list_nth(3,4) [OF assms(1), of j] by (simp add: scroll_up_def up_def Let_def)
  qed
  ultimately show ?thesis
    using 1 2 listing_window [OF 2(1,3) 1(1), of t] listing_window [OF 2(2,4) 1(2), of t]
    by (intro exI [of _ down] exI [of _ up]) (simp add: Let_def d_def [symmetric], simp add: down_def up_def)
qed

lemma init_log_entry_index [simp]: "cur_selected_index (init_log_entry p emu lg) = cur_selected_index lg"
  by (simp add: init_log_entry_def)

lemma add_entry_selected:
  assumes "add_tracelog_entry emu lg h = (r, lg', h')" and "r \<noteq> word_of_int (- ENOMEM)" and "current_length lg + 1 \<le> TRACELOG_MAX_LENGTH"
  shows "cur_selected_entry lg' = (if log_head lg = 0 then r else cur_selected_entry lg)" "cur_selected_index lg' = cur_selected_index lg"
    "r = fst (kmalloc h TRACELOG_ENTRY_SIZE)"
  using assms by (auto simp: add_tracelog_entry_def Let_def split: prod.splits if_splits)

theorem scroll_shows_window_witness:
  "\<exists>lg h p up. log_list lg h [p] \<and>
     scroll_up lg blank_terminal = (up, Some (print (entry_text (log_mem lg p) @ [CHR 0x0A]) (reset_terminal blank_terminal)))"
proof -
  obtain r lg h where add: "add_tracelog_entry demo_emulator empty_log demo_heap = (r, lg, h)"
    by (cases "add_tracelog_entry demo_emulator empty_log demo_heap")
  then have r: "r \<noteq> word_of_int (- ENOMEM)" using demo_add [of demo_emulator] by (simp add: ENOMEM_def)
  from add_entry_list(2) [OF demo_heap_ok empty_log_list add r] have lst: "log_list lg h [r]" by simp
  have "counts_printable lg"
    by (rule add_entry_counts [OF _ _ add]) (simp_all add: counts_printable_def empty_log_def zero_entry_def demo_emulator_def)
  moreover have "window lg [r] 0"
    using add_entry_selected [OF add r] by (simp add: window_def empty_log_def)
  ultimately obtain up where
    "scroll_up lg blank_terminal = (up, Some (print (entry_text (log_mem lg r) @ [CHR 0x0A]) (reset_terminal blank_terminal)))"
    using scroll_shows_window [OF lst, of 0 blank_terminal] by (auto simp: lines_of_def Let_def)
  then show ?thesis using lst by blast
qed

subsection \<open>The selected entry while the log grows\<close>

text \<open>A block that was the first to be taken is the first to be taken again after its release.\<close>

lemma kmalloc_refills:
  assumes "pool_ok h0" and "kmalloc h0 n = (p, h1)" and "p \<noteq> 0" and "keeps h0 h" and "pool_ok h" and "p \<in> live h"
    and "one_block n" and "one_block k"
  shows "fst (kmalloc (kfree h p) k) = p"
proof -
  have ok: "heap_ok h0" "heap_ok h" using assms(1,5) by (simp_all add: pool_ok_def)
  obtain s where s: "first_fit (entries_of h0) (total_of h0) 1 s" "p = heap_block_to_address h0 s"
    using ok(1) assms(7) by (rule kmalloc_one_block) (use assms(2,3) in auto)
  have fit: "fits (entries_of h0) (total_of h0) 1 s" using s(1) by (simp add: first_fit_def)
  have same: "hp_saddr h = hp_saddr h0" "total_of h = total_of h0" using assms(4) by (simp_all add: keeps_def)
  have p: "p = heap_block_to_address h s" using s(2) same by (simp add: heap_block_to_address_def)
  have "p \<notin> live h0" using fits_not_live [OF ok(1) _ fit] s(2) by simp
  then have keep: "keeps h0 (kfree h p)" using keeps_free [OF assms(4) ok assms(6)] by simp
  have okf: "heap_ok (kfree h p)" using kernel_pages.release_ok [OF assms(5,6)] by (simp add: pool_ok_def)
  have tot: "total_of (kfree h p) = total_of h0" "hp_saddr (kfree h p) = hp_saddr h0" using keep by (simp_all add: keeps_def)
  have range: "0 \<le> s" "s < total_of h" using fit same by (simp_all add: fits_def)
  have low: "\<not> block_free (entries_of (kfree h p)) t" if "0 \<le> t" "t < s" for t
  proof -
    have nf: "\<not> block_free (entries_of h0) t"
    proof
      assume "block_free (entries_of h0) t"
      then have "fits (entries_of h0) (total_of h0) 1 t" using that range same by (auto simp: fits_def run_free_def)
      then show False using s(1) that(2) by (auto simp: first_fit_def)
    qed
    then have "entries_of (kfree h p) t = entries_of h0 t" using keep that range same by (simp add: keeps_def)
    then show ?thesis using nf by (simp add: block_free_def)
  qed
  have free: "block_free (entries_of (kfree h p)) s"
  proof -
    obtain b where b: "0 \<le> b" "b < total_of h" "is_head (entries_of h b)" "p = heap_block_to_address h b"
      using assms(6) by (auto simp: live_def live_blocks_def)
    have "b = s" using block_address_inj [OF ok(2) b(1,2) range] b(4) p by simp
    obtain m where m: "chain (entries_of h) s m" "s + m \<le> total_of h"
      using chain_exists [OF _ range] ok(2) by (auto simp: heap_ok_def)
    then have "0 < m" by (simp add: chain_def)
    then have "entries_of (kfree h p) s = 0" using heap_free_chain [OF ok(2) range m, of s] by (simp add: kfree_def p)
    then show ?thesis by (simp add: block_free_def heap_get_entry_type_def)
  qed
  have "run_free (entries_of (kfree h p)) s 1" unfolding run_free_def
  proof (intro allI impI)
    fix k assume "s \<le> k \<and> k < s + 1"
    then have "k = s" by simp
    then show "block_free (entries_of (kfree h p)) k" using free by simp
  qed
  then have "fits (entries_of (kfree h p)) (total_of (kfree h p)) 1 s" using range tot same by (simp add: fits_def)
  moreover have "s \<le> t" if t: "fits (entries_of (kfree h p)) (total_of (kfree h p)) 1 t" for t
  proof (rule ccontr)
    assume "\<not> s \<le> t"
    moreover have "0 \<le> t" "block_free (entries_of (kfree h p)) t" using t by (simp_all add: fits_def run_free_def)
    ultimately show False using low [of t] by simp
  qed
  ultimately have ff: "first_fit (entries_of (kfree h p)) (total_of (kfree h p)) 1 s" by (simp add: first_fit_def)
  show ?thesis using okf assms(8)
  proof (rule kmalloc_one_block)
    fix t assume t: "first_fit (entries_of (kfree h p)) (total_of (kfree h p)) 1 t"
      "kmalloc (kfree h p) k = (heap_block_to_address (kfree h p) t, heap_mark_blocks_taken (kfree h p) t 1)"
    have "t = s" by (rule first_fit_unique [OF t(1) ff])
    then have "fst (kmalloc (kfree h p) k) = heap_block_to_address h0 s" using t(2) tot by (simp add: heap_block_to_address_def)
    then show ?thesis by (simp only: s(2) [symmetric])
  qed (use ff in \<open>auto simp: first_fit_def\<close>)
qed

text \<open>When the selected entry is the last one, its line is printed 25 times.\<close>

lemma print_entries_tail:
  assumes "p = log_tail lg" and "24 \<le> current_length lg" and "te_total_CPU_cycles (log_mem lg p) < 10 ^ 8"
  shows "i \<le> 25 \<Longrightarrow> print_entries_loop lg (int i) p t =
    Some (fold print (replicate (25 - i) (entry_text (log_mem lg p) @ [CHR 0x0A])) t)"
proof (induction "25 - i" arbitrary: i t)
  case 0
  then have "\<not> (int i \<le> NUM_PRINT_ENTRIES \<and> int i \<le> current_length lg)" by simp
  then show ?case using 0 by (subst print_entries_loop.simps) simp
next
  case (Suc d)
  have c: "int i \<le> NUM_PRINT_ENTRIES" "int i \<le> current_length lg" "25 - i = Suc (25 - Suc i)" using Suc.hyps(2) assms(2) by simp_all
  have rest: "print_entries_loop lg (int i + 1) p t' =
      Some (fold print (replicate (25 - Suc i) (entry_text (log_mem lg p) @ [CHR 0x0A])) t')" for t'
    using Suc.hyps(1) [of "Suc i" t'] Suc.hyps(2) by (simp add: add.commute)
  show ?case
    using c(1,2) rest print_tracelog_entry_text [OF assms(3), of t] assms(1)
    by (subst print_entries_loop.simps) (simp add: c(3))
qed

text \<open>One instruction on a log that is not full, and on a full one.\<close>

abbreviation cpu_step :: "eval_order \<Rightarrow> machine \<Rightarrow> machine" where
  "cpu_step ord s \<equiv> state_of (emulate_CPU ord) s"

lemma step_log:
  assumes "log_room n s ps" and "257 \<le> n" and "add_tracelog_entry (m_emu s) (m_log s) (m_heap s) = (r, lg', h')"
  shows "r \<noteq> word_of_int (- ENOMEM)" "log_room n (cpu_step ord s) (drop (length ps - 256) ps @ [r])"
    "cur_selected_entry (m_log (cpu_step ord s)) = cur_selected_entry lg'" "cur_selected_index (m_log (cpu_step ord s)) = cur_selected_index lg'"
    "others_keep (m_heap s) ps g \<Longrightarrow> others_keep (m_heap (cpu_step ord s)) (drop (length ps - 256) ps @ [r]) g"
proof -
  note l = assms(1) [unfolded log_room_def]
  have lg: "m_log (logged s) = lg'" "m_heap (logged s) = h'" using logged_log [OF assms(3)] by simp_all
  show r: "r \<noteq> word_of_int (- ENOMEM)" using add_entry_heap(1) [OF _ _ _ assms(2,3)] l by blast
  have ok: "heap_ok (m_heap s)" using l by (simp add: pool_ok_def)
  have lst: "log_list lg' h' (drop (length ps - 256) ps @ [r])" using add_entry_list(2) [OF ok _ assms(3) r] l by blast
  obtain q where q: "log_room n (cpu_step ord s) (drop (length ps - 256) ps @ [q])"
    "\<forall>g. others_keep (m_heap s) ps g \<longrightarrow> others_keep (m_heap (cpu_step ord s)) (drop (length ps - 256) ps @ [q]) g"
    using log_room_step [OF assms(1,2), of ord] by blast
  have links: "log_links (cpu_step ord s) = log_links (logged s)" by (rule emulate_CPU_log(1))
  then have "log_tail (m_log (cpu_step ord s)) = log_tail lg'" by (simp add: log_links_def lg)
  then have "q = r" using q(1) lst by (simp add: log_room_def log_list_def last_or_null_def split: list.splits)
  then show "log_room n (cpu_step ord s) (drop (length ps - 256) ps @ [r])"
    "others_keep (m_heap s) ps g \<Longrightarrow> others_keep (m_heap (cpu_step ord s)) (drop (length ps - 256) ps @ [r]) g"
    using q by blast+
  show "cur_selected_entry (m_log (cpu_step ord s)) = cur_selected_entry lg'" "cur_selected_index (m_log (cpu_step ord s)) = cur_selected_index lg'"
    using links by (simp_all add: log_links_def lg)
qed

lemma step_growing:
  assumes "log_room n s ps" and "257 \<le> n" and "length ps \<le> 256"
  defines "r \<equiv> fst (kmalloc (m_heap s) TRACELOG_ENTRY_SIZE)"
  shows "log_room n (cpu_step ord s) (ps @ [r])"
    "cur_selected_entry (m_log (cpu_step ord s)) = (if ps = [] then r else cur_selected_entry (m_log s))"
    "cur_selected_index (m_log (cpu_step ord s)) = cur_selected_index (m_log s)"
    "others_keep (m_heap s) ps g \<Longrightarrow> others_keep (m_heap (cpu_step ord s)) (ps @ [r]) g"
proof -
  obtain e lg' h' where add: "add_tracelog_entry (m_emu s) (m_log s) (m_heap s) = (e, lg', h')"
    by (cases "add_tracelog_entry (m_emu s) (m_log s) (m_heap s)")
  note st = step_log [OF assms(1,2) add]
  have l: "log_list (m_log s) (m_heap s) ps" using assms(1) by (simp add: log_room_def)
  have "current_length (m_log s) + 1 \<le> TRACELOG_MAX_LENGTH" using l assms(3) by (auto simp: log_list_def)
  note sel = add_entry_selected [OF add st(1) this]
  have head: "log_head (m_log s) = 0 \<longleftrightarrow> ps = []" using l by (auto simp: log_list_def first_or_null_def split: list.splits)
  have "e = r" using sel(3) by (simp add: r_def)
  then show "log_room n (cpu_step ord s) (ps @ [r])"
    "cur_selected_entry (m_log (cpu_step ord s)) = (if ps = [] then r else cur_selected_entry (m_log s))"
    "cur_selected_index (m_log (cpu_step ord s)) = cur_selected_index (m_log s)"
    "others_keep (m_heap s) ps g \<Longrightarrow> others_keep (m_heap (cpu_step ord s)) (ps @ [r]) g"
    using st(2-5) [where ord = ord] sel(1,2) assms(3) head by simp_all
qed

lemma step_full:
  assumes "log_room n s (p # ps)" and "257 \<le> n" and "length ps = 256"
  defines "r \<equiv> fst (kmalloc (kfree (m_heap s) p) TRACELOG_ENTRY_SIZE)"
  shows "log_room n (cpu_step ord s) (ps @ [r])" "cur_selected_entry (m_log (cpu_step ord s)) = cur_selected_entry (m_log s)"
proof -
  obtain e lg' h' where add: "add_tracelog_entry (m_emu s) (m_log s) (m_heap s) = (e, lg', h')"
    by (cases "add_tracelog_entry (m_emu s) (m_log s) (m_heap s)")
  note st = step_log [OF assms(1,2) add]
  obtain q qs where ps: "ps = q # qs" using assms(3) by (cases ps) auto
  have l: "log_list (m_log s) (m_heap s) (p # q # qs)" and ok: "heap_ok (m_heap s)"
    using assms(1) by (simp_all add: log_room_def ps pool_ok_def)
  obtain lg1 h1 where rem: "remove_first_entry (m_log s) (m_heap s) = (lg1, h1)" "log_list lg1 h1 (q # qs)"
    "cur_selected_entry lg1 = cur_selected_entry (m_log s)"
    using remove_first_entry_list [OF ok l] by metis
  have p: "log_head (m_log s) = p" "p \<noteq> 0" using l by (auto simp: log_list_def first_or_null_def)
  then have h1: "h1 = kfree (m_heap s) p" using rem(1) by (auto simp: remove_first_entry_def Let_def)
  have len: "current_length (m_log s) + 1 > TRACELOG_MAX_LENGTH" "current_length lg1 + 1 \<le> TRACELOG_MAX_LENGTH"
    using l rem(2) assms(3) by (simp_all add: log_list_def ps)
  have "add_tracelog_entry (m_emu s) lg1 h1 = (e, lg', h')" using add_full_entry [OF len(1) rem(1) len(2)] add by simp
  note sel = add_entry_selected [OF this st(1) len(2)]
  have "log_head lg1 \<noteq> 0" using rem(2) by (auto simp: log_list_def first_or_null_def)
  then show "cur_selected_entry (m_log (cpu_step ord s)) = cur_selected_entry (m_log s)" using st(3) [where ord = ord] sel(1) rem(3) by simp
  have "e = r" using sel(3) by (simp add: r_def h1)
  then show "log_room n (cpu_step ord s) (ps @ [r])" using st(2) [where ord = ord] assms(3) by simp
qed

text \<open>Up to 257 instructions the first entry is the selected one.\<close>

lemma steps_growing:
  assumes "pool_ok (m_heap s)" and "m_log s = empty_log" and "257 \<le> avail (m_heap s)" and "0 < k" and "k \<le> 257"
  defines "p \<equiv> fst (kmalloc (m_heap s) TRACELOG_ENTRY_SIZE)"
  shows "\<exists>ps. log_room (avail (m_heap s)) ((cpu_step ord ^^ k) s) (p # ps) \<and> Suc (length ps) = k \<and>
    cur_selected_entry (m_log ((cpu_step ord ^^ k) s)) = p \<and> cur_selected_index (m_log ((cpu_step ord ^^ k) s)) = 0 \<and>
    others_keep (m_heap ((cpu_step ord ^^ k) s)) (p # ps) (m_heap s)"
  using assms(4,5)
proof (induction k)
  case (Suc k)
  show ?case
  proof (cases "k = 0")
    case True
    have "log_room (avail (m_heap s)) s []" "others_keep (m_heap s) [] (m_heap s)"
      using assms(1,2) empty_log_list by (simp_all add: log_room_def spare_def others_keep_def keeps_refl)
    with step_growing [OF this(1) assms(3), where ord = ord] True show ?thesis
      by (simp add: p_def assms(2) empty_log_def)
  next
    case False
    with Suc obtain ps where ps: "log_room (avail (m_heap s)) ((cpu_step ord ^^ k) s) (p # ps)" "Suc (length ps) = k"
      "cur_selected_entry (m_log ((cpu_step ord ^^ k) s)) = p" "cur_selected_index (m_log ((cpu_step ord ^^ k) s)) = 0"
      "others_keep (m_heap ((cpu_step ord ^^ k) s)) (p # ps) (m_heap s)" by auto
    have "length (p # ps) \<le> 256" using ps(2) Suc.prems(2) by simp
    from step_growing [OF ps(1) assms(3) this, where ord = ord] ps(2-5) show ?thesis by force
  qed
qed simp

text \<open>
  Claim C18.  A run of more than 257 instructions loses the start of its listing.  From an empty log and 257 free
  blocks, after each of the first 257 instructions the log has all entries and the first one is selected.  The next
  instruction releases the first entry, but it stays selected, and its block is the one that the new entry gets:
  the listing after 258 instructions is the line of the last one, 25 times, and the other 256 are not shown.
\<close>

theorem full_log_loses_selection:
  assumes "pool_ok (m_heap s)" and "m_log s = empty_log" and "257 \<le> avail (m_heap s)"
  shows "(\<forall>k. 0 < k \<and> k \<le> 257 \<longrightarrow> (\<exists>ps. let t = (cpu_step ord ^^ k) s in
      log_list (m_log t) (m_heap t) ps \<and> length ps = k \<and> window (m_log t) ps 0)) \<and>
    (\<exists>ps r. let t = (cpu_step ord ^^ 258) s in
      log_list (m_log t) (m_heap t) (ps @ [r]) \<and> length ps = 256 \<and> cur_selected_entry (m_log t) = r \<and>
      (counts_printable (m_log t) \<longrightarrow> tracelog_print_entries (m_log t) c =
         Some (fold print (replicate 25 (entry_text (log_mem (m_log t) r) @ [CHR 0x0A])) (reset_terminal c))))"
proof -
  have early: "\<exists>ps. let t = (cpu_step ord ^^ k) s in log_list (m_log t) (m_heap t) ps \<and> length ps = k \<and> window (m_log t) ps 0"
    if "0 < k" "k \<le> 257" for k
  proof -
    note k = that
    obtain p ps where "log_room (avail (m_heap s)) ((cpu_step ord ^^ k) s) (p # ps)" "Suc (length ps) = k"
      "cur_selected_entry (m_log ((cpu_step ord ^^ k) s)) = p" "cur_selected_index (m_log ((cpu_step ord ^^ k) s)) = 0"
      using steps_growing [OF assms k] by blast
    then show ?thesis by (intro exI [of _ "p # ps"]) (simp add: log_room_def window_def Let_def)
  qed
  let ?t = "(cpu_step ord ^^ 257) s" and ?u = "(cpu_step ord ^^ 258) s" and ?p = "fst (kmalloc (m_heap s) TRACELOG_ENTRY_SIZE)"
  obtain ps where ps: "log_room (avail (m_heap s)) ?t (?p # ps)" "length ps = 256"
    "cur_selected_entry (m_log ?t) = ?p" "others_keep (m_heap ?t) (?p # ps) (m_heap s)"
    using steps_growing [OF assms, of 257 ord] by auto
  have "(258 :: nat) = Suc 257" by simp
  then have u: "?u = cpu_step ord ?t" by (simp only: funpow.simps o_apply)
  note full = step_full [OF ps(1) assms(3) ps(2), of ord, folded u]
  have live: "?p \<in> live (m_heap ?t)" "?p \<noteq> 0" and ok: "pool_ok (m_heap ?t)" using ps(1) by (auto simp: log_room_def log_list_def)
  have "kmalloc (m_heap s) TRACELOG_ENTRY_SIZE = (?p, snd (kmalloc (m_heap s) TRACELOG_ENTRY_SIZE))" by simp
  moreover have "keeps (m_heap s) (m_heap ?t)" using ps(4) by (simp add: others_keep_def)
  ultimately have r: "fst (kmalloc (kfree (m_heap ?t) ?p) TRACELOG_ENTRY_SIZE) = ?p"
    by (rule kmalloc_refills [OF assms(1) _ live(2) _ ok live(1) entry_size_one_block entry_size_one_block])
  have lst: "log_list (m_log ?u) (m_heap ?u) (ps @ [?p])" using full(1) by (simp add: log_room_def r)
  have sel: "cur_selected_entry (m_log ?u) = ?p" using full(2) ps(3) by simp
  have "tracelog_print_entries (m_log ?u) c =
      Some (fold print (replicate 25 (entry_text (log_mem (m_log ?u) ?p) @ [CHR 0x0A])) (reset_terminal c))"
    if "counts_printable (m_log ?u)"
  proof -
    have "?p = log_tail (m_log ?u)" "24 \<le> current_length (m_log ?u)" "te_total_CPU_cycles (log_mem (m_log ?u) ?p) < 10 ^ 8"
      using lst ps(2) that by (simp_all add: log_list_def last_or_null_def counts_printable_def split: list.splits)
    from print_entries_tail [OF this, of 0] show ?thesis by (simp add: tracelog_print_entries_def sel)
  qed
  then show ?thesis using early lst ps(2) sel by (simp only: Let_def) blast
qed

theorem full_log_loses_selection_witness:
  "\<exists>ps r. let t = (cpu_step Left_first ^^ 258) ((machine_with [])\<lparr>m_heap := snd (kheap_init demo_heap)\<rparr>) in
     log_list (m_log t) (m_heap t) (ps @ [r]) \<and> length ps = 256 \<and> cur_selected_entry (m_log t) = r"
proof -
  let ?s = "(machine_with [])\<lparr>m_heap := snd (kheap_init demo_heap)\<rparr>"
  have "pool_ok (m_heap ?s)" "m_log ?s = empty_log" "257 \<le> avail (m_heap ?s)"
    by (simp_all add: kheap_init_pool kheap_init_avail machine_with_def)
  from full_log_loses_selection [OF this, of Left_first blank_terminal] show ?thesis by (simp only: Let_def) blast
qed

end
