(* ===== verification/KeyPresses.thy ===== *)
theory KeyPresses
  imports LogView
begin

text \<open>
  Keys that are pressed while the emulator runs.  Between two instructions an interrupt may scroll the listing,
  which changes the console and the selection of the log; no instruction looks at these.  A program that does
  not look at them is \<open>blind\<close>; every case of the switch is.
\<close>

subsection \<open>Blind programs\<close>

definition unwatched :: "machine \<Rightarrow> machine" where
  "unwatched s = s\<lparr>m_term := blank_terminal, m_log := (m_log s)\<lparr>cur_selected_entry := 0, cur_selected_index := 0\<rparr>\<rparr>"

definition blind :: "'a prog \<Rightarrow> bool" where
  "blind p \<longleftrightarrow> (\<forall>s. result_of p (unwatched s) = result_of p s \<and> state_of p (unwatched s) = unwatched (state_of p s))"

named_theorems blind_intros \<open>programs that do not look at the console and the selection\<close>

lemma blind_bind [blind_intros]: "blind p \<Longrightarrow> (\<And>x. blind (f x)) \<Longrightarrow> blind (State_Monad.bind p f)"
  by (simp add: blind_def run_simps)

lemma blind_return [blind_intros]: "blind (State_Monad.return x)"
  by (simp add: blind_def run_simps)

lemma blind_if [blind_intros]: "blind p \<Longrightarrow> blind q \<Longrightarrow> blind (if c then p else q)"
  by simp

lemma blind_when [blind_intros]: "blind p \<Longrightarrow> blind (do_when c p)"
  by (simp add: do_when_def blind_return)

lemma blind_modifies: "(\<And>s. f (unwatched s) = unwatched (f s)) \<Longrightarrow> blind (modifies f)"
  by (simp add: blind_def run_simps)

lemma blind_reads: "(\<And>s. f (unwatched s) = f s) \<Longrightarrow> blind (reads f)"
  by (simp add: blind_def run_simps)

lemma unwatched_frame [simp]:
  "regs (unwatched s) = regs s" "bus_byte (unwatched s) a = bus_byte s a" "m_emu (unwatched s) = m_emu s"
  "CPU_halted (unwatched s) = CPU_halted s" "cycles_of (unwatched s) = cycles_of s" "m_heap (unwatched s) = m_heap s"
  by (simp_all add: unwatched_def regs_def bus_byte_def cycles_of_def)

lemma upd_log_unwatched:
  assumes "\<And>lg. f (lg\<lparr>cur_selected_entry := 0, cur_selected_index := 0\<rparr>) = (f lg)\<lparr>cur_selected_entry := 0, cur_selected_index := 0\<rparr>"
  shows "upd_log f (unwatched s) = unwatched (upd_log f s)"
  by (simp add: upd_log_def unwatched_def assms)

lemma blind_hooks [blind_intros]:
  "blind (modifies (upd_log (tail_log_set_operand v)))" "blind (modifies (upd_log (tail_log_set_address a)))"
  "blind (modifies (upd_log (tail_log_set_indexed_address a)))" "blind (modifies (upd_log (tail_log_set_written_value v)))"
  "blind (modifies (upd_log (tail_log_set_read_value v)))"
  by (rule blind_modifies, rule upd_log_unwatched,
      simp add: tail_log_set_operand_def tail_log_set_address_def tail_log_set_indexed_address_def
        tail_log_set_written_value_def tail_log_set_read_value_def upd_entry_def Let_def)+

lemma blind_steps [blind_intros]:
  "blind (modifies (upd_regs g))" "blind (modifies (add_cycles n))" "blind (modifies (\<lambda>s. s\<lparr>CPU_halted := b\<rparr>))"
  "blind (modifies (\<lambda>s. s\<lparr>m_emu := (m_emu s)\<lparr>e_RAM := (e_RAM (m_emu s))[i := v]\<rparr>\<rparr>))"
  "blind (reads (\<lambda>s. q (regs s)))" "blind (reads (\<lambda>s. bus_byte s a))"
  by (rule blind_modifies blind_reads, simp add: unwatched_def upd_regs_def regs_def add_cycles_def cycles_of_def bus_byte_def)+

subsection \<open>The instructions are blind\<close>

lemma blind_accessors [blind_intros]:
  "blind reg_A" "blind reg_X" "blind reg_Y" "blind reg_status" "blind stack_pointer" "blind program_counter"
  "blind (set_A_register v)" "blind (set_X_register v)" "blind (set_Y_register v)" "blind (set_SP v)" "blind (set_status_register v)"
  "blind (bit_OR_A v)" "blind (bit_XOR_A v)" "blind (bit_AND_A v)" "blind increment_PC" "blind (set_PC a)" "blind (set_status_flag f c)"
  unfolding accessor_defs by (intro blind_intros)+

lemma blind_memory [blind_intros]:
  "blind (emu_read a)" "blind (emu_write a v)" "blind (push_stack v)" "blind pull_stack" "blind read_increment_PC" "blind read_PC"
  unfolding emu_read_def emu_write_def push_stack_def pull_stack_def read_increment_PC_def read_PC_def
  by (intro blind_intros)+

lemma blind_modes [blind_intros]:
  "blind (get_ZP_indexed_address r)" "blind get_absolute_addr" "blind get_absolute_addr_X_indexed"
  "blind get_absolute_addr_Y_indexed" "blind get_indirect_address_Y_indexed" "blind get_indirect_address_X_indexed"
  unfolding get_ZP_indexed_address_def get_absolute_addr_def get_absolute_addr_X_indexed_def
    get_absolute_addr_Y_indexed_def get_indirect_address_Y_indexed_def get_indirect_address_X_indexed_def Let_def
  by (intro blind_intros)+

lemma blind_both_XOR_A [blind_intros]: "blind (both_XOR_A ord u v)"
  by (cases ord; simp only: both_XOR_A_def eval_order.case; intro blind_intros)

lemma blind_ops [blind_intros]:
  "blind (ASL_op v a)" "blind (LSR_op v a)" "blind (ROL_op v a)" "blind (ROR_op v a)" "blind (ADC_op ord v)"
  "blind (SBC_op ord v)" "blind (INC_op v a)" "blind (DEC_op v a)" "blind (CMP_op v w)" "blind (BIT_op v)" "blind (take_branch w)"
  unfolding ASL_op_def LSR_op_def ROL_op_def ROR_op_def ADC_op_def SBC_op_def INC_op_def DEC_op_def CMP_op_def
    BIT_op_def take_branch_def Let_def split_beta
  by (intro blind_intros)+

lemma blind_handlers: "list_all (\<lambda>(opcode, handler). blind handler) (cpu_switch ord)"
  unfolding cpu_switch_def handler_defs Let_def
  by (simp only: list.pred_inject prod.case) (intro conjI blind_intros TrueI)

lemma blind_dispatch: "blind (dispatch ord opcode)"
proof (cases "map_of (cpu_switch ord) opcode")
  case None
  then show ?thesis by (simp add: dispatch_def blind_return)
next
  case (Some handler)
  then have "(opcode, handler) \<in> set (cpu_switch ord)" by (rule map_of_SomeD)
  then show ?thesis using blind_handlers [of ord] Some by (auto simp: dispatch_def list_all_iff)
qed

text \<open>The new entry of the log is made without them, too, but the first one is selected.\<close>

abbreviation unselect :: "logger \<Rightarrow> logger" where
  "unselect lg \<equiv> lg\<lparr>cur_selected_entry := 0, cur_selected_index := 0\<rparr>"

lemma unselect_entry: "upd_entry p f (unselect lg) = unselect (upd_entry p f lg)"
  by (simp add: upd_entry_def)

lemma remove_first_unselect: "remove_first_entry (unselect lg) h = apfst unselect (remove_first_entry lg h)"
  by (simp add: remove_first_entry_def Let_def upd_entry_def)

text \<open>The second half of \<open>add_tracelog_entry\<close>, after a full log has dropped its first entry.\<close>

definition append_entry :: "emulator \<Rightarrow> logger \<Rightarrow> heap \<Rightarrow> u32 \<times> logger \<times> heap" where
  "append_entry emu lg h =
     (let (entry, h) = kmalloc h TRACELOG_ENTRY_SIZE
      in if entry = 0 then (word_of_int (- ENOMEM), lg, kfree h entry)
         else
           let lg = upd_entry entry (\<lambda>_. zero_entry) lg
           in if log_head lg = 0
              then (entry, init_log_entry entry emu (lg\<lparr>log_head := entry, cur_selected_entry := entry, log_tail := entry\<rparr>), h)
              else
                let lg = upd_entry (log_tail lg) (\<lambda>e. e\<lparr>te_next := entry\<rparr>) lg;
                    lg = upd_entry entry (\<lambda>e. e\<lparr>te_prev := log_tail lg\<rparr>) lg;
                    lg = init_log_entry entry emu (lg\<lparr>log_tail := entry\<rparr>)
                in (entry, lg\<lparr>current_length := current_length lg + 1\<rparr>, h))"

lemma add_tracelog_entry_append:
  "add_tracelog_entry emu lg h =
     (let (lg, h) = (if current_length lg + 1 > TRACELOG_MAX_LENGTH then remove_first_entry lg h else (lg, h))
      in append_entry emu lg h)"
  by (simp only: add_tracelog_entry_def append_entry_def Let_def)

lemma append_entry_unselect:
  "fst (append_entry emu (unselect lg) h) = fst (append_entry emu lg h)"
  "snd (snd (append_entry emu (unselect lg) h)) = snd (snd (append_entry emu lg h))"
  "unselect (fst (snd (append_entry emu (unselect lg) h))) = unselect (fst (snd (append_entry emu lg h)))"
  by (cases "kmalloc h TRACELOG_ENTRY_SIZE"; simp add: append_entry_def Let_def upd_entry_def init_log_entry_def)+

lemma add_entry_unselect:
  "fst (add_tracelog_entry emu (unselect lg) h) = fst (add_tracelog_entry emu lg h)"
  "snd (snd (add_tracelog_entry emu (unselect lg) h)) = snd (snd (add_tracelog_entry emu lg h))"
  "unselect (fst (snd (add_tracelog_entry emu (unselect lg) h))) = unselect (fst (snd (add_tracelog_entry emu lg h)))"
  by (cases "remove_first_entry lg h"; simp add: add_tracelog_entry_append remove_first_unselect append_entry_unselect)+

lemma logged_unwatched: "unwatched (logged (unwatched s)) = unwatched (logged s)"
  using add_entry_unselect [of "m_emu s" "m_log s" "m_heap s"]
  by (simp add: logged_def reset_tracker_def log_state_def run_simps unwatched_def split_beta)

lemma unwatched_twice [simp]: "unwatched (unwatched s) = unwatched s"
  by (simp add: unwatched_def)

lemma emulate_CPU_unwatched: "unwatched (state_of (emulate_CPU ord) (unwatched s)) = unwatched (state_of (emulate_CPU ord) s)"
proof -
  let ?rest = "do {
     opcode \<leftarrow> read_increment_PC;
     set_cur_opcode opcode;
     dispatch ord opcode;
     modifies (add_cycles (uint (oe_cycles (opcode_row opcode)))) }"
  have "blind (set_cur_opcode v)" for v
    unfolding set_cur_opcode_def by (rule blind_modifies) (simp add: unwatched_def)
  then have "blind ?rest" by (intro blind_intros blind_dispatch)
  then have rest: "unwatched (state_of ?rest t) = state_of ?rest (unwatched t)" for t by (simp add: blind_def)
  have step: "state_of (emulate_CPU ord) t = state_of ?rest (logged t)" for t
    by (simp add: emulate_CPU_def logged_def run_simps)
  show ?thesis by (simp only: step rest logged_unwatched)
qed

lemma step_unwatched: "unwatched s = unwatched t \<Longrightarrow> unwatched (state_of (emulate_CPU ord) s) = unwatched (state_of (emulate_CPU ord) t)"
  by (metis emulate_CPU_unwatched)

subsection \<open>Runs with interrupts\<close>

text \<open>Instructions of a run and keys in any order; a key is handled between two instructions.\<close>

inductive session :: "eval_order \<Rightarrow> kernel \<Rightarrow> kernel \<Rightarrow> bool" for ord k where
  begins: "session ord k k"
| instruction: "session ord k k1 \<Longrightarrow> cpu_turn ord (k_machine k1) m \<Longrightarrow> session ord k (k1\<lparr>k_machine := m\<rparr>)"
| key: "session ord k k1 \<Longrightarrow> int21h_handler c k1 = Some k2 \<Longrightarrow> session ord k k2"

lemma scroll_unwatched:
  "scroll_up lg t = (lg', x) \<Longrightarrow> unselect lg' = unselect lg"
  "scroll_down lg t = (lg', x) \<Longrightarrow> unselect lg' = unselect lg"
  by (auto simp: scroll_up_def scroll_down_def Let_def split: if_splits)

lemma key_unwatched:
  assumes "rom_selected k" and "int21h_handler c k = Some k'"
  shows "unwatched (k_machine k') = unwatched (k_machine k)"
proof -
  obtain k1 where k1: "handle_scancode c k = Some k1" "k' = port_out 0x20 0x20 k1" using assms(2) by (auto simp: int21h_handler_def)
  have "unwatched (k_machine k1) = unwatched (k_machine k)"
    using k1(1) assms(1)
    by (auto simp: handle_scancode_def scroll_def unwatched_def Let_def dest: scroll_unwatched split: if_splits prod.splits option.splits)
  then show ?thesis by (simp add: k1(2))
qed

lemma session_run:
  assumes "session ord k k'" and "rom_selected k"
  shows "rom_selected k' \<and> (\<exists>t. cpu_reaches ord (k_machine k) t \<and> unwatched (k_machine k') = unwatched t)"
  using assms
proof (induction rule: session.induct)
  case begins
  then show ?case using cpu_reaches.start by blast
next
  case (instruction k1 m)
  then obtain t where t: "rom_selected k1" "cpu_reaches ord (k_machine k) t" "unwatched (k_machine k1) = unwatched t" by blast
  from instruction.hyps(2) have m: "m = state_of (emulate_CPU ord) (k_machine k1)" "\<not> CPU_halted (k_machine k1)" "cycles_of (k_machine k1) < 1000"
    by (auto elim: cpu_turnE)
  have "CPU_halted t = CPU_halted (k_machine k1)" "cycles_of t = cycles_of (k_machine k1)"
    using t(3) unwatched_frame(4,5) by metis+
  then have "cpu_turn ord t (state_of (emulate_CPU ord) t)" using m(2,3) by (intro cpu_turn.turn) simp_all
  then have "cpu_reaches ord (k_machine k) (state_of (emulate_CPU ord) t)" by (rule cpu_reaches.more [OF t(2)])
  moreover have "unwatched m = unwatched (state_of (emulate_CPU ord) t)" unfolding m(1) by (rule step_unwatched [OF t(3)])
  ultimately show ?case using t(1) by auto
next
  case (key k1 c k2)
  then show ?case using key_unwatched [of k1 c k2] int21h_selected [of k1 c k2] by auto
qed

text \<open>
  Claim C21.  Keys do not disturb a run.  When a ROM is selected, every sequence of instructions and key presses comes
  to the state of a run without keys: processor, memory, halt flag and heap are the same, and the log is, but for
  the entry that is selected; when the run is over, it is the state in which the run without keys ends.
\<close>

theorem keys_leave_run:
  assumes "session ord k k'" and "rom_selected k"
  shows "\<exists>t. cpu_reaches ord (k_machine k) t \<and> m_emu (k_machine k') = m_emu t \<and> CPU_halted (k_machine k') = CPU_halted t \<and>
    m_heap (k_machine k') = m_heap t \<and>
    (m_log (k_machine k'))\<lparr>cur_selected_entry := 0, cur_selected_index := 0\<rparr> = (m_log t)\<lparr>cur_selected_entry := 0, cur_selected_index := 0\<rparr> \<and>
    (CPU_halted (k_machine k') \<or> 1000 \<le> cycles_of (k_machine k') \<longrightarrow> t = emu_run_loop ord (k_machine k))"
proof -
  obtain t where t: "cpu_reaches ord (k_machine k) t" "unwatched (k_machine k') = unwatched t"
    using session_run [OF assms] by blast
  have same: "m_emu (k_machine k') = m_emu t" "CPU_halted (k_machine k') = CPU_halted t" "m_heap (k_machine k') = m_heap t"
    "cycles_of (k_machine k') = cycles_of t"
    using t(2) unwatched_frame(3-6) by metis+
  moreover have "unselect (m_log (k_machine k')) = unselect (m_log t)" using arg_cong [OF t(2), of m_log] by (simp add: unwatched_def)
  moreover have "t = emu_run_loop ord (k_machine k)" if "CPU_halted (k_machine k') \<or> 1000 \<le> cycles_of (k_machine k')"
    using run_over_final [OF t(1)] that same by (simp add: run_over_def)
  ultimately show ?thesis using t(1) by blast
qed

theorem keys_leave_run_witness:
  "\<exists>k'. session Left_first (Menu.demo_kernel\<lparr>rom_selected := True\<rparr>) k' \<and> k_ports k' = [(0x20, 0x20)] \<and>
     (\<exists>t. cpu_reaches Left_first (machine_with []) t \<and> m_emu (k_machine k') = m_emu t)"
proof -
  let ?k = "Menu.demo_kernel\<lparr>rom_selected := True\<rparr>"
  have m: "k_machine ?k = machine_with []" by (simp add: Menu.demo_kernel_def)
  have "counts_printable (fst (scroll_down (m_log (machine_with [])) (m_term (machine_with []))))"
    by (simp add: scroll_down_def counts_printable_def machine_with_def empty_log_def zero_entry_def Let_def)
  then have "snd (scroll_down (m_log (machine_with [])) (m_term (machine_with []))) \<noteq> None"
    by (simp add: scroll_down_def Let_def tracelog_print_entries_def print_entries_total split: if_splits)
  then obtain lg t where "scroll_down (m_log (machine_with [])) (m_term (machine_with [])) = (lg, Some t)"
    by (metis not_None_eq prod.collapse)
  then obtain k1 where k1: "int21h_handler 0x1F ?k = Some k1" "k_ports k1 = [(0x20, 0x20)]"
    using m by (simp add: int21h_handler_def handle_scancode_def scroll_def port_out_def Menu.demo_kernel_def)
  have "session Left_first ?k k1" by (rule session.key [OF session.begins k1(1)])
  moreover have "unwatched (k_machine k1) = unwatched (machine_with [])" using key_unwatched [OF _ k1(1)] m by simp
  then have "CPU_halted (k_machine k1) = CPU_halted (machine_with [])" "cycles_of (k_machine k1) = cycles_of (machine_with [])"
    using unwatched_frame(4,5) by metis+
  then have "cpu_turn Left_first (k_machine k1) (state_of (emulate_CPU Left_first) (k_machine k1))"
    by (intro cpu_turn.turn) (simp_all add: machine_with_def cycles_of_def demo_emulator_def)
  ultimately have run: "session Left_first ?k (k1\<lparr>k_machine := state_of (emulate_CPU Left_first) (k_machine k1)\<rparr>)"
    by (rule session.instruction)
  from keys_leave_run [OF run] show ?thesis using run k1(2) m by (intro exI [of _ "k1\<lparr>k_machine := state_of (emulate_CPU Left_first) (k_machine k1)\<rparr>"]) auto
qed

end
