(* ===== verification/Tracker.thy ===== *)
theory Tracker
  imports CpuProps
begin

text \<open>
  The debug build of the emulator (\<open>DEBUG\<close> set): the register accessors and the bus of
  \<open>src/emulator/CPU/emulator_debug.h\<close> and \<open>emulator.c\<close> that record what an instruction touches, and the comparison
  of the record with the opcode table in \<open>emulator_debug.c\<close>.  The release build is in \<open>Cpu\<close>; here the two are
  shown to compute the same.
\<close>

subsection \<open>The record\<close>

definition track :: "(mem_reg_access \<Rightarrow> mem_reg_access) \<Rightarrow> unit prog" where
  "track f = modifies (\<lambda>s. s\<lparr>debug_tracker := f (debug_tracker s)\<rparr>)"

definition reads_reg :: "u8 \<Rightarrow> unit prog" where
  "reads_reg r = track (\<lambda>t. t\<lparr>reg_read_bitflag := reg_read_bitflag t OR r\<rparr>)"

definition writes_reg :: "u8 \<Rightarrow> unit prog" where
  "writes_reg r = track (\<lambda>t. t\<lparr>reg_write_bitflag := reg_write_bitflag t OR r\<rparr>)"

subsection \<open>Register accessors\<close>

text \<open>Behind the record, each accessor does what the one of the release build does.\<close>

(* src/src/emulator/CPU/emulator_debug.h 27-31 set_A_register *)
definition debug_set_A_register :: "u8 \<Rightarrow> u8 prog" where
  "debug_set_A_register v = do { writes_reg REG_A; modifies (upd_regs (\<lambda>r. r\<lparr>r_A := v\<rparr>)); State_Monad.return v }"

(* src/src/emulator/CPU/emulator_debug.h 32-36 bit_OR_A *)
definition debug_bit_OR_A :: "u8 \<Rightarrow> u8 prog" where
  "debug_bit_OR_A v = do { writes_reg REG_A; modifies (upd_regs (\<lambda>r. r\<lparr>r_A := r_A r OR v\<rparr>)); reads (\<lambda>s. r_A (regs s)) }"

(* src/src/emulator/CPU/emulator_debug.h 37-42 bit_XOR_A *)
definition debug_bit_XOR_A :: "u8 \<Rightarrow> u8 prog" where
  "debug_bit_XOR_A v = do { reads_reg REG_A; writes_reg REG_A;
     modifies (upd_regs (\<lambda>r. r\<lparr>r_A := r_A r XOR v\<rparr>)); reads (\<lambda>s. r_A (regs s)) }"

(* src/src/emulator/CPU/emulator_debug.h 43-48 bit_AND_A *)
definition debug_bit_AND_A :: "u8 \<Rightarrow> u8 prog" where
  "debug_bit_AND_A v = do { reads_reg REG_A; writes_reg REG_A;
     modifies (upd_regs (\<lambda>r. r\<lparr>r_A := r_A r AND v\<rparr>)); reads (\<lambda>s. r_A (regs s)) }"

(* src/src/emulator/CPU/emulator_debug.h 49-52 reg_A *)
definition debug_reg_A :: "u8 prog" where
  "debug_reg_A = do { reads_reg REG_A; reads (\<lambda>s. r_A (regs s)) }"

(* src/src/emulator/CPU/emulator_debug.h 53-57 set_X_register *)
definition debug_set_X_register :: "u8 \<Rightarrow> u8 prog" where
  "debug_set_X_register v = do { writes_reg REG_X; modifies (upd_regs (\<lambda>r. r\<lparr>r_X := v\<rparr>)); State_Monad.return v }"

(* src/src/emulator/CPU/emulator_debug.h 58-61 reg_X *)
definition debug_reg_X :: "u8 prog" where
  "debug_reg_X = do { reads_reg REG_X; reads (\<lambda>s. r_X (regs s)) }"

(* src/src/emulator/CPU/emulator_debug.h 62-66 set_Y_register *)
definition debug_set_Y_register :: "u8 \<Rightarrow> u8 prog" where
  "debug_set_Y_register v = do { writes_reg REG_Y; modifies (upd_regs (\<lambda>r. r\<lparr>r_Y := v\<rparr>)); State_Monad.return v }"

(* src/src/emulator/CPU/emulator_debug.h 67-70 reg_Y *)
definition debug_reg_Y :: "u8 prog" where
  "debug_reg_Y = do { reads_reg REG_Y; reads (\<lambda>s. r_Y (regs s)) }"

(* src/src/emulator/CPU/emulator_debug.h 71-75 set_status_register *)
definition debug_set_status_register :: "u8 \<Rightarrow> u8 prog" where
  "debug_set_status_register v = do { writes_reg REG_STATUS; modifies (upd_regs (\<lambda>r. r\<lparr>r_flags := v\<rparr>)); State_Monad.return v }"

(* src/src/emulator/CPU/emulator_debug.h 76-79 reg_status *)
definition debug_reg_status :: "u8 prog" where
  "debug_reg_status = do { reads_reg REG_STATUS; reads (\<lambda>s. r_flags (regs s)) }"

(* src/src/emulator/CPU/emulator_debug.h 81-85 set_SP *)
definition debug_set_SP :: "u8 \<Rightarrow> u8 prog" where
  "debug_set_SP v = do { writes_reg REG_STACK; modifies (upd_regs (\<lambda>r. r\<lparr>r_stack_pointer := v\<rparr>)); State_Monad.return v }"

(* src/src/emulator/CPU/emulator_debug.h 86-89 stack_pointer *)
definition debug_stack_pointer :: "u8 prog" where
  "debug_stack_pointer = do { reads_reg REG_STACK; reads (\<lambda>s. r_stack_pointer (regs s)) }"

subsection \<open>Bus, stack and flags\<close>

text \<open>The stack functions use the stack pointer directly, not through the accessor.\<close>

(* src/src/emulator/CPU/emulator.c 658-680 emu_read: debug build *)
definition debug_emu_read :: "u16 \<Rightarrow> u8 prog" where
  "debug_emu_read address = do {
     return_value \<leftarrow> reads (\<lambda>s. bus_byte s address);
     pc \<leftarrow> program_counter;
     do_when (address \<noteq> pc) (do {
       track (\<lambda>t. t\<lparr>reads_mem := True\<rparr>);
       modifies (upd_log (tail_log_set_read_value return_value)) });
     State_Monad.return return_value }"

(* src/src/emulator/CPU/emulator.c 682-697 emu_write: debug build *)
definition debug_emu_write :: "u16 \<Rightarrow> u8 \<Rightarrow> unit prog" where
  "debug_emu_write address v = do {
     track (\<lambda>t. t\<lparr>writes_mem := True\<rparr>);
     emu_write address v }"

(* src/src/emulator/CPU/emulator.c 699-707 push_stack: debug build *)
definition debug_push_stack :: "u8 \<Rightarrow> unit prog" where
  "debug_push_stack v = do {
     sp \<leftarrow> reads (\<lambda>s. r_stack_pointer (regs s));
     debug_emu_write (0x100 + ucast sp) v;
     modifies (upd_regs (\<lambda>r. r\<lparr>r_stack_pointer := r_stack_pointer r - 1\<rparr>));
     reads_reg REG_STACK;
     writes_reg REG_STACK }"

(* src/src/emulator/CPU/emulator.c 709-723 pull_stack: debug build *)
definition debug_pull_stack :: "u8 prog" where
  "debug_pull_stack = do {
     old_value \<leftarrow> reads (\<lambda>s. reads_mem (debug_tracker s));
     modifies (upd_regs (\<lambda>r. r\<lparr>r_stack_pointer := r_stack_pointer r + 1\<rparr>));
     sp \<leftarrow> reads (\<lambda>s. r_stack_pointer (regs s));
     result \<leftarrow> debug_emu_read (0x100 + ucast sp);
     reads_reg REG_STACK;
     writes_reg REG_STACK;
     track (\<lambda>t. t\<lparr>reads_mem := old_value\<rparr>);
     State_Monad.return result }"

(* src/src/emulator/CPU/emulator.c 745-752 read_increment_PC: debug build *)
definition debug_read_increment_PC :: "u8 prog" where
  "debug_read_increment_PC = do {
     pc \<leftarrow> program_counter;
     result \<leftarrow> debug_emu_read pc;
     modifies (upd_regs (\<lambda>r. r\<lparr>r_program_counter := r_program_counter r + 1\<rparr>));
     modifies (upd_log (tail_log_set_operand result));
     State_Monad.return result }"

(* src/src/emulator/CPU/emulator.c 774-783 set_status_flag: debug build *)
definition debug_set_status_flag :: "u8 \<Rightarrow> bool \<Rightarrow> unit prog" where
  "debug_set_status_flag flag condition = do {
     set_status_flag flag condition;
     writes_reg REG_STATUS }"

(* src/src/emulator/CPU/emulator.c 448-454 emulate_CPU: case 0x05, debug build *)
definition debug_op_ORA_zp :: "unit prog" where
  "debug_op_ORA_zp = do {
     byte \<leftarrow> debug_read_increment_PC;
     let address = (ucast byte :: u16);
     input \<leftarrow> debug_emu_read address;
     temp \<leftarrow> debug_bit_OR_A input;
     debug_emu_write address temp;
     debug_set_status_flag FLAG_ZERO (temp = 0);
     debug_set_status_flag FLAG_NEGATIVE (temp \<ge> 0x80) }"

subsection \<open>The comparison\<close>

abbreviation newline :: string where "newline \<equiv> [CHR 0x0A]"

(* src/src/emulator/CPU/emulator_debug.c 11-17 check_memory_read *)
definition check_memory_read :: "opcode_entry \<Rightarrow> mem_reg_access \<Rightarrow> terminal \<Rightarrow> terminal" where
  "check_memory_read tbl trk t =
     (if reads_mem trk \<noteq> oe_reads_mem tbl
      then print ((if oe_reads_mem tbl then ''Instruction should read from memory, but doesn't.''
                   else ''Instruction shouldn't read from memory, but does.'') @ newline) t
      else t)"

(* src/src/emulator/CPU/emulator_debug.c 19-25 check_memory_write *)
definition check_memory_write :: "opcode_entry \<Rightarrow> mem_reg_access \<Rightarrow> terminal \<Rightarrow> terminal" where
  "check_memory_write tbl trk t =
     (if writes_mem trk \<noteq> oe_writes_mem tbl
      then print ((if oe_writes_mem tbl then ''Instruction should write to memory, but doesn't.''
                   else ''Instruction shouldn't write to memory, but does.'') @ newline) t
      else t)"

(* src/src/emulator/CPU/emulator_debug.h 17-21 ACCESS_TYPE *)
datatype access_type = READ | WRITE

(* src/src/emulator/CPU/emulator_debug.c 27-56 check_register_access *)
definition check_register_access :: "access_type \<Rightarrow> u8 \<Rightarrow> u8 \<Rightarrow> terminal \<Rightarrow> terminal" where
  "check_register_access type actual table_reference t =
     (let type_string = (case type of WRITE \<Rightarrow> ''write'' | READ \<Rightarrow> ''read'');
          mismatch_bitflag = actual XOR table_reference
      in fold (\<lambda>(mask, name) t.
           if mismatch_bitflag AND mask \<noteq> 0 then
             let t = print ''Expected '' t;
                 t = (if table_reference AND mask = 0 then print ''no '' t else t);
                 t = print type_string t;
                 t = print '' to '' t;
                 t = print name t;
                 t = print '' register, but '' t;
                 t = (if actual AND mask = 0 then print ''no '' t else t);
                 t = print type_string t
             in print ('' occurred.'' @ newline) t
           else t)
         [(REG_STATUS, ''status''), (REG_STACK, ''stack''), (REG_Y, ''Y''), (REG_X, ''X''), (REG_A, ''A'')] t)"

(* src/src/emulator/CPU/emulator_debug.c 58-67 print_header *)
definition print_header :: "u8 \<Rightarrow> u16 \<Rightarrow> terminal \<Rightarrow> terminal" where
  "print_header opcode pc t =
     (let tbl = opcode_row opcode;
          t = print ''------ PC:'' t;
          t = print_hex16 pc t;
          t = print '': 0x'' t;
          t = print_hex8 opcode t;
          t = print '' '' t;
          t = print (oe_mnemonic tbl) t
      in print ('' ------'' @ newline) t)"

(* src/src/emulator/CPU/emulator_debug.c 69-83 compare_with_table *)
definition compare_with_table :: "u8 \<Rightarrow> u16 \<Rightarrow> unit prog" where
  "compare_with_table opcode pc = modifies (\<lambda>s.
     let tbl = opcode_row opcode;
         trk = debug_tracker s;
         reg_read_mismatch = reg_read_bitflag trk XOR oe_reg_read_bitflag tbl;
         reg_write_mismatch = reg_write_bitflag trk XOR oe_reg_write_bitflag tbl;
         mem_read_mismatch = (reads_mem trk \<noteq> oe_reads_mem tbl);
         mem_write_mismatch = (writes_mem trk \<noteq> oe_writes_mem tbl);
         t = m_term s;
         t = (if reg_read_mismatch \<noteq> 0 \<or> reg_write_mismatch \<noteq> 0 \<or> mem_read_mismatch \<or> mem_write_mismatch
              then print_header opcode pc t else t);
         t = check_register_access READ (reg_read_bitflag trk) (oe_reg_read_bitflag tbl) t;
         t = check_register_access WRITE (reg_write_bitflag trk) (oe_reg_write_bitflag tbl) t;
         t = check_memory_read tbl trk t;
         t = check_memory_write tbl trk t
     in s\<lparr>m_term := t\<rparr>)"

subsection \<open>The two builds agree\<close>

text \<open>Apart from the tracker: \<open>d\<close> in the debug build gives the result of \<open>r\<close>, and the same machine.\<close>

definition forget :: "machine \<Rightarrow> machine" where
  "forget s = s\<lparr>debug_tracker := \<lparr>reg_read_bitflag = 0, reg_write_bitflag = 0, reads_mem = False, writes_mem = False\<rparr>\<rparr>"

definition agrees :: "'a prog \<Rightarrow> 'a prog \<Rightarrow> bool" where
  "agrees d r \<longleftrightarrow> (\<forall>s t. forget s = forget t \<longrightarrow>
     result_of d s = result_of r t \<and> forget (state_of d s) = forget (state_of r t))"

named_theorems agree_intros \<open>programs of the two builds that agree\<close>

lemma agrees_bind [agree_intros]: "agrees d r \<Longrightarrow> (\<And>x. agrees (f x) (g x)) \<Longrightarrow> agrees (State_Monad.bind d f) (State_Monad.bind r g)"
  by (simp add: agrees_def run_simps)

lemma agrees_track: "agrees d r \<Longrightarrow> agrees (State_Monad.bind (track f) (\<lambda>_. d)) r"
  by (simp add: agrees_def run_simps track_def forget_def)

lemma agrees_tracked [agree_intros]:
  "agrees d r \<Longrightarrow> agrees (State_Monad.bind (reads_reg q) (\<lambda>_. d)) r"
  "agrees d r \<Longrightarrow> agrees (State_Monad.bind (writes_reg q) (\<lambda>_. d)) r"
  by (simp_all add: reads_reg_def writes_reg_def agrees_track)

lemma agrees_return [agree_intros]: "agrees (State_Monad.return x) (State_Monad.return x)"
  by (simp add: agrees_def run_simps)

lemma agrees_modifies: "(\<And>s. forget (f s) = f (forget s)) \<Longrightarrow> agrees (modifies f) (modifies f)"
  by (simp add: agrees_def run_simps)

lemma agrees_reads: "(\<And>s. f (forget s) = f s) \<Longrightarrow> agrees (reads f) (reads f)"
  unfolding agrees_def by (metis result_of_reads state_of_reads)

lemma forget_frame [simp]: "regs (forget s) = regs s" "bus_byte (forget s) a = bus_byte s a" "m_emu (forget s) = m_emu s"
  by (simp_all add: forget_def regs_def bus_byte_def)

lemma agrees_steps [agree_intros]:
  "agrees (modifies (upd_regs g)) (modifies (upd_regs g))" "agrees (modifies (upd_log h)) (modifies (upd_log h))"
  "agrees (reads (\<lambda>s. q (regs s))) (reads (\<lambda>s. q (regs s)))" "agrees (reads (\<lambda>s. bus_byte s a)) (reads (\<lambda>s. bus_byte s a))"
  by (rule agrees_modifies agrees_reads, simp add: forget_def upd_regs_def upd_log_def regs_def bus_byte_def)+

lemma agrees_registers [agree_intros]:
  "agrees (debug_set_A_register v) (set_A_register v)" "agrees (debug_bit_OR_A v) (bit_OR_A v)"
  "agrees (debug_bit_XOR_A v) (bit_XOR_A v)" "agrees (debug_bit_AND_A v) (bit_AND_A v)" "agrees debug_reg_A reg_A"
  "agrees (debug_set_X_register v) (set_X_register v)" "agrees debug_reg_X reg_X"
  "agrees (debug_set_Y_register v) (set_Y_register v)" "agrees debug_reg_Y reg_Y"
  "agrees (debug_set_status_register v) (set_status_register v)" "agrees debug_reg_status reg_status"
  "agrees (debug_set_SP v) (set_SP v)" "agrees debug_stack_pointer stack_pointer"
  unfolding debug_set_A_register_def set_A_register_def debug_bit_OR_A_def bit_OR_A_def debug_bit_XOR_A_def bit_XOR_A_def
    debug_bit_AND_A_def bit_AND_A_def debug_reg_A_def reg_A_def debug_set_X_register_def set_X_register_def debug_reg_X_def
    reg_X_def debug_set_Y_register_def set_Y_register_def debug_reg_Y_def reg_Y_def debug_set_status_register_def
    set_status_register_def debug_reg_status_def reg_status_def debug_set_SP_def set_SP_def debug_stack_pointer_def
    stack_pointer_def
  by (intro agree_intros)+

lemma agrees_when [agree_intros]: "agrees d r \<Longrightarrow> agrees (do_when c d) (do_when c r)"
  by (simp add: do_when_def agree_intros)

lemma agrees_pc [agree_intros]: "agrees program_counter program_counter"
  by (simp add: program_counter_def agree_intros)

lemma agrees_read [agree_intros]: "agrees (debug_emu_read a) (emu_read a)"
  unfolding debug_emu_read_def emu_read_def by (intro agree_intros agrees_track)

lemma agrees_release_write: "agrees (emu_write a v) (emu_write a v)"
proof -
  have "agrees (modifies (\<lambda>s. s\<lparr>m_emu := (m_emu s)\<lparr>e_RAM := (e_RAM (m_emu s))[unat a := v]\<rparr>\<rparr>))
      (modifies (\<lambda>s. s\<lparr>m_emu := (m_emu s)\<lparr>e_RAM := (e_RAM (m_emu s))[unat a := v]\<rparr>\<rparr>))"
    by (rule agrees_modifies) (simp add: forget_def)
  then show ?thesis by (simp add: emu_write_def agree_intros)
qed

lemma agrees_write [agree_intros]: "agrees (debug_emu_write a v) (emu_write a v)"
  unfolding debug_emu_write_def by (intro agrees_track agrees_release_write)

text \<open>A record at the end, or a look at the tracker at the start, of a program.\<close>

lemma agrees_after:
  assumes "agrees d r" and "\<And>x s. result_of (e x) s = x \<and> forget (state_of (e x) s) = forget s"
  shows "agrees (State_Monad.bind d e) r"
  using assms by (simp add: agrees_def run_simps)

lemma agrees_before: "(\<And>x. agrees (d x) r) \<Longrightarrow> agrees (State_Monad.bind (reads q) d) r"
  by (simp add: agrees_def run_simps)

lemma forget_tracked [simp]:
  "forget (state_of (track f) s) = forget s" "forget (state_of (reads_reg q) s) = forget s" "forget (state_of (writes_reg q) s) = forget s"
  by (simp_all add: track_def reads_reg_def writes_reg_def run_simps forget_def)

lemma agrees_push [agree_intros]: "agrees (debug_push_stack v) (push_stack v)"
  unfolding debug_push_stack_def push_stack_def stack_pointer_def
  by (intro agrees_bind agrees_steps agrees_write agrees_after) (simp add: run_simps)

lemma agrees_pull [agree_intros]: "agrees debug_pull_stack pull_stack"
  unfolding debug_pull_stack_def pull_stack_def stack_pointer_def
  by (rule agrees_before) (intro agrees_bind agrees_steps agrees_read agrees_after, simp add: run_simps)

lemma agrees_fetch [agree_intros]: "agrees debug_read_increment_PC read_increment_PC"
  unfolding debug_read_increment_PC_def read_increment_PC_def by (intro agree_intros)

lemma agrees_flag [agree_intros]: "agrees (debug_set_status_flag f c) (set_status_flag f c)"
  unfolding debug_set_status_flag_def set_status_flag_def by (intro agrees_after agree_intros) simp

lemma agrees_ora: "agrees debug_op_ORA_zp op_ORA_zp"
  unfolding debug_op_ORA_zp_def op_ORA_zp_def Let_def by (intro agree_intros)

subsection \<open>What the comparison prints\<close>

definition access_line :: "string \<Rightarrow> u8 \<Rightarrow> u8 \<Rightarrow> u8 \<times> string \<Rightarrow> string" where
  "access_line type actual expected r =
     (if actual AND fst r \<noteq> 0 \<and> expected AND fst r = 0 then
        ''Expected no '' @ type @ '' to '' @ snd r @ '' register, but '' @ type @ '' occurred.'' @ newline
      else if actual AND fst r = 0 \<and> expected AND fst r \<noteq> 0 then
        ''Expected '' @ type @ '' to '' @ snd r @ '' register, but no '' @ type @ '' occurred.'' @ newline
      else [])"

definition register_names :: "(u8 \<times> string) list" where
  "register_names = [(REG_STATUS, ''status''), (REG_STACK, ''stack''), (REG_Y, ''Y''), (REG_X, ''X''), (REG_A, ''A'')]"

definition expected_access :: "u8 \<Rightarrow> mem_reg_access" where
  "expected_access opcode =
     \<lparr>reg_read_bitflag = oe_reg_read_bitflag (opcode_row opcode), reg_write_bitflag = oe_reg_write_bitflag (opcode_row opcode),
      reads_mem = oe_reads_mem (opcode_row opcode), writes_mem = oe_writes_mem (opcode_row opcode)\<rparr>"

definition memory_line :: "string \<Rightarrow> bool \<Rightarrow> bool \<Rightarrow> string" where
  "memory_line what actual expected =
     (if expected \<and> \<not> actual then ''Instruction should '' @ what @ '' memory, but doesn't.'' @ newline
      else if actual \<and> \<not> expected then ''Instruction shouldn't '' @ what @ '' memory, but does.'' @ newline
      else [])"

text \<open>Nothing for an access as expected; else the header and a line for each difference.\<close>

definition tracker_report :: "u8 \<Rightarrow> u16 \<Rightarrow> mem_reg_access \<Rightarrow> string" where
  "tracker_report opcode pc trk =
     (let e = expected_access opcode
      in if trk = e then []
         else ''------ PC:'' @ hex4 pc @ '': 0x'' @ hex2 opcode @ '' '' @ oe_mnemonic (opcode_row opcode) @ '' ------'' @ newline @
           concat (map (access_line ''read'' (reg_read_bitflag trk) (reg_read_bitflag e)) register_names) @
           concat (map (access_line ''write'' (reg_write_bitflag trk) (reg_write_bitflag e)) register_names) @
           memory_line ''read from'' (reads_mem trk) (reads_mem e) @ memory_line ''write to'' (writes_mem trk) (writes_mem e))"

lemma xor_bit:
  assumes "r \<in> set register_names"
  shows "(a XOR b) AND fst r \<noteq> 0 \<longleftrightarrow> (a AND fst r \<noteq> 0) \<noteq> (b AND fst r \<noteq> 0)"
proof -
  have "\<forall>r \<in> set register_names. \<exists>n \<in> set [0, 1, 2, 3, 4]. fst r = 2 ^ n" by (simp add: register_names_def)
  then obtain n where "fst r = 2 ^ n" using assms by blast
  then show ?thesis by (simp add: and_exp_eq_0_iff_not_bit bit_xor_iff)
qed

lemma xor_zero: "a XOR b = (0 :: u8) \<longleftrightarrow> a = b"
  by (metis bit.xor_left_self xor.right_neutral xor_self_eq)

lemma print_lines: "(\<And>r t. r \<in> set rs \<Longrightarrow> f r t = print (g r) t) \<Longrightarrow> fold f rs t = print (concat (map g rs)) t"
  by (induction rs arbitrary: t) (simp_all add: print_append)

lemma check_register_access_text:
  "check_register_access type actual expected t =
     print (concat (map (access_line (case type of WRITE \<Rightarrow> ''write'' | READ \<Rightarrow> ''read'') actual expected) register_names)) t"
  unfolding check_register_access_def Let_def register_names_def [symmetric]
proof (rule print_lines, goal_cases)
  case (1 r t)
  obtain mask name where r: "r = (mask, name)" by (cases r)
  show ?case using xor_bit [OF 1, of actual expected] unfolding r by (auto simp: access_line_def print_append)
qed

lemma print_header_text:
  "print_header opcode pc t =
     print (''------ PC:'' @ hex4 pc @ '': 0x'' @ hex2 opcode @ '' '' @ oe_mnemonic (opcode_row opcode) @ '' ------'' @ newline) t"
  by (simp add: print_header_def Let_def print_hex8_text print_hex16_text print_append)

lemma check_memory_text:
  "check_memory_read tbl trk t = print (memory_line ''read from'' (reads_mem trk) (oe_reads_mem tbl)) t"
  "check_memory_write tbl trk t = print (memory_line ''write to'' (writes_mem trk) (oe_writes_mem tbl)) t"
  by (auto simp: check_memory_read_def check_memory_write_def memory_line_def)

lemma no_lines: "concat (map (access_line w a a) rs) = []"
  by (induction rs) (simp_all add: access_line_def)

lemma compare_text:
  "state_of (compare_with_table opcode pc) s = s\<lparr>m_term := print (tracker_report opcode pc (debug_tracker s)) (m_term s)\<rparr>"
proof (cases "debug_tracker s = expected_access opcode")
  case True
  then show ?thesis
    by (simp add: compare_with_table_def run_simps expected_access_def tracker_report_def check_register_access_text check_memory_text
        no_lines memory_line_def Let_def)
next
  case False
  let ?k = "debug_tracker s" and ?r = "opcode_row opcode"
  have "reg_read_bitflag ?k XOR oe_reg_read_bitflag ?r \<noteq> 0 \<or> reg_write_bitflag ?k XOR oe_reg_write_bitflag ?r \<noteq> 0 \<or>
      reads_mem ?k \<noteq> oe_reads_mem ?r \<or> writes_mem ?k \<noteq> oe_writes_mem ?r"
    using False by (cases ?k) (auto simp: expected_access_def xor_zero)
  then show ?thesis
    using False by (simp add: compare_with_table_def run_simps tracker_report_def check_register_access_text check_memory_text
        print_header_text print_append expected_access_def Let_def)
qed

lemma report_empty: "tracker_report opcode pc trk = [] \<longleftrightarrow> trk = expected_access opcode"
  by (simp add: tracker_report_def Let_def)

subsection \<open>Properties\<close>

text \<open>
  Claim C20.  The debug build computes what the release build computes: each register accessor, the bus, the
  stack, the fetch and the flags give the same result and the same machine as their counterparts, whatever
  the tracker holds; only the tracker differs.
\<close>

theorem debug_build_agrees:
  "agrees (debug_set_A_register v) (set_A_register v) \<and> agrees (debug_bit_OR_A v) (bit_OR_A v) \<and>
   agrees (debug_bit_XOR_A v) (bit_XOR_A v) \<and> agrees (debug_bit_AND_A v) (bit_AND_A v) \<and> agrees debug_reg_A reg_A \<and>
   agrees (debug_set_X_register v) (set_X_register v) \<and> agrees debug_reg_X reg_X \<and>
   agrees (debug_set_Y_register v) (set_Y_register v) \<and> agrees debug_reg_Y reg_Y \<and>
   agrees (debug_set_status_register v) (set_status_register v) \<and> agrees debug_reg_status reg_status \<and>
   agrees (debug_set_SP v) (set_SP v) \<and> agrees debug_stack_pointer stack_pointer \<and>
   agrees (debug_emu_read a) (emu_read a) \<and> agrees (debug_emu_write a v) (emu_write a v) \<and>
   agrees (debug_push_stack v) (push_stack v) \<and> agrees debug_pull_stack pull_stack \<and>
   agrees debug_read_increment_PC read_increment_PC \<and> agrees (debug_set_status_flag f c) (set_status_flag f c) \<and>
   agrees debug_op_ORA_zp op_ORA_zp"
  by (simp add: agree_intros agrees_ora)

text \<open>
  Claim C22.  What the debug build prints for an instruction: nothing if the accesses it recorded are those of
  the opcode table, else a header with the address, the opcode and the mnemonic, one line for each register
  that was read or written against the table, and one for each difference in memory accesses.
\<close>

theorem compare_with_table_prints:
  "state_of (compare_with_table opcode pc) s = s\<lparr>m_term := print (tracker_report opcode pc (debug_tracker s)) (m_term s)\<rparr> \<and>
   (tracker_report opcode pc (debug_tracker s) = [] \<longleftrightarrow> debug_tracker s = expected_access opcode)"
  by (simp add: compare_text report_empty)

lemma tracker_frame [simp]:
  "debug_tracker (upd_regs f s) = debug_tracker s" "debug_tracker (upd_log g s) = debug_tracker s"
  "debug_tracker (state_of (set_status_flag c b) s) = debug_tracker s" "debug_tracker (state_of (emu_write a v) s) = debug_tracker s"
  by (simp_all add: upd_regs_def upd_log_def set_status_flag_def emu_write_def run_simps)

lemma ora_tracker_simps:
  "debug_tracker (state_of (debug_emu_read a) s) =
     (if a = r_program_counter (regs s) then debug_tracker s else (debug_tracker s)\<lparr>reads_mem := True\<rparr>)"
  "debug_tracker (state_of (debug_emu_write a v) s) = (debug_tracker s)\<lparr>writes_mem := True\<rparr>"
  "debug_tracker (state_of (debug_bit_OR_A v) s) = (debug_tracker s)\<lparr>reg_write_bitflag := reg_write_bitflag (debug_tracker s) OR REG_A\<rparr>"
  "debug_tracker (state_of (debug_set_status_flag f c) s) =
     (debug_tracker s)\<lparr>reg_write_bitflag := reg_write_bitflag (debug_tracker s) OR REG_STATUS\<rparr>"
  "debug_tracker (state_of debug_read_increment_PC s) = debug_tracker s"
  "r_program_counter (regs (state_of debug_read_increment_PC s)) = r_program_counter (regs s) + 1"
  by (simp_all add: debug_emu_read_def debug_emu_write_def debug_bit_OR_A_def debug_set_status_flag_def debug_read_increment_PC_def
      writes_reg_def track_def run_simps program_counter_def regs_def upd_regs_def upd_log_def)

text \<open>
  Every ORA from the zero page is reported, in every state: \<open>bit_OR_A\<close> does not record that it reads the
  accumulator, so that a read is missed that did happen; and the case writes its operand back, which is
  reported rightly.
\<close>

theorem ora_zero_page_reported:
  assumes "0x100 \<le> r_program_counter (regs s) + 1"
  shows "tracker_report 0x05 pc (debug_tracker (state_of debug_op_ORA_zp (state_of reset_tracker s))) =
    ''------ PC:'' @ hex4 pc @ '': 0x05 ORA ------'' @ newline @
    ''Expected read to A register, but no read occurred.'' @ newline @
    ''Instruction shouldn't write to memory, but does.'' @ newline"
proof -
  have out: "ucast b \<noteq> r_program_counter (regs s) + 1" for b :: u8
  proof
    assume "ucast b = r_program_counter (regs s) + 1"
    then have "0x100 \<le> (ucast b :: u16)" using assms by simp
    moreover have "take_bit 16 (uint b) = uint b" using uint_bounded [of b] by (intro take_bit_int_eq_self) auto
    ultimately have "0x100 \<le> uint b" by (simp add: word_le_def unsigned_ucast_eq)
    then show False using uint_bounded [of b] by simp
  qed
  let ?s = "state_of reset_tracker s"
  have r: "regs ?s = regs s" "debug_tracker ?s = \<lparr>reg_read_bitflag = 0, reg_write_bitflag = 0, reads_mem = False, writes_mem = False\<rparr>"
    by (simp_all add: reset_tracker_def run_simps regs_def)
  have "debug_tracker (state_of debug_op_ORA_zp ?s) = \<lparr>reg_read_bitflag = 0, reg_write_bitflag = 0x11, reads_mem = True, writes_mem = True\<rparr>"
    using out by (simp add: debug_op_ORA_zp_def ora_tracker_simps run_simps r Let_def)
  moreover have "expected_access 0x05 = \<lparr>reg_read_bitflag = 0x10, reg_write_bitflag = 0x11, reads_mem = True, writes_mem = False\<rparr>"
    "oe_mnemonic (opcode_row 0x05) = ''ORA''" by code_simp+
  moreover have "hex2 0x05 = ''05''" by code_simp
  ultimately show ?thesis
    by (simp add: tracker_report_def access_line_def memory_line_def register_names_def Let_def)
qed

theorem ora_zero_page_reported_witness:
  "tracker_report 0x05 0x8000 (debug_tracker (state_of debug_op_ORA_zp (state_of reset_tracker (machine_with [0x10])))) =
    ''------ PC:8000: 0x05 ORA ------'' @ newline @
    ''Expected read to A register, but no read occurred.'' @ newline @
    ''Instruction shouldn't write to memory, but does.'' @ newline"
proof -
  have "0x100 \<le> r_program_counter (regs (machine_with [0x10])) + 1" by (simp add: machine_with_def demo_emulator_def regs_def)
  moreover have "hex4 0x8000 = ''8000''" by code_simp
  ultimately show ?thesis using ora_zero_page_reported [of "machine_with [0x10]" "0x8000"] by simp
qed


end
