(* ===== verification/Spec2Isabelle.thy ===== *)
theory Spec2Isabelle
  imports Drivers KernelRun Ppu KeyPresses Tracker
begin

text \<open>
  A verification development for the NES emulator kernel of this repository: a 32-bit x86 kernel
  (\<open>src/kernel.c\<close>, \<open>src/memory\<close>, \<open>src/fs\<close>, \<open>src/task\<close> and others) that boots into a menu, loads a ROM file and
  runs it on an emulated 6502 (\<open>src/emulator\<close>) whose execution is traced in a linked list and printed on
  the text console.

  Theories, in the order of their imports, with the code they model:

  \<^item> \<open>Prelude\<close>: C integer types, the error codes of \<open>status.h\<close>, state-monad programs and their rewrite
    rules, word lemmas.
  \<^item> \<open>Memory\<close> (\<open>memory/memory.c\<close>) and \<open>Strings\<close> (\<open>string/string.c\<close>): the byte and string routines over a
    memory that is a function from addresses to bytes.  \<open>strlen\<close> is partial: it may not end.
  \<^item> \<open>Heap\<close> (\<open>memory/heap/heap.c\<close>, \<open>kheap.c\<close>): the block table of the kernel heap and its first-fit
    search; \<open>HeapProps\<close>: its invariant \<open>heap_ok\<close>, the set \<open>live\<close> of allocated addresses, and the contract
    \<open>block_allocator\<close> that its clients use, interpreted for \<open>kmalloc\<close> and \<open>kfree\<close>.
  \<^item> \<open>OpcodeTable\<close> (\<open>emulator/CPU/opcode_table.c\<close>): the 256 rows.
  \<^item> \<open>Terminal\<close> (\<open>kernel.c\<close>, console part): video memory, cursor, print functions.
  \<^item> \<open>EmuState\<close> (\<open>emulator.h\<close>, \<open>tracelogger.h\<close> and the globals): the record \<open>machine\<close>.
  \<^item> \<open>Tracelog\<close> and \<open>TracePrint\<close> (\<open>tracelogger.c\<close>): the list of entries as a bounded queue over the
    allocator contract, and the listing as text.
  \<^item> \<open>Cpu\<close> (register accessors of \<open>emulator_debug.h\<close>; bus, stack, addressing modes and shared operations
    of \<open>emulator.c\<close>) and \<open>Switch\<close> (\<open>emulate_CPU\<close>: one definition per case, and the jump table).
  \<^item> \<open>Arch\<close>: the architectural state seen through \<open>arch_of\<close>, and the effect of each primitive on it;
    \<open>Frame\<close>: what the instructions leave alone, as locales over an observation of the machine.
  \<^item> \<open>Spec6502\<close>: a reference semantics of the processor, independent of the code; \<open>Conform\<close>: the cases
    of the switch that implement it; \<open>CpuProps\<close>: the step refinement, arithmetic, the deviating cases,
    the stack, and what a step preserves and logs.
  \<^item> \<open>EmuRun\<close>: \<open>emu_run\<close>, \<open>emu_reset\<close> and \<open>emu_init\<close>, and why a run ends.
  \<^item> \<open>EmuHeap\<close>: the heap under a run, of which the log takes at most 257 blocks.

  \<^item> \<open>Menu\<close> (\<open>kernel.c\<close> from the ROM list on, \<open>drivers/keyboard\<close>, the handlers of \<open>idt/idt.c\<close>): the start
    menu as a transition system over scancodes, \<open>kernel_menu\<close>, and \<open>kernel_start\<close>, which calls \<open>emu_init\<close>.
  \<^item> \<open>LogView\<close>: the listing as a window on the log, the scroll keys, and the entry that is selected when the log
    drops its first one.  \<open>KeyPresses\<close>: runs with keys between the instructions; the programs that do not look at
    the console and the selection, among them every case of the switch.
  \<^item> \<open>Drivers\<close> (\<open>drivers/vga\<close>, \<open>drivers/timer\<close>): the frame buffer and the tick counter.
  \<^item> \<open>Descriptors\<close> (\<open>gdt/gdt.c\<close>, \<open>idt/idt.c\<close>): segment and gate descriptors, read back as the processor does.
  \<^item> \<open>Pages\<close>: the allocator contract for clients that allocate many pages, and \<open>keeps\<close>, which says that a heap
    still has every block of an earlier one; \<open>Paging\<close>
    (\<open>memory/paging/paging.c\<close>): page directories and tables, and what the MMU finds in them.
  \<^item> \<open>Disk\<close> (\<open>disk/disk.c\<close>, \<open>disk/streamer.c\<close>): sectors of an ATA drive, which is a parameter, and the byte
    stream over them.
  \<^item> \<open>KMem\<close>: the heap together with the memory it hands out; \<open>grows\<close> and \<open>extends\<close> say that a call has kept the
    blocks of before and has written only outside them and inside the pool.
    \<open>PathParser\<close> (\<open>fs/pparser.c\<close>): paths as lists of parts on the heap.
  \<^item> \<open>Fat16\<close> (\<open>fs/fat/fat16.c\<close>): mounting, names, directories, cluster chains and open files.
    \<open>Fat16Props\<close>: the cluster of a position and the bytes of a read, against the allocation table and the
    clusters as bytes of the disk; \<open>FatNames\<close>: 8.3 names and the search in a directory; \<open>FatMount\<close>: what
    mounting builds, and the refusal of other disks.
  \<^item> \<open>File\<close> (\<open>fs/file.c\<close>, \<open>disk_search_and_init\<close>): the tables of drivers and of descriptors, and the calls.
    \<open>FatDriver\<close>: the locale \<open>file_driver\<close>, the contract of a driver, interpreted for FAT16; \<open>VfsProps\<close>: the
    calls proved from that contract.
  \<^item> \<open>FsProps\<close>: from the start of the file system to a buffer with the bytes of a file that is described on
    the disk alone, and the part of \<open>emu_reset\<close> that reads the ROM; \<open>FsClaims\<close> and \<open>VfsClaims\<close>: the
    properties of the file system, with two demonstration disks.
  \<^item> \<open>KBlocks\<close>: allocations of several blocks, which exist by counting windows of free blocks.
  \<^item> \<open>Task\<close> (\<open>task/task.c\<close>): the doubly linked list of tasks, with a page directory and registers each;
    \<open>TaskProps\<close>: its invariant \<open>task_list\<close>, the address space of a new task, and the faults of its removal.
    \<open>Process\<close> (\<open>task/process.c\<close>): the table of processes and the loading of a program from the file system;
    \<open>ProcessProps\<close>: from a file on a mounted volume to a process with an address space.
  \<^item> \<open>KernelMain\<close> (\<open>kernel.c\<close>, \<open>kernel_main\<close> up to the menu): the start of all components on one state.
  \<^item> \<open>EmuDisk\<close> (\<open>emu_init\<close> and \<open>emu_reset\<close> again): the emulator with its buffers in the kernel's heap and its ROM
    read from the disk; \<open>Ppu\<close> (\<open>emulator/PPU\<close>): \<open>ppu_init\<close>, which loads a file the same way.
  \<^item> \<open>KernelRun\<close>: the whole of \<open>kernel_main\<close>, from the cold start over the menu to the end of the run.
  \<^item> \<open>Tracker\<close> (\<open>emulator_debug.h\<close> and \<open>emulator_debug.c\<close> with \<open>DEBUG\<close> set): the build that records accesses,
    the relation \<open>agrees\<close> between it and the build of \<open>Cpu\<close>, and what its comparison prints.

  Correspondence.  A C function over globals is a state-monad program over \<open>machine\<close>, or a function
  from and to the record it works on.  \<open>uint8_t\<close>, \<open>uint16_t\<close> and \<open>uint32_t\<close> are words of that width; \<open>int\<close>
  is \<open>int\<close> where the values stay small (cycle counts, block numbers, list lengths).  The build is the
  one of the repository, \<open>DEBUG\<close> false and \<open>TRACELOGGER\<close> true, except in \<open>Tracker\<close>.  Structures on the heap are in
  stores indexed by address (tasks, processes, descriptors, streams); page tables are 32-bit entries in
  \<open>pmem\<close>, and the bytes of files, paths and names are in the memory \<open>km_mem\<close>.  Where C leaves the order of two calls with
  side effects open (\<open>ADC_op\<close>, \<open>SBC_op\<close>) the order is a parameter.  Results of type option are \<open>None\<close> where
  the C code runs out of an array (\<open>print_decimal\<close>, \<open>gethexchar\<close>) or goes on with a NULL buffer
  (\<open>emu_init\<close>).

  What the properties show.  The allocator hands out the first fit and its release undoes an
  allocation, with the two faults of its search stated exactly.  The trace log is a queue of the last
  257 entries.  An instruction of the emulator is the processor's instruction for 71 of the 96 cases;
  for the others the difference is stated.  A step keeps buffers and log well formed, and every run
  ends after fewer than 1008 cycles, by a measure on the remaining cycles and the distance of the program
  counter to the unmapped gap at 0x800; no fuel is used.  Keys pressed meanwhile do not change its result.

  The file system delivers the bytes of a file's clusters, in order, for reads that start at a cluster or
  stay in one; its faults (reads that leave a cluster, blocks that are never released, the lost last
  descriptor) are stated as they are.

  The kernel comes to its menu with every interrupt vector set, the file system mounted and an address space that
  maps every page to itself but one, so that memory is modelled by its physical addresses throughout; a program that is loaded has its first page, and only that, at 4 MiB, and no stack it can
  write; a call that loads a program changes one free entry of the table or none.

  Put together: from a cold start, with a disk that has the file of the menu's entry that the keys choose,
  \<open>kernel_main\<close> returns; the processor has run from that file's ROM.  The room that is needed on the way is stated
  in numbers of blocks: 5 for mounting, 1027 for paging, 17 for the emulator with its file, 257 for the log, of 25600;
  a buffer of eight blocks exists because fewer than an eighth of the blocks are taken (\<open>emu_room\<close>).

  Not modelled: the assembly files, among them the switch to user mode and the interrupt entries; of the
  switch of the debug build all cases but one, which differ from those of \<open>Switch\<close> in the accessors they call.
  Interrupts arrive while the menu waits and between two instructions of a run (\<open>KeyPresses\<close>), not inside an
  instruction, in the start or in a file operation.
  In \<open>EmuRun\<close> and \<open>Menu\<close> the ROM file that \<open>emu_reset\<close> reads is an argument; \<open>EmuDisk\<close> and \<open>KernelRun\<close> have
  the same functions with the calls that read it.
\<close>

end
